(* ===== verification/Prelude.thy ===== *)
theory Prelude
  imports Main "HOL-Library.Word"
begin

text \<open>
  Shared vocabulary of the development: the machine integers of the C++ sources, the
  exceptions they throw, byte buffers with checked reads, network byte order, and the two
  associative containers the sources use (\<open>std::map\<close>, ordered by key, and
  \<open>std::unordered_map\<close>) as association lists behind one interface, the locale
  \<open>assoc_store\<close>. The collection \<open>wire_simps\<close> gathers the rewrite rules for byte-level
  access; \<open>store_simps\<close> those for the containers.
\<close>

unbundle bit_operations_syntax

named_theorems wire_simps
named_theorems store_simps

section \<open>Machine integers and exceptions\<close>

type_synonym byte = "8 word"
type_synonym u16 = "16 word"
type_synonym u32 = "32 word"
type_synonym u64 = "64 word"

text \<open>
  What a C++ call can end in besides a value. The first five constructors are the standard
  exceptions the sources throw, with the constant part of the message; \<open>Undefined_behaviour\<close>
  stands for an access the language gives no meaning to (a read outside a buffer, a null
  dereference, an oversized shift), which the sources do not check themselves.
\<close>

datatype exn =
    Logic_error string
  | Invalid_argument string
  | Runtime_error string
  | Domain_error string
  | Out_of_range string
  | Undefined_behaviour string

type_synonym 'a result = "exn + 'a"

fun is_ok :: "'a result \<Rightarrow> bool" where
  "is_ok (Inr _) = True"
| "is_ok (Inl _) = False"

lemma is_ok_iff: "is_ok r \<longleftrightarrow> (\<exists>x. r = Inr x)"
  by (cases r) auto

text \<open>Sequencing of calls that may throw, and a loop over a list whose body may throw.\<close>

fun rbind :: "'a result \<Rightarrow> ('a \<Rightarrow> 'b result) \<Rightarrow> 'b result" where
  "rbind (Inl e) f = Inl e"
| "rbind (Inr x) f = f x"

fun rfold :: "('a \<Rightarrow> 's \<Rightarrow> 's result) \<Rightarrow> 'a list \<Rightarrow> 's \<Rightarrow> 's result" where
  "rfold f [] s = Inr s"
| "rfold f (x # xs) s = rbind (f x s) (rfold f xs)"

lemma rbind_Inr_iff: "rbind r f = Inr y \<longleftrightarrow> (\<exists>x. r = Inr x \<and> f x = Inr y)"
  by (cases r) auto

lemma rbind_Inl_iff: "rbind r f = Inl e \<longleftrightarrow> r = Inl e \<or> (\<exists>x. r = Inr x \<and> f x = Inl e)"
  by (cases r) auto

lemma rfold_append: "rfold f (xs @ ys) s = rbind (rfold f xs s) (rfold f ys)"
proof (induction xs arbitrary: s)
  case (Cons x xs)
  then show ?case by (cases "f x s") auto
qed simp

text \<open>
  A member function that may throw keeps the changes it made before the exception: its value is the
  outcome paired with the object's state. \<open>sbind\<close> runs a second call unless the first one threw.
\<close>

definition sbind :: "'a result \<times> 's \<Rightarrow> ('a \<Rightarrow> 's \<Rightarrow> 'b result \<times> 's) \<Rightarrow> 'b result \<times> 's" where
  "sbind r f = (case r of (Inl e, s) \<Rightarrow> (Inl e, s) | (Inr x, s) \<Rightarrow> f x s)"

lemma sbind_simps [simp]: "sbind (Inl e, s) f = (Inl e, s)" "sbind (Inr x, s) f = f x s"
  by (simp_all add: sbind_def)

section \<open>Bytes and network byte order\<close>

text \<open>A 16-bit and a 32-bit quantity from its bytes, most significant first.\<close>

definition be16 :: "byte \<Rightarrow> byte \<Rightarrow> u16" where
  "be16 a b = push_bit 8 (ucast a) OR ucast b"

definition be32 :: "byte \<Rightarrow> byte \<Rightarrow> byte \<Rightarrow> byte \<Rightarrow> u32" where
  "be32 a b c d = push_bit 24 (ucast a) OR push_bit 16 (ucast b) OR push_bit 8 (ucast c) OR ucast d"

definition be16_bytes :: "u16 \<Rightarrow> byte list" where
  "be16_bytes w = [ucast (drop_bit 8 w), ucast w]"

definition be32_bytes :: "u32 \<Rightarrow> byte list" where
  "be32_bytes w = [ucast (drop_bit 24 w), ucast (drop_bit 16 w), ucast (drop_bit 8 w), ucast w]"

lemma be16_hi [wire_simps]: "ucast (drop_bit 8 (be16 a b)) = a"
  unfolding be16_def
  by (rule bit_word_eqI) (auto simp: bit_simps dest: bit_imp_le_length)

lemma be16_lo [wire_simps]: "ucast (be16 a b) = b"
  unfolding be16_def
  by (rule bit_word_eqI) (auto simp: bit_simps dest: bit_imp_le_length)

lemma be16_of_bytes [wire_simps]: "be16 (ucast (drop_bit 8 w)) (ucast w) = w"
  unfolding be16_def
  by (rule bit_word_eqI) (auto simp: bit_simps)

lemma be32_of_bytes [wire_simps]:
  "be32 (ucast (drop_bit 24 w)) (ucast (drop_bit 16 w)) (ucast (drop_bit 8 w)) (ucast w) = w"
proof (rule bit_word_eqI)
  fix n
  assume "n < LENGTH(32)"
  then consider "n < 8" | "8 \<le> n" "n < 16" | "16 \<le> n" "n < 24" | "24 \<le> n" "n < 32"
    by force
  then show "bit (be32 (ucast (drop_bit 24 w)) (ucast (drop_bit 16 w)) (ucast (drop_bit 8 w))
      (ucast w)) n = bit w n"
    unfolding be32_def by cases (auto simp: bit_simps)
qed

lemma unat_lt2p: "unat (w :: 'a::len word) < 2 ^ LENGTH('a)"
  by (fact unsigned_less)

lemma unat_of_nat_eq: "n < 2 ^ LENGTH('a) \<Longrightarrow> unat (of_nat n :: 'a::len word) = n"
  by (simp add: unsigned_of_nat take_bit_nat_eq_self)

lemma unat_be16: "unat (be16 a b) = 256 * unat a + unat b"
proof -
  have disj: "push_bit 8 (ucast a :: u16) AND ucast b = 0"
    by (rule bit_word_eqI) (auto simp: bit_simps dest: bit_imp_le_length)
  have "be16 a b = push_bit 8 (ucast a) + ucast b"
    unfolding be16_def using disj by (rule disjunctive_add_eq_or [symmetric])
  moreover have "unat a < 256" and "unat b < 256"
    using unat_lt2p [of a] unat_lt2p [of b] by simp_all
  ultimately show ?thesis
    by (simp add: push_bit_eq_mult unat_word_ariths unsigned_ucast_eq take_bit_eq_mod mult.commute)
qed

text \<open>
  The machines the code runs on are little-endian: a 16-bit struct field read from two
  bytes of a buffer is the byte-swapped quantity, and \<open>ntohs\<close>/\<open>htons\<close> swap it back.
\<close>

definition load16 :: "byte \<Rightarrow> byte \<Rightarrow> u16" where
  "load16 a b = be16 b a"

definition ntohs :: "u16 \<Rightarrow> u16" where
  "ntohs w = be16 (ucast w) (ucast (drop_bit 8 w))"

definition load32 :: "byte \<Rightarrow> byte \<Rightarrow> byte \<Rightarrow> byte \<Rightarrow> u32" where
  "load32 a b c d = be32 d c b a"

definition ntohl :: "u32 \<Rightarrow> u32" where
  "ntohl w = be32 (ucast w) (ucast (drop_bit 8 w)) (ucast (drop_bit 16 w)) (ucast (drop_bit 24 w))"

lemma ntohs_load16 [wire_simps]: "ntohs (load16 a b) = be16 a b"
  by (simp add: ntohs_def load16_def wire_simps)

lemma ntohs_ntohs [simp]: "ntohs (ntohs w) = w"
  by (simp add: ntohs_def wire_simps)

lemma be32_byte [wire_simps]:
  "ucast (drop_bit 24 (be32 a b c d)) = a"
  "ucast (drop_bit 16 (be32 a b c d)) = b"
  "ucast (drop_bit 8 (be32 a b c d)) = c"
  "ucast (be32 a b c d) = d"
  unfolding be32_def
  by ((rule bit_word_eqI, auto simp: bit_simps dest: bit_imp_le_length)[1])+

lemma ntohl_load32 [wire_simps]: "ntohl (load32 a b c d) = be32 a b c d"
  by (simp add: ntohl_def load32_def wire_simps)

text \<open>Narrowing a word to 16 bits commutes with unsigned arithmetic.\<close>

lemma word_of_int_mod32: "(word_of_int (k mod 2 ^ 32) :: u16) = word_of_int k"
  by (simp add: word_of_int_eq_iff take_bit_eq_mod mod_mod_cancel)

lemma ucast16_add: "(ucast (a + b :: u32) :: u16) = ucast a + ucast b"
proof -
  have "uint (a + b) = (uint a + uint b) mod 2 ^ 32"
    by (simp add: uint_word_ariths)
  then show ?thesis by (simp only: ucast_eq word_of_int_mod32 of_int_add)
qed

lemma ucast16_diff: "(ucast (a - b :: u32) :: u16) = ucast a - ucast b"
proof -
  have "uint (a - b) = (uint a - uint b) mod 2 ^ 32"
    by (simp add: uint_word_ariths)
  then show ?thesis by (simp only: ucast_eq word_of_int_mod32 of_int_diff)
qed

lemma ucast16_ucast32 [simp]: "(ucast (ucast (a :: u16) :: u32) :: u16) = a"
  by (rule ucast_up_ucast_id) (simp add: is_up)

lemmas ucast16_arith = ucast16_add ucast16_diff

section \<open>Checked buffer reads\<close>

text \<open>\<open>buf[i]\<close> on a buffer of known length: out of range is undefined behaviour.\<close>

definition rd :: "byte list \<Rightarrow> nat \<Rightarrow> byte result" where
  "rd buf i = (if i < length buf then Inr (buf ! i) else Inl (Undefined_behaviour ''read past end''))"

lemma rd_ok [wire_simps]: "i < length buf \<Longrightarrow> rd buf i = Inr (buf ! i)"
  by (simp add: rd_def)

lemma rd_Inr_iff: "rd buf i = Inr x \<longleftrightarrow> i < length buf \<and> x = buf ! i"
  by (auto simp: rd_def)

text \<open>\<open>operator[]\<close> of a vector or an array, which does not check its index, and a store through it.\<close>

definition vec_at :: "'a list \<Rightarrow> nat \<Rightarrow> 'a result" where
  "vec_at xs i = (if i < length xs then Inr (xs ! i) else Inl (Undefined_behaviour ''operator[] out of range''))"

definition wr :: "byte list \<Rightarrow> nat \<Rightarrow> byte \<Rightarrow> byte list result" where
  "wr buf i b = (if i < length buf then Inr (buf[i := b]) else Inl (Undefined_behaviour ''write past end''))"

section \<open>Containers\<close>

text \<open>
  \<open>std::map<K, V>\<close>: an association list kept sorted by key, so that iterating over the list
  visits the keys in the order the C++ iterator does. \<open>omap_put\<close> is \<open>m[k] = v\<close>.
\<close>

type_synonym ('k, 'v) omap = "('k \<times> 'v) list"

fun omap_put :: "'k::linorder \<Rightarrow> 'v \<Rightarrow> ('k, 'v) omap \<Rightarrow> ('k, 'v) omap" where
  "omap_put k v [] = [(k, v)]"
| "omap_put k v ((k', v') # m) =
     (if k < k' then (k, v) # (k', v') # m
      else if k = k' then (k, v) # m
      else (k', v') # omap_put k v m)"

fun assoc_del :: "'k \<Rightarrow> ('k \<times> 'v) list \<Rightarrow> ('k \<times> 'v) list" where
  "assoc_del k [] = []"
| "assoc_del k ((k', v') # m) = (if k = k' then m else (k', v') # assoc_del k m)"

definition omap_inv :: "('k::linorder, 'v) omap \<Rightarrow> bool" where
  "omap_inv m \<longleftrightarrow> sorted_wrt (<) (map fst m)"

text \<open>
  \<open>std::unordered_map<K, V>\<close>: an association list with distinct keys. The C++ iteration order
  is unspecified; the list order (order of insertion) is one possible order.
\<close>

type_synonym ('k, 'v) umap = "('k \<times> 'v) list"

fun umap_put :: "'k \<Rightarrow> 'v \<Rightarrow> ('k, 'v) umap \<Rightarrow> ('k, 'v) umap" where
  "umap_put k v [] = [(k, v)]"
| "umap_put k v ((k', v') # m) = (if k = k' then (k, v) # m else (k', v') # umap_put k v m)"

definition umap_inv :: "('k, 'v) umap \<Rightarrow> bool" where
  "umap_inv m \<longleftrightarrow> distinct (map fst m)"

text \<open>The interface the components rely on: what a lookup returns after each update.\<close>

locale assoc_store =
  fixes put :: "'k \<Rightarrow> 'v \<Rightarrow> ('k \<times> 'v) list \<Rightarrow> ('k \<times> 'v) list"
    and del :: "'k \<Rightarrow> ('k \<times> 'v) list \<Rightarrow> ('k \<times> 'v) list"
    and inv :: "('k \<times> 'v) list \<Rightarrow> bool"
  assumes lookup_put: "map_of (put k v m) = (map_of m)(k \<mapsto> v)"
    and lookup_del: "inv m \<Longrightarrow> map_of (del k m) = (map_of m)(k := None)"
    and inv_empty: "inv []"
    and inv_put: "inv m \<Longrightarrow> inv (put k v m)"
    and inv_del: "inv m \<Longrightarrow> inv (del k m)"
    and inv_distinct: "inv m \<Longrightarrow> distinct (map fst m)"
begin

lemma put_same: "map_of (put k v m) k = Some v"
  by (simp add: lookup_put)

lemma put_other: "k' \<noteq> k \<Longrightarrow> map_of (put k v m) k' = map_of m k'"
  by (simp add: lookup_put)

lemma keys_put: "fst ` set (put k v m) = insert k (fst ` set m)"
proof -
  have "dom (map_of (put k v m)) = insert k (dom (map_of m))"
    by (simp add: lookup_put)
  then show ?thesis by (simp add: dom_map_of_conv_image_fst)
qed

lemma keys_del: "inv m \<Longrightarrow> fst ` set (del k m) = fst ` set m - {k}"
proof -
  assume "inv m"
  then have "dom (map_of (del k m)) = dom (map_of m) - {k}"
    by (auto simp: lookup_del)
  then show ?thesis by (simp add: dom_map_of_conv_image_fst)
qed

lemma set_put: "inv m \<Longrightarrow> set (put k v m) = insert (k, v) {e \<in> set m. fst e \<noteq> k}"
proof -
  assume m: "inv m"
  then have d: "distinct (map fst m)" and d': "distinct (map fst (put k v m))"
    by (simp_all add: inv_distinct inv_put)
  have "(k', v') \<in> set (put k v m) \<longleftrightarrow> (k', v') = (k, v) \<or> k' \<noteq> k \<and> (k', v') \<in> set m" for k' v'
    using map_of_eq_Some_iff [OF d', of k' v'] map_of_eq_Some_iff [OF d, of k' v']
    by (auto simp: lookup_put split: if_splits)
  then show ?thesis by (auto simp: set_eq_iff)
qed

lemma length_put_new: "inv m \<Longrightarrow> map_of m k = None \<Longrightarrow> length (put k v m) = Suc (length m)"
proof -
  assume m: "inv m" and new: "map_of m k = None"
  have "length (put k v m) = card (fst ` set (put k v m))"
    using inv_distinct [OF inv_put [OF m]] by (metis distinct_card length_map list.set_map)
  moreover have "length m = card (fst ` set m)"
    using inv_distinct [OF m] by (metis distinct_card length_map list.set_map)
  moreover have "k \<notin> fst ` set m"
    using new by (simp add: map_of_eq_None_iff)
  ultimately show ?thesis
    by (simp add: keys_put)
qed

end

lemma map_of_omap_put [simp]: "map_of (omap_put k v m) = (map_of m)(k \<mapsto> v)"
  by (induction m) auto

lemma keys_omap_put [simp]: "fst ` set (omap_put k v m) = insert k (fst ` set m)"
  using dom_map_of_conv_image_fst [of "omap_put k v m"] dom_map_of_conv_image_fst [of m] by simp

lemma omap_inv_put: "omap_inv m \<Longrightarrow> omap_inv (omap_put k v m)"
  unfolding omap_inv_def
proof (induction m)
  case (Cons e m)
  have "set (map fst (omap_put k v m)) = insert k (set (map fst m))"
    by simp
  with Cons show ?case
    by (cases e) (auto simp: neq_iff intro: less_trans)
qed simp

lemma set_assoc_del_subset: "set (assoc_del k m) \<subseteq> set m"
  by (induction m) (auto split: if_splits)

lemma keys_assoc_del_subset: "fst ` set (assoc_del k m) \<subseteq> fst ` set m"
  using set_assoc_del_subset by (rule image_mono)

lemma omap_inv_del: "omap_inv m \<Longrightarrow> omap_inv (assoc_del k m)"
  unfolding omap_inv_def
  by (induction m) (use keys_assoc_del_subset [of k] in fastforce)+

lemma map_of_assoc_del: "distinct (map fst m) \<Longrightarrow> map_of (assoc_del k m) = (map_of m)(k := None)"
  by (induction m) (auto simp: map_of_eq_None_iff fun_upd_idem fun_upd_twist)

lemma omap_inv_distinct: "omap_inv m \<Longrightarrow> distinct (map fst m)"
  by (simp add: omap_inv_def strict_sorted_iff)

lemma omap_inv_nil: "omap_inv []"
  by (simp add: omap_inv_def)

interpretation omap: assoc_store omap_put assoc_del omap_inv
  by unfold_locales
    (auto simp: map_of_assoc_del omap_inv_put omap_inv_del omap_inv_distinct intro: omap_inv_nil)

lemma map_of_umap_put [simp]: "map_of (umap_put k v m) = (map_of m)(k \<mapsto> v)"
  by (induction m) auto

lemma keys_umap_put [simp]: "fst ` set (umap_put k v m) = insert k (fst ` set m)"
  using dom_map_of_conv_image_fst [of "umap_put k v m"] dom_map_of_conv_image_fst [of m] by simp

lemma umap_inv_put: "umap_inv m \<Longrightarrow> umap_inv (umap_put k v m)"
  unfolding umap_inv_def by (induction m) auto

lemma umap_inv_del: "umap_inv m \<Longrightarrow> umap_inv (assoc_del k m)"
  unfolding umap_inv_def
  by (induction m) (use keys_assoc_del_subset [of k] in fastforce)+

lemma umap_inv_nil: "umap_inv []"
  by (simp add: umap_inv_def)

lemma umap_inv_distinct: "umap_inv m \<Longrightarrow> distinct (map fst m)"
  by (simp add: umap_inv_def)

interpretation umap: assoc_store umap_put assoc_del umap_inv
  by unfold_locales
    (auto simp: map_of_assoc_del umap_inv_put umap_inv_del umap_inv_distinct intro: umap_inv_nil)

lemmas store_laws [store_simps] =
  omap.inv_put omap.inv_del omap.inv_empty umap.inv_put umap.inv_del umap.inv_empty

lemma umap_put_new: "map_of m k = None \<Longrightarrow> umap_put k v m = m @ [(k, v)]"
  by (induction m) (auto split: if_splits)

section \<open>Generic list lemmas\<close>

lemma find_Some_iff_ex: "(\<exists>x. find P xs = Some x) \<longleftrightarrow> (\<exists>x \<in> set xs. P x)"
  by (induction xs) auto

lemma find_SomeD: "find P xs = Some x \<Longrightarrow> x \<in> set xs \<and> P x"
  by (induction xs) (auto split: if_splits)

lemma find_append: "find P (xs @ ys) = (case find P xs of None \<Rightarrow> find P ys | Some x \<Rightarrow> Some x)"
  by (induction xs) auto

end
