(* ===== verification/Cpp_Strings.thy ===== *)
theory Cpp_Strings
  imports Prelude "HOL-Library.Sublist"
begin

text \<open>
  The part of \<open>std::string\<close> the sources use (\<open>find\<close>, \<open>substr\<close>, \<open>std::stoi\<close>, \<open>std::stoul\<close>,
  \<open>std::to_string\<close>) and the string helpers of \<open>lib/util.h\<close>. A string is a \<open>char list\<close>. The two
  search loops (\<open>splitString\<close>, \<open>replaceAll\<close>) do not end when the delimiter is empty: they are
  partial functions whose value is then \<open>None\<close>, and they are shown to return for every other
  delimiter. The lemmas give the inverse of each printer and of each splitter.
\<close>

section \<open>Decimal numbers\<close>

definition code :: "char \<Rightarrow> nat" where
  "code c = of_char c"

definition is_digit :: "char \<Rightarrow> bool" where
  "is_digit c \<longleftrightarrow> 48 \<le> code c \<and> code c \<le> 57"

definition is_space :: "char \<Rightarrow> bool" where
  "is_space c \<longleftrightarrow> code c = 32 \<or> 9 \<le> code c \<and> code c \<le> 13"

definition digit :: "nat \<Rightarrow> char" where
  "digit d = char_of (48 + d)"

text \<open>\<open>std::to_string\<close> of an unsigned number.\<close>

fun dec :: "nat \<Rightarrow> string" where
  "dec n = (if n < 10 then [digit n] else dec (n div 10) @ [digit (n mod 10)])"

declare dec.simps [simp del]

definition dec_value :: "string \<Rightarrow> nat" where
  "dec_value ds = foldl (\<lambda>v c. 10 * v + (code c - 48)) 0 ds"

lemma code_digit: "d < 10 \<Longrightarrow> code (digit d) = 48 + d"
  by (simp add: code_def digit_def)

lemma is_digit_digit: "d < 10 \<Longrightarrow> is_digit (digit d)"
  by (simp add: is_digit_def code_digit)

lemma dec_digits: "c \<in> set (dec n) \<Longrightarrow> is_digit c"
  by (induction n rule: dec.induct) (subst (asm) (2) dec.simps, auto simp: is_digit_digit split: if_splits)

lemma dec_not_Nil: "dec n \<noteq> []"
  by (subst dec.simps) simp

lemma dec_value_dec: "dec_value (dec n) = n"
proof (induction n rule: dec.induct)
  case (1 n)
  then show ?case
    by (subst dec.simps) (simp add: dec_value_def code_digit)
qed

lemma dec_inj: "dec m = dec n \<longleftrightarrow> m = n"
  by (metis dec_value_dec)

lemma digit_not_space: "is_digit c \<Longrightarrow> \<not> is_space c"
  by (simp add: is_digit_def is_space_def)

text \<open>The characters the number readers give a meaning to are not digits.\<close>

lemma sign_not_digit [simp]: "\<not> is_digit (CHR ''-'')" "\<not> is_digit (CHR ''+'')" "\<not> is_digit (CHR ''.'')"
    "\<not> is_digit (CHR '':'')" "\<not> is_digit (CHR ''/'')"
  by (simp_all add: is_digit_def code_def)

section \<open>Texts given to printf\<close>

text \<open>
  What a \<open>%s\<close> conversion of \<open>util::formatString\<close> prints for \<open>x.c_str()\<close>: the characters before the first NUL.
\<close>

definition c_str :: "string \<Rightarrow> string" where
  "c_str s = takeWhile (\<lambda>c. c \<noteq> CHR 0x00) s"

lemma c_str_id [simp]: "CHR 0x00 \<notin> set s \<Longrightarrow> c_str s = s"
  unfolding c_str_def by (rule takeWhile_eq_all_conv [THEN iffD2]) auto

lemma no_nul: "list_all P s \<Longrightarrow> \<not> P (CHR 0x00) \<Longrightarrow> CHR 0x00 \<notin> set s"
  by (auto simp: list_all_iff)

section \<open>std::stoi and std::stoul\<close>

text \<open>
  \<open>strtol\<close>/\<open>strtoul\<close>, base 10: skip white space, an optional sign, the longest run of digits;
  whatever follows is ignored.
\<close>

definition strto :: "string \<Rightarrow> (bool \<times> nat) option" where
  "strto s =
     (let t = dropWhile is_space s;
          neg = (case t of c # _ \<Rightarrow> c = CHR ''-'' | [] \<Rightarrow> False);
          u = (case t of c # r \<Rightarrow> if c = CHR ''-'' \<or> c = CHR ''+'' then r else t | [] \<Rightarrow> []);
          ds = takeWhile is_digit u
      in if ds = [] then None else Some (neg, dec_value ds))"

definition stoi :: "string \<Rightarrow> int result" where
  "stoi s = (case strto s of
       None \<Rightarrow> Inl (Invalid_argument ''stoi'')
     | Some (neg, v) \<Rightarrow>
         let r = (if neg then - int v else int v)
         in if r < - (2 ^ 31) \<or> 2 ^ 31 \<le> r then Inl (Out_of_range ''stoi'') else Inr r)"

definition stoul :: "string \<Rightarrow> u64 result" where
  "stoul s = (case strto s of
       None \<Rightarrow> Inl (Invalid_argument ''stoul'')
     | Some (neg, v) \<Rightarrow>
         if 2 ^ 64 \<le> v then Inl (Out_of_range ''stoul'')
         else Inr (if neg then - of_nat v else of_nat v))"

lemma strto_dec: "(rest = [] \<or> \<not> is_digit (hd rest)) \<Longrightarrow> strto (dec n @ rest) = Some (False, n)"
proof -
  assume rest: "rest = [] \<or> \<not> is_digit (hd rest)"
  obtain c r where d: "dec n = c # r"
    using dec_not_Nil by (cases "dec n") auto
  have c: "is_digit c"
    using dec_digits [of c n] d by simp
  have "dropWhile is_space (dec n @ rest) = dec n @ rest"
    using c d by (simp add: digit_not_space)
  moreover have "takeWhile is_digit (dec n @ rest) = dec n"
    using dec_digits [of _ n] rest
    by (cases rest) auto
  moreover have "c \<noteq> CHR ''-''" "c \<noteq> CHR ''+''"
    using c by auto
  ultimately show ?thesis
    using d dec_value_dec [of n] by (simp add: strto_def Let_def)
qed

lemma stoi_dec:
  "n < 2 ^ 31 \<Longrightarrow> rest = [] \<or> \<not> is_digit (hd rest) \<Longrightarrow> stoi (dec n @ rest) = Inr (int n)"
  by (simp add: stoi_def strto_dec)

lemma stoul_dec:
  "n < 2 ^ 64 \<Longrightarrow> rest = [] \<or> \<not> is_digit (hd rest) \<Longrightarrow> stoul (dec n @ rest) = Inr (of_nat n)"
  by (simp add: stoul_def strto_dec)

section \<open>std::string::find and substr\<close>

fun find_sub :: "string \<Rightarrow> string \<Rightarrow> nat option" where
  "find_sub needle [] = (if needle = [] then Some 0 else None)"
| "find_sub needle (c # cs) =
     (if prefix needle (c # cs) then Some 0 else map_option Suc (find_sub needle cs))"

definition str_find :: "string \<Rightarrow> string \<Rightarrow> nat \<Rightarrow> nat option" where
  "str_find s needle pos =
     (if length s < pos then None else map_option ((+) pos) (find_sub needle (drop pos s)))"

definition substr :: "string \<Rightarrow> nat \<Rightarrow> nat option \<Rightarrow> string result" where
  "substr s pos cnt =
     (if length s < pos then Inl (Out_of_range ''basic_string::substr'')
      else Inr (case cnt of None \<Rightarrow> drop pos s | Some n \<Rightarrow> take n (drop pos s)))"

lemma find_sub_Some:
  "find_sub needle s = Some k \<Longrightarrow> k + length needle \<le> length s \<and> take (length needle) (drop k s) = needle"
proof (induction s arbitrary: k)
  case (Cons c cs)
  show ?case
  proof (cases "prefix needle (c # cs)")
    case True
    with Cons.prems show ?thesis using prefix_length_le [OF True] by (auto simp: prefix_def)
  next
    case False
    with Cons.prems obtain k' where "k = Suc k'" "find_sub needle cs = Some k'" by auto
    with Cons.IH show ?thesis by fastforce
  qed
qed (auto split: if_splits)

lemma find_sub_split:
  assumes "find_sub needle s = Some k"
  shows "s = take k s @ needle @ drop (k + length needle) s"
proof -
  have "take (length needle) (drop k s) = needle"
    using find_sub_Some [OF assms] by simp
  then show ?thesis
    by (metis append_take_drop_id drop_drop add.commute)
qed

lemma find_sub_None_iff: "find_sub needle s = None \<longleftrightarrow> \<not> sublist needle s"
  by (induction s) (auto simp: sublist_Cons_right)

lemma find_sub_append:
  "find_sub needle s = Some k \<Longrightarrow> find_sub needle (s @ t) = Some k"
proof (induction s arbitrary: k)
  case (Cons c cs)
  show ?case
  proof (cases "prefix needle (c # cs)")
    case True
    with Cons.prems prefix_prefix [OF True, of t] show ?thesis by simp
  next
    case False
    with Cons.prems obtain k' where k: "k = Suc k'" "find_sub needle cs = Some k'" by auto
    have "\<not> prefix needle (c # cs @ t)"
    proof
      assume p: "prefix needle (c # cs @ t)"
      have "length needle \<le> length (c # cs)"
        using find_sub_Some [OF k(2)] by simp
      with p have "prefix needle (c # cs)"
        by (metis append_Cons prefix_def prefix_length_prefix)
      with False show False by simp
    qed
    with k Cons.IH show ?thesis by simp
  qed
qed (cases t; auto split: if_splits)

text \<open>The leftmost match: nothing before it contains the needle.\<close>

lemma find_sub_leftmost:
  assumes "find_sub needle s = Some k" and "needle \<noteq> []"
  shows "\<not> sublist needle (take k s)"
proof
  assume "sublist needle (take k s)"
  then obtain j where j: "find_sub needle (take k s) = Some j"
    using find_sub_None_iff by fastforce
  then have "find_sub needle (take k s @ drop k s) = Some j"
    by (rule find_sub_append)
  then have "j = k" using assms(1) by simp
  then show False using find_sub_Some [OF j] assms(2) by simp
qed

lemma find_sub_char: "c \<notin> set s \<Longrightarrow> find_sub [c] (s @ c # t) = Some (length s)"
  by (induction s) auto

lemma find_sub_char_None: "find_sub [c] s = None \<longleftrightarrow> c \<notin> set s"
  by (induction s) auto

section \<open>util::splitString, joinStrings and replaceAll\<close>

partial_function (option) split_loop :: "string \<Rightarrow> string \<Rightarrow> nat \<Rightarrow> string list \<Rightarrow> string list option" where
  "split_loop str delim lst parts =
     (case str_find str delim lst of
        Some nxt \<Rightarrow> split_loop str delim (nxt + length delim) (parts @ [take (nxt - lst) (drop lst str)])
      | None \<Rightarrow> Some (parts @ [drop lst str]))"

definition splitString :: "string \<Rightarrow> string \<Rightarrow> string list option" where
  "splitString str delim = split_loop str delim 0 []"

fun joinStrings :: "string list \<Rightarrow> string \<Rightarrow> string" where
  "joinStrings [] join = []"
| "joinStrings [e] join = e"
| "joinStrings (e # es) join = e @ join @ joinStrings es join"

partial_function (option) replace_loop :: "string \<Rightarrow> string \<Rightarrow> string \<Rightarrow> nat \<Rightarrow> string option" where
  "replace_loop haystack needle repl start =
     (case str_find haystack needle start of
        Some p \<Rightarrow> replace_loop (take p haystack @ repl @ drop (p + length needle) haystack) needle repl
                    (p + length repl)
      | None \<Rightarrow> Some haystack)"

definition replaceAll :: "string \<Rightarrow> string \<Rightarrow> string \<Rightarrow> string option" where
  "replaceAll haystack needle repl = replace_loop haystack needle repl 0"

text \<open>The pieces between the leftmost non-overlapping occurrences of a non-empty delimiter.\<close>

function pieces :: "string \<Rightarrow> string \<Rightarrow> string list" where
  "pieces delim s =
     (case (if delim = [] then None else find_sub delim s) of
        None \<Rightarrow> [s]
      | Some k \<Rightarrow> take k s # pieces delim (drop (k + length delim) s))"
  by pat_completeness auto
termination
proof (relation "measure (\<lambda>(d, s). length s)")
  fix delim s :: string and k
  assume "(if delim = [] then None else find_sub delim s) = Some k"
  then have "find_sub delim s = Some k" and "delim \<noteq> []"
    by (auto split: if_splits)
  with find_sub_Some [OF this(1)]
  show "((delim, drop (k + length delim) s), delim, s) \<in> measure (\<lambda>(d, s). length s)"
    by (cases s; cases delim) auto
qed simp

declare pieces.simps [simp del]

lemma pieces_not_Nil [simp]: "pieces delim s \<noteq> []"
  by (subst pieces.simps) (auto split: option.splits)

lemma joinStrings_Cons: "es \<noteq> [] \<Longrightarrow> joinStrings (e # es) join = e @ join @ joinStrings es join"
  by (cases es) auto

lemma split_loop_pieces:
  assumes "delim \<noteq> []"
  shows "lst \<le> length str \<Longrightarrow> split_loop str delim lst parts = Some (parts @ pieces delim (drop lst str))"
proof (induction "length str - lst" arbitrary: lst parts rule: less_induct)
  case less
  show ?case
  proof (cases "find_sub delim (drop lst str)")
    case None
    then show ?thesis
      using less.prems assms
      by (subst split_loop.simps, subst pieces.simps) (simp add: str_find_def)
  next
    case (Some k)
    note find_sub_Some [OF Some]
    then have k: "lst + k + length delim \<le> length str"
      using less.prems assms by auto
    have "split_loop str delim (lst + k + length delim) (parts @ [take k (drop lst str)]) =
        Some ((parts @ [take k (drop lst str)]) @ pieces delim (drop (lst + k + length delim) str))"
      using k assms less.prems by (intro less.hyps) (cases delim; auto)+
    with Some less.prems assms show ?thesis
      by (subst split_loop.simps, subst pieces.simps) (simp add: str_find_def add.commute add.left_commute)
  qed
qed

lemma splitString_pieces: "delim \<noteq> [] \<Longrightarrow> splitString str delim = Some (pieces delim str)"
  by (simp add: splitString_def split_loop_pieces)

lemma join_pieces: "joinStrings (pieces delim s) delim = s"
proof (induction delim s rule: pieces.induct)
  case (1 delim s)
  show ?case
  proof (cases "if delim = [] then None else find_sub delim s")
    case None
    then show ?thesis by (subst pieces.simps) simp
  next
    case (Some k)
    then have k: "find_sub delim s = Some k" by (auto split: if_splits)
    have "joinStrings (pieces delim s) delim =
        take k s @ delim @ joinStrings (pieces delim (drop (k + length delim) s)) delim"
      using Some by (subst pieces.simps) (simp add: joinStrings_Cons)
    then show ?thesis
      using "1.IH" [OF Some] find_sub_split [OF k] by simp
  qed
qed

lemma pieces_free:
  "delim \<noteq> [] \<Longrightarrow> p \<in> set (pieces delim s) \<Longrightarrow> \<not> sublist delim p"
proof (induction delim s rule: pieces.induct)
  case (1 delim s)
  show ?case
  proof (cases "if delim = [] then None else find_sub delim s")
    case None
    with "1.prems" show ?thesis
      by (subst (asm) pieces.simps) (auto simp flip: find_sub_None_iff)
  next
    case (Some k)
    then have k: "find_sub delim s = Some k" "delim \<noteq> []" by (auto split: if_splits)
    from "1.prems"(2) Some consider "p = take k s" | "p \<in> set (pieces delim (drop (k + length delim) s))"
      by (subst (asm) pieces.simps) auto
    then show ?thesis
      using find_sub_leftmost [OF k] "1.IH" [OF Some k(2)] by cases auto
  qed
qed

lemma pieces_join:
  "ps \<noteq> [] \<Longrightarrow> \<forall>p \<in> set ps. c \<notin> set p \<Longrightarrow> pieces [c] (joinStrings ps [c]) = ps"
proof (induction ps)
  case (Cons p ps)
  show ?case
  proof (cases "ps = []")
    case True
    with Cons.prems show ?thesis
      by (subst pieces.simps) (simp add: find_sub_char_None [THEN iffD2])
  next
    case False
    then have "joinStrings (p # ps) [c] = p @ c # joinStrings ps [c]"
      by (simp add: joinStrings_Cons)
    with Cons False find_sub_char [of c p "joinStrings ps [c]"] show ?thesis
      by (subst pieces.simps) simp
  qed
qed simp

lemma replace_loop_pieces:
  assumes "needle \<noteq> []"
  shows "replace_loop (pre @ s) needle repl (length pre) = Some (pre @ joinStrings (pieces needle s) repl)"
proof (induction "length s" arbitrary: pre s rule: less_induct)
  case less
  show ?case
  proof (cases "find_sub needle s")
    case None
    then show ?thesis
      using assms by (subst replace_loop.simps, subst pieces.simps) (simp add: str_find_def)
  next
    case (Some k)
    let ?pre = "pre @ take k s @ repl" and ?s = "drop (k + length needle) s"
    have k: "k + length needle \<le> length s" "needle \<noteq> []"
      using find_sub_Some [OF Some] assms by auto
    have "replace_loop (pre @ s) needle repl (length pre) = replace_loop (?pre @ ?s) needle repl (length ?pre)"
      using Some k by (subst replace_loop.simps) (simp add: str_find_def add.assoc)
    also have "\<dots> = Some (?pre @ joinStrings (pieces needle ?s) repl)"
      using k by (intro less) (cases needle; auto)
    also have "\<dots> = Some (pre @ joinStrings (pieces needle s) repl)"
      using Some assms by (subst (2) pieces.simps) (simp add: joinStrings_Cons)
    finally show ?thesis .
  qed
qed

text \<open>
  C40: for every non-empty delimiter \<open>splitString\<close> returns, joining its parts with the delimiter gives
  the string back, and no part contains the delimiter; \<open>replaceAll\<close> returns as well and equals
  splitting at the needle and joining with the replacement, so text inserted by a replacement is
  never searched again.
\<close>

theorem splitString_replaceAll_correct:
  assumes "delim \<noteq> []"
  shows "\<exists>ps. splitString str delim = Some ps \<and> joinStrings ps delim = str \<and>
    (\<forall>p \<in> set ps. \<not> sublist delim p) \<and> replaceAll str delim repl = Some (joinStrings ps repl)"
  using assms replace_loop_pieces [OF assms, of "[]"]
  by (simp add: splitString_pieces join_pieces pieces_free replaceAll_def)

theorem splitString_replaceAll_correct_witness:
  "\<exists>ps. splitString ''a, b, c'' '', '' = Some ps \<and> joinStrings ps '', '' = ''a, b, c'' \<and>
    (\<forall>p \<in> set ps. \<not> sublist '', '' p) \<and> replaceAll ''a, b, c'' '', '' '', x, '' = Some (joinStrings ps '', x, '')"
  by (rule splitString_replaceAll_correct) simp

declare split_loop.simps [code] replace_loop.simps [code]

text \<open>With an empty delimiter neither loop makes progress.\<close>

lemma find_sub_empty: "find_sub [] s = Some 0"
  by (cases s) auto

section \<open>util::escapeJSONForHTML\<close>

definition escape_char :: "char \<Rightarrow> string" where
  "escape_char c =
     (if c = CHR ''&'' then ''&amp;''
      else if c = CHR ''<'' then ''&lt;''
      else if c = CHR ''>'' then ''&gt;''
      else if c = CHR 0x22 then ''&quot;''
      else if c = CHR 0x27 then ''&#39;''
      else [c])"

fun escapeJSONForHTML :: "string \<Rightarrow> string" where
  "escapeJSONForHTML [] = []"
| "escapeJSONForHTML (c # json) = escape_char c @ escapeJSONForHTML json"

lemma escape_char_cases:
  "c \<in> {CHR ''&'', CHR ''<'', CHR ''>'', CHR 0x22, CHR 0x27} \<or> escape_char c = [c] \<and> c \<noteq> CHR ''&''"
  by (auto simp: escape_char_def)

lemma escape_char_prefix_free:
  "escape_char c @ s = escape_char d @ t \<Longrightarrow> c = d \<and> s = t"
  using escape_char_cases [of c] escape_char_cases [of d]
  by (auto simp: escape_char_def split: if_splits)

text \<open>
  The HTML escaping of JSON text leaves no character that could open a tag or end an attribute,
  and loses nothing: two different texts never have the same escaped form.
\<close>

lemma escapeJSONForHTML_safe:
  "set (escapeJSONForHTML json) \<inter> {CHR ''<'', CHR ''>'', CHR 0x22, CHR 0x27} = {} \<and>
   (escapeJSONForHTML json = escapeJSONForHTML json' \<longleftrightarrow> json = json')"
proof
  show "set (escapeJSONForHTML json) \<inter> {CHR ''<'', CHR ''>'', CHR 0x22, CHR 0x27} = {}"
    by (induction json) (auto simp: escape_char_def split: if_splits)
  have ne: "escape_char c \<noteq> []" for c by (simp add: escape_char_def)
  show "escapeJSONForHTML json = escapeJSONForHTML json' \<longleftrightarrow> json = json'"
  proof (induction json arbitrary: json')
    case Nil
    show ?case by (cases json') (simp_all add: ne)
  next
    case (Cons c json)
    then show ?case by (cases json') (auto simp: ne dest: escape_char_prefix_free)
  qed
qed

section \<open>util::hexString\<close>

definition hex_digit :: "nat \<Rightarrow> char" where
  "hex_digit d = (if d < 10 then char_of (48 + d) else char_of (87 + d))"

text \<open>\<open>std::hex << std::setw(2) << std::setfill('0')\<close> of a byte.\<close>

definition hex2 :: "byte \<Rightarrow> string" where
  "hex2 b = [hex_digit (unat b div 16), hex_digit (unat b mod 16)]"

fun hex_loop :: "byte list \<Rightarrow> nat \<Rightarrow> nat \<Rightarrow> string" where
  "hex_loop [] i space = []"
| "hex_loop (b # buf) i space =
     (if space \<noteq> 0 \<and> 0 < i \<and> i mod space = 0 then '' '' else []) @ hex2 b @ hex_loop buf (Suc i) space"

definition hexString :: "byte list \<Rightarrow> nat \<Rightarrow> string" where
  "hexString buf space = hex_loop buf 0 space"

definition hex_value :: "char \<Rightarrow> nat" where
  "hex_value c = (if code c < 58 then code c - 48 else code c - 87)"

fun unhex :: "string \<Rightarrow> byte list" where
  "unhex (a # b # s) = of_nat (16 * hex_value a + hex_value b) # unhex s"
| "unhex _ = []"

lemma hex_value_digit: "d < 16 \<Longrightarrow> hex_value (hex_digit d) = d"
  by (simp add: hex_value_def hex_digit_def code_def)

lemma hexString_roundtrip: "unhex (hexString buf 0) = buf"
proof -
  have "unhex (hex_loop buf i 0) = buf" for i
  proof (induction buf arbitrary: i)
    case (Cons b buf)
    have "unat b < 256" using unat_lt2p [of b] by simp
    then have "hex_value (hex_digit (unat b div 16)) = unat b div 16"
      and "hex_value (hex_digit (unat b mod 16)) = unat b mod 16"
      by (auto intro!: hex_value_digit)
    then show ?case using Cons by (simp add: hex2_def)
  qed simp
  then show ?thesis by (simp add: hexString_def)
qed

section \<open>util::parseIPPort, util::parseCIDR, bufferString and sigName\<close>

text \<open>
  The two regular expressions are deterministic: every run of digits is followed by a literal
  that is not a digit, or by the end. \<open>digits_between lo hi\<close> is \<open>[0-9]{lo,hi}\<close>.
\<close>

definition digits_between :: "nat \<Rightarrow> nat option \<Rightarrow> string \<Rightarrow> (string \<times> string) option" where
  "digits_between lo hi s =
     (let ds = takeWhile is_digit s
      in if lo \<le> length ds \<and> (case hi of None \<Rightarrow> True | Some h \<Rightarrow> length ds \<le> h)
         then Some (ds, dropWhile is_digit s) else None)"

definition lit :: "char \<Rightarrow> string \<Rightarrow> string option" where
  "lit c s = (case s of d # r \<Rightarrow> if c = d then Some r else None | [] \<Rightarrow> None)"

definition match_quad :: "nat option \<Rightarrow> string \<Rightarrow> (string \<times> string) option" where
  "match_quad hi s =
     Option.bind (digits_between 1 hi s) (\<lambda>(a, s).
     Option.bind (lit (CHR ''.'') s) (\<lambda>s.
     Option.bind (digits_between 1 hi s) (\<lambda>(b, s).
     Option.bind (lit (CHR ''.'') s) (\<lambda>s.
     Option.bind (digits_between 1 hi s) (\<lambda>(c, s).
     Option.bind (lit (CHR ''.'') s) (\<lambda>s.
     Option.bind (digits_between 1 hi s) (\<lambda>(d, s).
       Some (a @ ''.'' @ b @ ''.'' @ c @ ''.'' @ d, s))))))))"

definition parseIPPort :: "string \<Rightarrow> (string \<times> u16) result" where
  "parseIPPort s =
     (case Option.bind (match_quad (Some 3) s) (\<lambda>(q, r).
           Option.bind (lit (CHR '':'') r) (\<lambda>r.
           Option.bind (digits_between 1 (Some 5) r) (\<lambda>(p, r). if r = [] then Some (q, p) else None))) of
        Some (q, p) \<Rightarrow> (case stoul p of Inl e \<Rightarrow> Inl e | Inr n \<Rightarrow> Inr (q, ucast n))
      | None \<Rightarrow> Inl (Invalid_argument ''Could not parse addr.''))"

definition parseCIDR :: "string \<Rightarrow> (string \<times> byte) result" where
  "parseCIDR s =
     (case Option.bind (match_quad None s) (\<lambda>(q, r).
           Option.bind (lit (CHR ''/'') r) (\<lambda>r.
           Option.bind (digits_between 1 (Some 2) r) (\<lambda>(p, r). if r = [] then Some (q, p) else None))) of
        Some (q, p) \<Rightarrow> (case stoi p of Inl e \<Rightarrow> Inl e | Inr n \<Rightarrow> Inr (q, of_int n))
      | None \<Rightarrow> Inl (Invalid_argument ''Could not parse cidr''))"

definition bufferString :: "string \<Rightarrow> string result" where
  "bufferString buf =
     (if buf = [] then Inl (Undefined_behaviour ''read before begin'')
      else Inr (take (length buf - (if last buf = CHR 0x0A then 1 else 0)) buf))"

definition sigName :: "int \<Rightarrow> string" where
  "sigName sig =
     (if sig = 1 then ''SIGHUP'' else if sig = 2 then ''SIGINT'' else if sig = 3 then ''SIGQUIT''
      else if sig = 8 then ''SIGFPE'' else if sig = 9 then ''SIGKILL'' else if sig = 14 then ''SIGALRM''
      else if sig = 15 then ''SIGTERM'' else ''OTHER'')"

lemma digits_between_dec:
  "rest = [] \<or> \<not> is_digit (hd rest) \<Longrightarrow> (case hi of None \<Rightarrow> True | Some h \<Rightarrow> length (dec n) \<le> h) \<Longrightarrow>
   digits_between 1 hi (dec n @ rest) = Some (dec n, rest)"
  using dec_digits [of _ n] dec_not_Nil [of n]
  by (cases rest) (auto simp: digits_between_def Suc_le_eq Let_def takeWhile_eq_all_conv [THEN iffD2])

lemma length_dec: "n < 10 ^ k \<Longrightarrow> 0 < k \<Longrightarrow> length (dec n) \<le> k"
proof (induction n arbitrary: k rule: dec.induct)
  case (1 n)
  show ?case
  proof (cases "n < 10")
    case True
    with "1.prems" show ?thesis by (simp add: dec.simps)
  next
    case False
    with "1.prems" have k: "1 < k" by (cases k; cases "k - 1") auto
    then have "n div 10 < 10 ^ (k - 1)"
      using "1.prems" by (cases k) (auto simp: less_mult_imp_div_less mult.commute)
    with False k have "length (dec (n div 10)) \<le> k - 1" by (intro "1.IH") auto
    with False k show ?thesis by (subst dec.simps) simp
  qed
qed

end
