(* ===== verification/Net.thy ===== *)
theory Net
  imports Cpp_Strings
begin

text \<open>
  \<open>lib/net/net.h\<close>: the Ethernet, IPv4 and UDP header structs, the classes \<open>IPv4\<close>, \<open>IPv4Port\<close> and
  \<open>IPv4Prefix\<close>, and the hash of an address/port pair. An \<open>IPv4\<close> object is its 32-bit number. The
  lemmas show that parsing inverts printing, that the subnet test compares exactly the leading
  bits, and that the hash used as a key of the hash tables has no collisions.
\<close>

section \<open>Header structs\<close>

record eth_addr =
  eth_bytes :: "byte list"

record eth_hdr =
  dst_addr :: eth_addr
  src_addr :: eth_addr
  ether_type :: u16

definition eth_ADDR_LEN :: nat where
  "eth_ADDR_LEN = 6"

definition eth_addr_default :: eth_addr where
  "eth_addr_default = \<lparr> eth_bytes = replicate eth_ADDR_LEN 0 \<rparr>"

definition eth_hdr_init_default :: "eth_hdr \<Rightarrow> eth_hdr" where
  "eth_hdr_init_default h = h\<lparr> dst_addr := eth_addr_default, src_addr := eth_addr_default, ether_type := 0 \<rparr>"

definition eth_addr_to_str :: "eth_addr \<Rightarrow> string" where
  "eth_addr_to_str a = joinStrings (map hex2 (eth_bytes a)) '':''"

record ipv4_hdr =
  version_ihl :: byte
  type_of_service :: byte
  total_length :: u16
  ip_id :: u16
  fragment_offset :: u16
  time_to_live :: byte
  next_proto_id :: byte
  hdr_checksum :: u16
  ip_src_addr :: u32
  ip_dst_addr :: u32

definition ihl_bytes :: "ipv4_hdr \<Rightarrow> nat" where
  "ihl_bytes h = unat (version_ihl h AND 0x0f) * 4"

definition ipv4_hdr_init_default :: "ipv4_hdr \<Rightarrow> ipv4_hdr" where
  "ipv4_hdr_init_default h =
     h\<lparr> version_ihl := 0x45, type_of_service := 0, total_length := 0, ip_id := 0,
       fragment_offset := 0, time_to_live := 64, next_proto_id := 0, hdr_checksum := 0,
       ip_src_addr := 0, ip_dst_addr := 0 \<rparr>"

record udp_hdr =
  udp_src_port :: u16
  udp_dst_port :: u16
  dgram_len :: u16
  dgram_cksum :: u16

lemma default_ihl: "ihl_bytes (ipv4_hdr_init_default h) = 20"
  by (simp add: ihl_bytes_def ipv4_hdr_init_default_def)

text \<open>The colon-separated hexadecimal form of an Ethernet address determines the address.\<close>

lemma hex2_inj: "hex2 a = hex2 b \<longleftrightarrow> a = b"
proof
  assume "hex2 a = hex2 b"
  then have "unhex (hexString [a] 0) = unhex (hexString [b] 0)"
    by (simp add: hexString_def)
  then show "a = b" by (simp add: hexString_roundtrip)
qed simp

lemma hex_digit_no_colon: "d < 16 \<Longrightarrow> hex_digit d \<noteq> CHR '':''"
proof
  assume d: "d < 16" and "hex_digit d = CHR '':''"
  then have "code (hex_digit d) = code (CHR '':'')" by simp
  with d show False by (auto simp: hex_digit_def code_def split: if_splits)
qed

lemma hex2_no_colon: "CHR '':'' \<notin> set (hex2 b)"
proof -
  have "unat b < 256" using unat_lt2p [of b] by simp
  then have "unat b div 16 < 16" "unat b mod 16 < 16" by auto
  then show ?thesis
    using hex_digit_no_colon [of "unat b div 16"] hex_digit_no_colon [of "unat b mod 16"]
    by (auto simp: hex2_def)
qed

lemma eth_addr_to_str_inj:
  assumes "eth_bytes a \<noteq> []" and "eth_bytes b \<noteq> []" and "eth_addr_to_str a = eth_addr_to_str b"
  shows "eth_bytes a = eth_bytes b"
proof -
  have "map hex2 (eth_bytes x) = pieces '':'' (eth_addr_to_str x)" if "eth_bytes x \<noteq> []" for x
    unfolding eth_addr_to_str_def using that hex2_no_colon
    by (intro pieces_join [symmetric]) auto
  with assms have "map hex2 (eth_bytes a) = map hex2 (eth_bytes b)"
    by metis
  moreover have "inj hex2"
    by (simp add: inj_on_def hex2_inj)
  ultimately show ?thesis
    by (simp only: inj_map_eq_map)
qed

section \<open>IPv4 addresses\<close>

type_synonym IPv4 = u32

text \<open>One round of the constructor's loop, and the four rounds.\<close>

fun ipv4_loop :: "string \<Rightarrow> nat \<Rightarrow> nat \<Rightarrow> nat \<Rightarrow> u32 \<Rightarrow> u32 result" where
  "ipv4_loop s i pos 0 addr = Inr addr"
| "ipv4_loop s i pos (Suc n) addr =
     (let next_dot = str_find s ''.'' pos in
      if next_dot = None \<and> i < 3 then Inl (Invalid_argument ''net::IPv4: invalid address'')
      else if next_dot \<noteq> None \<and> i = 3 then Inl (Invalid_argument ''net::IPv4: invalid address'')
      else
        case (case substr s pos (map_option (\<lambda>d. d - pos) next_dot) of Inl e \<Rightarrow> Inl e | Inr t \<Rightarrow> stoi t) of
          Inl _ \<Rightarrow> Inl (Invalid_argument ''net::IPv4: invalid address'')
        | Inr r \<Rightarrow>
            if 0 \<le> r \<and> r \<le> 255
            then ipv4_loop s (Suc i) (case next_dot of Some d \<Rightarrow> d + 1 | None \<Rightarrow> 0) n
                   (addr OR push_bit (8 * (3 - i)) (ucast (of_int r :: byte)))
            else Inl (Invalid_argument ''net::IPv4: invalid address''))"

definition IPv4_of_string :: "string \<Rightarrow> IPv4 result" where
  "IPv4_of_string s = ipv4_loop s 0 0 4 0"

definition IPv4_str :: "IPv4 \<Rightarrow> string" where
  "IPv4_str a =
     dec (unat (drop_bit 24 a AND 0xff)) @ ''.'' @ dec (unat (drop_bit 16 a AND 0xff)) @ ''.'' @
     dec (unat (drop_bit 8 a AND 0xff)) @ ''.'' @ dec (unat (drop_bit 0 a AND 0xff))"

definition isInSubnet :: "IPv4 \<Rightarrow> IPv4 \<Rightarrow> byte \<Rightarrow> bool result" where
  "isInSubnet a subnet prefixLength =
     (if 32 < prefixLength then Inl (Undefined_behaviour ''negative shift'')
      else
        let mask = (if prefixLength = 0 then 0 else push_bit (32 - unat prefixLength) (NOT 0))
        in Inr ((a AND mask) = (subnet AND mask)))"

lemma dec_no_dot: "CHR ''.'' \<notin> set (dec n)"
  using dec_digits [of "CHR ''.''" n] by auto

lemma str_find_dot: "str_find (pre @ dec n @ ''.'' @ rest) ''.'' (length pre) = Some (length pre + length (dec n))"
  using find_sub_char [OF dec_no_dot, of n rest] by (simp add: str_find_def)

lemma str_find_dot_last: "str_find (pre @ dec n) ''.'' (length pre) = None"
  using find_sub_char_None [of "CHR ''.''" "dec n"] dec_no_dot [of n] by (simp add: str_find_def)

lemma ucast_octet: "n \<le> 255 \<Longrightarrow> ucast (of_nat n :: byte) = (of_nat n :: u32)"
  using unat_of_nat_eq [of n, where 'a = 8] of_nat_unat [of "of_nat n :: byte", where 'a = u32] by simp

lemma ipv4_loop_dot:
  assumes "i < 3" and "n \<le> 255"
  shows "ipv4_loop (pre @ dec n @ ''.'' @ rest) i (length pre) (Suc k) addr =
    ipv4_loop ((pre @ dec n @ ''.'') @ rest) (Suc i) (length (pre @ dec n @ ''.'')) k
      (addr OR push_bit (8 * (3 - i)) (of_nat n))"
  using assms str_find_dot [of pre n rest] stoi_dec [of n "[]"] ucast_octet [of n]
  by (simp add: substr_def)

lemma ipv4_loop_last:
  assumes "n \<le> 255"
  shows "ipv4_loop (pre @ dec n) 3 (length pre) (Suc 0) addr = Inr (addr OR of_nat n)"
  using assms str_find_dot_last [of pre n] stoi_dec [of n "[]"] ucast_octet [of n]
  by (simp add: substr_def)

lemma ipv4_parse_quad:
  assumes "a \<le> 255" "b \<le> 255" "c \<le> 255" "d \<le> 255"
  shows "IPv4_of_string (dec a @ ''.'' @ dec b @ ''.'' @ dec c @ ''.'' @ dec d) =
    Inr (push_bit 24 (of_nat a) OR push_bit 16 (of_nat b) OR push_bit 8 (of_nat c) OR of_nat d)"
proof -
  let ?s1 = "dec a @ ''.''" and ?s2 = "dec a @ ''.'' @ dec b @ ''.''"
    and ?s3 = "dec a @ ''.'' @ dec b @ ''.'' @ dec c @ ''.''"
  show ?thesis
    using assms ipv4_loop_dot [of 0 a "[]" "dec b @ ''.'' @ dec c @ ''.'' @ dec d" 3 0]
      ipv4_loop_dot [of 1 b ?s1 "dec c @ ''.'' @ dec d" 2] ipv4_loop_dot [of 2 c ?s2 "dec d" 1]
      ipv4_loop_last [of d ?s3]
    by (simp add: IPv4_of_string_def eval_nat_numeral or.assoc)
qed

lemma octets:
  fixes a :: u32
  shows "unat (w AND 0xff :: u32) \<le> 255"
    and "push_bit 24 (drop_bit 24 a AND 0xff) OR push_bit 16 (drop_bit 16 a AND 0xff) OR
      push_bit 8 (drop_bit 8 a AND 0xff) OR (a AND 0xff) = a"
proof -
  have ff: "w AND 0xff = take_bit 8 w" for w :: u32
    by (simp add: take_bit_eq_mask mask_eq_exp_minus_1)
  have "unat (take_bit 8 w) = unat w mod 256"
    by (simp add: take_bit_eq_mod unat_mod)
  then have "unat (take_bit 8 w) < 256" by simp
  then show "unat (w AND 0xff) \<le> 255" by (simp add: ff)
  show "push_bit 24 (drop_bit 24 a AND 0xff) OR push_bit 16 (drop_bit 16 a AND 0xff) OR
      push_bit 8 (drop_bit 8 a AND 0xff) OR (a AND 0xff) = a"
    unfolding ff
  proof (rule bit_word_eqI)
    fix n assume "n < LENGTH(32)"
    then consider "n < 8" | "8 \<le> n" "n < 16" | "16 \<le> n" "n < 24" | "24 \<le> n" "n < 32"
      by force
    then show "bit (push_bit 24 (take_bit 8 (drop_bit 24 a)) OR push_bit 16 (take_bit 8 (drop_bit 16 a)) OR
        push_bit 8 (take_bit 8 (drop_bit 8 a)) OR take_bit 8 a) n = bit a n"
      by cases (auto simp: bit_simps)
  qed
qed

lemma IPv4_of_str: "IPv4_of_string (IPv4_str a) = Inr a"
  using ipv4_parse_quad [OF octets(1) octets(1) octets(1) octets(1),
      of "drop_bit 24 a" "drop_bit 16 a" "drop_bit 8 a" "drop_bit 0 a"] octets(2) [of a]
  by (simp add: IPv4_str_def)

text \<open>
  constructing an address from its own dotted-quad text gives the address back, for every one of
  the 2^32 addresses; in particular the printed forms of different addresses differ.
\<close>

lemma ipv4_roundtrip: "IPv4_of_string (IPv4_str a) = Inr a"
  by (fact IPv4_of_str)

text \<open>
  For a prefix length of at most 32 the subnet test never fails, and holds exactly when the two
  addresses agree on their first \<open>prefixLength\<close> bits; longer prefixes make the C++ shift amount
  negative.
\<close>

lemma isInSubnet_leading_bits:
  "(p \<le> 32 \<longrightarrow> isInSubnet a subnet p = Inr (drop_bit (32 - unat p) a = drop_bit (32 - unat p) subnet)) \<and>
   (32 < p \<longrightarrow> \<not> is_ok (isInSubnet a subnet p))"
proof (intro conjI impI)
  assume p: "p \<le> 32"
  let ?k = "32 - unat p"
  have mask: "(a AND push_bit ?k (NOT 0) = subnet AND push_bit ?k (NOT 0)) \<longleftrightarrow> drop_bit ?k a = drop_bit ?k subnet"
  proof
    assume eq: "a AND push_bit ?k (NOT 0) = subnet AND push_bit ?k (NOT 0)"
    show "drop_bit ?k a = drop_bit ?k subnet"
    proof (rule bit_word_eqI)
      fix n assume "n < LENGTH(32)"
      have "bit (a AND push_bit ?k (NOT 0)) (?k + n) = bit (subnet AND push_bit ?k (NOT 0)) (?k + n)"
        using eq by simp
      then show "bit (drop_bit ?k a) n = bit (drop_bit ?k subnet) n"
        by (auto simp: bit_simps dest: bit_imp_le_length)
    qed
  next
    assume eq: "drop_bit ?k a = drop_bit ?k subnet"
    show "a AND push_bit ?k (NOT 0) = subnet AND push_bit ?k (NOT 0)"
    proof (rule bit_word_eqI)
      fix n assume "n < LENGTH(32)"
      have "bit (drop_bit ?k a) (n - ?k) = bit (drop_bit ?k subnet) (n - ?k)"
        using eq by simp
      then show "bit (a AND push_bit ?k (NOT 0)) n = bit (subnet AND push_bit ?k (NOT 0)) n"
        by (auto simp: bit_simps)
    qed
  qed
  have zero: "p = 0 \<Longrightarrow> drop_bit ?k w = (0 :: u32)" for w
    by (rule bit_word_eqI) (auto simp: bit_simps dest: bit_imp_le_length)
  show "isInSubnet a subnet p = Inr (drop_bit ?k a = drop_bit ?k subnet)"
    using p mask zero by (auto simp: isInSubnet_def Let_def not_le simp flip: not_less)
next
  assume "32 < p"
  then show "\<not> is_ok (isInSubnet a subnet p)" by (simp add: isInSubnet_def)
qed

section \<open>Address/port pairs and prefixes\<close>

datatype IPv4Port = IPv4Port (ip: IPv4) (port: u16)

definition IPv4Port_default :: IPv4Port where
  "IPv4Port_default = IPv4Port 0 0"

definition IPv4Port_of_string :: "string \<Rightarrow> u16 \<Rightarrow> IPv4Port result" where
  "IPv4Port_of_string s p = (case IPv4_of_string s of Inl e \<Rightarrow> Inl e | Inr a \<Rightarrow> Inr (IPv4Port a p))"

definition IPv4Port_eq :: "IPv4Port \<Rightarrow> IPv4Port \<Rightarrow> bool" where
  "IPv4Port_eq a b \<longleftrightarrow> ip a = ip b \<and> port a = port b"

definition IPv4Port_str :: "IPv4Port \<Rightarrow> string" where
  "IPv4Port_str a = IPv4_str (ip a) @ '':'' @ dec (unat (port a))"

datatype IPv4Prefix = IPv4Prefix (prefix_ip: IPv4) (prefix_len: byte)

definition IPv4Prefix_of_string :: "string \<Rightarrow> byte \<Rightarrow> IPv4Prefix result" where
  "IPv4Prefix_of_string s p = (case IPv4_of_string s of Inl e \<Rightarrow> Inl e | Inr a \<Rightarrow> Inr (IPv4Prefix a p))"

text \<open>
  \<open>operator<<\<close> of a prefix streams \<open>_prefix\<close>, a \<open>std::uint8_t\<close>, which the stream prints as the
  character with that code and not as a number.
\<close>

definition IPv4Prefix_str :: "IPv4Prefix \<Rightarrow> string" where
  "IPv4Prefix_str a = IPv4_str (prefix_ip a) @ ''/'' @ [char_of (unat (prefix_len a))]"

definition hash_IPv4Port :: "IPv4Port \<Rightarrow> u64" where
  "hash_IPv4Port d = push_bit 16 (ucast (ip d)) OR push_bit 0 (ucast (port d))"

lemma IPv4Port_eq_iff: "IPv4Port_eq a b \<longleftrightarrow> a = b"
  by (cases a; cases b) (simp add: IPv4Port_eq_def)

text \<open>
  The hash of an address/port pair, the key function of every hash table over addresses, is
  injective: two pairs hash to the same value exactly when \<open>operator==\<close> holds.
\<close>

lemma hash_IPv4Port_injective: "hash_IPv4Port a = hash_IPv4Port b \<longleftrightarrow> IPv4Port_eq a b"
proof
  assume eq: "hash_IPv4Port a = hash_IPv4Port b"
  have lo: "(ucast (hash_IPv4Port d) :: u16) = port d" for d
    unfolding hash_IPv4Port_def by (rule bit_word_eqI) (auto simp: bit_simps)
  have hi: "(ucast (drop_bit 16 (hash_IPv4Port d)) :: u32) = ip d" for d
    unfolding hash_IPv4Port_def
    by (rule bit_word_eqI) (auto simp: bit_simps dest: bit_imp_le_length)
  have "port a = port b" "ip a = ip b"
    using lo [of a] lo [of b] hi [of a] hi [of b] eq by simp_all
  then show "IPv4Port_eq a b" by (simp add: IPv4Port_eq_def)
qed (simp add: IPv4Port_eq_iff)

text \<open>
  The textual form of an address/port pair is read back by \<open>util::parseIPPort\<close> followed by the
  \<open>IPv4\<close> constructor, the way the command line tools do it.
\<close>

definition parse_address_port :: "string \<Rightarrow> IPv4Port result" where
  "parse_address_port s =
     (case parseIPPort s of Inl e \<Rightarrow> Inl e | Inr (a, p) \<Rightarrow> IPv4Port_of_string a p)"

lemma match_quad_dec:
  assumes "a \<le> 255" "b \<le> 255" "c \<le> 255" "d \<le> 255" and rest: "rest = [] \<or> \<not> is_digit (hd rest)"
  shows "match_quad (Some 3) (dec a @ ''.'' @ dec b @ ''.'' @ dec c @ ''.'' @ dec d @ rest) =
    Some (dec a @ ''.'' @ dec b @ ''.'' @ dec c @ ''.'' @ dec d, rest)"
proof -
  have l: "length (dec n) \<le> 3" if "n \<le> 255" for n
    using length_dec [of n 3] that by simp
  have m: "digits_between (Suc 0) (Some 3) (dec n @ r) = Some (dec n, r)"
    if "n \<le> 255" "r = [] \<or> \<not> is_digit (hd r)" for n r
    using that l digits_between_dec [where hi = "Some 3"] by simp
  show ?thesis
    using assms by (simp add: match_quad_def m lit_def)
qed

lemma parse_address_port_print:
  "parse_address_port (IPv4Port_str a) = Inr a"
proof -
  let ?p = "unat (port a)"
  have p: "?p < 65536" using unat_lt2p [of "port a"] by simp
  then have d: "digits_between (Suc 0) (Some 5) (dec ?p) = Some (dec ?p, [])"
    using digits_between_dec [where hi = "Some 5" and rest = "[]"] length_dec [of ?p 5] by simp
  have s: "stoul (dec ?p) = Inr (of_nat ?p)"
    using stoul_dec [of ?p "[]"] p by simp
  have "parseIPPort (IPv4Port_str a) = Inr (IPv4_str (ip a), port a)"
    unfolding parseIPPort_def IPv4Port_str_def IPv4_str_def
    using match_quad_dec [OF octets(1) octets(1) octets(1) octets(1), of "'':'' @ dec ?p"
        "drop_bit 24 (ip a)" "drop_bit 16 (ip a)" "drop_bit 8 (ip a)" "drop_bit 0 (ip a)"]
    by (simp add: lit_def d s ucast_up_ucast_id is_up)
  then show ?thesis
    by (simp add: parse_address_port_def IPv4Port_of_string_def IPv4_of_str)
qed

end
