(* ===== verification/Bit_Extraction.thy ===== *)
theory Bit_Extraction
  imports Prelude
begin

text \<open>
  Bit-level readers: \<open>util::extractBits\<close> and \<open>util::extractNonSymmetric\<close> of \<open>lib/util.h\<close>, the class
  \<open>Bitstream\<close> of \<open>lib/bitstream.{h,cc}\<close>, the byte-to-bit expansion of \<open>lib/av1.cc\<close> and
  \<open>util::crc32\<close>. A bit vector is a \<open>bool list\<close>, most significant bit of the first byte first.
  The lemmas relate the loops to the value of a bit string and give the inverse of each
  reader; \<open>Bitstream::extract\<close> and \<open>util::extractBits\<close> are shown to agree.
\<close>

section \<open>The value of a bit string\<close>

definition bits_value :: "bool list \<Rightarrow> nat" where
  "bits_value bs = foldl (\<lambda>v b. 2 * v + of_bool b) 0 bs"

definition to_bits :: "nat \<Rightarrow> nat \<Rightarrow> bool list" where
  "to_bits w v = rev (map (bit v) [0..<w])"

lemma bits_value_snoc [simp]: "bits_value (bs @ [b]) = 2 * bits_value bs + of_bool b"
  by (simp add: bits_value_def)

lemma bits_value_Nil [simp]: "bits_value [] = 0"
  by (simp add: bits_value_def)

lemma bits_value_horner: "bits_value bs = horner_sum of_bool 2 (rev bs)"
  by (induction bs rule: rev_induct) simp_all

lemma bit_bits_value: "bit (bits_value bs) k \<longleftrightarrow> k < length bs \<and> bs ! (length bs - 1 - k)"
  by (auto simp: bits_value_horner bit_horner_sum_bit_iff rev_nth)

lemma bits_value_less: "bits_value bs < 2 ^ length bs"
  by (induction bs rule: rev_induct) (auto simp: of_bool_def)

lemma length_to_bits [simp]: "length (to_bits w v) = w"
  by (simp add: to_bits_def)

lemma bits_value_to_bits: "bits_value (to_bits w v) = take_bit w v"
  by (simp add: bits_value_horner to_bits_def horner_sum_bit_eq_take_bit)

lemma to_bits_Suc: "to_bits (Suc w) v = to_bits w (v div 2) @ [odd v]"
proof -
  have "[0..<Suc w] = 0 # map Suc [0..<w]"
    by (simp only: map_Suc_upt) (simp add: upt_conv_Cons del: upt_Suc)
  then show ?thesis
    by (simp add: to_bits_def comp_def bit_Suc bit_0 del: upt_Suc)
qed

section \<open>util::extractBits\<close>

function extract_loop :: "bool list \<Rightarrow> u32 \<Rightarrow> u32 \<Rightarrow> u32 \<Rightarrow> u32 \<Rightarrow> u32" where
  "extract_loop bits i j e a =
     (if i < e
      then extract_loop bits (i + 1) (j - 1) e (a OR push_bit (unat j) (of_bool (bits ! unat i)))
      else a)"
  by pat_completeness auto
termination
proof (relation "measure (\<lambda>(bits, i, j, e, a). unat e - unat i)")
  fix bits :: "bool list" and i j e a :: u32
  assume "i < e"
  then have "unat (i + 1) = unat i + 1" and "unat i < unat e"
    by (unat_arith, simp add: word_less_nat_alt)
  then show "((bits, i + 1, j - 1, e, a OR push_bit (unat j) (of_bool (bits ! unat i))),
      bits, i, j, e, a) \<in> measure (\<lambda>(bits, i, j, e, a). unat e - unat i)"
    by simp
qed simp

declare extract_loop.simps [simp del]

definition extractBits :: "bool list \<Rightarrow> u32 \<Rightarrow> u32 \<Rightarrow> u32 result" where
  "extractBits bits frm len =
     (if length bits < unat (frm + len)
      then Inl (Invalid_argument ''util:extractBits: requested range outside of bit vector'')
      else if 32 < len \<or> len < 1
      then Inl (Invalid_argument ''util:extractBits: len must be > 0 and <= 32'')
      else Inr (extract_loop bits frm (len - 1) (frm + len) 0))"

lemma extract_loop_bit:
  assumes "unat e = unat i + n" and "n \<le> 32" and "0 < n \<Longrightarrow> unat j = n - 1" and "k < 32"
  shows "bit (extract_loop bits i j e a) k \<longleftrightarrow> bit a k \<or> k < n \<and> bits ! (unat e - 1 - k)"
  using assms
proof (induction n arbitrary: i j a)
  case 0
  then show ?case by (subst extract_loop.simps) (simp add: word_less_nat_alt)
next
  case (Suc n)
  have less: "i < e" using Suc.prems(1) by (simp add: word_less_nat_alt)
  then have i1: "unat (i + 1) = unat i + 1"
    by unat_arith
  have j1: "0 < n \<Longrightarrow> unat (j - 1) = n - 1"
    using Suc.prems(3) by unat_arith
  let ?a = "a OR push_bit (unat j) (of_bool (bits ! unat i))"
  have "bit (extract_loop bits (i + 1) (j - 1) e ?a) k \<longleftrightarrow>
      bit ?a k \<or> k < n \<and> bits ! (unat e - 1 - k)"
    by (rule Suc.IH) (use Suc.prems i1 j1 in auto)
  moreover have "bit ?a k \<longleftrightarrow> bit a k \<or> (k = n \<and> bits ! unat i)"
    using Suc.prems by (auto simp: bit_simps bit_0 of_bool_def split: if_splits)
  ultimately show ?case
    using less Suc.prems(1) by (subst extract_loop.simps) (auto simp: less_Suc_eq)
qed

lemma extract_loop_value:
  assumes "unat e = unat i + n" and "0 < n" and "n \<le> 32" and "unat j = n - 1"
    and "unat e \<le> length bits"
  shows "extract_loop bits i j e 0 = of_nat (bits_value (take n (drop (unat i) bits)))"
proof (rule bit_word_eqI)
  fix k assume "k < LENGTH(32)"
  then have k: "k < 32" by simp
  have "bit (extract_loop bits i j e 0) k \<longleftrightarrow> k < n \<and> bits ! (unat e - 1 - k)"
    using extract_loop_bit [OF assms(1,3) _ k] assms(4) by simp
  also have "\<dots> \<longleftrightarrow> bit (bits_value (take n (drop (unat i) bits))) k"
    using assms by (auto simp: bit_bits_value)
  finally show "bit (extract_loop bits i j e 0) k \<longleftrightarrow>
      bit (of_nat (bits_value (take n (drop (unat i) bits))) :: u32) k"
    using k by (simp add: bit_simps)
qed

lemma extractBits_value:
  assumes "1 \<le> len" and "len \<le> 32" and "f + len \<le> length bits" and "f + len < 2 ^ 32"
  shows "extractBits bits (of_nat f) (of_nat len) =
    Inr (of_nat (bits_value (take len (drop f bits))))"
proof -
  have u: "unat (of_nat f :: u32) = f" "unat (of_nat len :: u32) = len"
      "unat (of_nat f + of_nat len :: u32) = f + len"
    using assms by (simp_all add: unat_of_nat_eq flip: of_nat_add)
  moreover have "unat (of_nat len - 1 :: u32) = len - 1"
    using u(2) assms(1) by unat_arith
  ultimately have "extract_loop bits (of_nat f) (of_nat len - 1) (of_nat f + of_nat len) 0 =
      of_nat (bits_value (take len (drop (unat (of_nat f :: u32)) bits)))"
    using assms by (intro extract_loop_value) auto
  then show ?thesis
    using u assms by (simp add: extractBits_def word_less_nat_alt)
qed

lemma unat_bits_value: "length bs \<le> 32 \<Longrightarrow> unat (of_nat (bits_value bs) :: u32) = bits_value bs"
  by (rule unat_of_nat_eq) (use bits_value_less [of bs] power_increasing [of "length bs" 32 "2::nat"] in auto)

section \<open>util::extractNonSymmetric\<close>

text \<open>The loop \<open>while (x != 0) { x = x >> 1; w++; }\<close>.\<close>

function ns_width :: "u32 \<Rightarrow> u32 \<Rightarrow> u32" where
  "ns_width x w = (if x \<noteq> 0 then ns_width (drop_bit 1 x) (w + 1) else w)"
  by pat_completeness auto
termination
  by (relation "measure (\<lambda>(x, w). unat x)")
    (auto simp: drop_bit_eq_div unat_div word_unat_eq_iff)

declare ns_width.simps [simp del]

definition extractNonSymmetric :: "bool list \<Rightarrow> u32 \<Rightarrow> u32 \<Rightarrow> (u32 \<times> u32) result" where
  "extractNonSymmetric bits frm n =
     (let w = ns_width n 0 in
      if 32 \<le> w then Inl (Undefined_behaviour ''shift'')
      else
        let m = push_bit (unat w) 1 - n in
        case extractBits bits frm (w - 1) of
          Inl e \<Rightarrow> Inl e
        | Inr v \<Rightarrow>
            if v < m then Inr (v, w - 1)
            else
              (case extractBits bits (frm + w - 1) 1 of
                 Inl e \<Rightarrow> Inl e
               | Inr extra_bit \<Rightarrow> Inr (push_bit 1 v - m + extra_bit, w)))"

text \<open>The number of binary digits, and the code the reader is meant to decode.\<close>

fun bitlen :: "nat \<Rightarrow> nat" where
  "bitlen n = (if n = 0 then 0 else Suc (bitlen (n div 2)))"

declare bitlen.simps [simp del]

definition ns_encode :: "nat \<Rightarrow> nat \<Rightarrow> bool list" where
  "ns_encode n v =
     (let w = bitlen n; m = 2 ^ w - n
      in if v < m then to_bits (w - 1) v else to_bits w (v + m))"

lemma bitlen_bounds: "0 < n \<Longrightarrow> n < 2 ^ bitlen n \<and> 2 ^ (bitlen n - 1) \<le> n"
proof (induction n rule: bitlen.induct)
  case (1 n)
  show ?case
  proof (cases "n = 1")
    case False
    with "1.prems" have h: "0 < n div 2" by auto
    with "1.IH" "1.prems" have IH: "n div 2 < 2 ^ bitlen (n div 2)"
        "2 ^ (bitlen (n div 2) - 1) \<le> n div 2"
      by auto
    have b: "bitlen n = Suc (bitlen (n div 2))" and "0 < bitlen (n div 2)"
      using h "1.prems" by (subst bitlen.simps, simp)+
    then obtain c where c: "bitlen (n div 2) = Suc c"
      by (cases "bitlen (n div 2)") auto
    have "n < 2 * (2 * 2 ^ c)" and "2 * 2 ^ c \<le> n"
      using IH c by auto
    then show ?thesis by (simp add: b c)
  qed (simp add: bitlen.simps)
qed

lemma bitlen_pos: "0 < n \<Longrightarrow> 0 < bitlen n"
  by (subst bitlen.simps) simp

lemma bitlen_le: "0 < n \<Longrightarrow> n < 2 ^ k \<Longrightarrow> bitlen n \<le> k"
proof (rule ccontr)
  assume "0 < n" and n: "n < 2 ^ k" and "\<not> bitlen n \<le> k"
  then have "2 ^ k \<le> (2::nat) ^ (bitlen n - 1)"
    by (intro power_increasing) auto
  also have "\<dots> \<le> n"
    using bitlen_bounds [OF \<open>0 < n\<close>] by simp
  finally show False using n by simp
qed

lemma ns_width_bitlen: "unat w + bitlen (unat x) < 2 ^ 32 \<Longrightarrow> unat (ns_width x w) = unat w + bitlen (unat x)"
proof (induction x w rule: ns_width.induct)
  case (1 x w)
  show ?case
  proof (cases "x = 0")
    case True
    then show ?thesis by (simp add: ns_width.simps [of 0 w] bitlen.simps)
  next
    case False
    then have b: "bitlen (unat x) = Suc (bitlen (unat (drop_bit 1 x)))"
      by (subst bitlen.simps) (simp add: drop_bit_eq_div unat_div word_unat_eq_iff)
    have w: "unat (w + 1) = unat w + 1"
      using "1.prems" b by (simp add: unat_word_ariths)
    have "unat (ns_width (drop_bit 1 x) (w + 1)) = unat (w + 1) + bitlen (unat (drop_bit 1 x))"
      using False "1.prems" b w by (intro "1.IH") auto
    with False b w show ?thesis by (simp add: ns_width.simps [of x w])
  qed
qed

lemma extractBits_middle:
  assumes "1 \<le> length bs" and "length bs \<le> 32" and "length pre + length bs < 2 ^ 32"
  shows "extractBits (pre @ bs @ post) (of_nat (length pre)) (of_nat (length bs)) =
    Inr (of_nat (bits_value bs))"
  using extractBits_value [of "length bs" "length pre" "pre @ bs @ post"] assms by simp

text \<open>The width \<open>w\<close> and the threshold \<open>m\<close> the reader computes for a range \<open>n\<close>.\<close>

lemma ns_params:
  assumes n: "2 \<le> n" "n < 2 ^ 31"
  defines "w \<equiv> bitlen n" and "m \<equiv> 2 ^ bitlen n - n"
  shows "2 \<le> w" "w \<le> 31" "m \<le> 2 ^ (w - 1)" "n + m = 2 ^ w" "2 * 2 ^ (w - 1) = (2 :: nat) ^ w"
    and "ns_width (of_nat n) 0 = of_nat w" "push_bit w 1 - of_nat n = (of_nat m :: u32)"
    and "x < 2 ^ w \<Longrightarrow> unat (of_nat x :: u32) = x"
proof -
  have bnd: "n < 2 ^ w" "2 ^ (w - 1) \<le> n" and w31: "w \<le> 31"
    using bitlen_bounds [of n] n bitlen_le [of n 31] by (auto simp: w_def)
  show w2: "2 \<le> w"
    using bnd(1) n(1) by (cases w; cases "w - 1") auto
  show "w \<le> 31" by (fact w31)
  show p2: "2 * 2 ^ (w - 1) = (2 :: nat) ^ w"
    using w2 by (cases w) auto
  show "m \<le> 2 ^ (w - 1)" "n + m = 2 ^ w"
    using bnd p2 by (auto simp: m_def simp flip: w_def)
  have "unat (of_nat n :: u32) = n"
    using n by (intro unat_of_nat_eq) simp
  then have "unat (ns_width (of_nat n) 0) = w"
    using ns_width_bitlen [of 0 "of_nat n"] w31 by (simp add: w_def)
  then show "ns_width (of_nat n) 0 = of_nat w"
    by (metis of_nat_unat ucast_id)
  show "push_bit w 1 - of_nat n = (of_nat m :: u32)"
    using bnd by (simp add: push_bit_eq_mult m_def flip: w_def)
  have "2 ^ w \<le> (2 :: nat) ^ 31"
    using w31 by (rule power_increasing) simp
  then show "unat (of_nat x :: u32) = x" if "x < 2 ^ w"
    using that by (intro unat_of_nat_eq) simp
qed

lemma extractNonSymmetric_short:
  assumes n: "2 \<le> n" "n < 2 ^ 31" and v: "v < 2 ^ bitlen n - n" and len: "length pre < 2 ^ 31"
  shows "extractNonSymmetric (pre @ to_bits (bitlen n - 1) v @ post) (of_nat (length pre)) (of_nat n) =
    Inr (of_nat v, of_nat (bitlen n - 1))"
proof -
  note P = ns_params [OF n]
  let ?code = "to_bits (bitlen n - 1) v"
  have w1: "(of_nat (bitlen n) - 1 :: u32) = of_nat (bitlen n - 1)"
    using P(1) by simp
  have "extractBits (pre @ ?code @ post) (of_nat (length pre)) (of_nat (bitlen n) - 1) = Inr (of_nat v)"
    using extractBits_middle [of ?code pre post] v P(1-3) len
    by (simp add: w1 bits_value_to_bits take_bit_nat_eq_self del: of_nat_diff)
  moreover have "(of_nat v :: u32) < of_nat (2 ^ bitlen n - n)"
    using v P(8) [of v] P(8) [of "2 ^ bitlen n - n"] n by (simp add: word_less_nat_alt)
  ultimately show ?thesis
    using P(2) P(7) w1 P(8) [of "bitlen n"]
    by (simp add: extractNonSymmetric_def P(6) Let_def word_le_nat_alt unat_of_nat_eq del: of_nat_diff)
qed

lemma extractNonSymmetric_long:
  assumes n: "2 \<le> n" "n < 2 ^ 31" and v: "2 ^ bitlen n - n \<le> v" "v < n" and len: "length pre < 2 ^ 31"
  shows "extractNonSymmetric (pre @ to_bits (bitlen n) (v + (2 ^ bitlen n - n)) @ post)
    (of_nat (length pre)) (of_nat n) = Inr (of_nat v, of_nat (bitlen n))"
proof -
  note P = ns_params [OF n]
  define w m where "w = bitlen n" and "m = 2 ^ bitlen n - n"
  note P = P [folded w_def m_def]
  define q where "q = (v + m) div 2"
  define hi where "hi = to_bits (w - 1) q"
  have code: "to_bits w (v + m) = hi @ [odd (v + m)]"
    using to_bits_Suc [of "w - 1" "v + m"] P(1) by (simp add: hi_def q_def)
  have vm: "m \<le> v" "v + m < 2 * 2 ^ (w - 1)"
    using v P(4,5) by (simp_all add: m_def)
  have q: "q < 2 ^ (w - 1)" "m \<le> q" "2 * q + of_bool (odd (v + m)) = v + m"
    using vm by (simp_all add: q_def less_mult_imp_div_less mult.commute) 
  have w1: "(of_nat w - 1 :: u32) = of_nat (w - 1)"
    using P(1) by simp
  have "extractBits (pre @ hi @ [odd (v + m)] @ post) (of_nat (length pre)) (of_nat w - 1) =
      Inr (of_nat q)"
    using extractBits_middle [of hi pre "[odd (v + m)] @ post"] P(1,2) len q(1)
    by (simp add: w1 hi_def bits_value_to_bits take_bit_nat_eq_self del: of_nat_diff)
  moreover have "extractBits ((pre @ hi) @ [odd (v + m)] @ post)
      (of_nat (length pre) + of_nat w - 1) 1 = Inr (of_bool (odd (v + m)))"
  proof -
    have pos: "(of_nat (length pre) + of_nat w - 1 :: u32) = of_nat (length (pre @ hi))"
      using P(1) by (simp add: hi_def)
    have "length (pre @ hi) + length [odd (v + m)] < 2 ^ 32"
      using len P(2) by (simp add: hi_def)
    then show ?thesis
      using extractBits_middle [of "[odd (v + m)]" "pre @ hi" post]
      by (simp only: pos) (simp add: bits_value_def)
  qed
  moreover have "\<not> (of_nat q :: u32) < of_nat m"
    using q P(8) [of q] P(8) [of m] P(3,5) by (simp add: word_less_nat_alt)
  moreover have "push_bit 1 (of_nat q) - of_nat m + of_bool (odd (v + m)) = (of_nat v :: u32)"
    using arg_cong [OF q(3), of "of_nat :: nat \<Rightarrow> u32"] by (simp add: push_bit_eq_mult algebra_simps)
  ultimately show ?thesis
    unfolding w_def [symmetric] m_def [folded w_def, symmetric] code
    using P(1,2,7) w1
    by (simp add: extractNonSymmetric_def P(6) Let_def word_le_nat_alt unat_of_nat_eq del: of_nat_diff)
qed

text \<open>
  The non-symmetric reader inverts the non-symmetric code of AV1: at any offset into a bit
  vector, on the code word of a value \<open>v\<close> below the range \<open>n\<close> (\<open>2 \<le> n < 2^31\<close>) and whatever
  follows, it returns \<open>v\<close> and the exact number of bits of the code word.
\<close>

lemma extractNonSymmetric_decodes:
  assumes "2 \<le> n" and "n < 2 ^ 31" and "v < n" and "length pre < 2 ^ 31"
  shows "extractNonSymmetric (pre @ ns_encode n v @ post) (of_nat (length pre)) (of_nat n) =
    Inr (of_nat v, of_nat (length (ns_encode n v)))"
proof (cases "v < 2 ^ bitlen n - n")
  case True
  then show ?thesis
    using extractNonSymmetric_short [of n v pre post] assms by (simp add: ns_encode_def Let_def)
next
  case False
  then show ?thesis
    using extractNonSymmetric_long [of n v pre post] assms by (simp add: ns_encode_def Let_def)
qed

text \<open>
  A range of one value takes no bits, but the reader asks \<open>extractBits\<close> for zero of them, which is
  an error: \<open>extractNonSymmetric(bits, from, 1)\<close> never returns.
\<close>

lemma extractNonSymmetric_range_one: "\<not> is_ok (extractNonSymmetric bits frm 1)"
proof -
  have "ns_width 1 0 = 1"
    by (simp add: ns_width.simps)
  then show ?thesis
    by (simp add: extractNonSymmetric_def extractBits_def)
qed

section \<open>Bitstream\<close>

record bitstream =
  bs_data :: "bool list"

text \<open>The constructor: an inner loop over the bits of a byte inside a loop over the bytes.\<close>

fun bs_byte_loop :: "byte \<Rightarrow> nat \<Rightarrow> nat \<Rightarrow> bool list \<Rightarrow> bool list" where
  "bs_byte_loop b byteIndex 0 dat = dat"
| "bs_byte_loop b byteIndex (Suc bitIndex) dat =
     bs_byte_loop b byteIndex bitIndex
       (dat[byteIndex * 8 + (8 - bitIndex) - 1 := (drop_bit bitIndex b AND 1 \<noteq> 0)])"

fun bs_fill :: "byte list \<Rightarrow> nat \<Rightarrow> bool list \<Rightarrow> bool list" where
  "bs_fill [] byteIndex dat = dat"
| "bs_fill (b # buf) byteIndex dat = bs_fill buf (Suc byteIndex) (bs_byte_loop b byteIndex 8 dat)"

definition Bitstream :: "byte list \<Rightarrow> bitstream" where
  "Bitstream buf = \<lparr> bs_data = bs_fill buf 0 (replicate (length buf * 8) False) \<rparr>"

definition bs_isValidIdx :: "bitstream \<Rightarrow> nat \<Rightarrow> bool" where
  "bs_isValidIdx s idx \<longleftrightarrow> idx < length (bs_data s)"

definition bs_bitCount :: "bitstream \<Rightarrow> u32" where
  "bs_bitCount s = of_nat (length (bs_data s))"

definition bs_at :: "bitstream \<Rightarrow> nat \<Rightarrow> bool result" where
  "bs_at s idx =
     (if length (bs_data s) \<le> idx
      then Inl (Invalid_argument ''Bitstream: operator[]: index out of range'')
      else Inr (bs_data s ! idx))"

definition bs_extract :: "bitstream \<Rightarrow> nat \<Rightarrow> nat \<Rightarrow> u32 result" where
  "bs_extract s idxFrom n =
     (if 0 < n \<and> n \<le> 32 \<and> bs_isValidIdx s idxFrom \<and> bs_isValidIdx s (idxFrom + n - 1)
      then Inr (fold (\<lambda>i res. res OR push_bit (n - i - 1) (of_bool (bs_data s ! (idxFrom + i)))) [0..<n] 0)
      else Inl (Invalid_argument ''Bitstream: extract: index out of range''))"

text \<open>\<open>_bit_vector_from_bytes\<close> of \<open>lib/av1.cc\<close> fills a vector with the same two loops.\<close>

definition bit_vector_from_bytes :: "byte list \<Rightarrow> bool list" where
  "bit_vector_from_bytes buf = bs_fill buf 0 (replicate (length buf * 8) False)"

text \<open>The bits of a byte string, most significant first.\<close>

definition byte_bits :: "byte \<Rightarrow> bool list" where
  "byte_bits b = map (bit b) [7, 6, 5, 4, 3, 2, 1, 0]"

definition bytes_bits :: "byte list \<Rightarrow> bool list" where
  "bytes_bits buf = concat (map byte_bits buf)"

lemma length_byte_bits [simp]: "length (byte_bits b) = 8"
  by (simp add: byte_bits_def)

lemma length_bytes_bits [simp]: "length (bytes_bits buf) = 8 * length buf"
  by (induction buf) (simp_all add: bytes_bits_def)

lemma bytes_bits_Cons: "bytes_bits (b # buf) = byte_bits b @ bytes_bits buf"
  by (simp add: bytes_bits_def)

lemma test_bit_and_one: "drop_bit k (b :: byte) AND 1 \<noteq> 0 \<longleftrightarrow> bit b k"
  by (simp add: and_one_eq bit_iff_odd_drop_bit flip: even_iff_mod_2_eq_zero)

lemma bs_byte_loop_8:
  assumes "length pre = byteIndex * 8" and "length post = 8"
  shows "bs_byte_loop b byteIndex 8 (pre @ post @ rest) = pre @ byte_bits b @ rest"
proof -
  obtain p0 p1 p2 p3 p4 p5 p6 p7 where "post = [p0, p1, p2, p3, p4, p5, p6, p7]"
    using assms(2) by (auto simp: length_Suc_conv eval_nat_numeral)
  then show ?thesis
    using assms(1)
    by (simp add: eval_nat_numeral list_update_append byte_bits_def
        test_bit_and_one [unfolded One_nat_def] test_bit_and_one [of 0, simplified] bit_drop_bit_eq)
qed

lemma bs_fill_bits:
  "length pre = byteIndex * 8 \<Longrightarrow>
   bs_fill buf byteIndex (pre @ replicate (length buf * 8) False) = pre @ bytes_bits buf"
proof (induction buf arbitrary: byteIndex pre)
  case Nil
  then show ?case by (simp add: bytes_bits_def)
next
  case (Cons b buf)
  have "replicate (length (b # buf) * 8) False = replicate 8 False @ replicate (length buf * 8) False"
    by (simp flip: replicate_add)
  then have "bs_byte_loop b byteIndex 8 (pre @ replicate (length (b # buf) * 8) False) =
      (pre @ byte_bits b) @ replicate (length buf * 8) False"
    using bs_byte_loop_8 [OF Cons.prems, of "replicate 8 False"] by simp
  then show ?case
    using Cons.IH [of "pre @ byte_bits b" "Suc byteIndex"] Cons.prems
    by (simp add: bytes_bits_Cons)
qed

lemma bit_vector_from_bytes_bits: "bit_vector_from_bytes buf = bytes_bits buf"
  using bs_fill_bits [of "[]" 0 buf] by (simp add: bit_vector_from_bytes_def)

lemma bs_data_Bitstream [simp]: "bs_data (Bitstream buf) = bytes_bits buf"
  using bs_fill_bits [of "[]" 0 buf] by (simp add: Bitstream_def)

lemma bs_extract_fold_bit:
  assumes "n \<le> 32" and "m \<le> n" and "k < 32"
  shows "bit (fold (\<lambda>i res. res OR push_bit (n - i - 1) (of_bool (f i))) [0..<m] (0 :: u32)) k \<longleftrightarrow>
    n - m \<le> k \<and> k < n \<and> f (n - 1 - k)"
  using assms(2)
proof (induction m)
  case (Suc m)
  have "bit (push_bit (n - m - 1) (of_bool (f m)) :: u32) k \<longleftrightarrow> k = n - m - 1 \<and> f m"
    using assms(1,3) Suc.prems by (auto simp: bit_simps bit_0 of_bool_def split: if_splits)
  moreover have "k = n - m - 1 \<and> f m \<longleftrightarrow> k = n - m - 1 \<and> f (n - 1 - k)"
    using Suc.prems by auto
  moreover have "n - Suc m \<le> k \<and> k < n \<longleftrightarrow> k = n - m - 1 \<or> n - m \<le> k \<and> k < n"
    using Suc.prems by auto
  ultimately show ?case
    using Suc.IH Suc.prems by (auto simp: bit_or_iff)
qed auto

lemma bs_extract_value:
  assumes "1 \<le> n" and "n \<le> 32" and "f + n \<le> length (bs_data s)"
  shows "bs_extract s f n = Inr (of_nat (bits_value (take n (drop f (bs_data s)))))"
proof -
  have "fold (\<lambda>i res. res OR push_bit (n - i - 1) (of_bool (bs_data s ! (f + i)))) [0..<n] 0 =
      (of_nat (bits_value (take n (drop f (bs_data s)))) :: u32)"
  proof (rule bit_word_eqI)
    fix k assume "k < LENGTH(32)"
    then have "k < 32" by simp
    with assms bs_extract_fold_bit [of n n k "\<lambda>i. bs_data s ! (f + i)"]
    show "bit (fold (\<lambda>i res. res OR push_bit (n - i - 1) (of_bool (bs_data s ! (f + i)))) [0..<n] (0 :: u32)) k =
        bit (of_nat (bits_value (take n (drop f (bs_data s)))) :: u32) k"
      by (auto simp: bit_bits_value bit_simps)
  qed
  then show ?thesis
    using assms by (simp add: bs_extract_def bs_isValidIdx_def)
qed

text \<open>
  C33: the two bit readers of the code base agree. For every buffer shorter than 2^28 bytes and every
  range, \<open>Bitstream(buf).extract(from, n)\<close> succeeds exactly when
  \<open>extractBits(_bit_vector_from_bytes(buf), from, n)\<close> does, and with the same value, which is the
  big-endian value of the bits in the range.
\<close>

theorem bitstream_extract_agrees:
  assumes "length buf < 2 ^ 28" and "f < 2 ^ 31" and "n < 2 ^ 31"
  defines "r \<equiv> bs_extract (Bitstream buf) f n"
    and "r' \<equiv> extractBits (bit_vector_from_bytes buf) (of_nat f) (of_nat n)"
  shows "(is_ok r \<longleftrightarrow> 1 \<le> n \<and> n \<le> 32 \<and> f + n \<le> 8 * length buf) \<and> (is_ok r' \<longleftrightarrow> is_ok r) \<and>
    (is_ok r \<longrightarrow> r = Inr (of_nat (bits_value (take n (drop f (bytes_bits buf))))) \<and> r' = r)"
proof -
  have u: "unat (of_nat f + of_nat n :: u32) = f + n" "unat (of_nat n :: u32) = n"
    using assms by (simp_all add: unat_of_nat_eq flip: of_nat_add)
  have ok: "is_ok r \<longleftrightarrow> 1 \<le> n \<and> n \<le> 32 \<and> f + n \<le> 8 * length buf"
    by (auto simp: r_def bs_extract_def bs_isValidIdx_def)
  moreover have "is_ok r' \<longleftrightarrow> 1 \<le> n \<and> n \<le> 32 \<and> f + n \<le> 8 * length buf"
    using u by (auto simp: r'_def extractBits_def bit_vector_from_bytes_bits word_less_nat_alt)
  moreover have "r = Inr (of_nat (bits_value (take n (drop f (bytes_bits buf))))) \<and> r' = r" if "is_ok r"
    using that [unfolded ok] assms(1-3) bs_extract_value [of n f "Bitstream buf"]
      extractBits_value [of n f "bytes_bits buf"]
    by (simp add: bit_vector_from_bytes_bits r_def r'_def)
  ultimately show ?thesis by simp
qed

theorem bitstream_extract_agrees_witness:
  "bs_extract (Bitstream [0xA5, 0x3C]) 3 7 = Inr 0x14 \<and>
   extractBits (bit_vector_from_bytes [0xA5, 0x3C]) 3 7 = Inr 0x14"
proof -
  have "bits_value (take 7 (drop 3 (bytes_bits [0xA5, 0x3C]))) = 0x14"
    by code_simp
  then show ?thesis
    using bitstream_extract_agrees [of "[0xA5, 0x3C]" 3 7] by simp
qed

section \<open>util::crc32\<close>

definition crc_bit :: "u32 \<Rightarrow> u32" where
  "crc_bit crc = (if crc AND 1 \<noteq> 0 then drop_bit 1 crc XOR 0xedb88320 else drop_bit 1 crc)"

definition crc_byte :: "byte \<Rightarrow> u32 \<Rightarrow> u32" where
  "crc_byte b crc = (crc_bit ^^ 8) (crc XOR ucast b)"

definition crc32 :: "u32 \<Rightarrow> byte list \<Rightarrow> u32" where
  "crc32 crc buf = NOT (fold crc_byte buf (NOT crc))"

text \<open>The checksum of a concatenation is obtained by feeding the checksum of the first part back in.\<close>

lemma crc32_append: "crc32 crc (xs @ ys) = crc32 (crc32 crc xs) ys"
  by (simp add: crc32_def)

end
