(* ===== verification/AV1.thy ===== *)
theory AV1
  imports Bit_Extraction
begin

text \<open>
  \<open>lib/av1.h\<close> and \<open>lib/av1.cc\<close>: the scalability structures L1T2 and L1T3 with their drop decisions, and
  the parser of the AV1 dependency descriptor. The parser is a chain of steps over a bit vector
  and a read position; each step returns the updated descriptor and position, or the exception
  that ends the constructor. The lemmas give an encoder for template dependency structures and
  show that the parser recovers what it encodes, and that the L1T3 drop decision is the test on
  the temporal layer it stands for.
\<close>

section \<open>Scalability structures\<close>

datatype L1T2_DecodeTarget = L1T2_lo | L1T2_hi

definition L1T2_drop :: "L1T2_DecodeTarget \<Rightarrow> nat \<Rightarrow> bool" where
  "L1T2_drop decodeTarget templateId =
     (if decodeTarget = L1T2_hi then False else templateId mod 3 = 2)"

datatype DecodeTarget = lo | mid | hi

definition MAX_IDENT :: nat where
  "MAX_IDENT = 2"

definition decodeTargetFromNumIdentifier :: "u32 \<Rightarrow> DecodeTarget result" where
  "decodeTargetFromNumIdentifier target =
     (if target = 0 then Inr lo
      else if target = 1 then Inr mid
      else if target = 2 then Inr hi
      else Inl (Logic_error ''svc::L1T3::decodeTargetFromNumIdentifier: invalid target''))"

fun L1T3_drop :: "DecodeTarget \<Rightarrow> nat \<Rightarrow> bool" where
  "L1T3_drop hi templateId = False"
| "L1T3_drop mid templateId = (templateId mod 5 = 3 \<or> templateId mod 5 = 4)"
| "L1T3_drop lo templateId = (templateId mod 5 = 2 \<or> templateId mod 5 = 3 \<or> templateId mod 5 = 4)"

text \<open>The enumerators are compared with \<open><\<close> in the data planes: their order is that of their numbers.\<close>

fun dt_num :: "DecodeTarget \<Rightarrow> nat" where
  "dt_num lo = 0"
| "dt_num mid = 1"
| "dt_num hi = 2"

lemma dt_num_inj: "dt_num a = dt_num b \<Longrightarrow> a = b"
  by (cases a; cases b) auto

instantiation DecodeTarget :: linorder
begin

definition less_eq_DecodeTarget :: "DecodeTarget \<Rightarrow> DecodeTarget \<Rightarrow> bool" where
  "less_eq_DecodeTarget a b \<longleftrightarrow> dt_num a \<le> dt_num b"

definition less_DecodeTarget :: "DecodeTarget \<Rightarrow> DecodeTarget \<Rightarrow> bool" where
  "less_DecodeTarget a b \<longleftrightarrow> dt_num a < dt_num b"

instance
  by standard (auto simp: less_eq_DecodeTarget_def less_DecodeTarget_def intro: dt_num_inj)

end

lemma decodeTarget_dt_num:
  "decodeTargetFromNumIdentifier target = Inr d \<longleftrightarrow> unat target = dt_num d"
proof -
  have "target = 0 \<longleftrightarrow> unat target = 0" "target = 1 \<longleftrightarrow> unat target = 1" "target = 2 \<longleftrightarrow> unat target = 2"
    by (auto simp: word_unat_eq_iff)
  then show ?thesis
    by (cases d) (auto simp: decodeTargetFromNumIdentifier_def split: if_splits)
qed

lemma L1T3_drop_mono: "a \<le> b \<Longrightarrow> L1T3_drop b templateId \<Longrightarrow> L1T3_drop a templateId"
  by (cases a; cases b) (auto simp: less_eq_DecodeTarget_def)

section \<open>The mandatory fields\<close>

text \<open>\<open>MandatoryFields\<close> holds a pointer: the bytes from it on.\<close>

type_synonym MandatoryFields = "byte list"

definition startOfFrame :: "MandatoryFields \<Rightarrow> bool result" where
  "startOfFrame buf = rbind (rd buf 0) (\<lambda>b. Inr (drop_bit 7 b AND 1 = 1))"

definition endOfFrame :: "MandatoryFields \<Rightarrow> bool result" where
  "endOfFrame buf = rbind (rd buf 0) (\<lambda>b. Inr (drop_bit 6 b AND 1 = 1))"

definition templateId :: "MandatoryFields \<Rightarrow> u32 result" where
  "templateId buf = rbind (rd buf 0) (\<lambda>b. Inr (ucast (b AND 0x3f)))"

definition frameNumber :: "MandatoryFields \<Rightarrow> u32 result" where
  "frameNumber buf = rbind (rd buf 1) (\<lambda>b1. rbind (rd buf 2) (\<lambda>b2. Inr (push_bit 8 (ucast b1) + ucast b2)))"

text \<open>The fields a sender writes: two flags, a 6-bit template id and a 16-bit frame number.\<close>

definition mandatory_bytes :: "bool \<Rightarrow> bool \<Rightarrow> nat \<Rightarrow> u16 \<Rightarrow> byte list" where
  "mandatory_bytes s e t f =
     (of_bool s * 128 + of_bool e * 64 + of_nat t) # be16_bytes f"

lemma drop_bit_and_one: "drop_bit k w AND 1 = (of_bool (odd (unat w div 2 ^ k)) :: 'a::len word)"
proof -
  have "odd (drop_bit k w) \<longleftrightarrow> bit (unat w) k"
    by (simp add: bit_unsigned_iff flip: bit_iff_odd_drop_bit)
  then show ?thesis
    by (simp add: and_one_eq bit_iff_odd mod2_eq_if)
qed

lemma mandatory_first_byte:
  fixes s e :: bool and t :: nat
  assumes "t < 64"
  defines "b \<equiv> of_bool s * 128 + of_bool e * 64 + of_nat t :: byte"
  shows "drop_bit 7 b AND 1 = of_bool s" "drop_bit 6 b AND 1 = of_bool e" "b AND 0x3f = of_nat t"
proof -
  have u: "unat b = of_bool s * 128 + of_bool e * 64 + t"
  proof -
    have "b = of_nat (of_bool s * 128 + of_bool e * 64 + t)" by (simp add: b_def)
    then show ?thesis using assms(1) by (simp only:) (rule unat_of_nat_eq, simp add: of_bool_def)
  qed
  have u64: "unat b = t + (2 * of_bool s + of_bool e) * 64" by (simp add: u)
  then have d6: "unat b div 64 = 2 * of_bool s + of_bool e"
    using assms(1) by simp
  have d7: "unat b div 128 = of_bool s"
  proof -
    have "unat b div 128 = unat b div 64 div 2" using div_mult2_eq [of "unat b" 64 2] by simp
    then show ?thesis by (simp add: d6)
  qed
  show "drop_bit 7 b AND 1 = of_bool s" "drop_bit 6 b AND 1 = of_bool e"
    using drop_bit_and_one [of 7 b] drop_bit_and_one [of 6 b] d6 d7 by simp_all
  have "b AND 0x3f = take_bit 6 b"
    by (simp add: take_bit_eq_mask mask_eq_exp_minus_1)
  moreover have "unat b mod 64 = t"
    unfolding u64 mod_mult_self1 using assms(1) by simp
  ultimately show "b AND 0x3f = of_nat t"
    using assms(1) by (simp add: word_unat_eq_iff take_bit_eq_mod unat_mod unat_of_nat_eq)
qed

lemma frameNumber_be16: "push_bit 8 (ucast a) + ucast b = (ucast (be16 a b) :: u32)"
proof -
  have "unat a < 256" "unat b < 256"
    using unat_lt2p [of a] unat_lt2p [of b] by simp_all
  then show ?thesis
    by (simp add: word_unat_eq_iff push_bit_eq_mult unat_word_ariths unsigned_ucast_eq take_bit_eq_mod
        unat_be16 mult.commute)
qed

lemma mandatory_fields_read:
  assumes "t < 64"
  shows "startOfFrame (mandatory_bytes s e t f @ rest) = Inr s \<and>
    endOfFrame (mandatory_bytes s e t f @ rest) = Inr e \<and>
    templateId (mandatory_bytes s e t f @ rest) = Inr (of_nat t) \<and>
    frameNumber (mandatory_bytes s e t f @ rest) = Inr (ucast f)"
proof -
  have "ucast (of_nat t :: byte) = (of_nat t :: u32)"
    using assms unat_of_nat_eq [of t, where 'a = 8] of_nat_unat [of "of_nat t :: byte", where 'a = u32] by simp
  then show ?thesis
    using mandatory_first_byte [OF assms, of s e]
    by (simp add: startOfFrame_def endOfFrame_def templateId_def frameNumber_def mandatory_bytes_def
        be16_bytes_def rd_def frameNumber_be16 wire_simps)
qed

text \<open>
  reading back the mandatory fields of a dependency descriptor returns exactly the start and end
  flags, the template id and the frame number that were written, whatever bytes follow.
\<close>

lemma mandatory_fields_roundtrip:
  assumes "t < 64"
  shows "startOfFrame (mandatory_bytes s e t f @ rest) = Inr s \<and>
    endOfFrame (mandatory_bytes s e t f @ rest) = Inr e \<and>
    templateId (mandatory_bytes s e t f @ rest) = Inr (of_nat t) \<and>
    frameNumber (mandatory_bytes s e t f @ rest) = Inr (ucast f)"
  using assms by (rule mandatory_fields_read)

section \<open>The dependency descriptor\<close>

datatype dti = not_present_indication | discardable_indication | switch_indication | required_indication

fun dti_of_num :: "nat \<Rightarrow> dti" where
  "dti_of_num n = (if n = 0 then not_present_indication else if n = 1 then discardable_indication
     else if n = 2 then switch_indication else required_indication)"

fun dti_num :: "dti \<Rightarrow> nat" where
  "dti_num not_present_indication = 0"
| "dti_num discardable_indication = 1"
| "dti_num switch_indication = 2"
| "dti_num required_indication = 3"

record frame_dependency_template =
  spatial_layer_id :: u32
  temporal_layer_id :: u32
  dtis :: "dti list"

record dep_descriptor =
  dd_mandatoryFields :: MandatoryFields
  template_dependency_structure_present_flag :: bool
  active_decode_targets_present_flag :: bool
  custom_dtis_flag :: bool
  custom_fdiffs_flag :: bool
  custom_chains_flag :: bool
  dt_cnt :: u32
  template_cnt :: u32
  template_id_offset :: u32
  active_decode_targets_bitmask :: u32
  resolutions_present_flag :: bool
  template_spatial_id :: "u32 list"
  template_temporal_id :: "u32 list"
  template_dti :: "u32 list list"
  decode_target_spatial_id :: "u32 list"
  decode_target_temporal_id :: "u32 list"
  max_render_width_minus_one :: "u32 list"
  max_render_height_minus_one :: "u32 list"
  templates :: "(u32, frame_dependency_template) omap"

definition dd_default :: "MandatoryFields \<Rightarrow> dep_descriptor" where
  "dd_default buf =
     \<lparr> dd_mandatoryFields = buf,
       template_dependency_structure_present_flag = False,
       active_decode_targets_present_flag = False,
       custom_dtis_flag = False, custom_fdiffs_flag = False, custom_chains_flag = False,
       dt_cnt = 0, template_cnt = 0, template_id_offset = 0, active_decode_targets_bitmask = 0,
       resolutions_present_flag = False, template_spatial_id = [], template_temporal_id = [],
       template_dti = [], decode_target_spatial_id = [], decode_target_temporal_id = [],
       max_render_width_minus_one = [], max_render_height_minus_one = [], templates = [] \<rparr>"

text \<open>
  \<open>_parse_template_layers\<close>: the do-while loop. Every round reads two bits, so the position reaches
  the end of the vector, where \<open>extractBits\<close> throws; a vector of 2^32 - 8 bits or more, on which the
  32-bit position could wrap around first, is never built (see \<open>DependencyDescriptor\<close> below).
\<close>

definition add_template :: "u32 \<Rightarrow> u32 \<Rightarrow> dep_descriptor \<Rightarrow> dep_descriptor" where
  "add_template spatial_id temporal_id d =
     d\<lparr> template_spatial_id := template_spatial_id d @ [spatial_id],
       template_temporal_id := template_temporal_id d @ [temporal_id],
       templates := omap_put (template_id_offset d + template_cnt d)
         \<lparr> spatial_layer_id = spatial_id, temporal_layer_id = temporal_id, dtis = [] \<rparr> (templates d),
       template_cnt := template_cnt d + 1 \<rparr>"

lemma extractBits_ok_range:
  "extractBits bits i len = Inr v \<Longrightarrow> unat (i + len) \<le> length bits \<and> 1 \<le> unat len \<and> unat len \<le> 32"
  by (auto simp: extractBits_def word_less_nat_alt split: if_splits)

definition layers_measure :: "u32 \<Rightarrow> nat" where
  "layers_measure i = (if 2 ^ 32 - 2 \<le> unat i then 2 ^ 32 + 1 else 2 ^ 32 - unat i)"

lemma layers_measure_decreases:
  assumes "extractBits bits i 2 = Inr v" and "length bits + 8 < 2 ^ 32"
  shows "layers_measure (i + 2) < layers_measure i"
proof -
  have len: "unat (i + 2) < 2 ^ 32 - 8"
    using extractBits_ok_range [OF assms(1)] assms(2) by simp
  have i2: "unat (i + 2) = (unat i + 2) mod 2 ^ 32"
    by (simp add: unat_word_ariths)
  show ?thesis
  proof (cases "2 ^ 32 - 2 \<le> unat i")
    case True
    then show ?thesis using len by (simp add: layers_measure_def)
  next
    case False
    then have "unat (i + 2) = unat i + 2" using i2 by simp
    then show ?thesis using len False by (simp add: layers_measure_def)
  qed
qed

function template_layers_loop ::
  "bool list \<Rightarrow> u32 \<Rightarrow> u32 \<Rightarrow> u32 \<Rightarrow> u32 \<Rightarrow> dep_descriptor \<Rightarrow> (dep_descriptor \<times> u32 \<times> u32) result" where
  "template_layers_loop bits i temporal_id spatial_id max_temporal_id d =
     (if 2 ^ 32 \<le> length bits + 8 then Inl (Undefined_behaviour ''bit vector too long'')
      else
        let d = add_template spatial_id temporal_id d in
        case extractBits bits i 2 of
          Inl e \<Rightarrow> Inl e
        | Inr next_layer_idc \<Rightarrow>
            if next_layer_idc = 3 then Inr (d, i + 2, spatial_id)
            else if next_layer_idc = 1 then
              template_layers_loop bits (i + 2) (temporal_id + 1) spatial_id
                (if max_temporal_id < temporal_id + 1 then temporal_id + 1 else max_temporal_id) d
            else if next_layer_idc = 2 then
              template_layers_loop bits (i + 2) 0 (spatial_id + 1) max_temporal_id d
            else template_layers_loop bits (i + 2) temporal_id spatial_id max_temporal_id d)"
  by pat_completeness auto

termination
  by (relation "measure (\<lambda>(bits, i, temporal_id, spatial_id, max_temporal_id, d). layers_measure i)")
    (auto intro!: layers_measure_decreases)

declare template_layers_loop.simps [simp del]

definition parse_template_layers :: "bool list \<Rightarrow> u32 \<Rightarrow> dep_descriptor \<Rightarrow> (dep_descriptor \<times> u32 \<times> u32) result" where
  "parse_template_layers bits i d = template_layers_loop bits i 0 0 0 d"

definition push_dti :: "u32 \<Rightarrow> dti \<Rightarrow> dep_descriptor \<Rightarrow> dep_descriptor" where
  "push_dti k t d =
     (let f = (case map_of (templates d) k of
                 Some f \<Rightarrow> f
               | None \<Rightarrow> \<lparr> spatial_layer_id = 0, temporal_layer_id = 0, dtis = [] \<rparr>)
      in d\<lparr> templates := omap_put k (f\<lparr> dtis := dtis f @ [t] \<rparr>) (templates d) \<rparr>)"

definition parse_template_dtis :: "bool list \<Rightarrow> u32 \<Rightarrow> dep_descriptor \<Rightarrow> (dep_descriptor \<times> u32) result" where
  "parse_template_dtis bits i d =
     rfold (\<lambda>template_index.
       rfold (\<lambda>dt_index (d, i).
         rbind (extractBits bits i 2) (\<lambda>v.
           Inr (push_dti (of_nat template_index + template_id_offset d) (dti_of_num (unat v)) d, i + 2)))
         [0..<unat (dt_cnt d)])
       [0..<unat (template_cnt d)] (d, i)"

definition parse_template_dependency_structure ::
  "bool list \<Rightarrow> u32 \<Rightarrow> dep_descriptor \<Rightarrow> (dep_descriptor \<times> u32) result" where
  "parse_template_dependency_structure bits i d =
     rbind (extractBits bits i 6) (\<lambda>offs.
     rbind (extractBits bits (i + 6) 5) (\<lambda>dt_cnt_minus_one.
     rbind (parse_template_layers bits (i + 11)
         (d\<lparr> template_id_offset := offs, dt_cnt := dt_cnt_minus_one + 1 \<rparr>)) (\<lambda>(d, i, max_spatial_id).
     parse_template_dtis bits i d)))"

text \<open>\<open>(1 << _dt_cnt) - 1\<close> is signed arithmetic on 32 bits: it overflows for 31 and for 32 decode targets.\<close>

definition parse_extended_descriptor_fields ::
  "bool list \<Rightarrow> u32 \<Rightarrow> dep_descriptor \<Rightarrow> (dep_descriptor \<times> u32) result" where
  "parse_extended_descriptor_fields bits i d =
     (if length bits < unat i + 5 then Inl (Undefined_behaviour ''bits[i++] out of range'')
      else
        let d = d\<lparr> template_dependency_structure_present_flag := bits ! unat i,
                  active_decode_targets_present_flag := bits ! (unat i + 1),
                  custom_dtis_flag := bits ! (unat i + 2),
                  custom_fdiffs_flag := bits ! (unat i + 3),
                  custom_chains_flag := bits ! (unat i + 4) \<rparr>;
            i = i + 5
        in if template_dependency_structure_present_flag d
           then rbind (parse_template_dependency_structure bits i d) (\<lambda>(d, i).
             if 31 \<le> dt_cnt d then Inl (Undefined_behaviour ''signed overflow'')
             else Inr (d\<lparr> active_decode_targets_bitmask := push_bit (unat (dt_cnt d)) 1 - 1 \<rparr>, i))
           else Inr (d, i))"

definition MandatoryFields_LEN :: nat where
  "MandatoryFields_LEN = 3"

text \<open>
  The constructor, on the \<open>len\<close> bytes at \<open>bytes\<close>. The size \<open>len * 8\<close> of the bit vector is a 32-bit
  product: from 2^29 bytes on the vector is too short for the stores that fill it.
\<close>

definition parse_bytes :: "byte list \<Rightarrow> dep_descriptor \<Rightarrow> dep_descriptor result" where
  "parse_bytes bytes d =
     (if 2 ^ 29 \<le> length bytes then Inl (Undefined_behaviour ''bits[(i + 1) * 8 - j - 1] out of range'')
      else
        let bits = bit_vector_from_bytes bytes;
            total_consumed_bits = of_nat (MandatoryFields_LEN * 8)
        in rbind (parse_extended_descriptor_fields bits total_consumed_bits d) (\<lambda>(d, i). Inr d))"

definition DependencyDescriptor :: "byte list \<Rightarrow> dep_descriptor result" where
  "DependencyDescriptor bytes =
     (if length bytes < MandatoryFields_LEN
      then Inl (Logic_error ''av1::DependencyDescriptor: len must be at least 3'')
      else if MandatoryFields_LEN < length bytes then parse_bytes bytes (dd_default bytes)
      else Inr (dd_default bytes))"

section \<open>What the parser reads back\<close>

text \<open>
  A template dependency structure: the offset of the template ids, the number of decode targets,
  the layer steps between consecutive templates (0 same layer, 1 next temporal, 2 next spatial)
  and the decode target indications of each template. \<open>tds_bits\<close> is its encoding and \<open>layers_of\<close>
  the (spatial, temporal) layers of its templates.
\<close>

fun layers_of :: "nat list \<Rightarrow> u32 \<Rightarrow> u32 \<Rightarrow> (u32 \<times> u32) list" where
  "layers_of [] sp te = [(sp, te)]"
| "layers_of (c # cs) sp te =
     (sp, te) # (if c = 1 then layers_of cs sp (te + 1) else if c = 2 then layers_of cs (sp + 1) 0
                 else layers_of cs sp te)"

definition row_bits :: "dti list \<Rightarrow> bool list" where
  "row_bits row = concat (map (\<lambda>t. to_bits 2 (dti_num t)) row)"

definition tds_bits :: "nat \<Rightarrow> nat \<Rightarrow> nat list \<Rightarrow> dti list list \<Rightarrow> bool list" where
  "tds_bits offs dts idcs rows =
     to_bits 6 offs @ to_bits 5 (dts - 1) @ concat (map (to_bits 2) idcs) @ to_bits 2 3 @
     concat (map row_bits rows)"

fun tmap :: "nat \<Rightarrow> frame_dependency_template list \<Rightarrow> (u32, frame_dependency_template) omap" where
  "tmap offs [] = []"
| "tmap offs (f # fs) = (of_nat offs, f) # tmap (Suc offs) fs"

definition tmpl :: "u32 \<times> u32 \<Rightarrow> frame_dependency_template" where
  "tmpl l = \<lparr> spatial_layer_id = fst l, temporal_layer_id = snd l, dtis = [] \<rparr>"

definition add_dtis :: "frame_dependency_template \<Rightarrow> dti list \<Rightarrow> frame_dependency_template" where
  "add_dtis f row = f\<lparr> dtis := dtis f @ row \<rparr>"

lemma of_nat_less_u32: "b < 2 ^ 32 \<Longrightarrow> a < b \<Longrightarrow> (of_nat a :: u32) < of_nat b"
  by (simp add: word_less_nat_alt unat_of_nat_eq)

lemma of_nat_above: "b < 2 ^ 32 \<Longrightarrow> a < b \<Longrightarrow> \<not> (of_nat b :: u32) < of_nat a \<and> (of_nat b :: u32) \<noteq> of_nat a"
  using of_nat_less_u32 [of b a] less_asym by metis

lemma tmap_put_new:
  "offs + length fs < 2 ^ 32 \<Longrightarrow> omap_put (of_nat (offs + length fs)) f (tmap offs fs) = tmap offs (fs @ [f])"
proof (induction fs arbitrary: offs)
  case (Cons g fs)
  have "\<not> (of_nat (offs + length (g # fs)) :: u32) < of_nat offs"
      "(of_nat (offs + length (g # fs)) :: u32) \<noteq> of_nat offs"
    using of_nat_above [of "offs + length (g # fs)" offs] Cons.prems by simp_all
  with Cons.IH [of "Suc offs"] Cons.prems show ?case by simp
qed simp

lemma tmap_put_upd:
  "offs + length fs < 2 ^ 32 \<Longrightarrow> j < length fs \<Longrightarrow>
   omap_put (of_nat (offs + j)) f (tmap offs fs) = tmap offs (fs[j := f])"
proof (induction fs arbitrary: offs j)
  case (Cons g fs)
  show ?case
  proof (cases j)
    case (Suc k)
    then have "\<not> (of_nat (offs + j) :: u32) < of_nat offs" "(of_nat (offs + j) :: u32) \<noteq> of_nat offs"
      using of_nat_above [of "offs + j" offs] Cons.prems by simp_all
    with Suc Cons.IH [of "Suc offs" k] Cons.prems show ?thesis by simp
  qed simp
qed simp

lemma tmap_lookup:
  "offs + length fs < 2 ^ 32 \<Longrightarrow> j < length fs \<Longrightarrow> map_of (tmap offs fs) (of_nat (offs + j)) = Some (fs ! j)"
proof (induction fs arbitrary: offs j)
  case (Cons g fs)
  show ?case
  proof (cases j)
    case (Suc k)
    then have "(of_nat (offs + j) :: u32) \<noteq> of_nat offs"
      using of_nat_above [of "offs + j" offs] Cons.prems by simp_all
    with Suc Cons.IH [of "Suc offs" k] Cons.prems show ?thesis by simp
  qed simp
qed simp

text \<open>Reading a fixed-width field that starts at the current position.\<close>

lemma read_field:
  assumes "v < 2 ^ w" and "1 \<le> w" and "w \<le> 32" and "length pre + w < 2 ^ 32"
  shows "extractBits (pre @ to_bits w v @ post) (of_nat (length pre)) (of_nat w) = Inr (of_nat v)"
  using assms extractBits_middle [of "to_bits w v" pre post]
  by (simp add: bits_value_to_bits take_bit_nat_eq_self)

lemma read_two:
  assumes "v < 4" and "length pre + 2 < 2 ^ 32"
  shows "extractBits (pre @ to_bits 2 v @ post) (of_nat (length pre)) 2 = Inr (of_nat v)"
  using read_field [of v 2 pre post] assms by simp

lemma template_layers_loop_reads:
  assumes "\<forall>c \<in> set idcs. c < 3"
    and "length (pre @ concat (map (to_bits 2) idcs) @ to_bits 2 3 @ post) < 2 ^ 31"
  shows "\<exists>sp'. template_layers_loop (pre @ concat (map (to_bits 2) idcs) @ to_bits 2 3 @ post)
      (of_nat (length pre)) te sp mx d =
    Inr (foldl (\<lambda>d (s, t). add_template s t d) d (layers_of idcs sp te),
      of_nat (length pre + 2 * length idcs + 2), sp')"
  using assms
proof (induction idcs arbitrary: pre te sp mx d)
  case Nil
  then show ?case
    using read_two [of 3 pre post]
    by (subst template_layers_loop.simps) (simp add: Let_def)
next
  case (Cons c cs)
  let ?rest = "concat (map (to_bits 2) cs) @ to_bits 2 3 @ post" and ?pre = "pre @ to_bits 2 c"
  have r: "extractBits (pre @ to_bits 2 c @ ?rest) (of_nat (length pre)) 2 = Inr (of_nat c)"
    using Cons.prems by (intro read_two) auto
  have c: "c = 0 \<or> c = 1 \<or> c = 2"
    using Cons.prems(1) by auto
  have IH: "\<exists>sp'. template_layers_loop (pre @ to_bits 2 c @ ?rest) (of_nat (length pre) + 2) te sp mx d =
      Inr (foldl (\<lambda>d (s, t). add_template s t d) d (layers_of cs sp te),
        of_nat (length pre + 2 * length (c # cs) + 2), sp')" for te sp mx d
    using Cons.prems Cons.IH [of ?pre te sp mx d] by (simp add: add.commute add.left_commute)
  show ?case
    using c IH r Cons.prems(2)
    by (subst template_layers_loop.simps) (auto simp: Let_def simp del: of_nat_add)
qed

lemma foldl_add_template:
  assumes "templates d = tmap offs fs" and "template_id_offset d = of_nat offs"
    and "template_cnt d = of_nat (length fs)" and "offs + length fs + length ls < 2 ^ 32"
  shows "foldl (\<lambda>d (s, t). add_template s t d) d ls =
    d\<lparr> template_spatial_id := template_spatial_id d @ map fst ls,
      template_temporal_id := template_temporal_id d @ map snd ls,
      templates := tmap offs (fs @ map tmpl ls),
      template_cnt := of_nat (length fs + length ls) \<rparr>"
  using assms
proof (induction ls arbitrary: d fs)
  case (Cons l ls)
  obtain sp te where l: "l = (sp, te)" by fastforce
  have put: "omap_put (of_nat offs + of_nat (length fs)) (tmpl l) (tmap offs fs) = tmap offs (fs @ [tmpl l])"
    using tmap_put_new [of offs fs "tmpl l"] Cons.prems(4) by simp
  have "templates (add_template sp te d) = tmap offs (fs @ [tmpl l])"
    using Cons.prems put by (simp add: add_template_def tmpl_def l)
  moreover have "template_id_offset (add_template sp te d) = of_nat offs"
      "template_cnt (add_template sp te d) = of_nat (length (fs @ [tmpl l]))"
    using Cons.prems by (simp_all add: add_template_def)
  ultimately have "foldl (\<lambda>d (s, t). add_template s t d) (add_template sp te d) ls =
    (add_template sp te d)\<lparr> template_spatial_id := template_spatial_id (add_template sp te d) @ map fst ls,
      template_temporal_id := template_temporal_id (add_template sp te d) @ map snd ls,
      templates := tmap offs ((fs @ [tmpl l]) @ map tmpl ls),
      template_cnt := of_nat (length (fs @ [tmpl l]) + length ls) \<rparr>"
    using Cons.prems(4) by (intro Cons.IH) auto
  then show ?case
    by (simp add: l add_template_def)
qed simp

lemma push_dti_tmap:
  assumes "templates d = tmap offs fs" and "offs + length fs < 2 ^ 32" and "j < length fs"
  shows "push_dti (of_nat j + of_nat offs) t d = d\<lparr> templates := tmap offs (fs[j := add_dtis (fs ! j) [t]]) \<rparr>"
  using tmap_lookup [of offs fs j] tmap_put_upd [of offs fs j] assms
  by (simp add: push_dti_def add_dtis_def add.commute Let_def)

lemma dti_of_dti_num: "dti_of_num (dti_num t) = t" "dti_num t < 4"
  by (cases t; simp)+

lemma dti_row_reads:
  assumes "length js = length row" and "templates d = tmap offs fs" and "template_id_offset d = of_nat offs"
    and "offs + length fs < 2 ^ 32" and "j < length fs" and "length (pre @ row_bits row @ post) < 2 ^ 31"
  shows "rfold (\<lambda>dt_index (d, i).
         rbind (extractBits (pre @ row_bits row @ post) i 2) (\<lambda>v.
           Inr (push_dti (of_nat j + template_id_offset d) (dti_of_num (unat v)) d, i + 2))) js
       (d, of_nat (length pre)) =
     Inr (d\<lparr> templates := tmap offs (fs[j := add_dtis (fs ! j) row]) \<rparr>, of_nat (length pre + 2 * length row))"
  using assms
proof (induction row arbitrary: js d fs pre)
  case Nil
  then show ?case by (simp add: add_dtis_def)
next
  case (Cons t row)
  then obtain j0 js' where js: "js = j0 # js'" "length js' = length row"
    by (cases js) auto
  let ?fs = "fs[j := add_dtis (fs ! j) [t]]" and ?pre = "pre @ to_bits 2 (dti_num t)"
  have bits: "pre @ row_bits (t # row) @ post = ?pre @ row_bits row @ post"
    by (simp add: row_bits_def)
  have "extractBits (?pre @ row_bits row @ post) (of_nat (length pre)) 2 = Inr (of_nat (dti_num t))"
    using Cons.prems(6) dti_of_dti_num(2) [of t] read_two [of "dti_num t" pre "row_bits row @ post"]
    by (simp add: bits)
  moreover have "unat (of_nat (dti_num t) :: u32) = dti_num t"
    using dti_of_dti_num(2) [of t] by (intro unat_of_nat_eq) simp
  moreover have "push_dti (of_nat j + of_nat offs) t d = d\<lparr> templates := tmap offs ?fs \<rparr>"
    using Cons.prems by (intro push_dti_tmap) auto
  moreover have "rfold (\<lambda>dt_index (d, i).
         rbind (extractBits (?pre @ row_bits row @ post) i 2) (\<lambda>v.
           Inr (push_dti (of_nat j + template_id_offset d) (dti_of_num (unat v)) d, i + 2))) js'
       (d\<lparr> templates := tmap offs ?fs \<rparr>, of_nat (length ?pre)) =
     Inr ((d\<lparr> templates := tmap offs ?fs \<rparr>)\<lparr> templates := tmap offs (?fs[j := add_dtis (?fs ! j) row]) \<rparr>,
       of_nat (length ?pre + 2 * length row))"
    using Cons.prems js(2) by (intro Cons.IH) (auto simp: row_bits_def)
  ultimately show ?case
    using Cons.prems(3,5) by (simp add: js bits dti_of_dti_num add_dtis_def add.commute add.left_commute del: dti_of_num.simps)
qed

lemma dtis_read:
  assumes "length fs = j + length rows" and "\<forall>row \<in> set rows. length row = unat (dt_cnt d0)"
    and "templates d = tmap offs fs" and "template_id_offset d = of_nat offs"
    and "offs + length fs < 2 ^ 32" and "length (pre @ concat (map row_bits rows) @ post) < 2 ^ 31"
  shows "rfold (\<lambda>template_index.
       rfold (\<lambda>dt_index (d, i).
         rbind (extractBits (pre @ concat (map row_bits rows) @ post) i 2) (\<lambda>v.
           Inr (push_dti (of_nat template_index + template_id_offset d) (dti_of_num (unat v)) d, i + 2)))
         [0..<unat (dt_cnt d0)])
       [j..<j + length rows] (d, of_nat (length pre)) =
     Inr (d\<lparr> templates := tmap offs (take j fs @ map2 add_dtis (drop j fs) rows) \<rparr>,
       of_nat (length pre + length (concat (map row_bits rows))))"
  using assms
proof (induction rows arbitrary: j d fs pre)
  case (Cons row rows)
  let ?fs = "fs[j := add_dtis (fs ! j) row]" and ?pre = "pre @ row_bits row"
  let ?d = "d\<lparr> templates := tmap offs ?fs \<rparr>"
  have bits: "pre @ concat (map row_bits (row # rows)) @ post = pre @ row_bits row @ concat (map row_bits rows) @ post"
    by simp
  have row: "rfold (\<lambda>dt_index (d, i).
         rbind (extractBits (pre @ row_bits row @ concat (map row_bits rows) @ post) i 2) (\<lambda>v.
           Inr (push_dti (of_nat j + template_id_offset d) (dti_of_num (unat v)) d, i + 2)))
         [0..<unat (dt_cnt d0)] (d, of_nat (length pre)) =
       Inr (?d, of_nat (length pre + 2 * length row))"
    using Cons.prems by (intro dti_row_reads) auto
  have len: "length (row_bits row) = 2 * length row"
    by (induction row) (auto simp: row_bits_def)
  have rest: "rfold (\<lambda>template_index.
       rfold (\<lambda>dt_index (d, i).
         rbind (extractBits (?pre @ concat (map row_bits rows) @ post) i 2) (\<lambda>v.
           Inr (push_dti (of_nat template_index + template_id_offset d) (dti_of_num (unat v)) d, i + 2)))
         [0..<unat (dt_cnt d0)])
       [Suc j..<Suc j + length rows] (?d, of_nat (length ?pre)) =
     Inr (?d\<lparr> templates := tmap offs (take (Suc j) ?fs @ map2 add_dtis (drop (Suc j) ?fs) rows) \<rparr>,
       of_nat (length ?pre + length (concat (map row_bits rows))))"
    using Cons.prems by (intro Cons.IH) auto
  have fs: "take (Suc j) ?fs @ map2 add_dtis (drop (Suc j) ?fs) rows =
      take j fs @ map2 add_dtis (drop j fs) (row # rows)"
    using Cons.prems(1) by (simp add: take_Suc_conv_app_nth flip: Cons_nth_drop_Suc)
  have range: "[j..<j + length (row # rows)] = j # [Suc j..<Suc j + length rows]"
    by (simp add: upt_conv_Cons del: upt_Suc)
  show ?case
    unfolding bits range rfold.simps row rbind.simps
    using rest unfolding fs by (simp add: len del: rfold.simps dti_of_num.simps)
qed simp

lemma length_layers_of [simp]: "length (layers_of idcs sp te) = Suc (length idcs)"
  by (induction idcs arbitrary: sp te) auto

lemma template_structure_reads:
  assumes "offs < 64" and "1 \<le> dts" and "dts \<le> 30" and "\<forall>c \<in> set idcs. c < 3"
    and "length rows = Suc (length idcs)" and "\<forall>row \<in> set rows. length row = dts"
    and "length (pre @ tds_bits offs dts idcs rows @ post) < 2 ^ 31"
    and d: "templates d = []" "template_cnt d = 0"
  shows "\<exists>i. parse_template_dependency_structure (pre @ tds_bits offs dts idcs rows @ post) (of_nat (length pre)) d =
    Inr (d\<lparr> template_id_offset := of_nat offs, dt_cnt := of_nat dts,
      template_spatial_id := template_spatial_id d @ map fst (layers_of idcs 0 0),
      template_temporal_id := template_temporal_id d @ map snd (layers_of idcs 0 0),
      templates := tmap offs (map2 add_dtis (map tmpl (layers_of idcs 0 0)) rows),
      template_cnt := of_nat (length rows) \<rparr>, i)"
proof -
  let ?ls = "layers_of idcs 0 0" and ?lbits = "concat (map (to_bits 2) idcs)" and ?rbits = "concat (map row_bits rows)"
  let ?d1 = "d\<lparr> template_id_offset := of_nat offs, dt_cnt := of_nat dts \<rparr>"
  let ?d2 = "?d1\<lparr> template_spatial_id := template_spatial_id ?d1 @ map fst ?ls,
      template_temporal_id := template_temporal_id ?d1 @ map snd ?ls,
      templates := tmap offs ([] @ map tmpl ?ls), template_cnt := of_nat (length ([] :: frame_dependency_template list) + length ?ls) \<rparr>"
  define p6 where "p6 = pre @ to_bits 6 offs"
  define p11 where "p11 = p6 @ to_bits 5 (dts - 1)"
  define p2 where "p2 = p11 @ ?lbits @ to_bits 2 3"
  define bits where "bits = pre @ tds_bits offs dts idcs rows @ post"
  have len: "length (concat (map (to_bits 2) xs)) = 2 * length xs" for xs :: "nat list"
    by (induction xs) auto
  have total: "length bits < 2 ^ 31" using assms(7) by (simp add: bits_def)
  have b1: "bits = pre @ to_bits 6 offs @ to_bits 5 (dts - 1) @ ?lbits @ to_bits 2 3 @ ?rbits @ post"
    and b2: "bits = p6 @ to_bits 5 (dts - 1) @ ?lbits @ to_bits 2 3 @ ?rbits @ post"
    and b3: "bits = p11 @ ?lbits @ to_bits 2 3 @ ?rbits @ post"
    and b4: "bits = p2 @ ?rbits @ post"
    by (simp_all add: bits_def tds_bits_def p6_def p11_def p2_def)
  have pos: "of_nat (length pre) + 6 = (of_nat (length p6) :: u32)" "of_nat (length pre) + 11 = (of_nat (length p11) :: u32)"
      "of_nat (length p11 + 2 * length idcs + 2) = (of_nat (length p2) :: u32)"
    by (simp_all add: p6_def p11_def p2_def len)
  have r6: "extractBits bits (of_nat (length pre)) 6 = Inr (of_nat offs)"
    unfolding b1 using assms(1) total [unfolded b1] read_field [of offs 6 pre] by simp
  have r5: "extractBits bits (of_nat (length p6)) 5 = Inr (of_nat (dts - 1))"
    unfolding b2 using assms(3) total [unfolded b2] read_field [of "dts - 1" 5 p6] by simp
  have dt1: "of_nat (dts - 1) + 1 = (of_nat dts :: u32)"
    using assms(2) by simp
  obtain sp where "template_layers_loop bits (of_nat (length p11)) 0 0 0 ?d1 =
      Inr (foldl (\<lambda>d (s, t). add_template s t d) ?d1 ?ls, of_nat (length p11 + 2 * length idcs + 2), sp)"
    unfolding b3 using template_layers_loop_reads [OF assms(4) total [unfolded b3]] by blast
  moreover have "foldl (\<lambda>d (s, t). add_template s t d) ?d1 ?ls = ?d2"
    using assms(1) total d by (intro foldl_add_template) (auto simp: b3 len)
  ultimately have layers: "parse_template_layers bits (of_nat (length p11)) ?d1 = Inr (?d2, of_nat (length p2), sp)"
    by (simp only: parse_template_layers_def pos)
  have u: "unat (of_nat dts :: u32) = dts" "unat (of_nat (Suc (length idcs)) :: u32) = Suc (length idcs)"
    using assms(3) total by (intro unat_of_nat_eq; simp add: b3 len)+
  have "parse_template_dtis bits (of_nat (length p2)) ?d2 =
      Inr (?d2\<lparr> templates := tmap offs (take 0 (map tmpl ?ls) @ map2 add_dtis (drop 0 (map tmpl ?ls)) rows) \<rparr>,
        of_nat (length p2 + length ?rbits))"
    using dtis_read [of "map tmpl ?ls" 0 rows ?d2 ?d2 offs p2 post] assms(1,5,6) u total
    by (simp add: parse_template_dtis_def b4 p2_def p11_def p6_def len del: rfold.simps dti_of_num.simps of_nat_Suc)
  then show ?thesis
    unfolding bits_def [symmetric]
    by (simp add: parse_template_dependency_structure_def r6 pos r5 dt1 [unfolded One_nat_def] layers assms(5)
        del: of_nat_diff)
qed

lemma dependency_descriptor_reads:
  assumes "offs < 64" and "1 \<le> dts" and "dts \<le> 30" and "\<forall>c \<in> set idcs. c < 3"
    and "length rows = Suc (length idcs)" and "\<forall>row \<in> set rows. length row = dts"
    and buf: "bytes_bits buf = pre @ [True, a, b, c, e] @ tds_bits offs dts idcs rows @ post"
    and "length pre = 24" and "length buf < 2 ^ 28"
  shows "\<exists>d. DependencyDescriptor buf = Inr d \<and> template_dependency_structure_present_flag d \<and>
    template_id_offset d = of_nat offs \<and> dt_cnt d = of_nat dts \<and>
    template_cnt d = of_nat (length rows) \<and>
    active_decode_targets_bitmask d = mask dts \<and>
    templates d = tmap offs (map2 add_dtis (map tmpl (layers_of idcs 0 0)) rows)"

proof -
  let ?S = "tds_bits offs dts idcs rows"
  define p where "p = pre @ [True, a, b, c, e]"
  have bits: "bit_vector_from_bytes buf = p @ ?S @ post"
    using buf by (simp add: bit_vector_from_bytes_bits p_def)
  have lp: "length p = 29" using assms(8) by (simp add: p_def)
  have total: "length (p @ ?S @ post) = 8 * length buf"
    using buf by (simp add: p_def flip: length_bytes_bits)
  then have big: "3 < length buf"
    by (simp add: lp tds_bits_def)
  have fl: "(p @ ?S @ post) ! 24 = True" "(p @ ?S @ post) ! 25 = a" "(p @ ?S @ post) ! 26 = b"
      "(p @ ?S @ post) ! 27 = c" "(p @ ?S @ post) ! 28 = e"
    using assms(8) by (simp_all add: p_def nth_append)
  define d where "d = (dd_default buf)\<lparr> template_dependency_structure_present_flag := True,
      active_decode_targets_present_flag := a, custom_dtis_flag := b, custom_fdiffs_flag := c,
      custom_chains_flag := e \<rparr>"
  obtain i where st: "parse_template_dependency_structure (p @ ?S @ post) (of_nat (length p)) d =
    Inr (d\<lparr> template_id_offset := of_nat offs, dt_cnt := of_nat dts,
      template_spatial_id := template_spatial_id d @ map fst (layers_of idcs 0 0),
      template_temporal_id := template_temporal_id d @ map snd (layers_of idcs 0 0),
      templates := tmap offs (map2 add_dtis (map tmpl (layers_of idcs 0 0)) rows),
      template_cnt := of_nat (length rows) \<rparr>, i)"
    using template_structure_reads [of offs dts idcs rows p post d] assms total
    by (auto simp: d_def dd_default_def)
  have dts: "\<not> 31 \<le> (of_nat dts :: u32)" "unat (of_nat dts :: u32) = dts"
    using assms(3) by (simp_all add: word_le_nat_alt unat_of_nat_eq)
  show ?thesis
    using st [unfolded d_def lp] big assms(9) total dts
    by (simp add: DependencyDescriptor_def MandatoryFields_LEN_def parse_bytes_def Let_def bits fl
        parse_extended_descriptor_fields_def lp mask_eq_exp_minus_1 push_bit_eq_mult del: dti_of_num.simps)
qed

text \<open>The three-temporal-layer structure of the descriptors WebRTC clients send, at offset 5.\<close>

definition L1T3_rows :: "dti list list" where
  "L1T3_rows =
     [[switch_indication, switch_indication, switch_indication],
      [switch_indication, switch_indication, switch_indication],
      [not_present_indication, discardable_indication, switch_indication],
      [not_present_indication, not_present_indication, discardable_indication],
      [not_present_indication, not_present_indication, discardable_indication]]"

definition L1T3_example :: "byte list" where
  "L1T3_example = [0, 0, 0, 128, 162, 20, 234, 168, 96, 65]"

lemma length_L1T3_example: "length L1T3_example = 10"
  by (simp add: L1T3_example_def)

lemma L1T3_example_bits:
  "bytes_bits L1T3_example = replicate 24 False @ [True, False, False, False, False] @
    tds_bits 5 3 [0, 1, 1, 0]
     [[switch_indication, switch_indication, switch_indication],
      [switch_indication, switch_indication, switch_indication],
      [not_present_indication, discardable_indication, switch_indication],
      [not_present_indication, not_present_indication, discardable_indication],
      [not_present_indication, not_present_indication, discardable_indication]] @ []"
  by code_simp

text \<open>
  C19: the dependency descriptor parser decodes what the encoder of template dependency structures
  writes. For every descriptor with at least four bytes whose structure flag is set and whose
  structure announces offset, decode targets (at most 30), layer steps and indications, the
  constructor succeeds, and its object holds the offset, the decode target count, the bit mask of
  all decode targets, and one template per layer step plus one, under consecutive ids, with its
  spatial and temporal layer and its decode target indications.
\<close>

theorem dependency_descriptor_decodes:
  assumes "offs < 64" and "1 \<le> dts" and "dts \<le> 30" and "\<forall>c \<in> set idcs. c < 3"
    and "length rows = Suc (length idcs)" and "\<forall>row \<in> set rows. length row = dts"
    and buf: "bytes_bits buf = pre @ [True, a, b, c, e] @ tds_bits offs dts idcs rows @ post"
    and "length pre = 24" and "length buf < 2 ^ 28"
  shows "\<exists>d. DependencyDescriptor buf = Inr d \<and> template_dependency_structure_present_flag d \<and>
    template_id_offset d = of_nat offs \<and> dt_cnt d = of_nat dts \<and>
    template_cnt d = of_nat (length rows) \<and>
    active_decode_targets_bitmask d = mask dts \<and>
    templates d = tmap offs (map2 add_dtis (map tmpl (layers_of idcs 0 0)) rows)"

  using assms by (rule dependency_descriptor_reads)

theorem dependency_descriptor_decodes_witness:
  "\<exists>d. DependencyDescriptor L1T3_example = Inr d \<and> template_dependency_structure_present_flag d \<and>
    template_id_offset d = of_nat 5 \<and> dt_cnt d = of_nat 3 \<and>
    template_cnt d = of_nat (length L1T3_rows) \<and> active_decode_targets_bitmask d = mask 3 \<and>
    templates d = tmap 5 (map2 add_dtis (map tmpl (layers_of [0, 1, 1, 0] 0 0)) L1T3_rows)"
  by (rule dependency_descriptor_decodes
      [of 5 3 "[0, 1, 1, 0]" L1T3_rows L1T3_example "replicate 24 False" False False False False "[]"])
    (simp_all add: L1T3_rows_def L1T3_example_bits length_L1T3_example)

text \<open>The temporal layers of the five templates of an L1T3 stream, in the order of their ids.\<close>

lemma tmap_lookup_Some:
  "map_of (tmap offs fs) (of_nat tid) = Some f \<Longrightarrow> offs + length fs < 2 ^ 32 \<Longrightarrow> tid < 2 ^ 32 \<Longrightarrow>
   \<exists>k < length fs. tid = offs + k \<and> f = fs ! k"
proof (induction fs arbitrary: offs)
  case (Cons g fs)
  show ?case
  proof (cases "tid = offs")
    case True
    then show ?thesis using Cons.prems by (intro exI [of _ 0]) auto
  next
    case False
    then have "(of_nat tid :: u32) \<noteq> of_nat offs"
      using Cons.prems(2,3) unat_of_nat_eq [of tid, where 'a = 32] unat_of_nat_eq [of offs, where 'a = 32]
      by auto
    then have "map_of (tmap (Suc offs) fs) (of_nat tid) = Some f"
      using Cons.prems(1) by simp
    with Cons.IH [of "Suc offs"] Cons.prems obtain k where "k < length fs" "tid = Suc offs + k" "f = fs ! k"
      by auto
    then show ?thesis by (intro exI [of _ "Suc k"]) auto
  qed
qed simp

lemma L1T3_templates:
  assumes "map_of (tmap offs (map2 add_dtis (map tmpl (layers_of [0, 1, 1, 0] 0 0)) rows)) (of_nat tid) = Some f"
    and "offs < 64" and "tid < 2 ^ 32" and "length rows = 5"
  shows "\<exists>k < 5. tid = offs + k \<and> unat (temporal_layer_id f) = [0, 0, 1, 2, 2] ! k"
proof -
  let ?fs = "map2 add_dtis (map tmpl (layers_of [0, 1, 1, 0] 0 0)) rows"
  obtain k where k: "k < length ?fs" "tid = offs + k" "f = ?fs ! k"
    using tmap_lookup_Some [OF assms(1)] assms(2-4) by auto
  then have k5: "k < 5" using assms(4) by simp
  from k5 consider "k = 0" | "k = 1" | "k = 2" | "k = 3" | "k = 4" by linarith
  then have "unat (temporal_layer_id f) = [0, 0, 1, 2, 2] ! k"
    using k(3) assms(4) by cases (simp_all add: add_dtis_def tmpl_def)
  then show ?thesis using k k5 by auto
qed

text \<open>
  C21: on a stream whose descriptor announces the L1T3 structure at a template offset that is a multiple
  of five, the drop decision for a decode target and a template id is exactly the comparison of the
  template's temporal layer, as parsed from the descriptor, with the layers the target keeps.
\<close>

theorem L1T3_drop_by_temporal_layer:
  assumes "offs < 64" and "5 dvd offs" and "1 \<le> dts" and "dts \<le> 30" and "length rows = 5"
    and "\<forall>row \<in> set rows. length row = dts"
    and "bytes_bits buf = pre @ [True, a, b, c, e] @ tds_bits offs dts [0, 1, 1, 0] rows @ post"
    and "length pre = 24" and "length buf < 2 ^ 28"
  shows "\<exists>d. DependencyDescriptor buf = Inr d \<and>
    (\<forall>tid < 2 ^ 32. \<forall>f. map_of (templates d) (of_nat tid) = Some f \<longrightarrow>
      (L1T3_drop target tid \<longleftrightarrow> dt_num target < unat (temporal_layer_id f)))"
proof -
  obtain d where d: "DependencyDescriptor buf = Inr d"
      "templates d = tmap offs (map2 add_dtis (map tmpl (layers_of [0, 1, 1, 0] 0 0)) rows)"
    using dependency_descriptor_reads [of offs dts "[0, 1, 1, 0]" rows buf pre a b c e post] assms by auto
  have "L1T3_drop target tid \<longleftrightarrow> dt_num target < unat (temporal_layer_id f)"
    if t: "tid < 2 ^ 32" "map_of (templates d) (of_nat tid) = Some f" for tid f
  proof -
    obtain k where k: "k < 5" "tid = offs + k" "unat (temporal_layer_id f) = [0, 0, 1, 2, 2] ! k"
      using L1T3_templates [OF t(2) [unfolded d(2)] assms(1) t(1) assms(5)] by auto
    from k(1) consider "k = 0" | "k = 1" | "k = 2" | "k = 3" | "k = 4" by linarith
    moreover have "tid mod 5 = k" using k(1,2) assms(2) by auto
    ultimately show ?thesis using k(3) by cases (cases target; simp)+
  qed
  with d(1) show ?thesis by blast
qed

theorem L1T3_drop_by_temporal_layer_witness:
  "\<exists>d. DependencyDescriptor L1T3_example = Inr d \<and>
    (\<forall>tid < 2 ^ 32. \<forall>f. map_of (templates d) (of_nat tid) = Some f \<longrightarrow>
      (L1T3_drop mid tid \<longleftrightarrow> dt_num mid < unat (temporal_layer_id f)))"
  by (rule L1T3_drop_by_temporal_layer
      [of 5 3 L1T3_rows L1T3_example "replicate 24 False" False False False False "[]"])
    (simp_all add: L1T3_rows_def L1T3_example_bits length_L1T3_example)

text \<open>
  The offset matters: the templates of the same structure announced at offset 1 are misjudged, since
  the decision looks at the template id alone and not at its distance from the offset.
\<close>

lemma L1T3_drop_ignores_offset:
  "map_of (tmap 1 (map tmpl (layers_of [0, 1, 1, 0] 0 0))) 2 = Some (tmpl (0, 0)) \<and> L1T3_drop lo 2"
  by (simp add: tmpl_def)

section \<open>The remaining parser steps\<close>

text \<open>
  The steps below are members of the class whose calls are commented out; they are translated for
  completeness.
\<close>

definition parse_template_chains :: "bool list \<Rightarrow> u32 \<Rightarrow> dep_descriptor \<Rightarrow> (u32 \<times> u32) result" where
  "parse_template_chains bits i d =
     rbind (extractNonSymmetric bits i (dt_cnt d + 1)) (\<lambda>(chain_cnt, n).
       if chain_cnt = 0 then Inr (i + n, chain_cnt)
       else rbind (rfold (\<lambda>dt_index i. rbind (extractNonSymmetric bits i chain_cnt) (\<lambda>(v, n). Inr (i + n)))
              [0..<unat (dt_cnt d)] (i + n)) (\<lambda>i. Inr (i, chain_cnt)))"

definition decode_target_layer :: "dep_descriptor \<Rightarrow> nat \<Rightarrow> (u32 \<times> u32) result" where
  "decode_target_layer d dt_index =
     rfold (\<lambda>template_index (spatial_id, temporal_id).
       rbind (vec_at (template_dti d) template_index) (\<lambda>row.
       rbind (vec_at row dt_index) (\<lambda>t.
         if t = 0 then Inr (spatial_id, temporal_id)
         else rbind (vec_at (template_spatial_id d) template_index) (\<lambda>s.
              rbind (vec_at (template_temporal_id d) template_index) (\<lambda>te.
              Inr (if spatial_id < s then s else spatial_id, if temporal_id < te then te else temporal_id))))))
       [0..<unat (template_cnt d)] (0, 0)"

definition parse_decode_target_layers :: "bool list \<Rightarrow> u32 \<Rightarrow> dep_descriptor \<Rightarrow> (dep_descriptor \<times> u32) result" where
  "parse_decode_target_layers bits i d =
     rbind (rfold (\<lambda>dt_index d. rbind (decode_target_layer d dt_index) (\<lambda>(spatial_id, temporal_id).
         Inr (d\<lparr> decode_target_spatial_id := decode_target_spatial_id d @ [spatial_id],
                decode_target_temporal_id := decode_target_temporal_id d @ [temporal_id] \<rparr>)))
       [0..<unat (dt_cnt d)] d) (\<lambda>d. Inr (d, i))"

definition parse_render_resolutions :: "bool list \<Rightarrow> u32 \<Rightarrow> u32 \<Rightarrow> dep_descriptor \<Rightarrow> (dep_descriptor \<times> u32) result" where
  "parse_render_resolutions bits i max_spatial_id d =
     rfold (\<lambda>spatial_id (d, i).
       rbind (extractBits bits i 16) (\<lambda>w.
       rbind (extractBits bits (i + 16) 16) (\<lambda>h.
       Inr (d\<lparr> max_render_width_minus_one := max_render_width_minus_one d @ [w],
              max_render_height_minus_one := max_render_height_minus_one d @ [h] \<rparr>, i + 32))))
       [0..<unat max_spatial_id] (d, i)"

definition parse_frame_chains :: "bool list \<Rightarrow> u32 \<Rightarrow> u32 \<Rightarrow> u32" where
  "parse_frame_chains bits i chain_cnt = fold (\<lambda>chain_index i. i + 4) [0..<unat chain_cnt] i"

definition parse_frame_dependency_definition :: "bool list \<Rightarrow> u32 \<Rightarrow> dep_descriptor \<Rightarrow> u32 result" where
  "parse_frame_dependency_definition bits i d =
     rbind (templateId (dd_mandatoryFields d)) (\<lambda>tid.
       let template_index = (tid + 64 - template_id_offset d) mod 64 in
       if template_cnt d < template_index
       then Inl (Logic_error ''_parse_frame_dependency_definition: template_index < template_cnt'')
       else
         rbind (vec_at (template_spatial_id d) (unat template_index)) (\<lambda>frame_spatial_id.
         rbind (vec_at (template_temporal_id d) (unat template_index)) (\<lambda>frame_temporal_id.
         if custom_dtis_flag d then Inl (Logic_error ''_custom_dtis_flag: not supported'')
         else if custom_fdiffs_flag d then Inl (Logic_error ''_custom_fdiffs_flag: not supported'')
         else if custom_chains_flag d then Inl (Logic_error ''_custom_chains_flag: not supported'')
         else if resolutions_present_flag d then
           rbind (vec_at (max_render_width_minus_one d) (unat frame_spatial_id)) (\<lambda>w.
           rbind (vec_at (max_render_height_minus_one d) (unat frame_spatial_id)) (\<lambda>h. Inr i))
         else Inr i)))"

text \<open>A single chain cannot be read: its range has one value (see \<open>extractNonSymmetric_range_one\<close>).\<close>

lemma single_chain_fails:
  assumes "extractNonSymmetric bits i (dt_cnt d + 1) = Inr (1, n)" and "0 < dt_cnt d"
  shows "\<not> is_ok (parse_template_chains bits i d)"
proof -
  have "[0..<unat (dt_cnt d)] = 0 # [1..<unat (dt_cnt d)]"
    using assms(2) by (simp add: upt_conv_Cons word_less_nat_alt)
  moreover obtain x where "extractNonSymmetric bits (i + n) 1 = Inl x"
    using extractNonSymmetric_range_one [of bits "i + n"] by (cases "extractNonSymmetric bits (i + n) 1") auto
  ultimately show ?thesis
    using assms(1) by (simp add: parse_template_chains_def)
qed

text \<open>
  The bound on the template index admits the index one past the last template, which the step then
  uses to read the layer vectors.
\<close>

lemma frame_definition_reads_past_end:
  assumes "templateId (dd_mandatoryFields d) = Inr tid"
    and "(tid + 64 - template_id_offset d) mod 64 = template_cnt d"
    and "length (template_spatial_id d) = unat (template_cnt d)"
  shows "parse_frame_dependency_definition bits i d = Inl (Undefined_behaviour ''operator[] out of range'')"
  using assms by (simp add: parse_frame_dependency_definition_def vec_at_def)

end
