(* ===== verification/Sequence_Rewriter.thy ===== *)
theory Sequence_Rewriter
  imports Prelude
begin

text \<open>
  \<open>lib/sequence_rewriter.{h,cc}\<close>: the per-receiver heuristic that renumbers RTP packets after
  the data plane has dropped the packets of some AV1 frames. The state is the record
  \<open>seqrw\<close>; \<open>rw_first\<close> to \<open>rw_past\<close> are the five branches of \<open>operator()(const Pkt&)\<close> in
  source order, \<open>rewrite\<close> the whole operator. Sequence and frame numbers are 16-bit, the
  drop counter and the result are \<open>unsigned\<close> (32-bit); C++'s promotion of 16-bit operands
  to \<open>int\<close> is visible where frame numbers are compared (\<open>unat\<close>).

  The lemmas show when a packet is given a number at all, and that on a loss-free, in-order
  stream the heuristic agrees with the reference \<open>ideal\<close>, which subtracts the number of
  packets dropped so far: what is forwarded is numbered without gaps.
\<close>

section \<open>Data\<close>

datatype mark = Mark_start | Mark_inter | Mark_end

record sim =
  lost :: bool
  expectedSequenceNumber :: "u32 option"

record pkt =
  p_frame :: u16
  p_seq :: u16
  p_mark :: mark
  p_drop :: bool
  p_sim :: "sim option"

record seqrw =
  dropCount :: u32
  maxFrame :: u16
  dropMaxFrame :: bool
  maxFrameStartSeq :: u16
  maxFrameMaxSeq :: u16
  maxFrameEndSeen :: bool
  maxDropFrame :: u16
  dropWhenUnsure :: bool

definition SKIP_CADENCE :: u32 where
  "SKIP_CADENCE = 2"

definition seqrw_init :: seqrw where
  "seqrw_init = \<lparr>dropCount = 0, maxFrame = 0, dropMaxFrame = False, maxFrameStartSeq = 0,
     maxFrameMaxSeq = 0, maxFrameEndSeen = False, maxDropFrame = 0, dropWhenUnsure = False\<rparr>"

definition markFromAV1FrameFlags :: "bool \<Rightarrow> bool \<Rightarrow> mark" where
  "markFromAV1FrameFlags start end' =
     (let m = Mark_inter;
          m = (if start then Mark_start else m);
          m = (if end' then Mark_end else m)
      in m)"

section \<open>The rewriting operator\<close>

definition rw_first :: "pkt \<Rightarrow> seqrw \<Rightarrow> u32 option \<times> seqrw" where
  "rw_first p r =
     (let r = r\<lparr>maxFrame := p_frame p, dropMaxFrame := p_drop p,
                maxFrameStartSeq := (if p_mark p = Mark_start then p_seq p else p_seq p - 1),
                maxFrameMaxSeq := (if p_mark p = Mark_end then p_seq p else p_seq p + 1)\<rparr>;
          out = (if \<not> p_drop p then Some (ucast (p_seq p)) else None);
          r = (if p_drop p \<and> p_mark p = Mark_end then r\<lparr>dropCount := 2\<rparr> else r);
          r = (if p_mark p = Mark_end then r\<lparr>maxFrameEndSeen := True\<rparr> else r)
      in (out, r))"

definition rw_same :: "pkt \<Rightarrow> seqrw \<Rightarrow> u32 option \<times> seqrw" where
  "rw_same p r =
     (let r = (if p_mark p = Mark_start then r\<lparr>maxFrameStartSeq := p_seq p\<rparr>
               else if p_seq p = maxFrameStartSeq r then r\<lparr>maxFrameStartSeq := p_seq p - 1\<rparr>
               else r);
          r = (if p_mark p = Mark_end then r\<lparr>maxFrameMaxSeq := p_seq p\<rparr>
               else if \<not> maxFrameEndSeen r then r\<lparr>maxFrameMaxSeq := p_seq p + 1\<rparr>
               else r);
          out = (if \<not> p_drop p then Some (ucast (p_seq p) - dropCount r) else None);
          r = (if p_drop p \<and> p_mark p = Mark_end
               then r\<lparr>dropCount := dropCount r + (ucast (p_seq p) - ucast (maxFrameStartSeq r) + 1)\<rparr>
               else r);
          r = (if p_mark p = Mark_end then r\<lparr>maxFrameEndSeen := True\<rparr> else r)
      in (out, r))"

definition rw_next :: "pkt \<Rightarrow> seqrw \<Rightarrow> u32 option \<times> seqrw" where
  "rw_next p r =
     (let r = r\<lparr>maxFrame := p_frame p\<rparr>;
          r = (if dropMaxFrame r \<and> \<not> maxFrameEndSeen r
               then r\<lparr>dropCount := dropCount r +
                       (if p_mark p = Mark_start
                        then ucast (p_seq p) - ucast (maxFrameStartSeq r) else 3)\<rparr>
               else if p_drop p \<and> p_mark p = Mark_end
               then r\<lparr>dropCount := dropCount r +
                       (if maxFrameEndSeen r
                        then ucast (p_seq p) - ucast (maxFrameMaxSeq r) else 2)\<rparr>
               else r);
          r = r\<lparr>dropMaxFrame := p_drop p,
                maxFrameStartSeq := (if p_mark p = Mark_start then p_seq p else p_seq p - 1),
                maxFrameMaxSeq := (if p_mark p = Mark_end then p_seq p else p_seq p + 1)\<rparr>;
          out = (if \<not> p_drop p then Some (ucast (p_seq p) - dropCount r) else None);
          r = r\<lparr>maxFrameEndSeen := (p_mark p = Mark_end)\<rparr>
      in (out, r))"

definition rw_skip :: "pkt \<Rightarrow> seqrw \<Rightarrow> u32 option \<times> seqrw" where
  "rw_skip p r =
     (let r = (if \<not> dropMaxFrame r \<and> \<not> p_drop p
                  \<and> SKIP_CADENCE \<le> ucast (p_frame p) - ucast (maxFrame r) + 1
               then r\<lparr>dropCount := dropCount r + 2\<rparr> else r);
          r = r\<lparr>maxFrame := p_frame p\<rparr>;
          r = (if dropMaxFrame r \<and> \<not> maxFrameEndSeen r
               then r\<lparr>dropCount := dropCount r +
                        (ucast (maxFrameMaxSeq r) - ucast (maxFrameStartSeq r))\<rparr>
               else r);
          r = r\<lparr>dropMaxFrame := p_drop p\<rparr>;
          r = (if p_mark p = Mark_start then r\<lparr>maxFrameStartSeq := p_seq p\<rparr>
               else if p_seq p = maxFrameStartSeq r then r\<lparr>maxFrameStartSeq := p_seq p - 1\<rparr>
               else if p_mark p = Mark_inter then r\<lparr>maxFrameStartSeq := p_seq p - 1\<rparr>
               else if p_mark p = Mark_end then r\<lparr>maxFrameStartSeq := p_seq p - 2\<rparr>
               else r);
          r = r\<lparr>maxFrameMaxSeq := (if p_mark p = Mark_end then p_seq p else p_seq p + 1)\<rparr>;
          out = (if \<not> p_drop p then Some (ucast (p_seq p) - dropCount r) else None);
          r = (if p_drop p \<and> p_mark p = Mark_end
               then r\<lparr>dropCount := dropCount r + 2\<rparr> else r);
          r = r\<lparr>maxFrameEndSeen := (p_mark p = Mark_end)\<rparr>
      in (out, r))"

definition rw_past :: "pkt \<Rightarrow> seqrw \<Rightarrow> u32 option \<times> seqrw" where
  "rw_past p r =
     (let out =
        (if p_drop p then None
         else if unat (p_frame p) + 1 = unat (maxFrame r) then
           (if \<not> dropMaxFrame r then Some (ucast (p_seq p) - dropCount r)
            else if \<not> maxFrameEndSeen r then Some (ucast (p_seq p) - dropCount r)
            else Some (ucast (p_seq p) - (dropCount r
                   - (ucast (maxFrameMaxSeq r) - ucast (maxFrameStartSeq r) + 1))))
         else if maxDropFrame r < p_frame p then Some (ucast (p_seq p) - dropCount r)
         else if dropWhenUnsure r then None
         else Some (ucast (p_seq p) - dropCount r))
      in (out, r))"

definition adjustMaxDropFrame :: "pkt \<Rightarrow> seqrw \<Rightarrow> seqrw" where
  "adjustMaxDropFrame p r =
     (if p_drop p then r\<lparr>maxDropFrame := max (p_frame p) (maxDropFrame r)\<rparr> else r)"

definition rewrite :: "pkt \<Rightarrow> seqrw \<Rightarrow> u32 option \<times> seqrw" where
  "rewrite p r =
     (if (case p_sim p of Some s \<Rightarrow> lost s | None \<Rightarrow> False) then (None, r)
      else
        let (out, r) =
          (if 1 < unat (p_frame p) \<and> maxFrame r = 0 then rw_first p r
           else if p_frame p = maxFrame r then rw_same p r
           else if unat (p_frame p) = unat (maxFrame r) + 1 then rw_next p r
           else if unat (maxFrame r) + 1 < unat (p_frame p) then rw_skip p r
           else if p_frame p < maxFrame r then rw_past p r
           else (None, r))
        in (out, adjustMaxDropFrame p r))"

definition rewrite_flags :: "u16 \<Rightarrow> u16 \<Rightarrow> bool \<Rightarrow> bool \<Rightarrow> bool \<Rightarrow> seqrw \<Rightarrow> u32 option \<times> seqrw"
  where
  "rewrite_flags frame sq startOfFrame endOfFrame drp r =
     rewrite \<lparr>p_frame = frame, p_seq = sq,
              p_mark = markFromAV1FrameFlags startOfFrame endOfFrame,
              p_drop = drp, p_sim = None\<rparr> r"

fun rewrite_all :: "pkt list \<Rightarrow> seqrw \<Rightarrow> u32 option list \<times> seqrw" where
  "rewrite_all [] r = ([], r)"
| "rewrite_all (p # ps) r =
     (let (x, r) = rewrite p r; (xs, r) = rewrite_all ps r in (x # xs, r))"

lemmas rw_branch_defs = rw_first_def rw_same_def rw_next_def rw_skip_def rw_past_def

section \<open>Which packets get a number\<close>

definition sim_lost :: "pkt \<Rightarrow> bool" where
  "sim_lost p \<longleftrightarrow> (\<exists>s. p_sim p = Some s \<and> lost s)"

lemma rewrite_frame_cases:
  fixes f m :: u16
  obtains "f = m" | "unat f = unat m + 1" | "unat m + 1 < unat f" | "f < m"
proof -
  consider "unat f = unat m" | "unat f = unat m + 1" | "unat m + 1 < unat f" | "unat f < unat m"
    by linarith
  then show thesis
    by cases (simp_all add: that word_less_nat_alt word_unat_eq_iff)
qed

lemma rw_branch_dropWhenUnsure [simp]:
  "dropWhenUnsure (snd (rw_first p r)) = dropWhenUnsure r"
  "dropWhenUnsure (snd (rw_same p r)) = dropWhenUnsure r"
  "dropWhenUnsure (snd (rw_next p r)) = dropWhenUnsure r"
  "dropWhenUnsure (snd (rw_skip p r)) = dropWhenUnsure r"
  "dropWhenUnsure (snd (rw_past p r)) = dropWhenUnsure r"
  by (simp_all add: rw_branch_defs Let_def)

lemma rw_branch_result:
  "fst (rw_first p r) = None \<longleftrightarrow> p_drop p"
  "fst (rw_same p r) = None \<longleftrightarrow> p_drop p"
  "fst (rw_next p r) = None \<longleftrightarrow> p_drop p"
  "fst (rw_skip p r) = None \<longleftrightarrow> p_drop p"
  "\<not> dropWhenUnsure r \<Longrightarrow> fst (rw_past p r) = None \<longleftrightarrow> p_drop p"
  by (simp_all add: rw_branch_defs Let_def)

lemma adjustMaxDropFrame_frame [simp]:
  "dropCount (adjustMaxDropFrame p r) = dropCount r"
  "maxFrame (adjustMaxDropFrame p r) = maxFrame r"
  "maxFrameStartSeq (adjustMaxDropFrame p r) = maxFrameStartSeq r"
  "maxFrameMaxSeq (adjustMaxDropFrame p r) = maxFrameMaxSeq r"
  "maxFrameEndSeen (adjustMaxDropFrame p r) = maxFrameEndSeen r"
  "dropMaxFrame (adjustMaxDropFrame p r) = dropMaxFrame r"
  "dropWhenUnsure (adjustMaxDropFrame p r) = dropWhenUnsure r"
  by (simp_all add: adjustMaxDropFrame_def)

text \<open>Which branch is taken, from how the packet's frame relates to the newest frame seen.\<close>

lemma rewrite_dispatch:
  assumes "\<not> sim_lost p"
  shows "1 < unat (p_frame p) \<Longrightarrow> maxFrame r = 0 \<Longrightarrow>
      rewrite p r = apsnd (adjustMaxDropFrame p) (rw_first p r)"
    and "p_frame p = maxFrame r \<Longrightarrow> rewrite p r = apsnd (adjustMaxDropFrame p) (rw_same p r)"
    and "unat (p_frame p) = unat (maxFrame r) + 1 \<Longrightarrow>
      rewrite p r = apsnd (adjustMaxDropFrame p) (rw_next p r)"
    and "unat (maxFrame r) + 1 < unat (p_frame p) \<Longrightarrow> maxFrame r \<noteq> 0 \<Longrightarrow>
      rewrite p r = apsnd (adjustMaxDropFrame p) (rw_skip p r)"
    and "p_frame p < maxFrame r \<Longrightarrow> rewrite p r = apsnd (adjustMaxDropFrame p) (rw_past p r)"
  using assms
  by (auto simp: rewrite_def sim_lost_def Let_def split_beta apsnd_def word_less_nat_alt
      word_unat_eq_iff prod_eq_iff split: option.split)

lemma rewrite_dropWhenUnsure [simp]: "dropWhenUnsure (snd (rewrite p r)) = dropWhenUnsure r"
  by (simp add: rewrite_def Let_def split_beta split: option.split)

lemma rewrite_None_iff:
  assumes "\<not> dropWhenUnsure r"
  shows "fst (rewrite p r) = None \<longleftrightarrow> p_drop p \<or> sim_lost p"
proof -
  have "sim_lost p \<longleftrightarrow> (case p_sim p of Some s \<Rightarrow> lost s | None \<Rightarrow> False)"
    by (auto simp: sim_lost_def split: option.split)
  then show ?thesis
    using rw_branch_result [where p = p and r = r] assms
    by (cases rule: rewrite_frame_cases [of "p_frame p" "maxFrame r"])
      (auto simp: rewrite_def Let_def split_beta word_less_nat_alt)
qed

lemma rewrite_all_None_iff:
  assumes "rewrite_all ps r = (outs, r')" and "\<not> dropWhenUnsure r"
  shows "list_all2 (\<lambda>p out. out = None \<longleftrightarrow> p_drop p \<or> sim_lost p) ps outs"
  using assms
proof (induction ps arbitrary: r outs)
  case (Cons p ps)
  then show ?case
    using rewrite_None_iff [of r p] rewrite_dropWhenUnsure [of p r]
    by (auto simp: Let_def split_beta)
qed simp

section \<open>The reference: subtract what has been dropped\<close>

fun ideal :: "nat \<Rightarrow> pkt list \<Rightarrow> u16 option list" where
  "ideal k [] = []"
| "ideal k (p # ps) =
     (if p_drop p then None # ideal (Suc k) ps
      else Some (p_seq p - of_nat k) # ideal k ps)"

text \<open>
  A loss-free, in-order stream: frame \<open>f\<close> consists of \<open>n\<close> packets numbered from \<open>s\<close>, the
  first flagged start of frame, the last end of frame; a stream is a list of frames, each
  given by whether it is dropped for the receiver and its number of packets.
\<close>

definition av1_pkt :: "u16 \<Rightarrow> u16 \<Rightarrow> bool \<Rightarrow> nat \<Rightarrow> nat \<Rightarrow> pkt" where
  "av1_pkt f s d n i = \<lparr>p_frame = f, p_seq = s + of_nat i,
     p_mark = markFromAV1FrameFlags (i = 0) (Suc i = n), p_drop = d, p_sim = None\<rparr>"

definition frame_pkts :: "u16 \<Rightarrow> u16 \<Rightarrow> bool \<Rightarrow> nat \<Rightarrow> pkt list" where
  "frame_pkts f s d n = map (av1_pkt f s d n) [0..<n]"

fun stream_pkts :: "u16 \<Rightarrow> u16 \<Rightarrow> (bool \<times> nat) list \<Rightarrow> pkt list" where
  "stream_pkts f s [] = []"
| "stream_pkts f s ((d, n) # fs) = frame_pkts f s d n @ stream_pkts (f + 1) (s + of_nat n) fs"

definition frame_out :: "u16 \<Rightarrow> bool \<Rightarrow> nat \<Rightarrow> nat \<Rightarrow> u16 option" where
  "frame_out s d k i = (if d then None else Some (s + of_nat i - of_nat k))"

definition narrow :: "u32 option list \<Rightarrow> u16 option list" where
  "narrow outs = map (map_option ucast) outs"

lemma narrow_simps [simp]:
  "narrow [] = []" "narrow (x # xs) = map_option ucast x # narrow xs"
  "narrow (xs @ ys) = narrow xs @ narrow ys"
  by (simp_all add: narrow_def)

lemma ideal_frame_from:
  "i \<le> n \<Longrightarrow> ideal (if d then k + i else k) (map (av1_pkt f s d n) [i..<n] @ ps) =
     map (frame_out s d k) [i..<n] @ ideal (if d then k + n else k) ps"
proof (induction "n - i" arbitrary: i)
  case (Suc m)
  then have "[i..<n] = i # [Suc i..<n]" by (simp add: upt_conv_Cons)
  moreover have "ideal (if d then k + Suc i else k) (map (av1_pkt f s d n) [Suc i..<n] @ ps) =
      map (frame_out s d k) [Suc i..<n] @ ideal (if d then k + n else k) ps"
    using Suc by (intro Suc.hyps) auto
  ultimately show ?case
    by (cases d) (simp_all add: av1_pkt_def frame_out_def)
qed simp

lemma ideal_frame:
  "ideal k (frame_pkts f s d n @ ps) =
     map (frame_out s d k) [0..<n] @ ideal (if d then k + n else k) ps"
  using ideal_frame_from [of 0 n d k f s ps] by (simp add: frame_pkts_def split: if_splits)

lemma rewrite_all_append:
  "rewrite_all (ps @ qs) r =
     (let (xs, r) = rewrite_all ps r; (ys, r) = rewrite_all qs r in (xs @ ys, r))"
  by (induction ps arbitrary: r) (auto simp: Let_def split_beta)

section \<open>One frame at a time\<close>

text \<open>
  The rewriter's view after some but not all packets of frame \<open>f\<close> (which started at \<open>s\<close>),
  and between frames, with \<open>s\<close> the next sequence number; \<open>k\<close> packets have been dropped in
  the frames before.
\<close>

definition in_frame :: "u16 \<Rightarrow> u16 \<Rightarrow> nat \<Rightarrow> seqrw \<Rightarrow> bool" where
  "in_frame f s k r \<longleftrightarrow> maxFrame r = f \<and> maxFrameStartSeq r = s \<and> \<not> maxFrameEndSeen r
     \<and> (ucast (dropCount r) :: u16) = of_nat k"

definition at_boundary :: "u16 \<Rightarrow> u16 \<Rightarrow> nat \<Rightarrow> seqrw \<Rightarrow> bool" where
  "at_boundary f s k r \<longleftrightarrow> maxFrame r = f \<and> maxFrameEndSeen r \<and> maxFrameMaxSeq r = s - 1
     \<and> (ucast (dropCount r) :: u16) = of_nat k"

lemma of_nat16_neq_0: "0 < i \<Longrightarrow> i < 65536 \<Longrightarrow> (of_nat i :: u16) \<noteq> 0"
  by (simp add: word_of_nat_eq_0_iff) (auto dest: dvd_imp_le)

lemma av1_pkt_sel [simp]:
  "p_frame (av1_pkt f s d n i) = f" "p_seq (av1_pkt f s d n i) = s + of_nat i"
  "p_drop (av1_pkt f s d n i) = d" "\<not> sim_lost (av1_pkt f s d n i)"
  "p_mark (av1_pkt f s d n i) =
     (if Suc i = n then Mark_end else if i = 0 then Mark_start else Mark_inter)"
  by (auto simp: av1_pkt_def sim_lost_def markFromAV1FrameFlags_def)

lemma rewrite_in_frame:
  assumes "in_frame f s k r" and "0 < i" and "Suc i \<le> n" and "n < 65536"
    and "rewrite (av1_pkt f s d n i) r = (out, r')"
  shows "map_option ucast out = frame_out s d k i"
    and "Suc i < n \<Longrightarrow> in_frame f s k r'"
    and "Suc i = n \<Longrightarrow> at_boundary f (s + of_nat n) (if d then k + n else k) r'"
proof -
  have r: "maxFrame r = f" "maxFrameStartSeq r = s" "\<not> maxFrameEndSeen r"
      "(ucast (dropCount r) :: u16) = of_nat k"
    using assms(1) by (simp_all add: in_frame_def)
  have step: "(out, r') = apsnd (adjustMaxDropFrame (av1_pkt f s d n i)) (rw_same (av1_pkt f s d n i) r)"
    using assms(5) rewrite_dispatch(2) [of "av1_pkt f s d n i" r] r by simp
  have i: "(of_nat i :: u16) \<noteq> 0"
    using assms by (intro of_nat16_neq_0) auto
  show "map_option ucast out = frame_out s d k i"
    using step r by (simp add: rw_same_def Let_def frame_out_def ucast16_arith split: if_splits)
  show "in_frame f s k r'" if "Suc i < n"
    using step r that i assms(2)
    by (simp add: rw_same_def Let_def in_frame_def split: if_splits)
  show "at_boundary f (s + of_nat n) (if d then k + n else k) r'" if "Suc i = n"
    using step r i assms(2) that [symmetric]
    by (simp add: rw_same_def Let_def at_boundary_def ucast16_arith algebra_simps split: if_splits)
qed

lemma rewrite_all_in_frame:
  assumes "in_frame f s k r" and "0 < i" and "i < n" and "n < 65536"
    and "rewrite_all (map (av1_pkt f s d n) [i..<n]) r = (outs, r')"
  shows "narrow outs = map (frame_out s d k) [i..<n] \<and>
     at_boundary f (s + of_nat n) (if d then k + n else k) r'"
  using assms
proof (induction "n - i" arbitrary: i r outs)
  case (Suc m)
  obtain x r1 where step: "rewrite (av1_pkt f s d n i) r = (x, r1)"
    by fastforce
  note one = rewrite_in_frame [OF Suc.prems(1,2) _ Suc.prems(4) step]
  have upt: "[i..<n] = i # [Suc i..<n]"
    using Suc.prems(3) by (simp add: upt_conv_Cons)
  show ?case
  proof (cases "Suc i = n")
    case True
    with Suc.prems step one upt show ?thesis by auto
  next
    case False
    with Suc.prems(3) have less: "Suc i < n" by simp
    obtain xs where xs: "outs = x # xs"
        "rewrite_all (map (av1_pkt f s d n) [Suc i..<n]) r1 = (xs, r')"
      using Suc.prems(5) step upt by (auto simp: Let_def split_beta)
    have "narrow xs = map (frame_out s d k) [Suc i..<n] \<and>
        at_boundary f (s + of_nat n) (if d then k + n else k) r'"
      by (rule Suc.hyps(1)) (use Suc.hyps(2) Suc.prems(4) one less xs in auto)
    with xs upt one Suc.prems show ?thesis by simp
  qed
qed simp

text \<open>
  A whole frame, once its first packet has been classified: one packet only, or a first
  packet that leaves the rewriter inside the frame.
\<close>

lemma rewrite_frame:
  assumes first: "rewrite (av1_pkt f s d n 0) r = (x, r1)"
    and out: "map_option ucast x = frame_out s d k 0"
    and single: "n = 1 \<Longrightarrow> at_boundary f (s + 1) (if d then k + 1 else k) r1"
    and multi: "1 < n \<Longrightarrow> in_frame f s k r1"
    and n: "0 < n" "n < 65536"
    and run: "rewrite_all (frame_pkts f s d n) r = (outs, r')"
  shows "narrow outs = map (frame_out s d k) [0..<n] \<and>
     at_boundary f (s + of_nat n) (if d then k + n else k) r'"
proof (cases "n = 1")
  case True
  with first out single run show ?thesis
    by (auto simp: frame_pkts_def)
next
  case False
  with n have n1: "1 < n" by simp
  have upt: "[0..<n] = 0 # [1..<n]"
    using n by (simp add: upt_conv_Cons)
  obtain xs where xs: "outs = x # xs" "rewrite_all (map (av1_pkt f s d n) [1..<n]) r1 = (xs, r')"
    using run first upt by (auto simp: frame_pkts_def Let_def split_beta)
  have "narrow xs = map (frame_out s d k) [1..<n] \<and>
      at_boundary f (s + of_nat n) (if d then k + n else k) r'"
    by (rule rewrite_all_in_frame [OF multi [OF n1] _ _ n(2) xs(2)]) (use n1 in auto)
  with xs upt out show ?thesis by simp
qed

lemma rewrite_frame_from_boundary:
  assumes b: "at_boundary f s k r" and f: "unat f < 65535" and n: "0 < n" "n < 65536"
    and run: "rewrite_all (frame_pkts (f + 1) s d n) r = (outs, r')"
  shows "narrow outs = map (frame_out s d k) [0..<n] \<and>
     at_boundary (f + 1) (s + of_nat n) (if d then k + n else k) r'"
proof -
  let ?p = "av1_pkt (f + 1) s d n 0"
  have r: "maxFrame r = f" "maxFrameEndSeen r" "maxFrameMaxSeq r = s - 1"
      "(ucast (dropCount r) :: u16) = of_nat k"
    using b by (simp_all add: at_boundary_def)
  have "unat (f + 1) = unat f + 1"
    using f by (simp add: unat_word_ariths)
  then have eq: "rewrite ?p r = apsnd (adjustMaxDropFrame ?p) (rw_next ?p r)"
    using r by (intro rewrite_dispatch(3)) simp_all
  obtain x r1 where step: "rewrite ?p r = (x, r1)" by fastforce
  show ?thesis
  proof (rule rewrite_frame [OF step _ _ _ n run])
    show "map_option ucast x = frame_out s d k 0"
      using step eq r
      by (auto simp: rw_next_def Let_def frame_out_def ucast16_arith split: if_splits)
    show "at_boundary (f + 1) (s + 1) (if d then k + 1 else k) r1" if "n = 1"
      using step eq r that
      by (auto simp: rw_next_def Let_def at_boundary_def ucast16_arith split: if_splits)
    show "in_frame (f + 1) s k r1" if "1 < n"
      using step eq r that by (auto simp: rw_next_def Let_def in_frame_def split: if_splits)
  qed
qed

text \<open>
  The first packet of a stream, whose frame number is at least 1; frame 1 takes another branch with the same effect.
  The rewriter does not know how the frame of the first packet started and counts two packets when that packet
  ends a dropped frame, so that it counts one too many for a dropped frame of one packet.
\<close>

fun overcount :: "(bool \<times> nat) list \<Rightarrow> nat" where
  "overcount ((d, n) # fs) = (if d \<and> n = 1 then 1 else 0)"
| "overcount [] = 0"

lemma rewrite_init:
  assumes "0 < unat f"
  shows "rewrite (av1_pkt f s d n 0) seqrw_init = apsnd (adjustMaxDropFrame (av1_pkt f s d n 0)) (rw_first (av1_pkt f s d n 0) seqrw_init)"
proof (cases "unat f = 1")
  case True
  then have "rewrite (av1_pkt f s d n 0) seqrw_init = apsnd (adjustMaxDropFrame (av1_pkt f s d n 0)) (rw_next (av1_pkt f s d n 0) seqrw_init)"
    by (intro rewrite_dispatch(3)) (simp_all add: seqrw_init_def)
  also have "rw_next (av1_pkt f s d n 0) seqrw_init = rw_first (av1_pkt f s d n 0) seqrw_init"
    by (simp add: rw_next_def rw_first_def seqrw_init_def Let_def)
  finally show ?thesis .
next
  case False
  then show ?thesis using assms by (intro rewrite_dispatch(1)) (simp_all add: seqrw_init_def)
qed

lemma rewrite_frame_from_init:
  assumes f: "0 < unat f" and n: "0 < n" "n < 65536" and k: "k = overcount [(d, n)]"
    and run: "rewrite_all (frame_pkts f s d n) seqrw_init = (outs, r')"
  shows "narrow outs = map (frame_out s d k) [0..<n] \<and>
     at_boundary f (s + of_nat n) (if d then k + n else k) r'"
proof -
  note eq = rewrite_init [OF f, of s d n]
  obtain x r1 where step: "rewrite (av1_pkt f s d n 0) seqrw_init = (x, r1)" by fastforce
  show ?thesis
  proof (rule rewrite_frame [OF step _ _ _ n run])
    show "map_option ucast x = frame_out s d k 0"
      using step eq k by (auto simp: rw_first_def Let_def frame_out_def split: if_splits)
    show "at_boundary f (s + 1) (if d then k + 1 else k) r1" if "n = 1"
      using step eq that k
      by (auto simp: rw_first_def Let_def at_boundary_def seqrw_init_def split: if_splits)
    show "in_frame f s k r1" if "1 < n"
      using step eq that k
      by (auto simp: rw_first_def Let_def in_frame_def seqrw_init_def split: if_splits)
  qed
qed

section \<open>Whole streams\<close>

lemma rewrite_stream_from_boundary:
  assumes "at_boundary f s k r" and "unat f + length fs < 65536"
    and "\<forall>(d, n) \<in> set fs. 0 < n \<and> n < 65536"
  shows "narrow (fst (rewrite_all (stream_pkts (f + 1) s fs) r)) = ideal k (stream_pkts (f + 1) s fs)"
  using assms
proof (induction fs arbitrary: f s k r)
  case (Cons e fs)
  obtain d n where e: "e = (d, n)" by fastforce
  obtain xs r1 where run: "rewrite_all (frame_pkts (f + 1) s d n) r = (xs, r1)" by fastforce
  have f: "unat f < 65535" and n: "0 < n" "n < 65536"
    using Cons.prems e by auto
  have one: "narrow xs = map (frame_out s d k) [0..<n]"
      "at_boundary (f + 1) (s + of_nat n) (if d then k + n else k) r1"
    using rewrite_frame_from_boundary [OF Cons.prems(1) f n run] by auto
  have "unat (f + 1) + length fs < 65536"
    using f Cons.prems(2) by (simp add: unat_word_ariths)
  then have "narrow (fst (rewrite_all (stream_pkts (f + 1 + 1) (s + of_nat n) fs) r1)) =
      ideal (if d then k + n else k) (stream_pkts (f + 1 + 1) (s + of_nat n) fs)"
    using one(2) Cons.prems(3) by (intro Cons.IH) auto
  then show ?case
    using one(1) run by (simp add: e ideal_frame rewrite_all_append Let_def split_beta)
qed simp

lemma rewrite_stream_ideal:
  assumes f: "0 < unat f" and wrap: "unat f + length fs \<le> 65536"
    and sizes: "\<forall>(d, n) \<in> set fs. 0 < n \<and> n < 65536"
  shows "narrow (fst (rewrite_all (stream_pkts f s fs) seqrw_init)) = ideal (overcount fs) (stream_pkts f s fs)"
proof (cases fs)
  case (Cons e fs')
  obtain d n where e: "e = (d, n)" by fastforce
  let ?k = "overcount fs"
  obtain xs r1 where run: "rewrite_all (frame_pkts f s d n) seqrw_init = (xs, r1)" by fastforce
  have n: "0 < n" "n < 65536" and k: "?k = overcount [(d, n)]"
    using sizes Cons e by auto
  have one: "narrow xs = map (frame_out s d ?k) [0..<n]"
      "at_boundary f (s + of_nat n) (if d then ?k + n else ?k) r1"
    using rewrite_frame_from_init [OF f n k run] by auto
  have "narrow (fst (rewrite_all (stream_pkts (f + 1) (s + of_nat n) fs') r1)) =
      ideal (if d then ?k + n else ?k) (stream_pkts (f + 1) (s + of_nat n) fs')"
    using one(2) wrap sizes Cons by (intro rewrite_stream_from_boundary) auto
  then show ?thesis
    using one(1) run by (simp add: Cons e ideal_frame rewrite_all_append Let_def split_beta del: overcount.simps)
qed simp

text \<open>The reference numbers what it forwards consecutively (modulo the 16-bit wrap-around).\<close>

definition forwarded :: "u16 option list \<Rightarrow> u16 list" where
  "forwarded outs = List.map_filter id outs"

lemma forwarded_simps [simp]:
  "forwarded [] = []" "forwarded (None # xs) = forwarded xs"
  "forwarded (Some x # xs) = x # forwarded xs"
  by (simp_all add: forwarded_def)

lemma forwarded_ideal_consecutive:
  assumes "\<And>i. i < length ps \<Longrightarrow> p_seq (ps ! i) = s + of_nat i"
  shows "forwarded (ideal k ps) =
     map (\<lambda>i. s - of_nat k + of_nat i) [0..<length (filter (\<lambda>p. \<not> p_drop p) ps)]"
  using assms
proof (induction ps arbitrary: s k)
  case (Cons p ps)
  have IH: "forwarded (ideal k' ps) =
      map (\<lambda>i. s + 1 - of_nat k' + of_nat i) [0..<length (filter (\<lambda>p. \<not> p_drop p) ps)]" for k'
    using Cons.prems [of "Suc i" for i] by (intro Cons.IH) (simp add: algebra_simps)
  have p: "p_seq p = s"
    using Cons.prems [of 0] by simp
  show ?case
  proof (cases "p_drop p")
    case True
    then show ?thesis by (simp add: IH)
  next
    case False
    then show ?thesis
      by (simp add: IH p upt_conv_Cons map_Suc_upt [symmetric] comp_def algebra_simps
          del: upt_Suc)
  qed
qed simp

lemma length_frame_pkts [simp]: "length (frame_pkts f s d n) = n"
  by (simp add: frame_pkts_def)

lemma stream_pkts_seq:
  "i < length (stream_pkts f s fs) \<Longrightarrow> p_seq (stream_pkts f s fs ! i) = s + of_nat i"
proof (induction f s fs arbitrary: i rule: stream_pkts.induct)
  case (2 f s d n fs)
  show ?case
  proof (cases "i < n")
    case True
    then show ?thesis by (simp add: nth_append frame_pkts_def)
  next
    case False
    then have "p_seq (stream_pkts (f + 1) (s + of_nat n) fs ! (i - n)) = s + of_nat n + of_nat (i - n)"
      using "2.prems" by (intro "2.IH") auto
    with False show ?thesis by (simp add: nth_append)
  qed
qed simp

section \<open>Frame numbers only grow\<close>

lemma rw_branch_maxFrame:
  "maxFrame (snd (rw_first p r)) = p_frame p" "maxFrame (snd (rw_same p r)) = maxFrame r"
  "maxFrame (snd (rw_next p r)) = p_frame p" "maxFrame (snd (rw_skip p r)) = p_frame p"
  "maxFrame (snd (rw_past p r)) = maxFrame r"
  by (simp_all add: rw_branch_defs Let_def)

lemma rewrite_maxFrame:
  "\<not> sim_lost p \<Longrightarrow> maxFrame (snd (rewrite p r)) = max (p_frame p) (maxFrame r)"
proof (cases rule: rewrite_frame_cases [of "p_frame p" "maxFrame r"])
  case 1
  moreover assume "\<not> sim_lost p"
  ultimately show ?thesis by (simp add: rewrite_dispatch rw_branch_maxFrame)
next
  case 2
  moreover assume "\<not> sim_lost p"
  ultimately show ?thesis
    by (simp add: rewrite_dispatch rw_branch_maxFrame max_def word_le_nat_alt)
next
  case 3
  moreover assume "\<not> sim_lost p"
  ultimately show ?thesis
    by (cases "maxFrame r = 0")
      (simp_all add: rewrite_dispatch rw_branch_maxFrame max_def word_le_nat_alt)
next
  case 4
  moreover assume "\<not> sim_lost p"
  ultimately show ?thesis
    by (simp add: rewrite_dispatch rw_branch_maxFrame max_absorb2 less_imp_le)
qed

lemma rewrite_past_dropCount:
  "\<not> sim_lost p \<Longrightarrow> p_frame p < maxFrame r \<Longrightarrow> dropCount (snd (rewrite p r)) = dropCount r"
  by (simp add: rewrite_dispatch rw_past_def Let_def)

lemma rewrite_lost [simp]: "sim_lost p \<Longrightarrow> rewrite p r = (None, r)"
  by (auto simp: rewrite_def sim_lost_def)

lemma word16_max: "x \<le> (65535 :: u16)"
  using unat_lt2p [of x] by (simp add: word_le_nat_alt)

section \<open>Properties\<close>

text \<open>
  C5: on a stream that arrives in order and without loss, starting with a fresh rewriter, whose frames have between 1 and 65535
  packets and frame numbers that start at 1 or above and do not wrap around, the rewriter's numbers (narrowed to the
  16 bits that go into the packet) are exactly the sequence numbers minus the number of packets dropped so far,
  and the packets it forwards are numbered consecutively, wrap-around of the 16-bit sequence numbers included,
  from the first sequence number of the stream; when the first frame is dropped and has a single packet, the rewriter counts
  two packets for it, and all numbers are one less.
\<close>

theorem rewriter_gap_free:
  assumes "0 < unat f" and "unat f + length fs \<le> 65536"
    and "\<forall>(d, n) \<in> set fs. 0 < n \<and> n < 65536"
  shows "narrow (fst (rewrite_all (stream_pkts f s fs) seqrw_init)) = ideal (overcount fs) (stream_pkts f s fs)
    \<and> forwarded (narrow (fst (rewrite_all (stream_pkts f s fs) seqrw_init))) =
        map (\<lambda>i. s - of_nat (overcount fs) + of_nat i) [0..<length (filter (\<lambda>p. \<not> p_drop p) (stream_pkts f s fs))]"
proof -
  let ?ps = "stream_pkts f s fs"
  have "narrow (fst (rewrite_all ?ps seqrw_init)) = ideal (overcount fs) ?ps"
    using assms by (rule rewrite_stream_ideal)
  moreover have "forwarded (ideal (overcount fs) ?ps) =
      map (\<lambda>i. s - of_nat (overcount fs) + of_nat i) [0..<length (filter (\<lambda>p. \<not> p_drop p) ?ps)]"
    by (rule forwarded_ideal_consecutive) (rule stream_pkts_seq)
  ultimately show ?thesis by simp
qed

theorem rewriter_gap_free_witness:
  "forwarded (narrow (fst (rewrite_all
     (stream_pkts 1 65533 [(False, 3), (True, 3), (False, 5), (True, 1), (False, 2)]) seqrw_init)))
   = [65533, 65534, 65535, 0, 1, 2, 3, 4, 5, 6] \<and>
   forwarded (narrow (fst (rewrite_all (stream_pkts 3 100 [(True, 1), (False, 2)]) seqrw_init))) = [99, 100]"
  using rewriter_gap_free [of 1 "[(False, 3), (True, 3), (False, 5), (True, 1), (False, 2)]" 65533]
    rewriter_gap_free [of 3 "[(True, 1), (False, 2)]" 100]
  by (simp add: frame_pkts_def upt_rec)

text \<open>Frame 0 counts as a continuation of what was never seen: a dropped frame 0 makes the rewriter count its sequence number.\<close>

lemma dropped_frame_zero:
  "forwarded (narrow (fst (rewrite_all (stream_pkts 0 100 [(True, 1), (False, 1)]) seqrw_init))) = [0]"
  by code_simp

text \<open>
  C29: In every run of the rewriter from its initial state, whatever the order, loss or frame
  numbering of the packets, exactly the packets marked for dropping (or marked lost by the
  simulation) get no sequence number; so the data plane may dereference the result for every
  packet it forwards.
\<close>

theorem rewriter_numbers_exactly_kept:
  assumes "rewrite_all ps seqrw_init = (outs, r)"
  shows "list_all2 (\<lambda>p out. out = None \<longleftrightarrow> p_drop p \<or> sim_lost p) ps outs"
  using assms by (rule rewrite_all_None_iff) (simp add: seqrw_init_def)

theorem rewriter_numbers_exactly_kept_witness:
  "list_all2 (\<lambda>p out. out = None \<longleftrightarrow> p_drop p \<or> sim_lost p)
     (stream_pkts 3 655 [(False, 1), (True, 2)])
     (fst (rewrite_all (stream_pkts 3 655 [(False, 1), (True, 2)]) seqrw_init))"
  using rewriter_numbers_exactly_kept
    [of "stream_pkts 3 655 [(False, 1), (True, 2)]"
        "fst (rewrite_all (stream_pkts 3 655 [(False, 1), (True, 2)]) seqrw_init)"
        "snd (rewrite_all (stream_pkts 3 655 [(False, 1), (True, 2)]) seqrw_init)"]
  by simp

text \<open>
  C30: Frame numbers are not compared modulo their 16-bit width. Once frame 65535 has been
  seen, every packet of a frame with another number (in particular of the frames after the
  wrap-around) takes the branch for past frames: the newest frame stays 65535 and the drop
  counter is frozen, so dropped frames are no longer compensated.
\<close>

theorem rewriter_frozen_after_frame_wrap:
  assumes "maxFrame r = 65535" and "\<forall>p \<in> set ps. p_frame p \<noteq> 65535"
  shows "maxFrame (snd (rewrite_all ps r)) = 65535
    \<and> dropCount (snd (rewrite_all ps r)) = dropCount r"
  using assms
proof (induction ps arbitrary: r)
  case (Cons p ps)
  have "maxFrame (snd (rewrite p r)) = 65535 \<and> dropCount (snd (rewrite p r)) = dropCount r"
  proof (cases "sim_lost p")
    case False
    have "p_frame p < maxFrame r"
      using Cons.prems word16_max [of "p_frame p"] by (simp add: order.not_eq_order_implies_strict)
    with False Cons.prems(1) show ?thesis
      by (simp add: rewrite_maxFrame rewrite_past_dropCount max_absorb2 less_imp_le)
  qed (simp add: Cons.prems)
  then show ?case
    using Cons.IH [of "snd (rewrite p r)"] Cons.prems by (simp add: Let_def split_beta)
qed simp

theorem rewriter_frozen_after_frame_wrap_witness:
  "let r = snd (rewrite_all (frame_pkts 65535 10 False 2) seqrw_init) in
     dropCount (snd (rewrite_all (frame_pkts 0 12 True 3) r)) = 0"
proof -
  let ?r = "snd (rewrite_all (frame_pkts 65535 10 False 2) seqrw_init)"
  have "maxFrame ?r = 65535 \<and> dropCount ?r = 0"
    by (simp add: frame_pkts_def upt_rec av1_pkt_def markFromAV1FrameFlags_def rewrite_def
        rw_first_def rw_same_def seqrw_init_def adjustMaxDropFrame_def Let_def)
  then show ?thesis
    using rewriter_frozen_after_frame_wrap [of ?r "frame_pkts 0 12 True 3"]
    by (simp add: frame_pkts_def)
qed

end
