(* ===== verification/SFU_Table.thy ===== *)
theory SFU_Table
  imports Net AV1 Sequence_Rewriter
begin

text \<open>
  \<open>lib/sfu_table.{h,cc}\<close>, the match/action table of the data plane model, and \<open>lib/drop_layer_set.h\<close>. The
  hash table is a map from matches (source address and SSRC) to entries, an entry the list of
  its actions, one per receiver. Operations that may throw return the exception beside the state.
  The invariant says that no two actions of an entry send to the same receiver.
\<close>

section \<open>Drop layer sets\<close>

type_synonym drop_layer_set = "u32 set"

definition addDropLayer :: "u32 \<Rightarrow> drop_layer_set \<Rightarrow> unit result \<times> drop_layer_set" where
  "addDropLayer layer s =
     (if layer \<notin> s then (Inr (), insert layer s)
      else (Inl (Logic_error ''SequenceRewriter: addDropLayer: already drops layer''), s))"

definition dropsLayer :: "u32 \<Rightarrow> drop_layer_set \<Rightarrow> bool" where
  "dropsLayer layer s \<longleftrightarrow> layer \<in> s"

definition removeDropLayer :: "u32 \<Rightarrow> drop_layer_set \<Rightarrow> unit result \<times> drop_layer_set" where
  "removeDropLayer layer s =
     (if layer \<in> s then (Inr (), s - {layer})
      else (Inl (Logic_error ''SequenceRewriter: removeDropLayer: does not contain layer''), s))"

text \<open>\<open>for (auto i = 2; i < 30; i += 3) addDropLayer(i);\<close> the loop ends at the first exception.\<close>

fun dropT2_from :: "nat \<Rightarrow> nat \<Rightarrow> drop_layer_set \<Rightarrow> unit result \<times> drop_layer_set" where
  "dropT2_from 0 i s = (Inr (), s)"
| "dropT2_from (Suc n) i s =
     (if i < 30 then
        (case addDropLayer (of_nat i) s of
           (Inl e, s) \<Rightarrow> (Inl e, s)
         | (Inr _, s) \<Rightarrow> dropT2_from n (i + 3) s)
      else (Inr (), s))"

definition dropT2 :: "drop_layer_set \<Rightarrow> unit result \<times> drop_layer_set" where
  "dropT2 s = dropT2_from 10 2 s"

lemma drop_layer_add_remove:
  "layer \<notin> s \<Longrightarrow> removeDropLayer layer (snd (addDropLayer layer s)) = (Inr (), s)"
  by (simp add: addDropLayer_def removeDropLayer_def)

text \<open>On an empty set \<open>dropT2\<close> succeeds and drops exactly the L1T2 enhancement templates below 30.\<close>

lemma dropT2_empty:
  "dropT2 {} = (Inr (), {2, 5, 8, 11, 14, 17, 20, 23, 26, 29})"
  by code_simp

section \<open>Matches, actions and entries\<close>

type_synonym SSRC = u32

datatype Match = Match (m_ipPort: IPv4Port) (m_ssrc: SSRC)

definition Match_Hash :: "Match \<Rightarrow> u64" where
  "Match_Hash m =
     (let h = 0;
          h = h XOR (hash_IPv4Port (m_ipPort m) + 0x9e3779b9 + push_bit 6 h + drop_bit 2 h);
          h = h XOR (ucast (m_ssrc m) + 0x9e3779b9 + push_bit 6 h + drop_bit 2 h)
      in h)"

definition Match_Equal :: "Match \<Rightarrow> Match \<Rightarrow> bool" where
  "Match_Equal a b \<longleftrightarrow> IPv4Port_eq (m_ipPort a) (m_ipPort b) \<and> m_ssrc a = m_ssrc b"

record Action =
  a_to :: IPv4Port
  svcConfig :: "DecodeTarget option"
  sequenceRewriter :: seqrw

definition Action :: "IPv4Port \<Rightarrow> Action" where
  "Action to = \<lparr> a_to = to, svcConfig = None, sequenceRewriter = seqrw_init \<rparr>"

definition Action_eq :: "Action \<Rightarrow> Action \<Rightarrow> bool" where
  "Action_eq a b \<longleftrightarrow> IPv4Port_eq (a_to a) (a_to b)"

type_synonym Entry = "Action list"

definition hasAction :: "Entry \<Rightarrow> Action \<Rightarrow> bool" where
  "hasAction e a \<longleftrightarrow> (\<exists>b \<in> set e. Action_eq b a)"

definition addAction :: "Action \<Rightarrow> Entry \<Rightarrow> unit result \<times> Entry" where
  "addAction a e =
     (if hasAction e a then (Inl (Invalid_argument ''SFUTable::Entry: addAction: Action already exists''), e)
      else (Inr (), e @ [a]))"

section \<open>The table\<close>

type_synonym SFUTable = "(Match, Entry) umap"

definition SFUTable_size :: "SFUTable \<Rightarrow> nat" where
  "SFUTable_size t = length t"

definition hasMatch :: "SFUTable \<Rightarrow> Match \<Rightarrow> bool" where
  "hasMatch t m \<longleftrightarrow> map_of t m \<noteq> None"

definition addMatch :: "Match \<Rightarrow> SFUTable \<Rightarrow> unit result \<times> SFUTable" where
  "addMatch m t =
     (if hasMatch t m then (Inl (Invalid_argument ''SFUTable: addMatch: Match already exists''), t)
      else (Inr (), umap_put m [] t))"

definition getEntry :: "SFUTable \<Rightarrow> Match \<Rightarrow> Entry result" where
  "getEntry t m =
     (case map_of t m of
        None \<Rightarrow> Inl (Invalid_argument ''SFUTable: getMatch: match does not exist'')
      | Some e \<Rightarrow> Inr e)"

text \<open>A change made through the reference \<open>operator[]\<close> returns.\<close>

definition setEntry :: "Match \<Rightarrow> Entry \<Rightarrow> SFUTable \<Rightarrow> SFUTable" where
  "setEntry m e t = umap_put m e t"

text \<open>Which receivers a match forwards to, in order.\<close>

definition receivers :: "SFUTable \<Rightarrow> Match \<Rightarrow> IPv4Port list" where
  "receivers t m = (case map_of t m of None \<Rightarrow> [] | Some e \<Rightarrow> map a_to e)"

definition sfu_inv :: "SFUTable \<Rightarrow> bool" where
  "sfu_inv t \<longleftrightarrow> umap_inv t \<and> (\<forall>(m, e) \<in> set t. distinct (map a_to e))"

lemma Match_Equal_iff: "Match_Equal a b \<longleftrightarrow> a = b"
  by (cases a; cases b) (simp add: Match_Equal_def IPv4Port_eq_iff)

text \<open>The hash agrees with the equality, as the hash table requires.\<close>

lemma Match_Hash_cong: "Match_Equal a b \<Longrightarrow> Match_Hash a = Match_Hash b"
  by (simp add: Match_Equal_iff)

lemma hasAction_iff: "hasAction e a \<longleftrightarrow> a_to a \<in> a_to ` set e"
  unfolding hasAction_def Action_eq_def IPv4Port_eq_iff by (metis (no_types) image_iff)

lemma sfu_inv_empty: "sfu_inv []"
  by (simp add: sfu_inv_def store_simps)

lemma sfu_inv_lookup: "sfu_inv t \<Longrightarrow> map_of t m = Some e \<Longrightarrow> distinct (map a_to e)"
  by (auto simp: sfu_inv_def dest!: map_of_SomeD)

lemma sfu_inv_setEntry: "sfu_inv t \<Longrightarrow> distinct (map a_to e) \<Longrightarrow> sfu_inv (setEntry m e t)"
  by (auto simp: sfu_inv_def setEntry_def umap.set_put umap.inv_put)

lemma sfu_inv_addMatch: "sfu_inv t \<Longrightarrow> sfu_inv (snd (addMatch m t))"
  by (auto simp: addMatch_def sfu_inv_def umap.set_put umap.inv_put)

lemma addAction_distinct: "distinct (map a_to e) \<Longrightarrow> distinct (map a_to (snd (addAction a e)))"
  by (auto simp: addAction_def hasAction_iff)

lemma getEntry_ok: "hasMatch t m \<Longrightarrow> \<exists>e. getEntry t m = Inr e \<and> map_of t m = Some e"
  by (auto simp: hasMatch_def getEntry_def)

lemma addMatch_lookup:
  "fst (addMatch m t) = Inr () \<Longrightarrow> map_of (snd (addMatch m t)) = (map_of t)(m \<mapsto> [])"
  by (auto simp: addMatch_def split: if_splits)

lemma addMatch_size:
  "umap_inv t \<Longrightarrow> fst (addMatch m t) = Inr () \<Longrightarrow> SFUTable_size (snd (addMatch m t)) = Suc (SFUTable_size t)"
  by (auto simp: addMatch_def SFUTable_size_def hasMatch_def umap.length_put_new split: if_splits)

end
