(* ===== verification/RTP.thy ===== *)
theory RTP
  imports Prelude
begin

text \<open>
  \<open>lib/proto/rtp.h\<close>: the RTP header, its extension block in the one-byte and two-byte profiles, and the
  serialiser of one-byte extensions. The header struct lies over the bytes of a packet, so the
  operations that look past the struct take the packet's bytes; a pointer into the packet is an
  offset. Reads and stores outside the packet are undefined behaviour. The main lemma says that
  the extensions a serialised block is read back as are those it was made from.
\<close>

section \<open>Header fields\<close>

record rtp_hdr =
  v_p_x_cc :: byte
  m_pt :: byte
  rtp_seq :: u16
  rtp_ts :: u32
  rtp_ssrc :: u32

definition rtp_HDR_LEN :: nat where
  "rtp_HDR_LEN = 12"

text \<open>The struct fields as the little-endian machine loads them, still in network byte order.\<close>

definition rtp_load :: "byte list \<Rightarrow> rtp_hdr result" where
  "rtp_load buf =
     (if length buf < rtp_HDR_LEN then Inl (Undefined_behaviour ''rtp::hdr past end'')
      else Inr \<lparr> v_p_x_cc = buf ! 0, m_pt = buf ! 1, rtp_seq = load16 (buf ! 2) (buf ! 3),
                 rtp_ts = load32 (buf ! 4) (buf ! 5) (buf ! 6) (buf ! 7),
                 rtp_ssrc = load32 (buf ! 8) (buf ! 9) (buf ! 10) (buf ! 11) \<rparr>)"

definition rtp_store_seq :: "byte list \<Rightarrow> u16 \<Rightarrow> byte list" where
  "rtp_store_seq buf w = buf[2 := ucast w, 3 := ucast (drop_bit 8 w)]"

definition rtp_version :: "rtp_hdr \<Rightarrow> nat" where
  "rtp_version h = unat (drop_bit 6 (v_p_x_cc h) AND 0x03)"

definition rtp_padding :: "rtp_hdr \<Rightarrow> nat" where
  "rtp_padding h = unat (drop_bit 5 (v_p_x_cc h) AND 0x01)"

definition rtp_extension :: "rtp_hdr \<Rightarrow> nat" where
  "rtp_extension h = unat (drop_bit 4 (v_p_x_cc h) AND 0x01)"

definition rtp_csrc_count :: "rtp_hdr \<Rightarrow> nat" where
  "rtp_csrc_count h = unat (v_p_x_cc h AND 0x0f)"

definition rtp_marker :: "rtp_hdr \<Rightarrow> nat" where
  "rtp_marker h = unat (drop_bit 7 (m_pt h) AND 0x01)"

definition rtp_payload_type :: "rtp_hdr \<Rightarrow> nat" where
  "rtp_payload_type h = unat (m_pt h AND 0x7f)"

definition rtp_is_rtcp :: "rtp_hdr \<Rightarrow> bool" where
  "rtp_is_rtcp h \<longleftrightarrow> 200 \<le> m_pt h \<and> m_pt h \<le> 207"

definition contains_rtp_or_rtcp :: "byte list \<Rightarrow> bool" where
  "contains_rtp_or_rtcp buf \<longleftrightarrow> 12 \<le> length buf \<and> drop_bit 6 (buf ! 0) AND 0x03 = 0x02"

lemma rtp_store_seq_load:
  assumes "rtp_load buf = Inr h"
  shows "rtp_load (rtp_store_seq buf w) = Inr (h\<lparr> rtp_seq := w \<rparr>)"
  using assms
  by (auto simp: rtp_load_def rtp_store_seq_def rtp_HDR_LEN_def load16_def be16_of_bytes split: if_splits)

text \<open>A packet that passes the demultiplexing test is long enough for the header, version 2.\<close>

lemma contains_rtp_load:
  assumes "contains_rtp_or_rtcp buf"
  shows "\<exists>h. rtp_load buf = Inr h \<and> rtp_version h = 2"
  using assms by (auto simp: contains_rtp_or_rtcp_def rtp_load_def rtp_HDR_LEN_def rtp_version_def)

section \<open>Extensions\<close>

datatype ext_profile = one_byte | two_byte | other

text \<open>\<open>ext_type\<close> and \<open>ext_len\<close> of the extension at offset \<open>p\<close>.\<close>

definition ext_type :: "byte list \<Rightarrow> nat \<Rightarrow> ext_profile \<Rightarrow> u16 result" where
  "ext_type buf p profile =
     (case profile of
        other \<Rightarrow> Inl (Domain_error ''rtp::ext_type: unsupported extension profile'')
      | one_byte \<Rightarrow> rbind (rd buf p) (\<lambda>b. Inr (ucast (drop_bit 4 b AND 0x0f)))
      | two_byte \<Rightarrow> rbind (rd buf p) (\<lambda>b. Inr (ucast b)))"

definition ext_len :: "byte list \<Rightarrow> nat \<Rightarrow> ext_profile \<Rightarrow> u16 result" where
  "ext_len buf p profile =
     (case profile of
        other \<Rightarrow> Inl (Domain_error ''rtp::ext_len: unsupported extension profile'')
      | one_byte \<Rightarrow> rbind (rd buf p) (\<lambda>b. Inr (ucast (b AND 0x0f) + 1))
      | two_byte \<Rightarrow> rbind (rd buf (p + 1)) (\<lambda>b. Inr (ucast b)))"

definition ext_hdr_len :: "ext_profile \<Rightarrow> nat" where
  "ext_hdr_len profile = (case profile of one_byte \<Rightarrow> 1 | two_byte \<Rightarrow> 2 | other \<Rightarrow> 0)"

text \<open>The header structs the switch agent casts an extension pointer to.\<close>

definition one_byte_hdr_id :: "byte \<Rightarrow> u16" where
  "one_byte_hdr_id b = ucast (drop_bit 4 b AND 0x0f)"

definition one_byte_hdr_len :: "byte \<Rightarrow> u16" where
  "one_byte_hdr_len b = ucast (b AND 0x0f)"

record ext =
  ext_t :: u16
  ext_l :: u16
  ext_data :: "byte list"

definition EXT_DATA :: nat where
  "EXT_DATA = 128"

text \<open>\<open>std::strncmp(...) == 0\<close>: equal up to \<open>n\<close> bytes or to a common zero byte, whichever comes first.\<close>

fun strncmp_eq :: "nat \<Rightarrow> byte list \<Rightarrow> byte list \<Rightarrow> bool" where
  "strncmp_eq (Suc n) (a # as) (b # bs) = (a = b \<and> (a = 0 \<or> strncmp_eq n as bs))"
| "strncmp_eq _ _ _ = True"

definition ext_eq :: "ext \<Rightarrow> ext \<Rightarrow> bool" where
  "ext_eq a b \<longleftrightarrow> ext_t a = ext_t b \<and> ext_l a = ext_l b \<and> strncmp_eq (unat (ext_l a)) (ext_data a) (ext_data b)"

definition from_buf :: "byte list \<Rightarrow> nat \<Rightarrow> ext_profile \<Rightarrow> ext result" where
  "from_buf buf p profile =
     rbind (ext_type buf p profile) (\<lambda>t.
     rbind (ext_len buf p profile) (\<lambda>l.
       let n = unat l; h = ext_hdr_len profile in
       if EXT_DATA < n \<or> length buf < p + h + n then Inl (Undefined_behaviour ''memcpy out of range'')
       else Inr \<lparr> ext_t = t, ext_l = l,
                  ext_data = take n (drop (p + h) buf) @ replicate (EXT_DATA - n) 0 \<rparr>))"

section \<open>Walking the extension block\<close>

definition extension_profile_header :: "byte list \<Rightarrow> nat option result" where
  "extension_profile_header buf = rbind (rtp_load buf) (\<lambda>h. Inr (if rtp_extension h \<noteq> 0 then Some 12 else None))"

definition extension_profile :: "byte list \<Rightarrow> ext_profile result" where
  "extension_profile buf =
     rbind (extension_profile_header buf) (\<lambda>p.
       case p of
         None \<Rightarrow> Inl (Undefined_behaviour ''null dereference'')
       | Some q \<Rightarrow>
           rbind (rd buf q) (\<lambda>a. rbind (rd buf (q + 1)) (\<lambda>b.
             let profile = ntohs (load16 a b) in
             Inr (if profile = 0xbede then one_byte else if profile = 0x1000 then two_byte else other))))"

text \<open>\<open>byte_len\<close> of the profile header at offset 12.\<close>

definition ext_block_len :: "byte list \<Rightarrow> nat result" where
  "ext_block_len buf = rbind (rd buf 14) (\<lambda>a. rbind (rd buf 15) (\<lambda>b. Inr (unat (ntohs (load16 a b)) * 4)))"

lemma ext_len_ok: "ext_len buf p profile = Inr l \<Longrightarrow> 0 < ext_hdr_len profile"
  by (cases profile) (auto simp: ext_len_def ext_hdr_len_def)

function ext_walk :: "byte list \<Rightarrow> ext_profile \<Rightarrow> nat \<Rightarrow> nat \<Rightarrow> nat list result" where
  "ext_walk buf profile tot i =
     (if i < tot + 4 then
        rbind (rd buf (12 + i)) (\<lambda>b.
          if b \<noteq> 0 then
            (case ext_len buf (12 + i) profile of
               Inl e \<Rightarrow> Inl e
             | Inr l \<Rightarrow> rbind (ext_walk buf profile tot (i + (unat l + ext_hdr_len profile)))
                 (\<lambda>ps. Inr ((12 + i) # ps)))
          else ext_walk buf profile tot (i + 1))
      else Inr [])"
  by pat_completeness auto
termination
  by (relation "measure (\<lambda>(buf, profile, tot, i). tot + 4 - i)") (auto dest: ext_len_ok)

declare ext_walk.simps [simp del]

definition extension_ptrs :: "byte list \<Rightarrow> nat list result" where
  "extension_ptrs buf =
     rbind (rtp_load buf) (\<lambda>h.
       if rtp_csrc_count h \<noteq> 0 \<or> rtp_extension h = 0 then Inr []
       else
         rbind (extension_profile buf) (\<lambda>profile.
           if profile = other then Inr []
           else
             rbind (rd buf 14) (\<lambda>a. rbind (rd buf 15) (\<lambda>b.
               let total_ext_bytes = (ucast (((ucast a * 256 + ucast b) * 4) :: u32) :: u16)
               in ext_walk buf profile (unat total_ext_bytes) 4))))"

fun ext_search :: "byte list \<Rightarrow> ext_profile \<Rightarrow> u32 \<Rightarrow> nat list \<Rightarrow> nat option result" where
  "ext_search buf profile t [] = Inr None"
| "ext_search buf profile t (p # ps) =
     rbind (ext_type buf p profile) (\<lambda>t'. if ucast t' = t then Inr (Some p) else ext_search buf profile t ps)"

definition extension_ptr :: "byte list \<Rightarrow> u32 \<Rightarrow> nat option result" where
  "extension_ptr buf t =
     rbind (extension_ptrs buf) (\<lambda>ps.
       if ps = [] then Inr None
       else rbind (extension_profile buf) (\<lambda>profile. ext_search buf profile t ps))"

fun from_bufs :: "byte list \<Rightarrow> ext_profile \<Rightarrow> nat list \<Rightarrow> ext list result" where
  "from_bufs buf profile [] = Inr []"
| "from_bufs buf profile (p # ps) =
     rbind (from_buf buf p profile) (\<lambda>e. rbind (from_bufs buf profile ps) (\<lambda>es. Inr (e # es)))"

definition rtp_extensions :: "byte list \<Rightarrow> ext list result" where
  "rtp_extensions buf =
     rbind (extension_ptrs buf) (\<lambda>ps.
       if ps = [] then Inr []
       else rbind (extension_profile buf) (\<lambda>profile. from_bufs buf profile ps))"

definition rtp_extension_by_id :: "byte list \<Rightarrow> u16 \<Rightarrow> ext option result" where
  "rtp_extension_by_id buf t =
     rbind (extension_ptr buf (ucast t)) (\<lambda>p.
       case p of
         None \<Rightarrow> Inr None
       | Some q \<Rightarrow> rbind (extension_profile buf) (\<lambda>profile. rbind (from_buf buf q profile) (\<lambda>e. Inr (Some e))))"

section \<open>Serialising one-byte extensions\<close>

text \<open>
  The loops stop as soon as \<open>bytes_written < len-1\<close> fails; nothing is written from then on, so a
  round that finds the guard false leaves the state as it is.
\<close>

definition ser_byte :: "byte \<Rightarrow> byte list \<times> nat \<Rightarrow> (byte list \<times> nat) result" where
  "ser_byte b s = (case s of (buf, n) \<Rightarrow> rbind (wr buf n b) (\<lambda>buf. Inr (buf, n + 1)))"

definition ser_ext :: "ext \<Rightarrow> byte list \<times> nat \<Rightarrow> (byte list \<times> nat) result" where
  "ser_ext e s =
     (if snd s < length (fst s) - 1 then
        rbind (ser_byte ((push_bit 4 (ucast (ext_t e) AND 0x0f) AND 0xf0) OR (ucast (ext_l e - 1) AND 0x0f AND 0x0f)) s)
          (rfold (\<lambda>j s. if snd s < length (fst s) - 1
                        then rbind (vec_at (ext_data e) j) (\<lambda>b. ser_byte b s) else Inr s)
             [0..<unat (ext_l e)])
      else Inr s)"

function ser_pad :: "nat \<Rightarrow> byte list \<Rightarrow> nat \<Rightarrow> byte list \<times> nat" where
  "ser_pad i buf n =
     (if i < n mod 4 \<and> n < length buf - 1 then ser_pad (i + 1) (buf[n := 0]) (n + 1) else (buf, n))"
  by pat_completeness auto
termination
  by (relation "measure (\<lambda>(i, buf, n). length buf - n)") auto

declare ser_pad.simps [simp del]

definition serialize_extensions :: "ext list \<Rightarrow> byte list \<Rightarrow> ext_profile \<Rightarrow> (byte list \<times> nat) result" where
  "serialize_extensions exts buf profile =
     (if profile \<noteq> one_byte
      then Inl (Domain_error ''rtp::serialize_extensions: only 1-byte exts supported'')
      else if length buf < 4 then Inl (Undefined_behaviour ''write past end'')
      else
        rbind (rfold ser_ext exts (buf[0 := 0xbe, 1 := 0xde], 4)) (\<lambda>(buf, n).
          let (buf, n) = ser_pad 0 buf n;
              w = ntohs (of_nat ((n - 4) div 4))
          in Inr (buf[2 := ucast w, 3 := ucast (drop_bit 8 w)], n)))"

section \<open>Reading back what was serialised\<close>

text \<open>The extensions the one-byte profile can carry, and their encoding.\<close>

definition wf_ext :: "ext \<Rightarrow> bool" where
  "wf_ext e \<longleftrightarrow> 1 \<le> unat (ext_t e) \<and> unat (ext_t e) \<le> 15 \<and> 1 \<le> unat (ext_l e) \<and> unat (ext_l e) \<le> 16 \<and>
     length (ext_data e) = EXT_DATA \<and> drop (unat (ext_l e)) (ext_data e) = replicate (EXT_DATA - unat (ext_l e)) 0"

definition ext_hdr_byte :: "ext \<Rightarrow> byte" where
  "ext_hdr_byte e = (push_bit 4 (ucast (ext_t e) AND 0x0f) AND 0xf0) OR (ucast (ext_l e - 1) AND 0x0f AND 0x0f)"

definition ext_wire :: "ext \<Rightarrow> byte list" where
  "ext_wire e = ext_hdr_byte e # take (unat (ext_l e)) (ext_data e)"

lemma nibbles:
  fixes t l :: u16
  assumes "unat t < 16" and "unat l < 16"
  defines "b \<equiv> (push_bit 4 (ucast t AND 0x0f) AND 0xf0) OR (ucast l AND 0x0f AND 0x0f) :: byte"
  shows "ucast (drop_bit 4 b AND 0x0f) = t" and "ucast (b AND 0x0f) = l"
proof -
  have f: "(0x0f :: byte) = mask 4" "(0xf0 :: byte) = push_bit 4 (mask 4)"
    by (simp_all add: mask_eq_exp_minus_1 push_bit_eq_mult)
  have "\<not> bit t n" "\<not> bit l n" if "4 \<le> n" for n
  proof -
    have "\<not> bit (unat t) n" "\<not> bit (unat l) n"
      using assms(1,2) that power_increasing [of 4 n "2 :: nat"]
      by (auto simp: bit_iff_odd dest!: less_le_trans)
    then show "\<not> bit t n" "\<not> bit l n"
      by (auto simp: bit_unsigned_iff)
  qed
  then have hi: "bit t n \<Longrightarrow> n < 4" "bit l n \<Longrightarrow> n < 4" "bit t n \<Longrightarrow> n < 8" "bit l n \<Longrightarrow> n < 8" for n
    by (metis not_le, metis not_le, metis not_le le_trans numeral_Bit0 le_add1,
        metis not_le le_trans numeral_Bit0 le_add1)
  show "ucast (drop_bit 4 b AND 0x0f) = t"
    unfolding b_def f
    by (rule bit_word_eqI) (auto simp: bit_simps dest: bit_imp_le_length hi)
  show "ucast (b AND 0x0f) = l"
    unfolding b_def f
    by (rule bit_word_eqI) (auto simp: bit_simps dest: bit_imp_le_length hi)
qed

lemma wf_ext_hdr:
  assumes "wf_ext e"
  shows "ucast (drop_bit 4 (ext_hdr_byte e) AND 0x0f) = ext_t e" "ucast (ext_hdr_byte e AND 0x0f) + 1 = ext_l e"
    "ext_hdr_byte e \<noteq> 0"
proof -
  have "unat (ext_l e - 1) < 16"
    using assms unfolding wf_ext_def by unat_arith
  note n = nibbles [OF _ this, of "ext_t e"]
  show t: "ucast (drop_bit 4 (ext_hdr_byte e) AND 0x0f) = ext_t e"
    using n(1) assms by (simp add: ext_hdr_byte_def wf_ext_def)
  show "ucast (ext_hdr_byte e AND 0x0f) + 1 = ext_l e"
    using n(2) assms by (simp add: ext_hdr_byte_def wf_ext_def)
  show "ext_hdr_byte e \<noteq> 0"
    using t assms by (auto simp: wf_ext_def)
qed

lemma length_ext_wire: "wf_ext e \<Longrightarrow> length (ext_wire e) = unat (ext_l e) + 1"
  by (simp add: ext_wire_def wf_ext_def EXT_DATA_def)

fun overlay :: "byte list \<Rightarrow> nat \<Rightarrow> byte list \<Rightarrow> byte list" where
  "overlay buf n [] = buf"
| "overlay buf n (x # xs) = overlay (buf[n := x]) (Suc n) xs"

lemma overlay_append: "overlay buf n (xs @ ys) = overlay (overlay buf n xs) (n + length xs) ys"
  by (induction xs arbitrary: buf n) auto

lemma length_overlay [simp]: "length (overlay buf n xs) = length buf"
  by (induction xs arbitrary: buf n) auto

lemma overlay_split: "n + length xs \<le> length buf \<Longrightarrow> overlay buf n xs = take n buf @ xs @ drop (n + length xs) buf"
proof (induction xs arbitrary: buf n)
  case (Cons x xs)
  then show ?case
    by (simp add: take_Suc_conv_app_nth)
qed simp

lemma ser_data_loop:
  assumes "j + length xs \<le> length (ext_data e)" and "take (length xs) (drop j (ext_data e)) = xs"
    and "n + length xs < length buf"
  shows "rfold (\<lambda>j s. if snd s < length (fst s) - 1
                        then rbind (vec_at (ext_data e) j) (\<lambda>b. ser_byte b s) else Inr s)
      [j..<j + length xs] (buf, n) = Inr (overlay buf n xs, n + length xs)"
  using assms
proof (induction xs arbitrary: j n buf)
  case (Cons x xs)
  have x: "ext_data e ! j = x" "take (length xs) (drop (Suc j) (ext_data e)) = xs"
    using Cons.prems(1,2) by (auto simp: Cons_nth_drop_Suc [symmetric])
  have "[j..<j + length (x # xs)] = j # [Suc j..<Suc j + length xs]"
    by (simp add: upt_conv_Cons del: upt_Suc)
  moreover have "rfold (\<lambda>j s. if snd s < length (fst s) - 1
                        then rbind (vec_at (ext_data e) j) (\<lambda>b. ser_byte b s) else Inr s)
      [Suc j..<Suc j + length xs] (buf[n := x], Suc n) = Inr (overlay (buf[n := x]) (Suc n) xs, Suc n + length xs)"
    using Cons.prems x by (intro Cons.IH) auto
  ultimately show ?case
    using Cons.prems x by (simp add: vec_at_def ser_byte_def wr_def)
qed simp

lemma ser_ext_overlay:
  assumes "wf_ext e" and "n + length (ext_wire e) < length buf"
  shows "ser_ext e (buf, n) = Inr (overlay buf n (ext_wire e), n + length (ext_wire e))"
proof -
  have l: "unat (ext_l e) \<le> length (ext_data e)" "length (take (unat (ext_l e)) (ext_data e)) = unat (ext_l e)"
    using assms(1) by (auto simp: wf_ext_def EXT_DATA_def)
  note ser_data_loop [of 0 "take (unat (ext_l e)) (ext_data e)" e "Suc n" "buf[n := ext_hdr_byte e]"]
  then show ?thesis
    unfolding ser_ext_def ext_hdr_byte_def [symmetric]
    using assms l by (simp add: ser_byte_def wr_def ext_wire_def less_diff_conv)
qed

lemma ser_exts_overlay:
  assumes "\<forall>e \<in> set es. wf_ext e" and "n + length (concat (map ext_wire es)) < length buf"
  shows "rfold ser_ext es (buf, n) =
    Inr (overlay buf n (concat (map ext_wire es)), n + length (concat (map ext_wire es)))"
  using assms
proof (induction es arbitrary: buf n)
  case (Cons e es)
  then show ?case
    using ser_ext_overlay [of e n buf] Cons.IH [of "n + length (ext_wire e)" "overlay buf n (ext_wire e)"]
    by (simp add: overlay_append)
qed simp

definition pad4 :: "nat \<Rightarrow> nat" where
  "pad4 n = (4 - n mod 4) mod 4"

lemma pad4_mod: "(n + pad4 n) mod 4 = 0" "pad4 n \<le> 3"
proof -
  define c where "c = n mod 4"
  have "c < 4" by (simp add: c_def)
  then have "c = 0 \<or> c = 1 \<or> c = 2 \<or> c = 3" by auto
  then have "(c + (4 - c) mod 4) mod 4 = 0" by auto
  then show "(n + pad4 n) mod 4 = 0"
    using mod_add_left_eq [of n 4 "pad4 n"] by (simp add: pad4_def c_def)
  show "pad4 n \<le> 3" by (simp add: pad4_def)
qed

lemma ser_pad_loop:
  "(n + r) mod 4 = 0 \<Longrightarrow> r \<le> 3 \<Longrightarrow> (0 < r \<Longrightarrow> i < 4 - r) \<Longrightarrow> n + r < length buf \<Longrightarrow>
   ser_pad i buf n = (overlay buf n (replicate r 0), n + r)"
proof (induction r arbitrary: i buf n)
  case 0
  then show ?case by (subst ser_pad.simps) simp
next
  case (Suc r)
  have "r = 0 \<or> r = 1 \<or> r = 2" using Suc.prems(2) by auto
  then have "n mod 4 = 4 - Suc r"
    using Suc.prems(1) by (auto, presburger+)
  moreover have "ser_pad (i + 1) (buf[n := 0]) (n + 1) = (overlay (buf[n := 0]) (n + 1) (replicate r 0), n + 1 + r)"
    using Suc.prems by (intro Suc.IH) auto
  ultimately show ?case
    using Suc.prems by (subst ser_pad.simps) auto
qed

lemma ser_pad_overlay:
  "n + pad4 n < length buf \<Longrightarrow> ser_pad 0 buf n = (overlay buf n (replicate (pad4 n) 0), n + pad4 n)"
  by (rule ser_pad_loop) (use pad4_mod [of n] in auto)

text \<open>The walk over a block that is a sequence of encoded extensions followed by zero padding.\<close>

fun offsets :: "nat \<Rightarrow> ext list \<Rightarrow> nat list" where
  "offsets p [] = []"
| "offsets p (e # es) = p # offsets (p + length (ext_wire e)) es"

lemma ext_walk_padding:
  "12 + i + k \<le> length buf \<Longrightarrow> (\<forall>j < k. buf ! (12 + i + j) = 0) \<Longrightarrow> tot + 4 = i + k \<Longrightarrow>
   ext_walk buf one_byte tot i = Inr []"
proof (induction k arbitrary: i)
  case 0
  then show ?case by (subst ext_walk.simps) simp
next
  case (Suc k)
  have "ext_walk buf one_byte tot (i + 1) = Inr []"
    using Suc.prems(1,3) spec [OF Suc.prems(2), of "Suc _"] by (intro Suc.IH) (auto simp: add.assoc)
  then show ?case
    using Suc.prems spec [OF Suc.prems(2), of 0] by (subst ext_walk.simps) (simp add: rd_def)
qed

lemma ext_walk_wires:
  assumes "buf = pre @ concat (map ext_wire es) @ replicate k 0 @ post" and "length pre = 12 + i"
    and "tot + 4 = i + length (concat (map ext_wire es)) + k" and "\<forall>e \<in> set es. wf_ext e"
  shows "ext_walk buf one_byte tot i = Inr (offsets (12 + i) es)"
  using assms
proof (induction es arbitrary: pre i)
  case Nil
  then show ?case
    using ext_walk_padding [of i k buf tot] by (simp add: nth_append)
next
  case (Cons e es)
  let ?w = "ext_wire e"
  have wf: "wf_ext e" using Cons.prems(4) by simp
  have b0: "buf ! (12 + i) = ext_hdr_byte e" "12 + i < length buf"
    using Cons.prems(1,2) by (auto simp: ext_wire_def nth_append)
  have len: "ext_len buf (12 + i) one_byte = Inr (ext_l e)"
    using b0 wf_ext_hdr(2) [OF wf] by (simp add: ext_len_def rd_def)
  have step: "i + (unat (ext_l e) + ext_hdr_len one_byte) = i + length ?w"
    using length_ext_wire [OF wf] by (simp add: ext_hdr_len_def)
  have "ext_walk buf one_byte tot (i + length ?w) = Inr (offsets (12 + (i + length ?w)) es)"
    using Cons.prems by (intro Cons.IH [of "pre @ ?w"]) auto
  moreover have "i < tot + 4"
    using Cons.prems(3) by (simp add: ext_wire_def)
  ultimately show ?case
    using b0 wf_ext_hdr(3) [OF wf] len step
    by (subst ext_walk.simps) (simp add: rd_def add.assoc)
qed

lemma from_buf_wire:
  assumes "wf_ext e"
  shows "from_buf (pre @ ext_wire e @ post) (length pre) one_byte = Inr e"
proof -
  have l: "length (ext_data e) = 128" "unat (ext_l e) \<le> 128"
    using assms by (auto simp: wf_ext_def EXT_DATA_def)
  have "ext_data e = take (unat (ext_l e)) (ext_data e) @ replicate (EXT_DATA - unat (ext_l e)) 0"
    using assms append_take_drop_id [of "unat (ext_l e)" "ext_data e"] by (simp add: wf_ext_def)
  with l show ?thesis
    using wf_ext_hdr [OF assms]
    by (simp add: from_buf_def ext_type_def ext_len_def rd_def nth_append ext_wire_def ext_hdr_len_def
        EXT_DATA_def Let_def)
qed

lemma from_bufs_wires:
  "\<forall>e \<in> set es. wf_ext e \<Longrightarrow>
   from_bufs (pre @ concat (map ext_wire es) @ post) one_byte (offsets (length pre) es) = Inr es"
proof (induction es arbitrary: pre)
  case (Cons e es)
  then show ?case
    using from_buf_wire [of e pre "concat (map ext_wire es) @ post"] Cons.IH [of "pre @ ext_wire e"] by simp
qed simp

lemma offsets_Nil_iff: "offsets p es = [] \<longleftrightarrow> es = []"
  by (cases es) auto

text \<open>The bytes of a serialised block.\<close>

definition ext_block :: "ext list \<Rightarrow> byte list" where
  "ext_block es =
     (let body = concat (map ext_wire es); k = pad4 (4 + length body)
      in [0xbe, 0xde] @ be16_bytes (of_nat ((length body + k) div 4)) @ body @ replicate k 0)"

lemma serialize_block:
  assumes "\<forall>e \<in> set es. wf_ext e" and "length (concat (map ext_wire es)) + 7 < length buf"
  shows "\<exists>buf'. serialize_extensions es buf one_byte = Inr (buf', length (ext_block es)) \<and>
    take (length (ext_block es)) buf' = ext_block es \<and> length buf' = length buf"
proof -
  define body where "body = concat (map ext_wire es)"
  define k where "k = pad4 (4 + length body)"
  define n where "n = 4 + length body + k"
  have n4: "4 \<le> n" and n_Suc: "n = Suc (Suc (Suc (Suc (length body + k))))"
    by (simp_all add: n_def)
  have k: "k \<le> 3" and n: "n < length buf"
    using pad4_mod(2) [of "4 + length body"] assms(2) by (auto simp: k_def n_def body_def)
  let ?b0 = "buf[0 := 0xbe, 1 := 0xde]"
  let ?b1 = "overlay ?b0 4 body"
  let ?b2 = "overlay ?b1 (4 + length body) (replicate k 0)"
  let ?w = "ntohs (of_nat ((n - 4) div 4))"
  have "rfold ser_ext es (?b0, 4) = Inr (?b1, 4 + length body)"
    using ser_exts_overlay [OF assms(1), of 4 ?b0] assms(2) by (simp add: body_def)
  moreover have "ser_pad 0 ?b1 (4 + length body) = (?b2, n)"
    using ser_pad_overlay [of "4 + length body" ?b1] n by (simp add: n_def k_def)
  ultimately have s: "serialize_extensions es buf one_byte =
      Inr (?b2[2 := ucast ?w, 3 := ucast (drop_bit 8 ?w)], n)"
    using n n4 by (simp add: serialize_extensions_def Let_def)
  have "?b2 = overlay ?b0 4 (body @ replicate k 0)"
    by (simp add: overlay_append)
  also have "\<dots> = take 4 ?b0 @ (body @ replicate k 0) @ drop n ?b0"
    using n by (subst overlay_split) (auto simp: n_def add.assoc)
  finally have b2: "?b2 = take 4 ?b0 @ body @ replicate k 0 @ drop n ?b0" by simp
  obtain x0 x1 x2 x3 xs where buf: "buf = x0 # x1 # x2 # x3 # xs"
    using n unfolding n_def by (cases buf; cases "tl buf"; cases "tl (tl buf)"; cases "tl (tl (tl buf))") auto
  have "take n (?b2[2 := ucast ?w, 3 := ucast (drop_bit 8 ?w)]) = ext_block es"
    unfolding b2 using n
    by (simp add: buf n_Suc ext_block_def Let_def be16_bytes_def ntohs_def wire_simps numeral_2_eq_2 numeral_3_eq_3
        add.assoc flip: body_def k_def)
  moreover have "length (ext_block es) = n"
    by (simp add: ext_block_def Let_def be16_bytes_def n_def flip: body_def k_def)
  ultimately show ?thesis
    using s by auto
qed

lemma rtp_load_append: "rtp_load hdr = Inr h \<Longrightarrow> rtp_load (hdr @ rest) = Inr h"
  by (auto simp: rtp_load_def rtp_HDR_LEN_def nth_append split: if_splits)

lemma extension_profile_block:
  assumes "rtp_load hdr = Inr h" and "length hdr = 12" and "rtp_extension h \<noteq> 0"
  shows "extension_profile (hdr @ ext_block es @ rest) = Inr one_byte"
  using rtp_load_append [OF assms(1), of "ext_block es @ rest"] assms(2,3)
  by (simp add: extension_profile_def extension_profile_header_def rd_def nth_append ext_block_def Let_def
      wire_simps) (simp add: be16_def)

lemma words_to_bytes:
  fixes a b :: byte
  shows "unat ((ucast a * 256 + ucast b) * 4 :: u32) = (256 * unat a + unat b) * 4"
proof -
  have "unat a < 256" "unat b < 256"
    using unat_lt2p [of a] unat_lt2p [of b] by simp_all
  then show ?thesis
    by (simp add: unat_word_ariths unsigned_ucast_eq take_bit_eq_mod)
qed

lemma extension_ptrs_block:
  assumes "rtp_load hdr = Inr h" and "length hdr = 12" and "rtp_extension h \<noteq> 0" and "rtp_csrc_count h = 0"
    and "\<forall>e \<in> set es. wf_ext e" and "length (concat (map ext_wire es)) + 3 < 2 ^ 16"
  shows "extension_ptrs (hdr @ ext_block es @ rest) = Inr (offsets 16 es)"
proof -
  define body where "body = concat (map ext_wire es)"
  define k where "k = pad4 (4 + length body)"
  let ?c = "of_nat ((length body + k) div 4) :: u16"
  let ?buf = "hdr @ ext_block es @ rest"
  have k: "(length body + k) mod 4 = 0" "k \<le> 3"
    using pad4_mod [of "4 + length body"] by (auto simp: k_def add.assoc)
  have blk: "?buf = (hdr @ [0xbe, 0xde] @ be16_bytes ?c) @ body @ replicate k 0 @ rest"
    by (simp add: ext_block_def Let_def body_def k_def)
  have sz: "unat ?c = (length body + k) div 4" "(length body + k) div 4 * 4 = length body + k"
      "length body + k < 2 ^ 16"
    using assms(6) k by (auto simp: unat_of_nat_eq body_def)
  have r: "rd ?buf 14 = Inr (ucast (drop_bit 8 ?c))" "rd ?buf 15 = Inr (ucast ?c)"
    unfolding blk using assms(2) by (simp_all add: rd_def nth_append be16_bytes_def)
  have tot: "unat (ucast ((ucast (ucast (drop_bit 8 ?c) :: byte) * 256 + ucast (ucast ?c :: byte)) * 4 :: u32) :: u16) =
      length body + k"
  proof -
    have u: "unat ?c = 256 * unat (ucast (drop_bit 8 ?c) :: byte) + unat (ucast ?c :: byte)"
      using unat_be16 [of "ucast (drop_bit 8 ?c)" "ucast ?c"] by (simp add: be16_of_bytes)
    have "unat ((ucast (ucast (drop_bit 8 ?c) :: byte) * 256 + ucast (ucast ?c :: byte)) * 4 :: u32) = unat ?c * 4"
      unfolding u by (rule words_to_bytes)
    also have "\<dots> = length body + k" using sz by simp
    finally show ?thesis
      using sz(3) by (simp add: unsigned_ucast_eq take_bit_eq_mod)
  qed
  have "ext_walk ?buf one_byte (length body + k) 4 = Inr (offsets (12 + 4) es)"
    using assms(2,5) by (intro ext_walk_wires [OF blk [unfolded body_def]]) (auto simp: be16_bytes_def body_def)
  then show ?thesis
    using rtp_load_append [OF assms(1), of "ext_block es @ rest"] extension_profile_block [OF assms(1-3), of es rest]
      assms(3,4) tot
    by (simp add: extension_ptrs_def r Let_def)
qed

text \<open>
  C20: serialising any list of one-byte extensions (identifiers 1 to 15, 1 to 16 bytes of data each)
  into a large enough buffer succeeds, writes a whole number of 32-bit words, and reading the
  extensions of a packet that carries those words behind its header returns exactly the list,
  whatever payload follows.
\<close>

theorem extensions_roundtrip:
  assumes "\<forall>e \<in> set es. wf_ext e" and "length (concat (map ext_wire es)) + 7 < length buf"
    and "length (concat (map ext_wire es)) + 3 < 2 ^ 16"
    and "rtp_load hdr = Inr h" and "length hdr = 12" and "rtp_extension h \<noteq> 0" and "rtp_csrc_count h = 0"
  shows "\<exists>buf' n. serialize_extensions es buf one_byte = Inr (buf', n) \<and> n mod 4 = 0 \<and> n \<le> length buf' \<and>
    rtp_extensions (hdr @ take n buf' @ payload) = Inr es"
proof -
  let ?n = "length (ext_block es)"
  obtain buf' where s: "serialize_extensions es buf one_byte = Inr (buf', ?n)" "take ?n buf' = ext_block es"
    using serialize_block [OF assms(1,2)] by auto
  have n4: "?n mod 4 = 0"
    using pad4_mod(1) [of "4 + length (concat (map ext_wire es))"]
    by (simp add: ext_block_def Let_def be16_bytes_def add.assoc)
  have le: "?n \<le> length buf'"
    using arg_cong [OF s(2), of length] by simp
  let ?body = "concat (map ext_wire es)"
  let ?pre = "hdr @ [0xbe, 0xde] @ be16_bytes (of_nat ((length ?body + pad4 (4 + length ?body)) div 4))"
  have blk: "hdr @ ext_block es @ payload = ?pre @ ?body @ replicate (pad4 (4 + length ?body)) 0 @ payload"
    by (simp add: ext_block_def Let_def)
  have pre: "length ?pre = 16"
    using assms(5) by (simp add: be16_bytes_def)
  have "from_bufs (hdr @ ext_block es @ payload) one_byte (offsets 16 es) = Inr es"
    using from_bufs_wires [OF assms(1), of ?pre] unfolding pre blk by simp
  then have "rtp_extensions (hdr @ ext_block es @ payload) = Inr es"
    using extension_ptrs_block [OF assms(4-7,1,3), of payload] extension_profile_block [OF assms(4-6), of es payload]
    by (simp add: rtp_extensions_def offsets_Nil_iff)
  then show ?thesis
    using s n4 le by (intro exI [of _ buf'] exI [of _ ?n]) simp
qed

definition example_ext :: "u16 \<Rightarrow> byte list \<Rightarrow> ext" where
  "example_ext t xs = \<lparr> ext_t = t, ext_l = of_nat (length xs), ext_data = xs @ replicate (128 - length xs) 0 \<rparr>"

lemma wf_example_ext: "wf_ext (example_ext 3 [1, 2, 3])" "wf_ext (example_ext 12 [7])"
  by (simp_all add: wf_ext_def example_ext_def EXT_DATA_def)

theorem extensions_roundtrip_witness:
  "\<exists>buf' n. serialize_extensions [example_ext 3 [1, 2, 3], example_ext 12 [7]] (replicate 32 0) one_byte = Inr (buf', n) \<and>
     n mod 4 = 0 \<and> n \<le> length buf' \<and>
     rtp_extensions ([0x90, 96, 0, 1, 0, 0, 0, 0, 0, 0, 0, 9] @ take n buf' @ [42]) =
       Inr [example_ext 3 [1, 2, 3], example_ext 12 [7]]"
proof -
  have w: "length (concat (map ext_wire [example_ext 3 [1, 2, 3], example_ext 12 [7]])) = 6"
    using wf_example_ext by (simp add: length_ext_wire) (simp add: example_ext_def)
  show ?thesis
    by (rule extensions_roundtrip
        [where h = "\<lparr> v_p_x_cc = 0x90, m_pt = 96, rtp_seq = load16 0 1, rtp_ts = load32 0 0 0 0,
           rtp_ssrc = load32 0 0 0 9 \<rparr>"])
      (use wf_example_ext w in \<open>simp_all add: rtp_load_def rtp_HDR_LEN_def rtp_extension_def rtp_csrc_count_def\<close>)
qed

section \<open>Where the header file departs from its comments\<close>

text \<open>
  \<open>extension_profile\<close> is documented to return \<open>other\<close> when no extension is present; it dereferences the
  null pointer \<open>extension_profile_header\<close> returns in that case.
\<close>

lemma extension_profile_without_extension:
  assumes "rtp_load buf = Inr h" and "rtp_extension h = 0"
  shows "extension_profile buf = Inl (Undefined_behaviour ''null dereference'')"
  using assms by (simp add: extension_profile_def extension_profile_header_def)

text \<open>Two-byte extensions may hold 255 bytes, the \<open>data\<close> array of the struct 128: \<open>memcpy\<close> overruns it.\<close>

lemma from_buf_two_byte_overrun:
  assumes "p + 1 < length buf" and "128 < buf ! (p + 1)"
  shows "from_buf buf p two_byte = Inl (Undefined_behaviour ''memcpy out of range'')"
proof -
  have "128 < unat (ucast (buf ! (p + 1)) :: u16)"
    using assms(2) by (simp add: word_less_nat_alt unsigned_ucast_eq take_bit_nat_eq_self unat_lt2p [THEN less_trans])
  then show ?thesis
    using assms(1) by (simp add: from_buf_def ext_type_def ext_len_def rd_def Let_def EXT_DATA_def)
qed

text \<open>
  The comparison of two extensions stops at the first zero byte: extensions that differ only behind
  one compare equal.
\<close>

lemma ext_eq_blind_after_zero:
  "ext_eq (example_ext 3 [1, 0, 5]) (example_ext 3 [1, 0, 6]) \<and> example_ext 3 [1, 0, 5] \<noteq> example_ext 3 [1, 0, 6]"
  by (simp add: ext_eq_def example_ext_def take_bit_nat_eq_self) (simp add: numeral_3_eq_3)

end
