(* ===== verification/RTCP.thy ===== *)
theory RTCP
  imports RTP Cpp_Strings
begin

text \<open>
  \<open>lib/proto/rtcp.h\<close>: the RTCP common header and the message bodies the union \<open>data\<close> overlays. A
  packet is the bytes from the header on. Multi-byte fields are loaded by a little-endian machine
  and stay in network byte order until \<open>ntohl\<close> or \<open>ntohs\<close> is applied. The lemmas cover the compound
  length, the bit rate of a receiver estimate, and the two loss counters of a report block, which
  are read without conversion.
\<close>

datatype rtcp_pt = pt_sr | pt_rr | pt_sdes | pt_bye | pt_app | pt_rtpfb | pt_psfb

fun rtcp_pt_num :: "rtcp_pt \<Rightarrow> byte" where
  "rtcp_pt_num pt_sr = 200"
| "rtcp_pt_num pt_rr = 201"
| "rtcp_pt_num pt_sdes = 202"
| "rtcp_pt_num pt_bye = 203"
| "rtcp_pt_num pt_app = 204"
| "rtcp_pt_num pt_rtpfb = 205"
| "rtcp_pt_num pt_psfb = 206"

definition pt_name :: "byte \<Rightarrow> string" where
  "pt_name pt =
     (if pt = 200 then ''sr'' else if pt = 201 then ''rr'' else if pt = 202 then ''sdes''
      else if pt = 203 then ''bye'' else if pt = 204 then ''app'' else if pt = 205 then ''rtpfb''
      else if pt = 206 then ''psfb'' else ''unknown'')"

section \<open>The common header\<close>

record rtcp_hdr =
  v_p_rc :: byte
  rtcp_pt :: byte
  rtcp_len :: u16
  sender_ssrc :: u32

definition rtcp_HDR_LEN :: nat where
  "rtcp_HDR_LEN = 8"

definition ld32 :: "byte list \<Rightarrow> nat \<Rightarrow> u32 result" where
  "ld32 buf i =
     (if length buf < i + 4 then Inl (Undefined_behaviour ''read past end'')
      else Inr (load32 (buf ! i) (buf ! (i + 1)) (buf ! (i + 2)) (buf ! (i + 3))))"

definition ld16 :: "byte list \<Rightarrow> nat \<Rightarrow> u16 result" where
  "ld16 buf i =
     (if length buf < i + 2 then Inl (Undefined_behaviour ''read past end'')
      else Inr (load16 (buf ! i) (buf ! (i + 1))))"

definition rtcp_load :: "byte list \<Rightarrow> rtcp_hdr result" where
  "rtcp_load buf =
     rbind (rd buf 0) (\<lambda>v. rbind (rd buf 1) (\<lambda>pt. rbind (ld16 buf 2) (\<lambda>l. rbind (ld32 buf 4) (\<lambda>s.
       Inr \<lparr> v_p_rc = v, rtcp_pt = pt, rtcp_len = l, sender_ssrc = s \<rparr>))))"

definition rtcp_version :: "rtcp_hdr \<Rightarrow> nat" where
  "rtcp_version h = unat (drop_bit 6 (v_p_rc h) AND 0x03)"

definition rtcp_padding :: "rtcp_hdr \<Rightarrow> nat" where
  "rtcp_padding h = unat (drop_bit 5 (v_p_rc h) AND 0x01)"

definition recep_rep_count :: "rtcp_hdr \<Rightarrow> nat" where
  "recep_rep_count h = unat (v_p_rc h AND 0x1f)"

definition fb_fmt :: "rtcp_hdr \<Rightarrow> nat" where
  "fb_fmt h = unat (v_p_rc h AND 0x1f)"

definition rtcp_byte_len :: "rtcp_hdr \<Rightarrow> nat" where
  "rtcp_byte_len h = unat (ntohs (rtcp_len h)) * 4 + 4"

section \<open>Message bodies\<close>

record rtcp_rr =
  rr_ssrc :: u32
  frac_lost_cum_lost :: u32
  ext_highest_seq_num :: u32
  rr_jitter :: u32
  rr_lsr :: u32
  rr_dlsr :: u32

definition rr_load :: "byte list \<Rightarrow> nat \<Rightarrow> rtcp_rr result" where
  "rr_load buf i =
     (let p = 8 + 24 * i in
      rbind (ld32 buf p) (\<lambda>a. rbind (ld32 buf (p + 4)) (\<lambda>b. rbind (ld32 buf (p + 8)) (\<lambda>c.
      rbind (ld32 buf (p + 12)) (\<lambda>d. rbind (ld32 buf (p + 16)) (\<lambda>e. rbind (ld32 buf (p + 20)) (\<lambda>f.
        Inr \<lparr> rr_ssrc = a, frac_lost_cum_lost = b, ext_highest_seq_num = c, rr_jitter = d,
              rr_lsr = e, rr_dlsr = f \<rparr>)))))))"

definition frac_lost :: "rtcp_rr \<Rightarrow> nat" where
  "frac_lost r = unat (drop_bit 24 (frac_lost_cum_lost r) AND 0xff)"

definition cum_lost :: "rtcp_rr \<Rightarrow> nat" where
  "cum_lost r = unat (frac_lost_cum_lost r AND 0x00ffffff)"

record rtcp_remb =
  remb_source_ssrc :: u32
  remb_id :: u32
  num_exp_man :: u32

definition remb_load :: "byte list \<Rightarrow> rtcp_remb result" where
  "remb_load buf =
     rbind (ld32 buf 8) (\<lambda>a. rbind (ld32 buf 12) (\<lambda>b. rbind (ld32 buf 16) (\<lambda>c.
       Inr \<lparr> remb_source_ssrc = a, remb_id = b, num_exp_man = c \<rparr>)))"

definition remb_ssrc :: "byte list \<Rightarrow> nat \<Rightarrow> u32 result" where
  "remb_ssrc buf i = ld32 buf (20 + 4 * i)"

definition num_ssrcs :: "rtcp_remb \<Rightarrow> nat" where
  "num_ssrcs r = unat (drop_bit 24 (ntohl (num_exp_man r)))"

text \<open>The shift is on 32 bits: a count of 32 or more has no meaning in C++.\<close>

definition bit_rate :: "rtcp_remb \<Rightarrow> u32 result" where
  "bit_rate r =
     (let man = ntohl (num_exp_man r) AND 0x3ffff;
          ex = drop_bit 18 (ntohl (num_exp_man r)) AND 0x3f
      in if 32 \<le> ex then Inl (Undefined_behaviour ''oversized shift'') else Inr (push_bit (unat ex) man))"

record rtcp_nack =
  nack_ssrc :: u32
  nack_pid :: u16
  nack_blp :: u16

definition nack_load :: "byte list \<Rightarrow> rtcp_nack result" where
  "nack_load buf =
     rbind (ld32 buf 8) (\<lambda>a. rbind (ld16 buf 12) (\<lambda>b. rbind (ld16 buf 14) (\<lambda>c.
       Inr \<lparr> nack_ssrc = a, nack_pid = b, nack_blp = c \<rparr>)))"

definition pli_ssrc :: "byte list \<Rightarrow> u32 result" where
  "pli_ssrc buf = ld32 buf 8"

section \<open>Lemmas\<close>

lemma rtcp_byte_len_ge: "4 \<le> rtcp_byte_len h" "rtcp_byte_len h mod 4 = 0" "rtcp_byte_len h \<le> 262144"
proof -
  have "unat (ntohs (rtcp_len h)) < 65536" using unat_lt2p [of "ntohs (rtcp_len h)"] by simp
  then show "4 \<le> rtcp_byte_len h" "rtcp_byte_len h mod 4 = 0" "rtcp_byte_len h \<le> 262144"
    by (auto simp: rtcp_byte_len_def)
qed

lemma ntohl_ld32: "i + 4 \<le> length buf \<Longrightarrow>
    ld32 buf i = Inr w \<Longrightarrow> ntohl w = be32 (buf ! i) (buf ! (i + 1)) (buf ! (i + 2)) (buf ! (i + 3))"
  by (auto simp: ld32_def ntohl_load32 split: if_splits)

text \<open>The estimate a receiver encodes: the count, a 6-bit exponent and an 18-bit mantissa.\<close>

definition remb_word :: "nat \<Rightarrow> nat \<Rightarrow> nat \<Rightarrow> u32" where
  "remb_word n ex man = of_nat (n * 2 ^ 24 + ex * 2 ^ 18 + man)"

lemma remb_word_parts:
  assumes "n < 256" and "ex < 64" and "man < 2 ^ 18"
  shows "unat (drop_bit 24 (remb_word n ex man)) = n"
    and "unat (remb_word n ex man AND 0x3ffff) = man"
    and "unat (drop_bit 18 (remb_word n ex man) AND 0x3f) = ex"
proof -
  let ?v = "n * 2 ^ 24 + ex * 2 ^ 18 + man"
  have "?v < 2 ^ 32" using assms by simp
  then have u: "unat (remb_word n ex man) = ?v"
    unfolding remb_word_def by (intro unat_of_nat_eq) simp
  have m: "w AND 0x3ffff = take_bit 18 w" "w AND 0x3f = take_bit 6 w" for w :: u32
    by (simp_all add: take_bit_eq_mask mask_eq_exp_minus_1)
  have v18: "?v = man + (n * 64 + ex) * 2 ^ 18" by simp
  then have d18: "?v div 2 ^ 18 = n * 64 + ex"
    using assms(3) by simp
  have m18: "?v mod 2 ^ 18 = man"
    unfolding v18 mod_mult_self1 using assms(3) by simp
  have v24: "?v = (ex * 2 ^ 18 + man) + n * 2 ^ 24" by simp
  have "ex * 2 ^ 18 + man < 2 ^ 24" using assms(2,3) by simp
  then have "?v div 2 ^ 24 = n"
    using v24 by simp
  then show "unat (drop_bit 24 (remb_word n ex man)) = n"
    by (simp only: drop_bit_eq_div unat_div u) simp
  show "unat (remb_word n ex man AND 0x3ffff) = man"
    using m18 by (simp only: m take_bit_eq_mod) (simp add: unat_mod u)
  have "(n * 64 + ex) mod 64 = ex" using assms(2) by simp
  then show "unat (drop_bit 18 (remb_word n ex man) AND 0x3f) = ex"
    using d18 by (simp only: m take_bit_eq_mod drop_bit_eq_div) (simp add: unat_mod unat_div u)
qed

text \<open>
  The bit rate read from a receiver estimate is mantissa times two to the exponent, exactly, whenever
  that product fits 32 bits; with an exponent of at most 31 and a larger product the 32-bit shift
  returns the product modulo 2^32, and exponents from 32 on shift by more than the width.
\<close>

lemma remb_bit_rate_value:
  assumes "n < 256" and "ex < 64" and "man < 2 ^ 18" and "ntohl (num_exp_man r) = remb_word n ex man"
  shows "num_ssrcs r = n \<and>
    (ex < 32 \<longrightarrow> (\<exists>w. bit_rate r = Inr w \<and> unat w = man * 2 ^ ex mod 2 ^ 32)) \<and>
    (man * 2 ^ ex < 2 ^ 32 \<and> 0 < man \<longrightarrow> (\<exists>w. bit_rate r = Inr w \<and> unat w = man * 2 ^ ex)) \<and>
    (32 \<le> ex \<longrightarrow> \<not> is_ok (bit_rate r))"
proof -
  note P = remb_word_parts [OF assms(1-3)]
  have n: "num_ssrcs r = n" using P(1) assms(4) by (simp add: num_ssrcs_def)
  have le: "32 \<le> drop_bit 18 (remb_word n ex man) AND 0x3f \<longleftrightarrow> 32 \<le> ex"
    using P(3) by (simp add: word_le_nat_alt)
  have shift: "\<exists>w. bit_rate r = Inr w \<and> unat w = man * 2 ^ ex mod 2 ^ 32" if "ex < 32"
  proof -
    have "bit_rate r = Inr (push_bit ex (remb_word n ex man AND 0x3ffff))"
      using that le P(3) assms(4) by (simp add: bit_rate_def Let_def)
    moreover have "unat (push_bit ex (remb_word n ex man AND 0x3ffff)) = man * 2 ^ ex mod 2 ^ 32"
      using P(2) unat_word_ariths(2) [of "remb_word n ex man AND 0x3ffff" "2 ^ ex"] that
        unat_of_nat_eq [of "2 ^ ex", where 'a = 32] power_strict_increasing [of ex 32 "2 :: nat"]
      by (simp add: push_bit_eq_mult)
    ultimately show ?thesis by blast
  qed
  moreover have "ex < 32" if "man * 2 ^ ex < 2 ^ 32" "0 < man"
  proof (rule ccontr)
    assume "\<not> ex < 32"
    then have "(2 :: nat) ^ 32 \<le> 2 ^ ex" by (intro power_increasing) auto
    also have "\<dots> \<le> man * 2 ^ ex" using that(2) by simp
    finally show False using that(1) by simp
  qed
  moreover have "\<not> is_ok (bit_rate r)" if "32 \<le> ex"
    using that le assms(4) by (simp add: bit_rate_def Let_def)
  ultimately show ?thesis using n by (metis mod_less)
qed

text \<open>
  The loss counters of a report block are taken from the field as loaded, without \<open>ntohl\<close>: on the wire
  the first byte is the fraction lost and the next three are the cumulative count, but \<open>frac_lost\<close>
  returns the last byte of the cumulative count.
\<close>

lemma frac_lost_reads_last_byte:
  assumes "frac_lost_cum_lost r = load32 f c2 c1 c0"
  shows "frac_lost r = unat c0"
proof -
  have "drop_bit 24 (be32 c0 c1 c2 f) AND 0xff = ucast c0"
  proof -
    have ff: "(0xff :: u32) = mask 8" by (simp add: mask_eq_exp_minus_1)
    show ?thesis
      unfolding be32_def ff
      by (rule bit_word_eqI) (auto simp: bit_simps dest: bit_imp_le_length)
  qed
  moreover have "unat (ucast c0 :: u32) = unat c0"
    using unat_lt2p [of c0] by (simp add: unsigned_ucast_eq take_bit_nat_eq_self)
  ultimately show ?thesis
    using assms by (simp add: frac_lost_def load32_def)
qed

end
