(* ===== verification/STUN.thy ===== *)
theory STUN
  imports RTP Net
begin

text \<open>
  \<open>lib/proto/stun.h\<close> and \<open>lib/stun_agent.{h,cc}\<close>: recognising STUN packets, and the agent that validates
  binding requests of known peers. Message validation and the construction of replies are done by
  libnice; the record \<open>nice_api\<close> holds those functions as parameters, over an opaque agent state.
  The lemmas: a datagram is never both STUN and RTP, and a peer is reported as newly validated at
  most once, whatever libnice answers.
\<close>

section \<open>Recognising STUN\<close>

definition bufferContainsSTUN :: "byte list \<Rightarrow> bool" where
  "bufferContainsSTUN buf \<longleftrightarrow>
     20 \<le> length buf \<and> drop_bit 6 (buf ! 0) = 0 \<and>
     buf ! 4 = 0x21 \<and> buf ! 5 = 0x12 \<and> buf ! 6 = 0xa4 \<and> buf ! 7 = 0x42"

definition bufferContainsSTUNBindingRequest :: "byte list \<Rightarrow> bool" where
  "bufferContainsSTUNBindingRequest buf \<longleftrightarrow>
     20 \<le> length buf \<and> buf ! 0 = 0x00 \<and> buf ! 1 = 0x01 \<and>
     buf ! 4 = 0x21 \<and> buf ! 5 = 0x12 \<and> buf ! 6 = 0xa4 \<and> buf ! 7 = 0x42"

text \<open>
  The two tests that demultiplex a datagram on the media port are exclusive: no byte string is
  both STUN and RTP or RTCP; and every binding request is recognised as STUN.
\<close>

lemma stun_rtp_exclusive:
  "\<not> (bufferContainsSTUN buf \<and> contains_rtp_or_rtcp buf) \<and>
   (bufferContainsSTUNBindingRequest buf \<longrightarrow> bufferContainsSTUN buf)"
  by (auto simp: bufferContainsSTUN_def contains_rtp_or_rtcp_def bufferContainsSTUNBindingRequest_def)

section \<open>Status names\<close>

datatype StunValidationStatus =
    VALIDATION_SUCCESS | VALIDATION_NOT_STUN | VALIDATION_INCOMPLETE_STUN | VALIDATION_BAD_REQUEST
  | VALIDATION_UNAUTHORIZED_BAD_REQUEST | VALIDATION_UNAUTHORIZED | VALIDATION_UNMATCHED_RESPONSE
  | VALIDATION_UNKNOWN_REQUEST_ATTRIBUTE | VALIDATION_UNKNOWN_ATTRIBUTE

fun validationResultString :: "StunValidationStatus \<Rightarrow> string" where
  "validationResultString VALIDATION_SUCCESS = ''STUN_VALIDATION_SUCCESS''"
| "validationResultString VALIDATION_NOT_STUN = ''STUN_VALIDATION_NOT_STUN''"
| "validationResultString VALIDATION_INCOMPLETE_STUN = ''STUN_VALIDATION_INCOMPLETE_STUN''"
| "validationResultString VALIDATION_BAD_REQUEST = ''STUN_VALIDATION_BAD_REQUEST''"
| "validationResultString VALIDATION_UNAUTHORIZED_BAD_REQUEST = ''STUN_VALIDATION_UNAUTHORIZED_BAD_REQUEST''"
| "validationResultString VALIDATION_UNAUTHORIZED = ''STUN_VALIDATION_UNAUTHORIZED''"
| "validationResultString VALIDATION_UNMATCHED_RESPONSE = ''STUN_VALIDATION_UNMATCHED_RESPONSE''"
| "validationResultString VALIDATION_UNKNOWN_REQUEST_ATTRIBUTE = ''STUN_VALIDATION_UNKNOWN_REQUEST_ATTRIBUTE''"
| "validationResultString VALIDATION_UNKNOWN_ATTRIBUTE = ''STUN_VALIDATION_UNKNOWN_ATTRIBUTE''"

datatype StunUsageIceReturn =
    ICE_RETURN_SUCCESS | ICE_RETURN_ERROR | ICE_RETURN_INVALID | ICE_RETURN_ROLE_CONFLICT
  | ICE_RETURN_INVALID_REQUEST | ICE_RETURN_INVALID_METHOD | ICE_RETURN_MEMORY_ERROR
  | ICE_RETURN_INVALID_ADDRESS | ICE_RETURN_NO_MAPPED_ADDRESS

fun usageICEReturnString :: "StunUsageIceReturn \<Rightarrow> string" where
  "usageICEReturnString ICE_RETURN_SUCCESS = ''STUN_USAGE_ICE_RETURN_SUCCESS''"
| "usageICEReturnString ICE_RETURN_ERROR = ''STUN_USAGE_ICE_RETURN_ERROR''"
| "usageICEReturnString ICE_RETURN_INVALID = ''STUN_USAGE_ICE_RETURN_INVALID''"
| "usageICEReturnString ICE_RETURN_ROLE_CONFLICT = ''STUN_USAGE_ICE_RETURN_ROLE_CONFLICT''"
| "usageICEReturnString ICE_RETURN_INVALID_REQUEST = ''STUN_USAGE_ICE_RETURN_INVALID_REQUEST''"
| "usageICEReturnString ICE_RETURN_INVALID_METHOD = ''STUN_USAGE_ICE_RETURN_INVALID_METHOD''"
| "usageICEReturnString ICE_RETURN_MEMORY_ERROR = ''STUN_USAGE_ICE_RETURN_MEMORY_ERROR''"
| "usageICEReturnString ICE_RETURN_INVALID_ADDRESS = ''STUN_USAGE_ICE_RETURN_INVALID_ADDRESS''"
| "usageICEReturnString ICE_RETURN_NO_MAPPED_ADDRESS = ''STUN_USAGE_ICE_RETURN_NO_MAPPED_ADDRESS''"

datatype StunClass = STUN_REQUEST | STUN_INDICATION | STUN_RESPONSE | STUN_ERROR

fun classString :: "StunClass \<Rightarrow> string" where
  "classString STUN_REQUEST = ''STUN_REQUEST''"
| "classString STUN_INDICATION = ''STUN_INDICATION''"
| "classString STUN_RESPONSE = ''STUN_RESPONSE''"
| "classString STUN_ERROR = ''STUN_ERROR''"

section \<open>The agent\<close>

record Credentials =
  uFrag :: string
  pwd :: string
  validated :: bool

record ValidationResult =
  vr_success :: bool
  vr_initial :: bool
  vr_message :: string

text \<open>libnice: \<open>stun_agent_validate\<close>, \<open>stun_message_has_attribute\<close> and \<open>stun_usage_ice_conncheck_create_reply\<close>.\<close>

record 'n nice_api =
  nice_validate :: "'n \<Rightarrow> string \<Rightarrow> string \<Rightarrow> byte list \<Rightarrow> 'n \<times> StunValidationStatus"
  nice_controlled :: "'n \<Rightarrow> byte list \<Rightarrow> bool"
  nice_reply :: "'n \<Rightarrow> byte list \<Rightarrow> IPv4Port \<Rightarrow> bool \<Rightarrow> 'n \<times> StunUsageIceReturn \<times> byte list"

record 'n stun_agent =
  sa_config :: Credentials
  sa_peers :: "(IPv4Port, Credentials) umap"
  sa_stun :: 'n
  sa_msgBuf :: "byte list"
  sa_msgLen :: nat

definition STUNAgent :: "Credentials \<Rightarrow> 'n \<Rightarrow> 'n stun_agent" where
  "STUNAgent c n = \<lparr> sa_config = c, sa_peers = [], sa_stun = n, sa_msgBuf = [], sa_msgLen = 0 \<rparr>"

definition hasPeer :: "'n stun_agent \<Rightarrow> IPv4Port \<Rightarrow> bool" where
  "hasPeer a ipPort \<longleftrightarrow> map_of (sa_peers a) ipPort \<noteq> None"

definition addPeer :: "IPv4Port \<Rightarrow> Credentials \<Rightarrow> 'n stun_agent \<Rightarrow> unit result \<times> 'n stun_agent" where
  "addPeer ipPort c a =
     (if map_of (sa_peers a) ipPort \<noteq> None
      then (Inl (Logic_error ''STUNAgent: entry already exists''), a)
      else (Inr (), a\<lparr> sa_peers := umap_put ipPort c (sa_peers a) \<rparr>))"

definition countPeers :: "'n stun_agent \<Rightarrow> nat" where
  "countPeers a = length (sa_peers a)"

definition validate :: "'n nice_api \<Rightarrow> IPv4Port \<Rightarrow> byte list \<Rightarrow> 'n stun_agent \<Rightarrow> ValidationResult \<times> 'n stun_agent" where
  "validate api src req a =
     (case map_of (sa_peers a) src of
        None \<Rightarrow> (\<lparr> vr_success = False, vr_initial = False, vr_message = ''UNKNOWN_PEER'' \<rparr>, a)
      | Some peer \<Rightarrow>
          let username = uFrag (sa_config a) @ '':'' @ uFrag peer;
              (n, valRes) = nice_validate api (sa_stun a) username (pwd (sa_config a)) req;
              a = a\<lparr> sa_stun := n \<rparr>;
              failed = \<lparr> vr_success = False, vr_initial = False, vr_message = validationResultString valRes \<rparr>
          in if valRes = VALIDATION_SUCCESS then
               let iceControlling = nice_controlled api n req;
                   (n, result, msg) = nice_reply api n req src iceControlling;
                   a = a\<lparr> sa_stun := n, sa_msgBuf := msg \<rparr>
               in if result = ICE_RETURN_SUCCESS then
                    let a = a\<lparr> sa_msgLen := length msg \<rparr> in
                    if validated peer
                    then (\<lparr> vr_success = True, vr_initial = False, vr_message = validationResultString valRes \<rparr>, a)
                    else (\<lparr> vr_success = True, vr_initial = True, vr_message = validationResultString valRes \<rparr>,
                          a\<lparr> sa_peers := umap_put src (peer\<lparr> validated := True \<rparr>) (sa_peers a) \<rparr>)
                  else (failed, a)
             else (failed, a))"

text \<open>A sequence of calls, with the results in order.\<close>

fun validate_all :: "'n nice_api \<Rightarrow> (IPv4Port \<times> byte list) list \<Rightarrow> 'n stun_agent \<Rightarrow>
    (IPv4Port \<times> ValidationResult) list \<times> 'n stun_agent" where
  "validate_all api [] a = ([], a)"
| "validate_all api ((src, req) # rs) a =
     (let (r, a) = validate api src req a; (out, a) = validate_all api rs a in ((src, r) # out, a))"

definition is_validated :: "'n stun_agent \<Rightarrow> IPv4Port \<Rightarrow> bool" where
  "is_validated a p \<longleftrightarrow> (\<exists>c. map_of (sa_peers a) p = Some c \<and> validated c)"

lemma validate_step:
  assumes "validate api src req a = (r, a')"
  shows "is_validated a p \<Longrightarrow> is_validated a' p"
    and "vr_initial r \<longrightarrow> \<not> is_validated a src \<and> is_validated a' src"
    and "vr_success r \<longrightarrow> is_validated a' src"
    and "vr_success r \<longrightarrow> hasPeer a src"
    and "hasPeer a' p = hasPeer a p"
  using assms
  by (auto simp: validate_def is_validated_def hasPeer_def Let_def split: option.splits if_splits prod.splits)

lemma validated_stays:
  "is_validated a p \<Longrightarrow> validate_all api rs a = (out, a') \<Longrightarrow> is_validated a' p"
proof (induction rs arbitrary: a out)
  case (Cons q rs)
  obtain src req where q: "q = (src, req)" by fastforce
  obtain r1 a1 where v: "validate api src req a = (r1, a1)" by fastforce
  obtain out1 where "validate_all api rs a1 = (out1, a')"
    using Cons.prems(2) q v by (auto split: prod.splits)
  with Cons.IH validate_step(1) [OF v Cons.prems(1)] show ?case by blast
qed simp

lemma validated_no_initial:
  "is_validated a p \<Longrightarrow> validate_all api rs a = (out, a') \<Longrightarrow> (p, r) \<in> set out \<Longrightarrow> \<not> vr_initial r"
proof (induction rs arbitrary: a out a')
  case (Cons q rs)
  obtain src req where q: "q = (src, req)" by fastforce
  obtain r1 a1 where v: "validate api src req a = (r1, a1)" by fastforce
  obtain out1 a2 where w: "validate_all api rs a1 = (out1, a2)" by fastforce
  have "out = (src, r1) # out1" using Cons.prems(2) q v w by simp
  with Cons.prems(3) consider "p = src" "r = r1" | "(p, r) \<in> set out1" by auto
  then show ?case
    using Cons.IH [OF validate_step(1) [OF v Cons.prems(1)] w] validate_step(2) [OF v] Cons.prems(1)
    by cases auto
qed simp

text \<open>
  C22: whatever libnice answers, in any sequence of validation calls a peer is reported as newly
  validated at most once, a request is accepted only from a peer that was added, and an accepted
  peer is marked as validated from then on.
\<close>

theorem initial_validation_once:
  assumes "validate_all api rs a = (out, a')"
  shows "length (filter (\<lambda>(q, r). q = p \<and> vr_initial r) out) \<le> 1 \<and>
    (\<forall>(q, r) \<in> set out. vr_success r \<longrightarrow> hasPeer a q \<and> is_validated a' q)"
  using assms
proof (induction rs arbitrary: a out)
  case (Cons q rs)
  obtain src req where q: "q = (src, req)" by fastforce
  obtain r1 a1 where v: "validate api src req a = (r1, a1)" by fastforce
  obtain out1 a2 where w: "validate_all api rs a1 = (out1, a2)" by fastforce
  have out: "out = (src, r1) # out1" "a' = a2" using Cons.prems q v w by auto
  note IH = Cons.IH [OF w [folded out(2)]]
  have none: "filter (\<lambda>(q, r). q = p \<and> vr_initial r) out1 = []" if "p = src" "vr_initial r1"
    using validated_no_initial [OF _ w] validate_step(2) [OF v] that by (auto simp: filter_empty_conv)
  have ok: "hasPeer a src \<and> is_validated a' src" if "vr_success r1"
    using that validate_step(3,4) [OF v] validated_stays [OF _ w] out(2) by auto
  have "length (filter (\<lambda>(q, r). q = p \<and> vr_initial r) out) \<le> 1"
    using IH none by (auto simp: out(1))
  moreover have "\<forall>(q, r) \<in> set out. vr_success r \<longrightarrow> hasPeer a q \<and> is_validated a' q"
    using IH ok validate_step(5) [OF v] by (auto simp: out(1))
  ultimately show ?case by blast
qed simp

theorem initial_validation_once_witness:
  "\<exists>out a'. validate_all
     \<lparr> nice_validate = \<lambda>n u p r. (n, VALIDATION_SUCCESS), nice_controlled = \<lambda>n r. False,
       nice_reply = \<lambda>n r p c. (n, ICE_RETURN_SUCCESS, [1]) \<rparr>
     [(IPv4Port 1 2, [0]), (IPv4Port 1 2, [0]), (IPv4Port 9 9, [0])]
     (snd (addPeer (IPv4Port 1 2) \<lparr> uFrag = ''u'', pwd = ''p'', validated = False \<rparr>
       (STUNAgent \<lparr> uFrag = ''s'', pwd = ''q'', validated = False \<rparr> ()))) = (out, a') \<and>
   length (filter (\<lambda>(q, r). q = IPv4Port 1 2 \<and> vr_initial r) out) = 1"
proof -
  let ?api = "\<lparr> nice_validate = \<lambda>n u p r. (n, VALIDATION_SUCCESS), nice_controlled = \<lambda>n r. False,
       nice_reply = \<lambda>n r p c. (n, ICE_RETURN_SUCCESS, [1]) \<rparr>"
  let ?a = "snd (addPeer (IPv4Port 1 2) \<lparr> uFrag = ''u'', pwd = ''p'', validated = False \<rparr>
       (STUNAgent \<lparr> uFrag = ''s'', pwd = ''q'', validated = False \<rparr> ()))"
  let ?rs = "[(IPv4Port 1 2, [0]), (IPv4Port 1 2, [0]), (IPv4Port 9 9, [0])]"
  obtain out a' where r: "validate_all ?api ?rs ?a = (out, a')" by fastforce
  have "length (filter (\<lambda>(q, r). q = IPv4Port 1 2 \<and> vr_initial r) out) \<le> 1"
    using initial_validation_once [OF r] by blast
  moreover have "\<exists>r \<in> set out. fst r = IPv4Port 1 2 \<and> vr_initial (snd r)"
    using r by (auto simp: validate_def addPeer_def STUNAgent_def)
  then have "filter (\<lambda>(q, r). q = IPv4Port 1 2 \<and> vr_initial r) out \<noteq> []"
    by (auto simp: filter_empty_conv)
  ultimately have "length (filter (\<lambda>(q, r). q = IPv4Port 1 2 \<and> vr_initial r) out) = 1"
    by (cases "filter (\<lambda>(q, r). q = IPv4Port 1 2 \<and> vr_initial r) out") auto
  with r show ?thesis by blast
qed

end
