(* ===== verification/Data_Plane.thy ===== *)
theory Data_Plane
  imports SFU_Table RTCP STUN
begin

text \<open>
  \<open>lib/data_plane.h\<close>, \<open>lib/switch_statistics.h\<close> and \<open>lib/data_plane_model.{h,cc}\<close>: the software data plane.
  Its state holds the match/action table, the statistics and the datagrams sent so far; the
  control-plane packet handler is a function the switch agent registers, which may call back
  into the data plane, so its state (\<open>dp_agent\<close>) is part of the data plane's state here and the
  handler is an argument of the packet handlers. Log output is not modelled. The random draw that
  makes the model drop RTP packets is an argument.
\<close>

section \<open>State\<close>

record TotalPacketStatistics =
  st_pkts :: u64
  st_bytes :: u64
  st_stunPkts :: u64
  st_rtcpPkts :: u64
  st_rtpPkts :: u64
  st_frames :: u64
  st_av1SimpleDescriptors :: u64
  st_av1ExtendedDescriptors :: u64

definition stats_zero :: TotalPacketStatistics where
  "stats_zero = \<lparr> st_pkts = 0, st_bytes = 0, st_stunPkts = 0, st_rtcpPkts = 0, st_rtpPkts = 0, st_frames = 0,
     st_av1SimpleDescriptors = 0, st_av1ExtendedDescriptors = 0 \<rparr>"

datatype Reason = Reason_stun | Reason_av1 | Reason_rtcp

record PktIn =
  pi_reason :: Reason
  pi_from :: IPv4Port
  pi_buf :: "byte list"

type_synonym PktOut = "IPv4Port \<times> byte list"

record DP_Stream =
  ds_src :: IPv4Port
  ds_dst :: IPv4Port
  ds_ssrc :: u32
  ds_rtxSsrc :: u32
  ds_rtcpSsrc :: u32
  ds_rtcpRtxSsrc :: u32
  ds_egressPort :: u16

record 'e data_plane_model =
  dp_sfu :: SFUTable
  dp_av1RtpExt :: u32
  dp_stats :: TotalPacketStatistics
  dp_out :: "PktOut list"
  dp_agent :: 'e

type_synonym 'e handler = "PktIn \<Rightarrow> 'e data_plane_model \<Rightarrow> unit result \<times> 'e data_plane_model"

definition DataPlaneModel :: "u32 \<Rightarrow> 'e \<Rightarrow> 'e data_plane_model" where
  "DataPlaneModel av1RtpExt ag =
     \<lparr> dp_sfu = [], dp_av1RtpExt = av1RtpExt, dp_stats = stats_zero, dp_out = [], dp_agent = ag \<rparr>"

definition sendPacket :: "PktOut \<Rightarrow> 'e data_plane_model \<Rightarrow> 'e data_plane_model" where
  "sendPacket p d = d\<lparr> dp_out := dp_out d @ [p] \<rparr>"

definition toController :: "'e handler option \<Rightarrow> PktIn \<Rightarrow> 'e data_plane_model \<Rightarrow> unit result \<times> 'e data_plane_model" where
  "toController h p d =
     (case h of
        None \<Rightarrow> (Inl (Logic_error ''DataPlaneModel: no control-plane packet handler set''), d)
      | Some f \<Rightarrow> f p d)"

section \<open>Installing streams\<close>

text \<open>\<open>_addMatch\<close> and \<open>_addAction\<close> are \<open>noexcept\<close>: the guard excludes the throwing case of the table.\<close>

definition dp_addMatch :: "Match \<Rightarrow> SFUTable \<Rightarrow> SFUTable" where
  "dp_addMatch m t = (if \<not> hasMatch t m then snd (addMatch m t) else t)"

definition dp_addAction :: "Match \<Rightarrow> Action \<Rightarrow> SFUTable \<Rightarrow> unit result \<times> SFUTable" where
  "dp_addAction m a t =
     (case getEntry t m of
        Inl e \<Rightarrow> (Inl e, t)
      | Inr e \<Rightarrow> (Inr (), if \<not> hasAction e a then setEntry m (snd (addAction a e)) t else t))"

definition addStream_table :: "DP_Stream \<Rightarrow> SFUTable \<Rightarrow> unit result \<times> SFUTable" where
  "addStream_table s t =
     (let mainMatch = Match (ds_src s) (ds_ssrc s); rtxMatch = Match (ds_src s) (ds_rtxSsrc s);
          t = dp_addMatch mainMatch t;
          t = (if ds_rtxSsrc s \<noteq> 0 then dp_addMatch rtxMatch t else t)
      in if IPv4Port_eq (ds_dst s) (IPv4Port 0 0) then (Inr (), t)
         else
           let action = Action (ds_dst s);
               retMatch = Match (ds_dst s) (ds_rtcpSsrc s); retRtxMatch = Match (ds_dst s) (ds_rtcpRtxSsrc s);
               t = dp_addMatch retMatch t;
               retAction = Action (ds_src s);
               t = (if ds_rtcpRtxSsrc s \<noteq> 0 then dp_addMatch retRtxMatch t else t)
           in sbind (dp_addAction mainMatch action t) (\<lambda>_ t.
              sbind (dp_addAction retMatch retAction t) (\<lambda>_ t.
              sbind (if ds_rtxSsrc s \<noteq> 0 then dp_addAction rtxMatch action t else (Inr (), t)) (\<lambda>_ t.
              if ds_rtcpRtxSsrc s \<noteq> 0 \<and> ds_rtcpSsrc s \<noteq> 1 then dp_addAction retRtxMatch retAction t
              else (Inr (), t)))))"

definition addStream :: "DP_Stream \<Rightarrow> 'e data_plane_model \<Rightarrow> unit result \<times> 'e data_plane_model" where
  "addStream s d = (let (r, t) = addStream_table s (dp_sfu d) in (r, d\<lparr> dp_sfu := t \<rparr>))"

definition removeStream :: "DP_Stream \<Rightarrow> 'e data_plane_model \<Rightarrow> unit result \<times> 'e data_plane_model" where
  "removeStream s d = (Inl (Domain_error ''DataPlaneModel: removeStream: not implemented''), d)"

text \<open>The loop over the actions of the entry stops at the first action towards \<open>to\<close>.\<close>

fun adjust_actions :: "IPv4Port \<Rightarrow> u32 \<Rightarrow> Action list \<Rightarrow> Action list" where
  "adjust_actions to target [] = []"
| "adjust_actions to target (a # as) =
     (if IPv4Port_eq (a_to a) to then
        let a = (if svcConfig a = None then a\<lparr> svcConfig := Some hi \<rparr> else a) in
        if of_nat MAX_IDENT < target then a # as
        else (case decodeTargetFromNumIdentifier target of
                Inr t \<Rightarrow> a\<lparr> svcConfig := Some t \<rparr> # as
              | Inl _ \<Rightarrow> a # as)
      else a # adjust_actions to target as)"

definition adjustDecodeTarget ::
  "IPv4Port \<Rightarrow> IPv4Port \<Rightarrow> SSRC \<Rightarrow> u32 \<Rightarrow> 'e data_plane_model \<Rightarrow> unit result \<times> 'e data_plane_model" where
  "adjustDecodeTarget frm to ssrc target d =
     (let m = Match frm ssrc in
      if hasMatch (dp_sfu d) m then
        (case getEntry (dp_sfu d) m of
           Inl e \<Rightarrow> (Inl e, d)
         | Inr e \<Rightarrow> (Inr (), d\<lparr> dp_sfu := setEntry m (adjust_actions to target e) (dp_sfu d) \<rparr>))
      else (Inr (), d))"

section \<open>Packet handlers\<close>

definition handleSTUN :: "'e handler option \<Rightarrow> IPv4Port \<Rightarrow> byte list \<Rightarrow> 'e data_plane_model \<Rightarrow> unit result \<times> 'e data_plane_model" where
  "handleSTUN h frm buf d =
     toController h \<lparr> pi_reason = Reason_stun, pi_from = frm, pi_buf = buf \<rparr>
       (d\<lparr> dp_stats := (dp_stats d)\<lparr> st_stunPkts := st_stunPkts (dp_stats d) + 1 \<rparr> \<rparr>)"

text \<open>What one action does with a packet that carries a descriptor: drop decision, new number, new rewriter.\<close>

definition action_rewrite :: "MandatoryFields \<Rightarrow> byte list \<Rightarrow> Action \<Rightarrow> (bool \<times> u32 option \<times> Action) result" where
  "action_rewrite av1 buf a =
     rbind (templateId av1) (\<lambda>tid. rbind (frameNumber av1) (\<lambda>fn. rbind (startOfFrame av1) (\<lambda>s.
     rbind (endOfFrame av1) (\<lambda>e. rbind (rtp_load buf) (\<lambda>h.
       let drp = (case svcConfig a of None \<Rightarrow> False | Some t \<Rightarrow> L1T3_drop t (unat tid));
           (sq, rw) = rewrite_flags (ucast fn) (ntohs (rtp_seq h)) s e drp (sequenceRewriter a)
       in Inr (drp, sq, a\<lparr> sequenceRewriter := rw \<rparr>))))))"

text \<open>
  The loop over the actions: the sequence number is stored into the shared packet buffer, which the
  following actions read again; a drop returns from the handler.
\<close>

fun rtp_actions :: "MandatoryFields option \<Rightarrow> byte list \<Rightarrow> Action list \<Rightarrow> unit result \<times> Action list \<times> PktOut list" where
  "rtp_actions av1 buf [] = (Inr (), [], [])"
| "rtp_actions av1 buf (a # as) =
     (case av1 of
        None \<Rightarrow> (case rtp_actions av1 buf as of (r, as, out) \<Rightarrow> (r, a # as, (a_to a, buf) # out))
      | Some f \<Rightarrow>
          (case action_rewrite f buf a of
             Inl e \<Rightarrow> (Inl e, a # as, [])
           | Inr (drp, sq, a) \<Rightarrow>
               if drp then (Inr (), a # as, [])
               else
                 (case sq of
                    None \<Rightarrow> (Inl (Undefined_behaviour ''empty optional''), a # as, [])
                  | Some n \<Rightarrow>
                      let buf = rtp_store_seq buf (ntohs (ucast n)) in
                      case rtp_actions av1 buf as of (r, as, out) \<Rightarrow> (r, a # as, (a_to a, buf) # out))))"

definition forward_rtp :: "MandatoryFields option \<Rightarrow> IPv4Port \<Rightarrow> byte list \<Rightarrow> 'e data_plane_model \<Rightarrow> unit result \<times> 'e data_plane_model" where
  "forward_rtp av1 frm buf d =
     (case rtp_load buf of
        Inl e \<Rightarrow> (Inl e, d)
      | Inr rtp \<Rightarrow>
          let m = Match frm (ntohl (rtp_ssrc rtp)) in
          if hasMatch (dp_sfu d) m then
            (case getEntry (dp_sfu d) m of
               Inl e \<Rightarrow> (Inl e, d)
             | Inr e \<Rightarrow>
                 (case rtp_actions av1 buf e of
                    (r, e, out) \<Rightarrow> (r, d\<lparr> dp_sfu := setEntry m e (dp_sfu d), dp_out := dp_out d @ out \<rparr>)))
          else (Inr (), d))"

text \<open>
  \<open>av1::DependencyDescriptor{av1Ptr + 1, rtp::ext_len(av1Ptr)}\<close>: the bytes behind the one-byte
  extension header; the block has to lie inside the datagram.
\<close>

definition descriptor_at :: "byte list \<Rightarrow> nat \<Rightarrow> (MandatoryFields \<times> nat) result" where
  "descriptor_at buf p =
     rbind (ext_len buf p one_byte) (\<lambda>l.
       if length buf < p + 1 + unat l then Inl (Undefined_behaviour ''read past end'')
       else rbind (DependencyDescriptor (take (unat l) (drop (p + 1) buf))) (\<lambda>d.
         Inr (dd_mandatoryFields d, unat l)))"

definition handleRTP ::
  "'e handler option \<Rightarrow> bool \<Rightarrow> IPv4Port \<Rightarrow> byte list \<Rightarrow> 'e data_plane_model \<Rightarrow> unit result \<times> 'e data_plane_model" where
  "handleRTP h randomDrop frm buf d =
     (if randomDrop then (Inr (), d)
      else
        let d = d\<lparr> dp_stats := (dp_stats d)\<lparr> st_rtpPkts := st_rtpPkts (dp_stats d) + 1 \<rparr> \<rparr> in
        case extension_ptr buf (dp_av1RtpExt d) of
          Inl e \<Rightarrow> (Inl e, d)
        | Inr None \<Rightarrow> forward_rtp None frm buf d
        | Inr (Some p) \<Rightarrow>
            (case descriptor_at buf p of
               Inl e \<Rightarrow> (Inl e, d)
             | Inr (av1, l) \<Rightarrow>
                 if 3 < l then
                   sbind (toController h \<lparr> pi_reason = Reason_av1, pi_from = frm, pi_buf = buf \<rparr> d) (\<lambda>_ d.
                     forward_rtp (Some av1) frm buf
                       (d\<lparr> dp_stats := (dp_stats d)\<lparr> st_av1ExtendedDescriptors := st_av1ExtendedDescriptors (dp_stats d) + 1 \<rparr> \<rparr>))
                 else
                   forward_rtp (Some av1) frm buf
                     (d\<lparr> dp_stats := (dp_stats d)\<lparr> st_av1SimpleDescriptors := st_av1SimpleDescriptors (dp_stats d) + 1 \<rparr> \<rparr>)))"

text \<open>The loop that sends a packet unchanged to every receiver of a match.\<close>

definition send_to_all :: "Match \<Rightarrow> byte list \<Rightarrow> 'e data_plane_model \<Rightarrow> unit result \<times> 'e data_plane_model" where
  "send_to_all m buf d =
     (if hasMatch (dp_sfu d) m then
        (case getEntry (dp_sfu d) m of
           Inl e \<Rightarrow> (Inl e, d)
         | Inr e \<Rightarrow> (Inr (), fold (\<lambda>a. sendPacket (a_to a, buf)) e d))
      else (Inr (), d))"

definition handleSR :: "IPv4Port \<Rightarrow> byte list \<Rightarrow> 'e data_plane_model \<Rightarrow> unit result \<times> 'e data_plane_model" where
  "handleSR frm buf d =
     (case rtcp_load buf of
        Inl e \<Rightarrow> (Inl e, d)
      | Inr rtcp \<Rightarrow> send_to_all (Match frm (ntohl (sender_ssrc rtcp))) buf d)"

definition handleRR :: "'e handler option \<Rightarrow> IPv4Port \<Rightarrow> byte list \<Rightarrow> 'e data_plane_model \<Rightarrow> unit result \<times> 'e data_plane_model" where
  "handleRR h frm buf d = toController h \<lparr> pi_reason = Reason_rtcp, pi_from = frm, pi_buf = buf \<rparr> d"

definition handleRTPFB :: "'e handler option \<Rightarrow> IPv4Port \<Rightarrow> byte list \<Rightarrow> 'e data_plane_model \<Rightarrow> unit result \<times> 'e data_plane_model" where
  "handleRTPFB h frm buf d =
     (case rtcp_load buf of
        Inl e \<Rightarrow> (Inl e, d)
      | Inr rtcp \<Rightarrow>
          if fb_fmt rtcp = 1 then
            sbind (send_to_all (Match frm (ntohl (sender_ssrc rtcp))) buf d) (\<lambda>_ d.
              toController h \<lparr> pi_reason = Reason_rtcp, pi_from = frm, pi_buf = buf \<rparr> d)
          else (Inr (), d))"

definition handlePSFB :: "'e handler option \<Rightarrow> IPv4Port \<Rightarrow> byte list \<Rightarrow> 'e data_plane_model \<Rightarrow> unit result \<times> 'e data_plane_model" where
  "handlePSFB h frm buf d =
     (case rtcp_load buf of
        Inl e \<Rightarrow> (Inl e, d)
      | Inr rtcp \<Rightarrow>
          if fb_fmt rtcp = 1 then
            sbind (send_to_all (Match frm (ntohl (sender_ssrc rtcp))) buf d) (\<lambda>_ d.
              toController h \<lparr> pi_reason = Reason_rtcp, pi_from = frm, pi_buf = buf \<rparr> d)
          else (Inr (), d))"

definition handleRTCP :: "'e handler option \<Rightarrow> IPv4Port \<Rightarrow> byte list \<Rightarrow> 'e data_plane_model \<Rightarrow> unit result \<times> 'e data_plane_model" where
  "handleRTCP h frm buf d =
     (let d = d\<lparr> dp_stats := (dp_stats d)\<lparr> st_rtcpPkts := st_rtcpPkts (dp_stats d) + 1 \<rparr> \<rparr> in
      case rtcp_load buf of
        Inl e \<Rightarrow> (Inl e, d)
      | Inr rtcp \<Rightarrow>
          if rtcp_pt rtcp = rtcp_pt_num pt_sr then handleSR frm buf d
          else if rtcp_pt rtcp = rtcp_pt_num pt_rr then handleRR h frm buf d
          else if rtcp_pt rtcp = rtcp_pt_num pt_rtpfb then handleRTPFB h frm buf d
          else if rtcp_pt rtcp = rtcp_pt_num pt_psfb then handlePSFB h frm buf d
          else (Inr (), d))"

definition count_pkt :: "nat \<Rightarrow> 'e data_plane_model \<Rightarrow> 'e data_plane_model" where
  "count_pkt len d =
     d\<lparr> dp_stats := (dp_stats d)\<lparr> st_pkts := st_pkts (dp_stats d) + 1, st_bytes := st_bytes (dp_stats d) + of_nat len \<rparr> \<rparr>"

text \<open>\<open>_onPacket\<close>; the sender's address arrives as the text the socket library prints.\<close>

definition onPacket ::
  "'e handler option \<Rightarrow> bool \<Rightarrow> string \<Rightarrow> u16 \<Rightarrow> byte list \<Rightarrow> 'e data_plane_model \<Rightarrow> unit result \<times> 'e data_plane_model" where
  "onPacket h randomDrop addr prt buf d =
     (if bufferContainsSTUN buf then
        (case IPv4Port_of_string addr prt of
           Inl e \<Rightarrow> (Inl e, count_pkt (length buf) d)
         | Inr frm \<Rightarrow> handleSTUN h frm buf (count_pkt (length buf) d))
      else if contains_rtp_or_rtcp buf then
        (case rtp_load buf of
           Inl e \<Rightarrow> (Inl e, count_pkt (length buf) d)
         | Inr rtp \<Rightarrow>
             (case IPv4Port_of_string addr prt of
                Inl e \<Rightarrow> (Inl e, count_pkt (length buf) d)
              | Inr frm \<Rightarrow>
                  if rtp_is_rtcp rtp then handleRTCP h frm buf (count_pkt (length buf) d)
                  else handleRTP h randomDrop frm buf (count_pkt (length buf) d)))
      else (Inr (), d))"

section \<open>What installing a stream does\<close>

text \<open>
  The abstract view of the table: the matches it knows, and the forwarding relation from matches to
  receivers.
\<close>

definition matches :: "SFUTable \<Rightarrow> Match set" where
  "matches t = fst ` set t"

definition fwd :: "SFUTable \<Rightarrow> (Match \<times> IPv4Port) set" where
  "fwd t = {(m, p). p \<in> set (receivers t m)}"

definition new_matches :: "DP_Stream \<Rightarrow> Match set" where
  "new_matches s =
     {Match (ds_src s) (ds_ssrc s)} \<union> (if ds_rtxSsrc s = 0 then {} else {Match (ds_src s) (ds_rtxSsrc s)}) \<union>
     (if ds_dst s = IPv4Port 0 0 then {}
      else {Match (ds_dst s) (ds_rtcpSsrc s)} \<union>
           (if ds_rtcpRtxSsrc s = 0 then {} else {Match (ds_dst s) (ds_rtcpRtxSsrc s)}))"

definition new_edges :: "DP_Stream \<Rightarrow> (Match \<times> IPv4Port) set" where
  "new_edges s =
     (if ds_dst s = IPv4Port 0 0 then {}
      else {(Match (ds_src s) (ds_ssrc s), ds_dst s), (Match (ds_dst s) (ds_rtcpSsrc s), ds_src s)} \<union>
           (if ds_rtxSsrc s = 0 then {} else {(Match (ds_src s) (ds_rtxSsrc s), ds_dst s)}) \<union>
           (if ds_rtcpRtxSsrc s = 0 \<or> ds_rtcpSsrc s = 1 then {}
            else {(Match (ds_dst s) (ds_rtcpRtxSsrc s), ds_src s)}))"

text \<open>
  One table grew out of another: entries were only extended, by rules in the state the constructor
  gives them.
\<close>

definition entry :: "SFUTable \<Rightarrow> Match \<Rightarrow> Entry" where
  "entry t m = (case map_of t m of None \<Rightarrow> [] | Some e \<Rightarrow> e)"

definition extends :: "SFUTable \<Rightarrow> SFUTable \<Rightarrow> bool" where
  "extends t t' \<longleftrightarrow> (\<forall>m. \<exists>e'. entry t' m = entry t m @ e' \<and> (\<forall>a \<in> set e'. a = Action (a_to a)))"

definition grows :: "SFUTable \<Rightarrow> SFUTable \<Rightarrow> Match set \<Rightarrow> (Match \<times> IPv4Port) set \<Rightarrow> bool" where
  "grows t t' M E \<longleftrightarrow> matches t' = matches t \<union> M \<and> fwd t' = fwd t \<union> E \<and> extends t t' \<and> (sfu_inv t \<longrightarrow> sfu_inv t')"

lemma hasMatch_iff: "hasMatch t m \<longleftrightarrow> m \<in> matches t"
  by (auto simp: hasMatch_def matches_def map_of_eq_None_iff)

lemma receivers_put: "receivers (umap_put m e t) m' = (if m' = m then map a_to e else receivers t m')"
  by (simp add: receivers_def)

lemma extends_refl: "extends t t"
  by (simp add: extends_def)

lemma extends_put:
  assumes "\<forall>a \<in> set e'. a = Action (a_to a)"
  shows "extends t (umap_put m (entry t m @ e') t)"
  unfolding extends_def
proof
  fix k
  show "\<exists>x. entry (umap_put m (entry t m @ e') t) k = entry t k @ x \<and> (\<forall>a \<in> set x. a = Action (a_to a))"
    using assms by (cases "k = m") (auto simp: entry_def)
qed

lemma grows_refl: "grows t t {} {}"
  by (simp add: grows_def extends_refl)

lemma extends_trans: "extends t t' \<Longrightarrow> extends t' t'' \<Longrightarrow> extends t t''"
  unfolding extends_def by (metis append.assoc UnE set_append)

lemma grows_trans: "grows t t' M E \<Longrightarrow> grows t' t'' M' E' \<Longrightarrow> grows t t'' (M \<union> M') (E \<union> E')"
  by (auto simp: grows_def intro: extends_trans)

lemma dp_addMatch_grows: "grows t (dp_addMatch m t) {m} {}"
proof (cases "hasMatch t m")
  case True
  then show ?thesis
    using grows_refl [of t] by (auto simp: dp_addMatch_def grows_def hasMatch_iff)
next
  case False
  then have t: "dp_addMatch m t = umap_put m [] t" "map_of t m = None"
    by (auto simp: dp_addMatch_def addMatch_def hasMatch_def)
  have "fwd (umap_put m [] t) = fwd t"
  proof -
    have "receivers t m = []" using t(2) by (simp add: receivers_def)
    then show ?thesis by (auto simp: fwd_def receivers_put split: if_splits)
  qed
  moreover have "sfu_inv t \<Longrightarrow> sfu_inv (umap_put m [] t)"
    using sfu_inv_setEntry [of t "[]" m] by (simp add: setEntry_def)
  moreover have "extends t (umap_put m [] t)"
    using t(2) extends_put [of "[]" t m] by (simp add: entry_def)
  ultimately show ?thesis
    using t by (auto simp: grows_def matches_def)
qed

lemma dp_addAction_grows:
  fixes p :: IPv4Port
  assumes "m \<in> matches t"
  defines "a \<equiv> Action p"
  shows "fst (dp_addAction m a t) = Inr () \<and> grows t (snd (dp_addAction m a t)) {} {(m, p)}"
proof -
  have p: "a_to a = p" by (simp add: a_def Action_def)
  obtain e where e: "getEntry t m = Inr e" "map_of t m = Some e"
    using getEntry_ok [of t m] assms by (auto simp: hasMatch_iff)
  show ?thesis
  proof (cases "hasAction e a")
    case True
    then have "(m, p) \<in> fwd t"
      using e p by (auto simp: fwd_def receivers_def hasAction_iff)
    then show ?thesis
      using e True grows_refl [of t] by (auto simp: dp_addAction_def grows_def)
  next
    case False
    then have t': "dp_addAction m a t = (Inr (), umap_put m (e @ [a]) t)"
      using e by (simp add: dp_addAction_def addAction_def setEntry_def)
    have "sfu_inv t \<Longrightarrow> sfu_inv (umap_put m (e @ [a]) t)"
      using sfu_inv_setEntry [of t "e @ [a]" m] sfu_inv_lookup [of t m e] e False
      by (simp add: setEntry_def hasAction_iff)
    moreover have "receivers t m = map a_to e"
      using e by (simp add: receivers_def)
    then have "fwd (umap_put m (e @ [a]) t) = fwd t \<union> {(m, p)}"
      using p by (auto simp: fwd_def receivers_put split: if_splits)
    moreover have "extends t (umap_put m (e @ [a]) t)"
      using extends_put [of "[a]" t m] e p by (simp add: entry_def a_def)
    ultimately show ?thesis
      using t' e assms(1) by (auto simp: grows_def matches_def)
  qed
qed

lemma dp_addAction_step:
  assumes "grows t0 t M E" and "m \<in> matches t0 \<union> M"
    and "\<And>t'. grows t0 t' M (E \<union> {(m, p)}) \<Longrightarrow> P (f () t')"
  shows "P (sbind (dp_addAction m (Action p) t) f)"
proof -
  obtain t' where t': "dp_addAction m (Action p) t = (Inr (), t')" "grows t t' {} {(m, p)}"
    using dp_addAction_grows [of m t p] assms(1,2)
    by (cases "dp_addAction m (Action p) t") (auto simp: grows_def)
  then show ?thesis
    using assms(3) [of t'] grows_trans [OF assms(1) t'(2)] by simp
qed

lemma addStream_matches_grow:
  "grows t (if y \<noteq> 0 then dp_addMatch (Match p y) (dp_addMatch (Match p x) t) else dp_addMatch (Match p x) t)
     ({Match p x} \<union> (if y = 0 then {} else {Match p y})) {}"
  using grows_trans [OF dp_addMatch_grows [of t "Match p x"] dp_addMatch_grows [of _ "Match p y"]]
    dp_addMatch_grows [of t "Match p x"]
  by (auto simp: insert_commute)

text \<open>The last rule of a stream: the feedback path of its retransmissions.\<close>

lemma addStream_last:
  assumes "ds_dst s \<noteq> IPv4Port 0 0"
    and g: "grows t t5 (new_matches s) ({(Match (ds_src s) (ds_ssrc s), ds_dst s)} \<union> {(Match (ds_dst s) (ds_rtcpSsrc s), ds_src s)} \<union>
      (if ds_rtxSsrc s = 0 then {} else {(Match (ds_src s) (ds_rtxSsrc s), ds_dst s)}))" (is "grows t t5 _ ?E")
  defines "r \<equiv> (if ds_rtcpRtxSsrc s \<noteq> 0 \<and> ds_rtcpSsrc s \<noteq> 1
      then dp_addAction (Match (ds_dst s) (ds_rtcpRtxSsrc s)) (Action (ds_src s)) t5 else (Inr (), t5))"
  shows "fst r = Inr () \<and> grows t (snd r) (new_matches s) (new_edges s)"
proof (cases "ds_rtcpRtxSsrc s \<noteq> 0 \<and> ds_rtcpSsrc s \<noteq> 1")
  case c: True
  let ?m = "Match (ds_dst s) (ds_rtcpRtxSsrc s)"
  have "?m \<in> matches t5" using g c assms(1) by (auto simp: grows_def new_matches_def)
  then obtain t6 where t6: "r = (Inr (), t6)" "grows t5 t6 {} {(?m, ds_src s)}"
    using dp_addAction_grows [of ?m t5 "ds_src s"] c
    by (cases r) (auto simp: r_def)
  moreover have "?E \<union> {(?m, ds_src s)} = new_edges s"
    using c assms(1) by (auto simp: new_edges_def)
  ultimately show ?thesis
    using grows_trans [OF g t6(2)] by simp
next
  case c: False
  have "?E = new_edges s" using c assms(1) by (auto simp: new_edges_def)
  then show ?thesis using g c by (auto simp: r_def)
qed

lemma addStream_table_grows:
  "fst (addStream_table s t) = Inr () \<and> grows t (snd (addStream_table s t)) (new_matches s) (new_edges s)"
proof -
  let ?main = "Match (ds_src s) (ds_ssrc s)" and ?rtx = "Match (ds_src s) (ds_rtxSsrc s)"
  let ?ret = "Match (ds_dst s) (ds_rtcpSsrc s)" and ?retRtx = "Match (ds_dst s) (ds_rtcpRtxSsrc s)"
  let ?M1 = "{?main} \<union> (if ds_rtxSsrc s = 0 then {} else {?rtx})"
  let ?M2 = "{?ret} \<union> (if ds_rtcpRtxSsrc s = 0 then {} else {?retRtx})"
  define t1 where "t1 = (if ds_rtxSsrc s \<noteq> 0 then dp_addMatch ?rtx (dp_addMatch ?main t) else dp_addMatch ?main t)"
  define t2 where "t2 = (if ds_rtcpRtxSsrc s \<noteq> 0 then dp_addMatch ?retRtx (dp_addMatch ?ret t1) else dp_addMatch ?ret t1)"
  have g1: "grows t t1 ?M1 {}"
    unfolding t1_def by (rule addStream_matches_grow)
  show ?thesis
  proof (cases "ds_dst s = IPv4Port 0 0")
    case True
    then show ?thesis
      using g1 by (auto simp: addStream_table_def IPv4Port_eq_iff new_matches_def new_edges_def Let_def t1_def)
  next
    case False
    let ?to = "Action (ds_dst s)" and ?rev_to = "Action (ds_src s)"
    let ?P = "\<lambda>x :: unit result \<times> SFUTable. fst x = Inr () \<and> grows t (snd x) (new_matches s) (new_edges s)"
    have "grows t1 t2 ?M2 {}"
      unfolding t2_def by (rule addStream_matches_grow)
    moreover have "?M1 \<union> ?M2 = new_matches s" using False by (auto simp: new_matches_def)
    ultimately have g2: "grows t t2 (new_matches s) {}"
      using grows_trans [OF g1, of t2 ?M2 "{}"] by simp
    have in_M: "?main \<in> new_matches s" "?ret \<in> new_matches s" "ds_rtxSsrc s \<noteq> 0 \<Longrightarrow> ?rtx \<in> new_matches s"
      using False by (auto simp: new_matches_def)
    have s2: "?P (sbind (if ds_rtxSsrc s \<noteq> 0 then dp_addAction ?rtx ?to t4 else (Inr (), t4))
        (\<lambda>_ t. if ds_rtcpRtxSsrc s \<noteq> 0 \<and> ds_rtcpSsrc s \<noteq> 1 then dp_addAction ?retRtx ?rev_to t else (Inr (), t)))"
      if g: "grows t t4 (new_matches s) ({(?main, ds_dst s)} \<union> {(?ret, ds_src s)})" for t4
    proof (cases "ds_rtxSsrc s = 0")
      case True
      then show ?thesis using addStream_last [OF False, of t t4] g by simp
    next
      case rtx: False
      show ?thesis
        unfolding if_P [OF rtx]
        by (rule dp_addAction_step [where P = ?P, OF g])
          (use rtx in_M addStream_last [OF False] in auto)
    qed
    have "?P (sbind (dp_addAction ?main ?to t2) (\<lambda>_ t. sbind (dp_addAction ?ret ?rev_to t) (\<lambda>_ t.
        sbind (if ds_rtxSsrc s \<noteq> 0 then dp_addAction ?rtx ?to t else (Inr (), t)) (\<lambda>_ t.
        if ds_rtcpRtxSsrc s \<noteq> 0 \<and> ds_rtcpSsrc s \<noteq> 1 then dp_addAction ?retRtx ?rev_to t else (Inr (), t)))))"
      by (rule dp_addAction_step [where P = ?P, OF g2], use in_M in simp)
        (rule dp_addAction_step [where P = ?P], assumption, use in_M in simp, rule s2, simp)
    then show ?thesis
      unfolding addStream_table_def Let_def IPv4Port_eq_iff if_not_P [OF False]
        t1_def [symmetric] t2_def [symmetric] .
  qed
qed

text \<open>
  C10: installing a stream never fails and refines the union of the abstract table with the stream's
  forwarding rules: the known matches grow by exactly the stream's matches, the forwarding
  relation by exactly the media path to the receiver and the feedback path back to the sender
  (nothing but the matches when the destination is 0.0.0.0:0). Rules installed before keep their
  order, decode targets and sequence rewriters, new rules start without a decode target and with
  a fresh sequence rewriter, and no entry gets a receiver twice.
\<close>

theorem addStream_refines:
  "fst (addStream_table s t) = Inr () \<and>
   matches (snd (addStream_table s t)) = matches t \<union> new_matches s \<and>
   fwd (snd (addStream_table s t)) = fwd t \<union> new_edges s \<and>
   extends t (snd (addStream_table s t)) \<and>
   (sfu_inv t \<longrightarrow> sfu_inv (snd (addStream_table s t)))"
  using addStream_table_grows [of s t] by (simp add: grows_def)

definition example_stream :: DP_Stream where
  "example_stream = \<lparr> ds_src = IPv4Port 1 1, ds_dst = IPv4Port 2 2, ds_ssrc = 9, ds_rtxSsrc = 0, ds_rtcpSsrc = 7,
     ds_rtcpRtxSsrc = 0, ds_egressPort = 0 \<rparr>"

theorem addStream_refines_witness:
  "fwd (snd (addStream_table example_stream [])) =
     {(Match (IPv4Port 1 1) 9, IPv4Port 2 2), (Match (IPv4Port 2 2) 7, IPv4Port 1 1)} \<and>
   sfu_inv (snd (addStream_table example_stream []))"
proof -
  have "fwd [] = {}" by (simp add: fwd_def receivers_def)
  then show ?thesis
    using addStream_refines [of example_stream "[]"] sfu_inv_empty
    by (auto simp: new_edges_def example_stream_def)
qed

section \<open>What reaches the receivers\<close>

text \<open>Two packets that agree on everything but the two bytes of the sequence number.\<close>

definition same_but_seq :: "byte list \<Rightarrow> byte list \<Rightarrow> bool" where
  "same_but_seq b c \<longleftrightarrow> length b = length c \<and> (\<forall>i. i \<noteq> 2 \<longrightarrow> i \<noteq> 3 \<longrightarrow> b ! i = c ! i)"

lemma same_but_seq_store: "same_but_seq b c \<Longrightarrow> same_but_seq (rtp_store_seq b w) c"
  by (simp add: same_but_seq_def rtp_store_seq_def)

lemma same_but_seq_refl: "same_but_seq b b"
  by (simp add: same_but_seq_def)

lemma action_rewrite_to: "action_rewrite f buf a = Inr (drp, sq, a') \<Longrightarrow> a_to a' = a_to a \<and> svcConfig a' = svcConfig a"
  by (auto simp: action_rewrite_def rbind_Inr_iff Let_def split_beta)

lemma rtp_actions_sends:
  "rtp_actions av1 buf as = (r, as', out) \<Longrightarrow> same_but_seq buf b0 \<Longrightarrow>
   map a_to as' = map a_to as \<and> map svcConfig as' = map svcConfig as \<and> (\<exists>k. map fst out = take k (map a_to as)) \<and>
   (\<forall>(p, b) \<in> set out. same_but_seq b b0)"
proof (induction as arbitrary: buf r as' out)
  case Nil
  then show ?case by auto
next
  case (Cons a as)
  show ?case
  proof (cases av1)
    case None
    with Cons.prems obtain r1 as1 out1 where 1: "rtp_actions av1 buf as = (r1, as1, out1)"
        "as' = a # as1" "out = (a_to a, buf) # out1"
      by (auto split: prod.splits)
    with Cons.IH [OF 1(1) Cons.prems(2)] obtain k where "map fst out1 = take k (map a_to as)" by auto
    then have "map fst out = take (Suc k) (map a_to (a # as))" using 1 by simp
    with 1 Cons.IH [OF 1(1) Cons.prems(2)] Cons.prems(2) show ?thesis by (auto intro: exI [of _ "Suc k"])
  next
    case (Some f)
    note no_send = exI [of _ 0]
    show ?thesis
    proof (cases "action_rewrite f buf a")
      case (Inl e)
      with Some Cons.prems show ?thesis by (auto intro: no_send)
    next
      case (Inr x)
      obtain drp sq a1 where x: "x = (drp, sq, a1)" by (cases x)
      note to = action_rewrite_to [OF Inr [unfolded x]]
      show ?thesis
      proof (cases "drp \<or> sq = None")
        case True
        with Some Inr x Cons.prems to show ?thesis by (auto split: option.splits if_splits intro: no_send)
      next
        case False
        then obtain n where n: "sq = Some n" "\<not> drp" by auto
        let ?b = "rtp_store_seq buf (ntohs (ucast n))"
        from Some Inr x n Cons.prems obtain r1 as1 out1 where 1: "rtp_actions av1 ?b as = (r1, as1, out1)"
            "as' = a1 # as1" "out = (a_to a1, ?b) # out1"
          by (auto simp: Let_def split: prod.splits)
        note b = same_but_seq_store [OF Cons.prems(2), of "ntohs (ucast n)"]
        note IH = Cons.IH [OF 1(1) b]
        then obtain k where "map fst out1 = take k (map a_to as)" by auto
        then have "map fst out = take (Suc k) (map a_to (a # as))" using 1 to by simp
        with 1 IH b to show ?thesis by (auto intro: exI [of _ "Suc k"])
      qed
    qed
  qed
qed

text \<open>What a table says about the receivers of a match and their decode targets.\<close>

definition rules :: "SFUTable \<Rightarrow> Match \<Rightarrow> (IPv4Port \<times> DecodeTarget option) list option" where
  "rules t m = map_option (map (\<lambda>a. (a_to a, svcConfig a))) (map_of t m)"

lemma receivers_rules: "receivers t m = (case rules t m of None \<Rightarrow> [] | Some xs \<Rightarrow> map fst xs)"
  by (simp add: receivers_def rules_def split: option.splits)

lemma fwd_rules: "rules t = rules t' \<Longrightarrow> fwd t = fwd t'"
  by (simp add: fwd_def receivers_rules)

lemma rules_put:
  "map_of t m = Some e \<Longrightarrow> map a_to e' = map a_to e \<Longrightarrow> map svcConfig e' = map svcConfig e \<Longrightarrow>
   rules (umap_put m e' t) = rules t"
  by (intro ext) (auto simp: rules_def list_eq_iff_nth_eq)

lemma forward_rtp_table:
  assumes "forward_rtp av1 frm buf d = (r, d')"
  shows "rules (dp_sfu d') = rules (dp_sfu d)" and "sfu_inv (dp_sfu d) \<Longrightarrow> sfu_inv (dp_sfu d')"
    and "dp_agent d' = dp_agent d"
proof -
  have "rules (dp_sfu d') = rules (dp_sfu d) \<and> (sfu_inv (dp_sfu d) \<longrightarrow> sfu_inv (dp_sfu d')) \<and> dp_agent d' = dp_agent d"
  proof (cases "rtp_load buf")
    case (Inl e)
    then show ?thesis using assms by (simp add: forward_rtp_def)
  next
    case (Inr rtp)
    let ?m = "Match frm (ntohl (rtp_ssrc rtp))" and ?t = "dp_sfu d"
    show ?thesis
    proof (cases "hasMatch ?t ?m")
      case False
      then show ?thesis using assms Inr by (simp add: forward_rtp_def Let_def)
    next
      case True
      then obtain e where e: "getEntry ?t ?m = Inr e" "map_of ?t ?m = Some e"
        using getEntry_ok by blast
      obtain r1 e' out where a: "rtp_actions av1 buf e = (r1, e', out)" by (cases "rtp_actions av1 buf e")
      note S = rtp_actions_sends [OF a same_but_seq_refl]
      have d': "d' = d\<lparr> dp_sfu := umap_put ?m e' ?t, dp_out := dp_out d @ out \<rparr>"
        using assms Inr True e a by (simp add: forward_rtp_def Let_def setEntry_def)
      have "sfu_inv ?t \<Longrightarrow> sfu_inv (umap_put ?m e' ?t)"
        using sfu_inv_setEntry [of ?t e' ?m] sfu_inv_lookup [of ?t ?m e] S e(2) by (simp add: setEntry_def)
      with S d' rules_put [OF e(2)] show ?thesis by simp
    qed
  qed
  then show "rules (dp_sfu d') = rules (dp_sfu d)" and "sfu_inv (dp_sfu d) \<Longrightarrow> sfu_inv (dp_sfu d')"
    and "dp_agent d' = dp_agent d"
    by auto
qed

lemma distinct_receivers: "sfu_inv t \<Longrightarrow> distinct (receivers t m)"
  using sfu_inv_lookup [of t m] by (auto simp: receivers_def split: option.splits)

text \<open>
  C11: the forwarding step never sends a media packet to anyone but receivers of its match, in the order
  of the entry and, in a table that keeps its invariant, at most once each, never changes a byte of it other than the two of the
  sequence number, and leaves the forwarding relation, the decode targets and the invariant of
  the table as they are.
\<close>

theorem forward_rtp_safe:
  assumes "forward_rtp av1 frm buf d = (r, d')" and "rtp_load buf = Inr rtp"
  shows "\<exists>out k. dp_out d' = dp_out d @ out \<and>
    map fst out = take k (receivers (dp_sfu d) (Match frm (ntohl (rtp_ssrc rtp)))) \<and>
    (\<forall>(p, b) \<in> set out. same_but_seq b buf) \<and> fwd (dp_sfu d') = fwd (dp_sfu d) \<and>
    (sfu_inv (dp_sfu d) \<longrightarrow> distinct (map fst out) \<and> sfu_inv (dp_sfu d'))"
proof -
  let ?m = "Match frm (ntohl (rtp_ssrc rtp))" and ?t = "dp_sfu d"
  note T = forward_rtp_table [OF assms(1)]
  have "\<exists>out k. dp_out d' = dp_out d @ out \<and> map fst out = take k (receivers ?t ?m) \<and> (\<forall>(p, b) \<in> set out. same_but_seq b buf)"
  proof (cases "hasMatch ?t ?m")
    case False
    then show ?thesis using assms by (auto simp: forward_rtp_def Let_def intro!: exI [of _ "[]"] exI [of _ 0])
  next
    case True
    then obtain e where e: "getEntry ?t ?m = Inr e" "map_of ?t ?m = Some e"
      using getEntry_ok by blast
    obtain r1 e' out where a: "rtp_actions av1 buf e = (r1, e', out)" by (cases "rtp_actions av1 buf e")
    have "dp_out d' = dp_out d @ out" "receivers ?t ?m = map a_to e"
      using assms True e a by (auto simp: forward_rtp_def Let_def setEntry_def receivers_def)
    then show ?thesis
      using rtp_actions_sends [OF a same_but_seq_refl] by (intro exI [of _ out]) auto
  qed
  then show ?thesis using T(2) fwd_rules [OF T(1)] distinct_receivers [of ?t ?m] by auto
qed

text \<open>
  A packet of frame 6 in the top temporal layer, with number 7, and four receivers: the first has had the one packet of
  frame 5 dropped before, the second takes all layers, the third only the base layer.
\<close>

definition av1_packet :: "nat \<Rightarrow> byte list" where
  "av1_packet sq = [0x90, 96, 0, of_nat sq, 0, 0, 0, 1, 0, 0, 0, 9, 0xbe, 0xde, 0, 1, 0xC2, 0xC3, 0, 6, 1, 2, 3]"

definition four_receivers :: "unit data_plane_model" where
  "four_receivers = (DataPlaneModel 12 ())\<lparr> dp_sfu := [(Match (IPv4Port 1 1) 9,
     [(Action (IPv4Port 2 2))\<lparr> svcConfig := Some hi,
        sequenceRewriter := snd (rewrite_all (stream_pkts 4 5 [(False, 1), (True, 1)]) seqrw_init) \<rparr>,
      (Action (IPv4Port 3 3))\<lparr> svcConfig := Some hi \<rparr>, (Action (IPv4Port 4 4))\<lparr> svcConfig := Some lo \<rparr>,
      Action (IPv4Port 5 5)])] \<rparr>"

lemma four_receivers_sent:
  "dp_out (snd (forward_rtp (Some [0xC3, 0, 6]) (IPv4Port 1 1) (av1_packet 7) four_receivers)) =
     [(IPv4Port 2 2, av1_packet 6), (IPv4Port 3 3, av1_packet 6)]"
  by code_simp

lemma four_receivers_match: "receivers (dp_sfu four_receivers) (Match (IPv4Port 1 1) 9) =
    [IPv4Port 2 2, IPv4Port 3 3, IPv4Port 4 4, IPv4Port 5 5]"
  by (simp add: four_receivers_def receivers_def Action_def)

theorem forward_rtp_safe_witness:
  "\<exists>k. [IPv4Port 2 2, IPv4Port 3 3] = take k [IPv4Port 2 2, IPv4Port 3 3, IPv4Port 4 4, IPv4Port 5 5] \<and>
    dp_out (snd (forward_rtp (Some [0xC3, 0, 6]) (IPv4Port 1 1) (av1_packet 7) four_receivers)) =
      [(IPv4Port 2 2, av1_packet 6), (IPv4Port 3 3, av1_packet 6)] \<and>
    same_but_seq (av1_packet 6) (av1_packet 7) \<and> av1_packet 6 \<noteq> av1_packet 7 \<and>
    fwd (dp_sfu (snd (forward_rtp (Some [0xC3, 0, 6]) (IPv4Port 1 1) (av1_packet 7) four_receivers))) = fwd (dp_sfu four_receivers) \<and>
    sfu_inv (dp_sfu (snd (forward_rtp (Some [0xC3, 0, 6]) (IPv4Port 1 1) (av1_packet 7) four_receivers)))"
proof -
  let ?F = "forward_rtp (Some [0xC3, 0, 6]) (IPv4Port 1 1) (av1_packet 7) four_receivers"
  let ?rtp = "\<lparr> v_p_x_cc = 0x90, m_pt = 96, rtp_seq = load16 0 7, rtp_ts = load32 0 0 0 1, rtp_ssrc = load32 0 0 0 9 \<rparr>"
  have l: "rtp_load (av1_packet 7) = Inr ?rtp"
    by (simp add: rtp_load_def rtp_HDR_LEN_def av1_packet_def)
  have n: "ntohl (rtp_ssrc ?rtp) = 9" by (simp add: ntohl_load32 be32_def)
  have inv: "sfu_inv (dp_sfu four_receivers)"
    by (simp add: four_receivers_def sfu_inv_def umap_inv_def Action_def)
  have out: "dp_out four_receivers = []" by (simp add: four_receivers_def DataPlaneModel_def)
  have "av1_packet 6 \<noteq> av1_packet 7" by (simp add: av1_packet_def)
  then show ?thesis
    using forward_rtp_safe [OF surjective_pairing [of ?F] l] inv out
    unfolding n four_receivers_match four_receivers_sent by auto
qed

lemma rtp_actions_plain: "rtp_actions None buf as = (Inr (), as, map (\<lambda>a. (a_to a, buf)) as)"
  by (induction as) auto

lemma setEntry_same: "map_of t m = Some e \<Longrightarrow> setEntry m e t = t"
  unfolding setEntry_def by (induction t) (auto split: if_splits)

text \<open>
  C28: a media packet without a dependency descriptor (audio, retransmissions) that is not dropped at
  random is sent, unchanged, exactly once to every receiver of its match and to nobody else, and
  nothing of the table changes.
\<close>

theorem plain_rtp_fan_out:
  assumes "rtp_load buf = Inr rtp" and "extension_ptr buf (dp_av1RtpExt d) = Inr None"
  shows "\<exists>st. handleRTP h False frm buf d =
    (Inr (), d\<lparr> dp_stats := st,
       dp_out := dp_out d @ map (\<lambda>p. (p, buf)) (receivers (dp_sfu d) (Match frm (ntohl (rtp_ssrc rtp)))) \<rparr>)"
proof -
  let ?m = "Match frm (ntohl (rtp_ssrc rtp))"
  show ?thesis
  proof (cases "map_of (dp_sfu d) ?m")
    case None
    then show ?thesis
      using assms by (auto simp: handleRTP_def forward_rtp_def Let_def hasMatch_def receivers_def)
  next
    case (Some e)
    then show ?thesis
      using assms
      by (auto simp: handleRTP_def forward_rtp_def Let_def hasMatch_def receivers_def getEntry_def
          rtp_actions_plain setEntry_same comp_def)
  qed
qed

definition plain_packet :: "byte list" where
  "plain_packet = [0x80, 111, 0, 7, 0, 0, 0, 1, 0, 0, 0, 9, 1, 2, 3]"

theorem plain_rtp_fan_out_witness:
  "\<exists>st. handleRTP None False (IPv4Port 1 1) plain_packet
      ((DataPlaneModel 12 ())\<lparr> dp_sfu := [(Match (IPv4Port 1 1) 9, [Action (IPv4Port 2 2), Action (IPv4Port 3 3)])] \<rparr>) =
    (Inr (), (DataPlaneModel 12 ())\<lparr> dp_sfu := [(Match (IPv4Port 1 1) 9, [Action (IPv4Port 2 2), Action (IPv4Port 3 3)])],
       dp_stats := st, dp_out := [(IPv4Port 2 2, plain_packet), (IPv4Port 3 3, plain_packet)] \<rparr>)"
proof -
  let ?rtp = "\<lparr> v_p_x_cc = 0x80, m_pt = 111, rtp_seq = load16 0 7, rtp_ts = load32 0 0 0 1, rtp_ssrc = load32 0 0 0 9 \<rparr>"
  have l: "rtp_load plain_packet = Inr ?rtp"
    by (simp add: rtp_load_def rtp_HDR_LEN_def plain_packet_def)
  have "ntohl (rtp_ssrc ?rtp) = 9"
    by (simp add: ntohl_load32 be32_def)
  moreover have "extension_ptr plain_packet 12 = Inr None"
    using l by (simp add: extension_ptr_def extension_ptrs_def rtp_extension_def)
  ultimately show ?thesis
    using plain_rtp_fan_out [OF l, of "(DataPlaneModel 12 ())\<lparr> dp_sfu := [(Match (IPv4Port 1 1) 9,
        [Action (IPv4Port 2 2), Action (IPv4Port 3 3)])] \<rparr>" None "IPv4Port 1 1"]
    by (simp add: DataPlaneModel_def receivers_def Action_def)
qed

section \<open>Decode target changes and feedback\<close>

lemma adjust_actions_map:
  "distinct (map a_to e) \<Longrightarrow> decodeTargetFromNumIdentifier target = Inr t \<Longrightarrow>
   adjust_actions to target e = map (\<lambda>a. if a_to a = to then a\<lparr> svcConfig := Some t \<rparr> else a) e"
proof (induction e)
  case (Cons a e)
  have "\<not> of_nat MAX_IDENT < target"
    using Cons.prems(2) by (auto simp: decodeTargetFromNumIdentifier_def MAX_IDENT_def split: if_splits)
  moreover have "map (\<lambda>b. if a_to b = a_to a then b\<lparr> svcConfig := Some t \<rparr> else b) e = e"
    using Cons.prems(1) by (intro map_idI) (metis distinct.simps(2) image_eqI list.set_map list.simps(9))
  ultimately show ?case
    using Cons by (auto simp: IPv4Port_eq_iff Let_def)
qed simp

lemma adjustDecodeTarget_table:
  assumes "sfu_inv (dp_sfu d)" and "decodeTargetFromNumIdentifier target = Inr t"
  shows "\<exists>tbl. adjustDecodeTarget frm to ssrc target d = (Inr (), d\<lparr> dp_sfu := tbl \<rparr>) \<and>
    (\<forall>m. map_of tbl m =
      (if m = Match frm ssrc
       then map_option (map (\<lambda>a. if a_to a = to then a\<lparr> svcConfig := Some t \<rparr> else a)) (map_of (dp_sfu d) m)
       else map_of (dp_sfu d) m)) \<and> sfu_inv tbl"
proof (cases "map_of (dp_sfu d) (Match frm ssrc)")
  case None
  then show ?thesis
    using assms(1) by (intro exI [of _ "dp_sfu d"]) (simp add: adjustDecodeTarget_def Let_def hasMatch_def)
next
  case (Some e)
  let ?e = "map (\<lambda>a. if a_to a = to then a\<lparr> svcConfig := Some t \<rparr> else a) e"
  have d: "distinct (map a_to e)" using sfu_inv_lookup [OF assms(1) Some] .
  have "map a_to ?e = map a_to e" by (auto simp: comp_def)
  then have "sfu_inv (setEntry (Match frm ssrc) ?e (dp_sfu d))"
    using sfu_inv_setEntry [OF assms(1), of ?e "Match frm ssrc"] d by metis
  moreover have "adjustDecodeTarget frm to ssrc target d =
      (Inr (), d\<lparr> dp_sfu := setEntry (Match frm ssrc) ?e (dp_sfu d) \<rparr>)"
    using Some adjust_actions_map [OF d assms(2)]
    by (simp add: adjustDecodeTarget_def Let_def hasMatch_def getEntry_def)
  ultimately show ?thesis
    using Some by (intro exI [of _ "setEntry (Match frm ssrc) ?e (dp_sfu d)"]) (simp add: setEntry_def)
qed

text \<open>
  a decode target change of a receiver, for a target the identifier of which is valid, reaches the
  rule from the sender's stream to that receiver and nothing else: all other rules, the order of
  the receivers, every sequence rewriter and every other match stay as they are. Without such a
  match the call changes nothing.
\<close>

lemma adjustDecodeTarget_only_target:
  assumes "sfu_inv (dp_sfu d)" and "decodeTargetFromNumIdentifier target = Inr t"
  shows "\<exists>tbl. adjustDecodeTarget frm to ssrc target d = (Inr (), d\<lparr> dp_sfu := tbl \<rparr>) \<and>
    (\<forall>m. map_of tbl m =
      (if m = Match frm ssrc
       then map_option (map (\<lambda>a. if a_to a = to then a\<lparr> svcConfig := Some t \<rparr> else a)) (map_of (dp_sfu d) m)
       else map_of (dp_sfu d) m)) \<and> sfu_inv tbl"
  using assms by (rule adjustDecodeTarget_table)

text \<open>
  An identifier above \<open>MAX_IDENT\<close> is rejected only after a rule without scalability setting was given the
  default one.
\<close>

lemma adjust_invalid_target:
  "2 < target \<Longrightarrow> adjust_actions (a_to a) target [a] =
     [if svcConfig a = None then a\<lparr> svcConfig := Some hi \<rparr> else a]"
  by (simp add: IPv4Port_eq_iff MAX_IDENT_def)

lemma fold_sendPacket: "fold (\<lambda>a. sendPacket (a_to a, buf)) e d = d\<lparr> dp_out := dp_out d @ map (\<lambda>a. (a_to a, buf)) e \<rparr>"
  by (induction e arbitrary: d) (simp_all add: sendPacket_def)

lemma send_to_all_receivers:
  "send_to_all m buf d = (Inr (), d\<lparr> dp_out := dp_out d @ map (\<lambda>p. (p, buf)) (receivers (dp_sfu d) m) \<rparr>)"
  by (auto simp: send_to_all_def hasMatch_def getEntry_def receivers_def fold_sendPacket comp_def)

text \<open>
  C27: negative acknowledgements and picture loss indications of a receiver are sent, unchanged, along
  the feedback rules of its address and SSRC, back to the media sender, and then handed to the
  control plane as RTCP; sender reports go along the media rules and nowhere else; receiver
  reports go to the control plane only.
\<close>

theorem rtcp_dispatch:
  fixes d :: "'e data_plane_model" and frm :: IPv4Port
  assumes "rtcp_load buf = Inr rtcp"
  defines "d1 \<equiv> d\<lparr> dp_stats := (dp_stats d)\<lparr> st_rtcpPkts := st_rtcpPkts (dp_stats d) + 1 \<rparr> \<rparr>"
    and "outs \<equiv> map (\<lambda>p. (p, buf)) (receivers (dp_sfu d) (Match frm (ntohl (sender_ssrc rtcp))))"
    and "pin \<equiv> \<lparr> pi_reason = Reason_rtcp, pi_from = frm, pi_buf = buf \<rparr>"
  shows "(rtcp_pt rtcp = 200 \<longrightarrow> handleRTCP h frm buf d = (Inr (), d1\<lparr> dp_out := dp_out d @ outs \<rparr>)) \<and>
    (rtcp_pt rtcp = 201 \<longrightarrow> handleRTCP h frm buf d = toController h pin d1) \<and>
    ((rtcp_pt rtcp = 205 \<or> rtcp_pt rtcp = 206) \<and> fb_fmt rtcp = 1 \<longrightarrow>
      handleRTCP h frm buf d = toController h pin (d1\<lparr> dp_out := dp_out d @ outs \<rparr>)) \<and>
    ((rtcp_pt rtcp = 205 \<or> rtcp_pt rtcp = 206) \<and> fb_fmt rtcp \<noteq> 1 \<or> rtcp_pt rtcp \<notin> {200, 201, 205, 206} \<longrightarrow>
      handleRTCP h frm buf d = (Inr (), d1))"
  using assms(1)
  by (auto simp: handleRTCP_def handleSR_def handleRR_def handleRTPFB_def handlePSFB_def Let_def
      send_to_all_receivers d1_def outs_def pin_def)

theorem rtcp_dispatch_witness:
  "handleRTCP None (IPv4Port 2 2) [0x81, 206, 0, 2, 0, 0, 0, 1, 0, 0, 0, 9]
      ((DataPlaneModel 12 ())\<lparr> dp_sfu := [(Match (IPv4Port 2 2) 1, [Action (IPv4Port 1 1)])] \<rparr>) =
   toController None \<lparr> pi_reason = Reason_rtcp, pi_from = IPv4Port 2 2, pi_buf = [0x81, 206, 0, 2, 0, 0, 0, 1, 0, 0, 0, 9] \<rparr>
      ((DataPlaneModel 12 ())\<lparr> dp_sfu := [(Match (IPv4Port 2 2) 1, [Action (IPv4Port 1 1)])],
         dp_stats := stats_zero\<lparr> st_rtcpPkts := 1 \<rparr>,
         dp_out := [(IPv4Port 1 1, [0x81, 206, 0, 2, 0, 0, 0, 1, 0, 0, 0, 9])] \<rparr>)"
proof -
  let ?b = "[0x81, 206, 0, 2, 0, 0, 0, 1, 0, 0, 0, 9] :: byte list"
  let ?h = "\<lparr> v_p_rc = 0x81, rtcp_pt = 206, rtcp_len = load16 0 2, sender_ssrc = load32 0 0 0 1 \<rparr>"
  have l: "rtcp_load ?b = Inr ?h" by (simp add: rtcp_load_def rd_def ld16_def ld32_def)
  have "ntohl (sender_ssrc ?h) = 1" "fb_fmt ?h = 1" by (simp_all add: ntohl_load32 be32_def fb_fmt_def)
  then show ?thesis
    using rtcp_dispatch [OF l, where h = None and frm = "IPv4Port 2 2" and
        d = "(DataPlaneModel 12 ())\<lparr> dp_sfu := [(Match (IPv4Port 2 2) 1, [Action (IPv4Port 1 1)])] \<rparr>"]
    by (simp add: DataPlaneModel_def receivers_def Action_def stats_zero_def)
qed

end
