(* ===== verification/Media_Path.thy ===== *)
theory Media_Path
  imports Data_Plane
begin

text \<open>
  The media path of the software data plane from datagram in to datagram out: the demultiplexing
  test, the RTP extension walk, the dependency descriptor, the drop decision, the sequence
  rewriter and the send. The theories below it treat these one by one; here they are run
  together on a stream of datagrams, and the outgoing sequence numbers are related to the
  stream. The last section shows where several receivers of one stream disturb each other.
\<close>

section \<open>Datagrams of a video stream\<close>

text \<open>
  \<open>carries h frm t buf p\<close>: the datagram \<open>buf\<close> is an RTP packet whose dependency descriptor says what the
  rewriter's view \<open>p\<close> of it says, for a receiver with decode target setting \<open>t\<close>. If the descriptor is an
  extended one, the control-plane handler returns without touching the data plane.
\<close>

definition quiet :: "'e handler option \<Rightarrow> IPv4Port \<Rightarrow> byte list \<Rightarrow> bool" where
  "quiet h frm buf \<longleftrightarrow>
     (\<exists>f. h = Some f \<and> (\<forall>d. f \<lparr> pi_reason = Reason_av1, pi_from = frm, pi_buf = buf \<rparr> d = (Inr (), d)))"

definition fields_of :: "DecodeTarget option \<Rightarrow> byte list \<Rightarrow> MandatoryFields \<Rightarrow> pkt result" where
  "fields_of t buf f =
     rbind (templateId f) (\<lambda>tid. rbind (frameNumber f) (\<lambda>fn. rbind (startOfFrame f) (\<lambda>s.
     rbind (endOfFrame f) (\<lambda>e. rbind (rtp_load buf) (\<lambda>h.
       Inr \<lparr> p_frame = ucast fn, p_seq = ntohs (rtp_seq h), p_mark = markFromAV1FrameFlags s e,
             p_drop = (case t of None \<Rightarrow> False | Some t \<Rightarrow> L1T3_drop t (unat tid)), p_sim = None \<rparr>)))))"

definition carries :: "'e handler option \<Rightarrow> IPv4Port \<Rightarrow> u32 \<Rightarrow> SSRC \<Rightarrow> DecodeTarget option \<Rightarrow> byte list \<Rightarrow> pkt \<Rightarrow> bool" where
  "carries h frm ext ssrc t buf p \<longleftrightarrow>
     contains_rtp_or_rtcp buf \<and>
     (\<exists>rtp q f l. rtp_load buf = Inr rtp \<and> \<not> rtp_is_rtcp rtp \<and> ntohl (rtp_ssrc rtp) = ssrc \<and>
        extension_ptr buf ext = Inr (Some q) \<and> descriptor_at buf q = Inr (f, l) \<and>
        (3 < l \<longrightarrow> quiet h frm buf) \<and> fields_of t buf f = Inr p)"

fun receive_all :: "'e handler option \<Rightarrow> string \<Rightarrow> u16 \<Rightarrow> byte list list \<Rightarrow> 'e data_plane_model \<Rightarrow> unit result \<times> 'e data_plane_model" where
  "receive_all h addr prt [] d = (Inr (), d)"
| "receive_all h addr prt (buf # bufs) d =
     sbind (onPacket h False addr prt buf d) (\<lambda>_ d. receive_all h addr prt bufs d)"

definition pkt_seq :: "byte list \<Rightarrow> u16 option" where
  "pkt_seq buf = (case rtp_load buf of Inr h \<Rightarrow> Some (ntohs (rtp_seq h)) | Inl _ \<Rightarrow> None)"

definition out_of :: "IPv4Port \<Rightarrow> byte list \<Rightarrow> u32 option \<Rightarrow> PktOut list" where
  "out_of to buf x = (case x of None \<Rightarrow> [] | Some n \<Rightarrow> [(to, rtp_store_seq buf (ntohs (ucast n)))])"

lemma action_rewrite_fields:
  assumes "fields_of (svcConfig a) buf f = Inr p" and "rewrite p (sequenceRewriter a) = (x, r')"
  shows "action_rewrite f buf a = Inr (p_drop p, x, a\<lparr> sequenceRewriter := r' \<rparr>)"
  using assms
  by (auto simp: fields_of_def action_rewrite_def rewrite_flags_def rbind_Inr_iff Let_def)

text \<open>One datagram through the data plane, with a single receiver installed.\<close>

lemma onPacket_step:
  assumes c: "carries h frm (dp_av1RtpExt d) ssrc (svcConfig a) buf p"
    and frm: "IPv4Port_of_string addr prt = Inr frm"
    and m: "map_of (dp_sfu d) (Match frm ssrc) = Some [a]"
    and rw: "rewrite p (sequenceRewriter a) = (x, r')" and u: "\<not> dropWhenUnsure (sequenceRewriter a)"
  shows "\<exists>st. onPacket h False addr prt buf d =
    (Inr (), d\<lparr> dp_stats := st, dp_sfu := setEntry (Match frm ssrc) [a\<lparr> sequenceRewriter := r' \<rparr>] (dp_sfu d),
      dp_out := dp_out d @ out_of (a_to a) buf x \<rparr>)"
proof -
  obtain rtp q f l where P: "contains_rtp_or_rtcp buf" "rtp_load buf = Inr rtp" "\<not> rtp_is_rtcp rtp"
      "ntohl (rtp_ssrc rtp) = ssrc" "extension_ptr buf (dp_av1RtpExt d) = Inr (Some q)"
      "descriptor_at buf q = Inr (f, l)" "3 < l \<longrightarrow> quiet h frm buf" "fields_of (svcConfig a) buf f = Inr p"
    using c by (auto simp: carries_def)
  have nostun: "\<not> bufferContainsSTUN buf"
    using P(1) by (auto simp: bufferContainsSTUN_def contains_rtp_or_rtcp_def)
  have sim: "\<not> sim_lost p"
    using P(8) by (auto simp: fields_of_def rbind_Inr_iff sim_lost_def)
  have none: "x = None \<longleftrightarrow> p_drop p"
    using rewrite_None_iff [OF u, of p] rw sim by simp
  have acts: "rtp_actions (Some f) buf [a] = (Inr (), [a\<lparr> sequenceRewriter := r' \<rparr>], out_of (a_to a) buf x)"
    using action_rewrite_fields [OF P(8) rw] none by (auto simp: out_of_def Let_def split: option.splits)
  have fw: "forward_rtp (Some f) frm buf d' =
      (Inr (), d'\<lparr> dp_sfu := setEntry (Match frm ssrc) [a\<lparr> sequenceRewriter := r' \<rparr>] (dp_sfu d'),
        dp_out := dp_out d' @ out_of (a_to a) buf x \<rparr>)" if "dp_sfu d' = dp_sfu d" for d' :: "'a data_plane_model"
    using that m P(2,4) acts by (simp add: forward_rtp_def Let_def hasMatch_def getEntry_def)
  let ?c = "count_pkt (length buf) d"
  have c1: "dp_sfu ?c = dp_sfu d" "dp_out ?c = dp_out d" "dp_av1RtpExt ?c = dp_av1RtpExt d"
    by (simp_all add: count_pkt_def)
  have "\<exists>st. handleRTP h False frm buf ?c = (Inr (), ?c\<lparr> dp_stats := st,
      dp_sfu := setEntry (Match frm ssrc) [a\<lparr> sequenceRewriter := r' \<rparr>] (dp_sfu d),
      dp_out := dp_out d @ out_of (a_to a) buf x \<rparr>)"
    using P(5-7) c1
    by (cases "3 < l") (auto simp: handleRTP_def Let_def toController_def quiet_def fw)
  then show ?thesis
    using nostun P(1-3) frm by (auto simp: onPacket_def count_pkt_def)
qed

lemma receive_all_run:
  assumes "list_all2 (carries h frm (dp_av1RtpExt d) ssrc (svcConfig a)) bufs ps"
    and "IPv4Port_of_string addr prt = Inr frm" and "map_of (dp_sfu d) (Match frm ssrc) = Some [a]"
    and "\<not> dropWhenUnsure (sequenceRewriter a)" and "rewrite_all ps (sequenceRewriter a) = (xs, r')"
  shows "\<exists>d'. receive_all h addr prt bufs d = (Inr (), d') \<and>
    dp_out d' = dp_out d @ concat (map2 (out_of (a_to a)) bufs xs) \<and>
    map_of (dp_sfu d') (Match frm ssrc) = Some [a\<lparr> sequenceRewriter := r' \<rparr>]"
  using assms
proof (induction bufs arbitrary: ps d a xs)
  case (Cons buf bufs)
  from Cons.prems(1) obtain p ps' where ps: "ps = p # ps'"
    and p: "carries h frm (dp_av1RtpExt d) ssrc (svcConfig a) buf p"
    and ps': "list_all2 (carries h frm (dp_av1RtpExt d) ssrc (svcConfig a)) bufs ps'"
    by (auto simp: list_all2_Cons1)
  obtain x r1 where x: "rewrite p (sequenceRewriter a) = (x, r1)" by fastforce
  obtain xs1 where xs: "rewrite_all ps' r1 = (xs1, r')" "xs = x # xs1"
    using Cons.prems(5) ps x by (auto split: prod.splits)
  let ?a = "a\<lparr> sequenceRewriter := r1 \<rparr>"
  obtain st where step: "onPacket h False addr prt buf d =
      (Inr (), d\<lparr> dp_stats := st, dp_sfu := setEntry (Match frm ssrc) [?a] (dp_sfu d),
        dp_out := dp_out d @ out_of (a_to a) buf x \<rparr>)" (is "_ = (_, ?d)")
    using onPacket_step [OF p Cons.prems(2,3) x Cons.prems(4)] by blast
  have "\<not> dropWhenUnsure r1"
    using Cons.prems(4) x rewrite_dropWhenUnsure [of p "sequenceRewriter a"] by simp
  then have "\<exists>d'. receive_all h addr prt bufs ?d = (Inr (), d') \<and>
      dp_out d' = dp_out ?d @ concat (map2 (out_of (a_to ?a)) bufs xs1) \<and>
      map_of (dp_sfu d') (Match frm ssrc) = Some [?a\<lparr> sequenceRewriter := r' \<rparr>]"
    using ps' Cons.prems(2) xs(1) by (intro Cons.IH [of ?d ?a]) (simp_all add: setEntry_def)
  then show ?case
    using step xs(2) by auto
qed simp

text \<open>The decision of a receiver about a datagram, from the template its dependency descriptor names.\<close>

definition packet_template :: "u32 \<Rightarrow> byte list \<Rightarrow> u32 result" where
  "packet_template ext buf =
     rbind (extension_ptr buf ext) (\<lambda>q. case q of
        None \<Rightarrow> Inl (Logic_error ''no dependency descriptor'')
      | Some q \<Rightarrow> rbind (descriptor_at buf q) (\<lambda>(f, l). templateId f))"

definition keeps :: "u32 \<Rightarrow> DecodeTarget option \<Rightarrow> byte list \<Rightarrow> bool" where
  "keeps ext t buf =
     (case (t, packet_template ext buf) of (Some t, Inr tid) \<Rightarrow> \<not> L1T3_drop t (unat tid) | _ \<Rightarrow> True)"

lemma carries_keeps: "carries h frm ext ssrc t buf p \<Longrightarrow> keeps ext t buf \<longleftrightarrow> \<not> p_drop p"
  by (cases t) (auto simp: carries_def keeps_def packet_template_def fields_of_def rbind_Inr_iff)

lemma kept_pkts:
  "list_all2 (carries h frm ext ssrc t) bufs ps \<Longrightarrow> length (filter (keeps ext t) bufs) = length (filter (\<lambda>p. \<not> p_drop p) ps)"
  by (induction rule: list_all2_induct) (auto simp: carries_keeps)

text \<open>The datagrams sent for numbers that follow the reference: those that are kept, renumbered.\<close>

lemma out_ideal:
  assumes "list_all2 (carries h frm ext ssrc t) bufs ps" and "narrow xs = ideal k ps"
  shows "concat (map2 (out_of to) bufs xs) =
    map2 (\<lambda>buf n. (to, rtp_store_seq buf (ntohs n))) (filter (keeps ext t) bufs) (forwarded (ideal k ps))"
  using assms
proof (induction bufs arbitrary: ps xs k)
  case (Cons buf bufs)
  then obtain p ps' where p: "ps = p # ps'" "carries h frm ext ssrc t buf p" "list_all2 (carries h frm ext ssrc t) bufs ps'"
    by (auto simp: list_all2_Cons1)
  obtain x xs' where x: "xs = x # xs'" "narrow xs' = ideal (if p_drop p then Suc k else k) ps'"
      "map_option ucast x = (if p_drop p then None else Some (p_seq p - of_nat k))"
    using Cons.prems(2) p(1) by (cases xs) (auto split: if_splits)
  show ?case
    using Cons.IH [OF p(3) x(2)] x(1,3) p(1) carries_keeps [OF p(2)]
    by (cases "p_drop p") (auto simp: out_of_def)
qed simp

text \<open>
  A list of datagrams sent to one receiver with consecutive sequence numbers.
\<close>

definition renumbered :: "IPv4Port \<Rightarrow> u16 \<Rightarrow> byte list list \<Rightarrow> PktOut list" where
  "renumbered to s bufs = map2 (\<lambda>buf i. (to, rtp_store_seq buf (ntohs (s + of_nat i)))) bufs [0..<length bufs]"

lemma pkt_seq_store: "rtp_load buf = Inr rtp \<Longrightarrow> pkt_seq (rtp_store_seq buf (ntohs w)) = Some w"
  using rtp_store_seq_load [of buf rtp "ntohs w"] by (simp add: pkt_seq_def)

lemma renumbered_sent:
  assumes "\<forall>buf \<in> set bufs. \<exists>rtp. rtp_load buf = Inr rtp"
  shows "map fst (renumbered to s bufs) = replicate (length bufs) to"
    and "list_all2 (\<lambda>(to, b) buf. same_but_seq b buf) (renumbered to s bufs) bufs"
    and "map (\<lambda>(to, b). pkt_seq b) (renumbered to s bufs) = map (\<lambda>i. Some (s + of_nat i)) [0..<length bufs]"
proof -
  have "pkt_seq (rtp_store_seq (bufs ! i) (ntohs w)) = Some w" if "i < length bufs" for i w
    using assms that nth_mem [of i bufs] pkt_seq_store by blast
  then show "map (\<lambda>(to, b). pkt_seq b) (renumbered to s bufs) = map (\<lambda>i. Some (s + of_nat i)) [0..<length bufs]"
    by (intro nth_equalityI) (simp_all add: renumbered_def)
  show "map fst (renumbered to s bufs) = replicate (length bufs) to"
    by (intro nth_equalityI) (simp_all add: renumbered_def)
  show "list_all2 (\<lambda>(to, b) buf. same_but_seq b buf) (renumbered to s bufs) bufs"
    by (simp add: renumbered_def list_all2_conv_all_nth same_but_seq_store same_but_seq_refl)
qed

lemma carries_load:
  "list_all2 (carries h frm ext ssrc t) bufs ps \<Longrightarrow> \<forall>buf \<in> set bufs. \<exists>rtp. rtp_load buf = Inr rtp"
  by (induction rule: list_all2_induct) (auto simp: carries_def)

text \<open>
  C1: the whole media path. Take a video stream whose datagrams arrive in order and without loss, in frames of 1 to 65535 packets,
  with frame numbers that start at 1 or above and do not wrap around, and a rule for its address and SSRC with one receiver
  whose rewriter is fresh; descriptors that are longer than the mandatory fields are taken by the control plane without a change
  of the data plane. Then the data plane handles every datagram without failing and sends the receiver, in order, exactly
  the datagrams of the layers its decode target keeps, each with nothing changed but its RTP sequence number; these numbers are
  consecutive, 16-bit wrap-around included, from the first one of the stream, or from the one before it if the first
  frame is dropped and has a single packet, so that dropping layers leaves no gap the receiver would take for loss.
\<close>

theorem media_path_gap_free:
  assumes "list_all2 (carries h frm (dp_av1RtpExt d) ssrc (svcConfig a)) bufs (stream_pkts f s fs)"
    and "IPv4Port_of_string addr prt = Inr frm" and "map_of (dp_sfu d) (Match frm ssrc) = Some [a]"
    and "sequenceRewriter a = seqrw_init"
    and "0 < unat f" and "unat f + length fs \<le> 65536" and "\<forall>(d, n) \<in> set fs. 0 < n \<and> n < 65536"
    and "kept = filter (keeps (dp_av1RtpExt d) (svcConfig a)) bufs"
  shows "\<exists>d' out. receive_all h addr prt bufs d = (Inr (), d') \<and> dp_out d' = dp_out d @ out \<and>
    out = renumbered (a_to a) (s - of_nat (overcount fs)) kept \<and> map fst out = replicate (length kept) (a_to a) \<and>
    list_all2 (\<lambda>(to, b) buf. same_but_seq b buf) out kept \<and>
    map (\<lambda>(to, b). pkt_seq b) out = map (\<lambda>i. Some (s - of_nat (overcount fs) + of_nat i)) [0..<length kept]"
proof -
  let ?ps = "stream_pkts f s fs" and ?k = "overcount fs"
  obtain xs r' where r: "rewrite_all ?ps seqrw_init = (xs, r')" by fastforce
  obtain d' where d': "receive_all h addr prt bufs d = (Inr (), d')"
      "dp_out d' = dp_out d @ concat (map2 (out_of (a_to a)) bufs xs)"
    using receive_all_run [OF assms(1-3)] r assms(4) by (auto simp: seqrw_init_def)
  have ideal: "narrow xs = ideal ?k ?ps"
    using rewrite_stream_ideal [OF assms(5-7), of s] r by simp
  have nums: "forwarded (ideal ?k ?ps) = map (\<lambda>i. s - of_nat ?k + of_nat i) [0..<length kept]"
    using forwarded_ideal_consecutive [of ?ps s ?k] stream_pkts_seq [of _ f s fs] kept_pkts [OF assms(1)] by (simp add: assms(8))
  have out: "concat (map2 (out_of (a_to a)) bufs xs) = renumbered (a_to a) (s - of_nat ?k) kept"
    unfolding out_ideal [OF assms(1) ideal] nums assms(8) [symmetric] by (simp add: renumbered_def zip_map2 split_def)
  have "\<forall>buf \<in> set kept. \<exists>rtp. rtp_load buf = Inr rtp"
    using carries_load [OF assms(1)] by (simp add: assms(8))
  then show ?thesis
    using d' out renumbered_sent [of kept "a_to a" "s - of_nat ?k"] by simp
qed

text \<open>A datagram with a one-byte extension block that holds just the mandatory fields, extension id 12.\<close>

definition dgram :: "bool \<Rightarrow> bool \<Rightarrow> nat \<Rightarrow> u16 \<Rightarrow> u16 \<Rightarrow> u32 \<Rightarrow> byte list" where
  "dgram st en tid frame sq ssrc =
     [0x90, 96] @ be16_bytes sq @ [0, 0, 0, 0] @ be32_bytes ssrc @ [0xbe, 0xde, 0, 1, 0xC2] @
     mandatory_bytes st en tid frame"

lemma dgram_load:
  "rtp_load (dgram st en tid frame sq ssrc) =
     Inr \<lparr> v_p_x_cc = 0x90, m_pt = 96, rtp_seq = ntohs sq, rtp_ts = load32 0 0 0 0, rtp_ssrc = ntohl ssrc \<rparr>"
  by (simp add: rtp_load_def rtp_HDR_LEN_def dgram_def be16_bytes_def be32_bytes_def mandatory_bytes_def
      load16_def load32_def ntohs_def ntohl_def)

lemma dgram_extension: "extension_ptr (dgram st en tid frame sq ssrc) 12 = Inr (Some 16)"
proof -
  let ?b = "dgram st en tid frame sq ssrc"
  have len: "length ?b = 20"
    by (simp add: dgram_def be16_bytes_def be32_bytes_def mandatory_bytes_def)
  have bts: "?b ! 12 = 0xbe" "?b ! 13 = 0xde" "?b ! 14 = 0" "?b ! 15 = 1" "?b ! 16 = 0xC2"
    by (simp_all add: dgram_def be16_bytes_def be32_bytes_def)
  have prof: "extension_profile ?b = Inr one_byte"
    using len bts
    by (simp add: extension_profile_def extension_profile_header_def dgram_load rtp_extension_def rd_def
        ntohs_load16 be16_def)
  have "ext_walk ?b one_byte 4 4 = Inr [16]"
    using len bts by (simp add: ext_walk.simps [of _ _ _ 4] ext_walk.simps [of _ _ _ 8] rd_def ext_len_def ext_hdr_len_def)
  then have "extension_ptrs ?b = Inr [16]"
    using len bts prof
    by (simp add: extension_ptrs_def dgram_load rtp_extension_def rtp_csrc_count_def rd_def Let_def)
  then show ?thesis
    using len bts prof by (simp add: extension_ptr_def ext_type_def rd_def)
qed

lemma dgram_carries:
  assumes "tid < 64"
  shows "carries h frm 12 ssrc t (dgram st en tid frame sq ssrc)
    \<lparr> p_frame = frame, p_seq = sq, p_mark = markFromAV1FrameFlags st en,
      p_drop = (case t of None \<Rightarrow> False | Some t \<Rightarrow> L1T3_drop t tid), p_sim = None \<rparr>"
proof -
  let ?b = "dgram st en tid frame sq ssrc" and ?f = "mandatory_bytes st en tid frame"
  have len: "length ?b = 20" "length ?f = 3"
    by (simp_all add: dgram_def be16_bytes_def be32_bytes_def mandatory_bytes_def)
  have "?b ! 16 = 0xC2" "drop 17 ?b = ?f"
    by (simp_all add: dgram_def be16_bytes_def be32_bytes_def)
  then have desc: "descriptor_at ?b 16 = Inr (?f, 3)"
    using len by (simp add: descriptor_at_def ext_len_def rd_def DependencyDescriptor_def
        MandatoryFields_LEN_def dd_default_def)
  have fl: "startOfFrame ?f = Inr st" "endOfFrame ?f = Inr en" "templateId ?f = Inr (of_nat tid)"
      "frameNumber ?f = Inr (ucast frame)"
    using mandatory_fields_read [OF assms, of st en frame "[]"] by simp_all
  have u: "unat (of_nat tid :: u32) = tid" using assms by (intro unat_of_nat_eq) simp
  have nl: "ntohl (ntohl w) = w" for w by (simp add: ntohl_def wire_simps)
  have "fields_of t ?b ?f = Inr \<lparr> p_frame = frame, p_seq = sq, p_mark = markFromAV1FrameFlags st en,
      p_drop = (case t of None \<Rightarrow> False | Some t \<Rightarrow> L1T3_drop t tid), p_sim = None \<rparr>"
    by (cases t) (simp_all add: fields_of_def fl dgram_load u)
  moreover have "contains_rtp_or_rtcp ?b"
    using len by (simp add: contains_rtp_or_rtcp_def) (simp add: dgram_def)
  ultimately show ?thesis
    using desc by (simp add: carries_def dgram_load dgram_extension rtp_is_rtcp_def nl)
qed

text \<open>A receiver at the middle decode target: the packet of the top layer is left out, the others go out with adjusted numbers.\<close>

definition sample_rule :: "unit data_plane_model" where
  "sample_rule = (DataPlaneModel 12 ())\<lparr> dp_sfu := [(Match (IPv4Port 1 5) 9, [(Action (IPv4Port 7 7))\<lparr> svcConfig := Some mid \<rparr>])] \<rparr>"

definition sample_video :: "byte list list" where
  "sample_video = [dgram True False 0 2 65535 9, dgram False True 0 2 0 9, dgram True True 3 3 1 9, dgram True True 2 4 2 9]"

lemma dgram_store: "rtp_store_seq (dgram st en tid frame sq ssrc) (ntohs w) = dgram st en tid frame w ssrc"
  by (simp add: rtp_store_seq_def dgram_def be16_bytes_def ntohs_def wire_simps)

lemma wrapped16: "(65536 :: u16) = 0" "(65537 :: u16) = 1" "(65538 :: u16) = 2"
  by simp_all

lemma sample_video_carries:
  "list_all2 (carries None (IPv4Port 1 5) 12 9 (Some mid)) sample_video
     (stream_pkts 2 65535 [(False, 2), (True, 1), (False, 1)])"
  using dgram_carries [of 0 None "IPv4Port 1 5" 9 "Some mid" True False 2 65535]
    dgram_carries [of 0 None "IPv4Port 1 5" 9 "Some mid" False True 2 0]
    dgram_carries [of 3 None "IPv4Port 1 5" 9 "Some mid" True True 3 1]
    dgram_carries [of 2 None "IPv4Port 1 5" 9 "Some mid" True True 4 2]
  by (simp add: sample_video_def frame_pkts_def av1_pkt_def upt_rec wrapped16)

lemma sample_video_kept:
  "filter (keeps 12 (Some mid)) sample_video =
     [dgram True False 0 2 65535 9, dgram False True 0 2 0 9, dgram True True 2 4 2 9]"
  using carries_keeps [OF dgram_carries [of 0 None "IPv4Port 1 5" 9 "Some mid" True False 2 65535]]
    carries_keeps [OF dgram_carries [of 0 None "IPv4Port 1 5" 9 "Some mid" False True 2 0]]
    carries_keeps [OF dgram_carries [of 3 None "IPv4Port 1 5" 9 "Some mid" True True 3 1]]
    carries_keeps [OF dgram_carries [of 2 None "IPv4Port 1 5" 9 "Some mid" True True 4 2]]
  by (simp add: sample_video_def)

theorem media_path_gap_free_witness:
  "\<exists>d'. receive_all None (IPv4_str 1) 5 sample_video sample_rule = (Inr (), d') \<and>
    dp_out d' = [(IPv4Port 7 7, dgram True False 0 2 65535 9), (IPv4Port 7 7, dgram False True 0 2 0 9),
      (IPv4Port 7 7, dgram True True 2 4 1 9)]"
proof -
  let ?a = "(Action (IPv4Port 7 7))\<lparr> svcConfig := Some mid \<rparr>" and ?fs = "[(False, 2), (True, 1), (False, 1)]"
  have d: "dp_av1RtpExt sample_rule = 12" "dp_out sample_rule = []"
      "map_of (dp_sfu sample_rule) (Match (IPv4Port 1 5) 9) = Some [?a]"
    by (simp_all add: sample_rule_def DataPlaneModel_def)
  have a: "svcConfig ?a = Some mid" "a_to ?a = IPv4Port 7 7" "sequenceRewriter ?a = seqrw_init"
    by (simp_all add: Action_def)
  have n: "IPv4Port_of_string (IPv4_str 1) 5 = Inr (IPv4Port 1 5)"
    by (simp add: IPv4Port_of_string_def IPv4_of_str)
  have "\<exists>d' out. receive_all None (IPv4_str 1) 5 sample_video sample_rule = (Inr (), d') \<and> dp_out d' = dp_out sample_rule @ out \<and>
      out = renumbered (a_to ?a) (65535 - of_nat (overcount ?fs)) (filter (keeps 12 (Some mid)) sample_video)"
    using media_path_gap_free [of None "IPv4Port 1 5" sample_rule 9 ?a sample_video 2 65535 ?fs "IPv4_str 1" 5, OF _ n d(3)]
      sample_video_carries d a by auto
  then show ?thesis
    unfolding sample_video_kept
    by (simp add: d(2) a(2) renumbered_def upt_rec dgram_store wrapped16 del: receive_all.simps)
qed

section \<open>Several receivers of one stream\<close>

text \<open>
  A receiver whose decode target drops the packet ends the loop over the actions: receivers behind it
  in the entry get nothing, whatever their own decode target, and their rewriters do not see the packet.
\<close>

lemma drop_ends_fan_out:
  assumes "action_rewrite f buf a = Inr (True, sq, a')"
  shows "rtp_actions (Some f) buf (a # as) = (Inr (), a' # as, [])"
  using assms by simp

text \<open>
  The sequence number written for one receiver is the one the next receiver's rewriter starts from: in
  the same stream a receiver that has dropped packets shifts the numbers of every receiver behind it.
\<close>

lemma numbers_leak_between_receivers:
  assumes "action_rewrite f buf a = Inr (False, Some n, a')" and "rtp_load buf = Inr h"
  shows "rtp_actions (Some f) buf (a # as) =
      (case rtp_actions (Some f) (rtp_store_seq buf (ntohs (ucast n))) as of
         (r, as', out) \<Rightarrow> (r, a' # as', (a_to a', rtp_store_seq buf (ntohs (ucast n))) # out))"
    and "\<exists>h'. rtp_load (rtp_store_seq buf (ntohs (ucast n))) = Inr h' \<and> ntohs (rtp_seq h') = ucast n"
  using assms rtp_store_seq_load [OF assms(2), of "ntohs (ucast n)"] by (auto simp: Let_def)

end
