(* ===== verification/Agent_State.thy ===== *)
theory Agent_State
  imports Net AV1
begin

text \<open>
  \<open>lib/switch_agent_state.h\<close> and the types of \<open>lib/p4sfu.h\<close>: the switch agent's record of the media streams
  sent by participants and received by others, with an index from session and SSRC to the send
  stream. The invariant ties the three tables together: the index is exact, and send and receive
  streams refer to each other. It makes the searches of the code, which walk a hash table in
  unspecified order, independent of that order.
\<close>

datatype MediaType = audio | video

definition mediaTypeString :: "MediaType \<Rightarrow> string" where
  "mediaTypeString t = (case t of audio \<Rightarrow> ''audio'' | video \<Rightarrow> ''video'')"

record SendStream =
  ss_sessionId :: u32
  ss_sendingParticipant :: u32
  ss_addr :: IPv4Port
  ss_ssrc :: u32
  ss_type :: MediaType
  ss_rtx :: bool
  receiveStreamIds :: "u32 list"

record ReceiveStream =
  rs_sessionId :: u32
  rs_sendingParticipant :: u32
  rs_addr :: IPv4Port
  rs_ssrc :: u32
  rs_type :: MediaType
  rs_rtx :: bool
  rs_sendStreamId :: u32
  rs_receivingParticipant :: u32
  rs_decodeTarget :: DecodeTarget
  bandwidthEstimates :: "u32 list"

record agent_state =
  sendStreams :: "(u32, SendStream) umap"
  receiveStreams :: "(u32, ReceiveStream) umap"
  sessions :: "(u32, (u32, u32) umap) umap"
  next_sendStreamId :: u32
  next_receiveStreamId :: u32

definition agent_state_init :: agent_state where
  "agent_state_init = \<lparr> sendStreams = [], receiveStreams = [], sessions = [],
     next_sendStreamId = 0, next_receiveStreamId = 0 \<rparr>"

text \<open>\<open>insert\<close> of a hash table, which keeps an existing entry.\<close>

definition umap_ins :: "'k \<Rightarrow> 'v \<Rightarrow> ('k, 'v) umap \<Rightarrow> ('k, 'v) umap" where
  "umap_ins k v m = (if map_of m k = None then umap_put k v m else m)"

section \<open>Operations\<close>

definition ensure_session :: "u32 \<Rightarrow> agent_state \<Rightarrow> agent_state" where
  "ensure_session sid s = s\<lparr> sessions := umap_ins sid [] (sessions s) \<rparr>"

definition session_index :: "agent_state \<Rightarrow> u32 \<Rightarrow> (u32, u32) umap" where
  "session_index s sid = (case map_of (sessions s) sid of None \<Rightarrow> [] | Some m \<Rightarrow> m)"

text \<open>The block that stores one send stream under the next id and indexes it.\<close>

definition put_send :: "SendStream \<Rightarrow> agent_state \<Rightarrow> agent_state" where
  "put_send x s =
     (let k = next_sendStreamId s; sid = ss_sessionId x in
      s\<lparr> next_sendStreamId := k + 1, sendStreams := umap_put k x (sendStreams s),
        sessions := umap_put sid (umap_ins (ss_ssrc x) k (session_index s sid)) (sessions s) \<rparr>)"

definition addSendStream ::
  "u32 \<Rightarrow> u32 \<Rightarrow> IPv4Port \<Rightarrow> MediaType \<Rightarrow> u32 \<Rightarrow> u32 \<Rightarrow> agent_state \<Rightarrow> unit result \<times> agent_state" where
  "addSendStream sid pid addr typ mainSSRC rtxSSRC s =
     (let s = ensure_session sid s in
      if map_of (session_index s sid) mainSSRC \<noteq> None
      then (Inl (Logic_error ''SwitchAgentState: send stream already exists''), s)
      else if map_of (session_index s sid) rtxSSRC \<noteq> None
      then (Inl (Logic_error ''SwitchAgentState: send stream already exists''), s)
      else
        let s1 = \<lparr> ss_sessionId = sid, ss_sendingParticipant = pid, ss_addr = addr, ss_ssrc = mainSSRC,
                   ss_type = typ, ss_rtx = False, receiveStreamIds = [] \<rparr>;
            s2 = s1\<lparr> ss_ssrc := rtxSSRC, ss_rtx := True \<rparr>;
            s = put_send s1 s
        in (Inr (), if rtxSSRC \<noteq> 0 then put_send s2 s else s))"

definition getSendStream :: "agent_state \<Rightarrow> u32 \<Rightarrow> u32 \<Rightarrow> (u32 \<times> SendStream) option" where
  "getSendStream s sid ssrc = find (\<lambda>(k, x). ss_sessionId x = sid \<and> ss_ssrc x = ssrc) (sendStreams s)"

definition getReceiveStream :: "agent_state \<Rightarrow> u32 \<Rightarrow> u32 \<Rightarrow> u32 \<Rightarrow> (u32 \<times> ReceiveStream) option" where
  "getReceiveStream s sid ssrc pid =
     find (\<lambda>(k, x). rs_sessionId x = sid \<and> rs_ssrc x = ssrc \<and> rs_receivingParticipant x = pid) (receiveStreams s)"

definition getReceiveStreamFrom :: "agent_state \<Rightarrow> IPv4Port \<Rightarrow> u32 \<Rightarrow> (u32 \<times> ReceiveStream) option" where
  "getReceiveStreamFrom s frm ssrc = find (\<lambda>(k, x). rs_addr x = frm \<and> rs_ssrc x = ssrc) (receiveStreams s)"

text \<open>The block that stores one receive stream and links it to the send stream found for it.\<close>

definition put_recv :: "u32 \<Rightarrow> SendStream \<Rightarrow> u32 \<Rightarrow> IPv4Port \<Rightarrow> bool \<Rightarrow> agent_state \<Rightarrow> agent_state" where
  "put_recv k ss toPid addr rtx s =
     (let r = next_receiveStreamId s;
          x = \<lparr> rs_sessionId = ss_sessionId ss, rs_sendingParticipant = ss_sendingParticipant ss, rs_addr = addr,
                rs_ssrc = ss_ssrc ss, rs_type = ss_type ss, rs_rtx = rtx, rs_sendStreamId = k,
                rs_receivingParticipant = toPid, rs_decodeTarget = hi, bandwidthEstimates = [] \<rparr>
      in s\<lparr> next_receiveStreamId := r + 1, receiveStreams := umap_put r x (receiveStreams s),
           sendStreams := umap_put k (ss\<lparr> receiveStreamIds := receiveStreamIds ss @ [r] \<rparr>) (sendStreams s) \<rparr>)"

text \<open>
  \<open>fromParticipantId\<close> is stored and then overwritten with the participant of the send stream; session
  and SSRC of the new stream are those the send stream was found by.
\<close>

definition addReceiveStream ::
  "u32 \<Rightarrow> u32 \<Rightarrow> u32 \<Rightarrow> IPv4Port \<Rightarrow> u32 \<Rightarrow> u32 \<Rightarrow> agent_state \<Rightarrow> unit result \<times> agent_state" where
  "addReceiveStream sid fromPid toPid addr mainSSRC rtxSSRC s =
     (case getSendStream s sid mainSSRC of
        None \<Rightarrow> (Inl (Logic_error ''SwitchAgentTest: addReceiveStream: no corresponding receive  stream''), s)
      | Some (k, ss) \<Rightarrow>
          let s = put_recv k ss toPid addr False s in
          if rtxSSRC \<noteq> 0 then
            (case getSendStream s sid rtxSSRC of
               None \<Rightarrow> (Inl (Logic_error ''SwitchAgentTest: addReceiveStream: no corresponding receive  stream''), s)
             | Some (k, ss) \<Rightarrow> (Inr (), put_recv k ss toPid addr True s))
          else (Inr (), s))"

section \<open>The invariant\<close>

definition idx :: "agent_state \<Rightarrow> u32 \<Rightarrow> u32 \<Rightarrow> u32 option" where
  "idx s sid x = map_of (session_index s sid) x"

text \<open>The index finds exactly the send streams.\<close>

definition index_exact :: "agent_state \<Rightarrow> bool" where
  "index_exact s \<longleftrightarrow>
     (\<forall>sid x k. idx s sid x = Some k \<longleftrightarrow>
        (\<exists>ss. map_of (sendStreams s) k = Some ss \<and> ss_sessionId ss = sid \<and> ss_ssrc ss = x))"

text \<open>A send stream and a receive stream that belong together.\<close>

definition linked :: "u32 \<Rightarrow> SendStream \<Rightarrow> u32 \<Rightarrow> ReceiveStream \<Rightarrow> bool" where
  "linked k ss r rs \<longleftrightarrow>
     rs_sendStreamId rs = k \<and> r \<in> set (receiveStreamIds ss) \<and> rs_sessionId rs = ss_sessionId ss \<and>
     rs_ssrc rs = ss_ssrc ss \<and> rs_type rs = ss_type ss \<and> rs_sendingParticipant rs = ss_sendingParticipant ss"

definition links_ok :: "agent_state \<Rightarrow> bool" where
  "links_ok s \<longleftrightarrow>
     (\<forall>k ss. map_of (sendStreams s) k = Some ss \<longrightarrow>
        (\<forall>r \<in> set (receiveStreamIds ss). \<exists>rs. map_of (receiveStreams s) r = Some rs \<and> linked k ss r rs)) \<and>
     (\<forall>r rs. map_of (receiveStreams s) r = Some rs \<longrightarrow>
        (\<exists>ss. map_of (sendStreams s) (rs_sendStreamId rs) = Some ss \<and> linked (rs_sendStreamId rs) ss r rs))"

definition ids_fresh :: "agent_state \<Rightarrow> bool" where
  "ids_fresh s \<longleftrightarrow>
     (\<forall>k \<in> dom (map_of (sendStreams s)). k < next_sendStreamId s) \<and>
     (\<forall>k \<in> dom (map_of (receiveStreams s)). k < next_receiveStreamId s)"

definition state_inv :: "agent_state \<Rightarrow> bool" where
  "state_inv s \<longleftrightarrow> umap_inv (sendStreams s) \<and> umap_inv (receiveStreams s) \<and> index_exact s \<and> links_ok s \<and> ids_fresh s"

lemmas state_inv_defs = state_inv_def index_exact_def links_ok_def ids_fresh_def

lemma state_inv_init: "state_inv agent_state_init"
  by (simp add: state_inv_defs agent_state_init_def idx_def session_index_def store_simps)

lemma idx_ensure_session [simp]: "idx (ensure_session sid s) = idx s"
  by (intro ext) (simp add: idx_def session_index_def ensure_session_def umap_ins_def split: option.splits)

lemma ensure_session_sel [simp]:
  "sendStreams (ensure_session sid s) = sendStreams s" "receiveStreams (ensure_session sid s) = receiveStreams s"
  "next_sendStreamId (ensure_session sid s) = next_sendStreamId s"
  "next_receiveStreamId (ensure_session sid s) = next_receiveStreamId s"
  by (simp_all add: ensure_session_def)

lemma state_inv_ensure_session: "state_inv s \<Longrightarrow> state_inv (ensure_session sid s)"
  by (simp add: state_inv_defs)

lemma idx_put_send:
  "idx (put_send x s) sid y =
     (if sid = ss_sessionId x \<and> y = ss_ssrc x \<and> idx s sid y = None then Some (next_sendStreamId s) else idx s sid y)"
  by (auto simp: idx_def session_index_def put_send_def umap_ins_def Let_def)

lemma put_send_sel [simp]:
  "sendStreams (put_send x s) = umap_put (next_sendStreamId s) x (sendStreams s)"
  "receiveStreams (put_send x s) = receiveStreams s"
  "next_sendStreamId (put_send x s) = next_sendStreamId s + 1"
  "next_receiveStreamId (put_send x s) = next_receiveStreamId s"
  by (simp_all add: put_send_def Let_def)

lemma unat_add_one: "unat (b :: u32) + 1 < 2 ^ 32 \<Longrightarrow> unat (b + 1) = unat b + 1"
  by (simp add: unat_word_ariths)

lemma word_less_add_one: "(a :: u32) < b \<Longrightarrow> unat b + 1 < 2 ^ 32 \<Longrightarrow> a < b + 1"
  using unat_add_one [of b] by (simp add: word_less_nat_alt)

lemma word_self_less_add_one: "unat (b :: u32) + 1 < 2 ^ 32 \<Longrightarrow> b < b + 1"
  using unat_add_one [of b] by (simp add: word_less_nat_alt)

lemma state_inv_put_send:
  assumes inv: "state_inv s" and new: "idx s (ss_sessionId x) (ss_ssrc x) = None"
    and "receiveStreamIds x = []" and bound: "unat (next_sendStreamId s) + 1 < 2 ^ 32"
  shows "state_inv (put_send x s)"
proof -
  let ?k = "next_sendStreamId s"
  have fresh: "map_of (sendStreams s) ?k = None"
    using inv by (fastforce simp: state_inv_def ids_fresh_def dom_def)
  have no_ref: "rs_sendStreamId rs \<noteq> ?k" if "map_of (receiveStreams s) r = Some rs" for r rs
    using inv that fresh by (fastforce simp: state_inv_def links_ok_def)
  have ex: "idx s sid y = Some k \<longleftrightarrow>
      (\<exists>ss. map_of (sendStreams s) k = Some ss \<and> ss_sessionId ss = sid \<and> ss_ssrc ss = y)" for sid y k
    using inv by (simp add: state_inv_def index_exact_def)
  have no_dup: "\<not> (ss_sessionId ss = ss_sessionId x \<and> ss_ssrc ss = ss_ssrc x)" if "map_of (sendStreams s) k = Some ss" for k ss
    using ex [of "ss_sessionId x" "ss_ssrc x" k] new that by auto
  have "idx (put_send x s) sid y = Some k \<longleftrightarrow>
      (\<exists>ss. map_of (sendStreams (put_send x s)) k = Some ss \<and> ss_sessionId ss = sid \<and> ss_ssrc ss = y)" for sid y k
    using ex [of sid y k] new fresh no_dup [of k] by (auto simp: idx_put_send)
  then have "index_exact (put_send x s)" by (simp add: index_exact_def)
  moreover have "links_ok (put_send x s)"
    using inv assms(3) no_ref by (auto simp: state_inv_def links_ok_def)
  moreover have "ids_fresh (put_send x s)"
    using inv bound
    by (auto simp: state_inv_def ids_fresh_def dom_def intro: word_less_add_one word_self_less_add_one)
  ultimately show ?thesis
    using inv by (simp add: state_inv_def umap_inv_put)
qed

definition main_stream :: "u32 \<Rightarrow> u32 \<Rightarrow> IPv4Port \<Rightarrow> MediaType \<Rightarrow> u32 \<Rightarrow> SendStream" where
  "main_stream sid pid addr typ ssrc =
     \<lparr> ss_sessionId = sid, ss_sendingParticipant = pid, ss_addr = addr, ss_ssrc = ssrc, ss_type = typ, ss_rtx = False, receiveStreamIds = [] \<rparr>"

lemma addSendStream_eq:
  "addSendStream sid pid addr typ mainSSRC rtxSSRC s =
     (if idx s sid mainSSRC = None \<and> idx s sid rtxSSRC = None then
        let s1 = put_send (main_stream sid pid addr typ mainSSRC) (ensure_session sid s) in
        (Inr (), if rtxSSRC \<noteq> 0 then put_send ((main_stream sid pid addr typ rtxSSRC)\<lparr> ss_rtx := True \<rparr>) s1 else s1)
      else (Inl (Logic_error ''SwitchAgentState: send stream already exists''), ensure_session sid s))"
  by (auto simp: addSendStream_def main_stream_def Let_def simp flip: idx_def)

text \<open>The state after a send stream was added.\<close>

lemma addSendStream_added:
  assumes "state_inv s" and "rtxSSRC \<noteq> mainSSRC" and "unat (next_sendStreamId s) + 2 < 2 ^ 32"
    and "idx s sid mainSSRC = None" "idx s sid rtxSSRC = None"
    and "addSendStream sid pid addr typ mainSSRC rtxSSRC s = (r, s')"
  shows "r = Inr ()" "state_inv s'"
    and "idx s' sid mainSSRC = Some (next_sendStreamId s)" "map_of (sendStreams s') (next_sendStreamId s) = Some (main_stream sid pid addr typ mainSSRC)"
    and "rtxSSRC \<noteq> 0 \<Longrightarrow> idx s' sid rtxSSRC = Some (next_sendStreamId s + 1) \<and>
      map_of (sendStreams s') (next_sendStreamId s + 1) = Some ((main_stream sid pid addr typ rtxSSRC)\<lparr> ss_rtx := True \<rparr>)"
    and "receiveStreams s' = receiveStreams s" "next_receiveStreamId s' = next_receiveStreamId s"
    and "unat (next_sendStreamId s') \<le> unat (next_sendStreamId s) + 2"
proof -
  let ?s0 = "ensure_session sid s" and ?x = "main_stream sid pid addr typ mainSSRC"
  let ?y = "(main_stream sid pid addr typ rtxSSRC)\<lparr> ss_rtx := True \<rparr>" and ?s1 = "put_send (main_stream sid pid addr typ mainSSRC) (ensure_session sid s)"
  have f: "ss_sessionId ?x = sid" "ss_ssrc ?x = mainSSRC" "receiveStreamIds ?x = []" "ss_sessionId ?y = sid" "ss_ssrc ?y = rtxSSRC" "receiveStreamIds ?y = []"
    by (simp_all add: main_stream_def)
  have e: "r = Inr ()" "s' = (if rtxSSRC \<noteq> 0 then put_send ?y ?s1 else ?s1)"
    using assms(4-6) by (auto simp: addSendStream_eq Let_def)
  have inv0: "state_inv ?s0" using assms(1) by (rule state_inv_ensure_session)
  have inv1: "state_inv ?s1" using inv0 f assms(3,4) by (intro state_inv_put_send) auto
  have n1: "unat (next_sendStreamId ?s1) + 1 < 2 ^ 32" using assms(3) unat_add_one [of "next_sendStreamId s"] by simp
  have inv2: "state_inv (put_send ?y ?s1)"
    by (rule state_inv_put_send [OF inv1]) (use assms(2,5) n1 f in \<open>auto simp: idx_put_send\<close>)
  have k: "next_sendStreamId s \<noteq> next_sendStreamId s + 1" by simp
  show "r = Inr ()" by (rule e)
  show "state_inv s'" using e(2) inv1 inv2 by auto
  show "idx s' sid mainSSRC = Some (next_sendStreamId s)" "map_of (sendStreams s') (next_sendStreamId s) = Some ?x"
    "rtxSSRC \<noteq> 0 \<Longrightarrow> idx s' sid rtxSSRC = Some (next_sendStreamId s + 1) \<and> map_of (sendStreams s') (next_sendStreamId s + 1) = Some ?y"
    using e(2) assms(2,4,5) k f by (auto simp: idx_put_send)
  show "receiveStreams s' = receiveStreams s" "next_receiveStreamId s' = next_receiveStreamId s" using e(2) by auto
  have "unat (next_sendStreamId s + 1 + 1) = unat (next_sendStreamId s) + 2" "unat (next_sendStreamId s + 1) = unat (next_sendStreamId s) + 1"
    using assms(3) unat_add_one [of "next_sendStreamId s"] unat_add_one [of "next_sendStreamId s + 1"] by simp_all
  then show "unat (next_sendStreamId s') \<le> unat (next_sendStreamId s) + 2" using e(2) by (auto simp: add.assoc)
qed

text \<open>
  C12: adding a send stream keeps the agent's tables consistent whether it succeeds or not (retransmission
  SSRC different from the main one, ids not exhausted). It fails exactly when one of its SSRCs is
  already in use in the session, and then no stream is added; when it succeeds, the main stream
  and, unless its SSRC is zero, the retransmission stream are found under their SSRCs.
\<close>

theorem addSendStream_correct:
  assumes "state_inv s" and "rtxSSRC \<noteq> mainSSRC" and "unat (next_sendStreamId s) + 2 < 2 ^ 32"
    and "addSendStream sid pid addr typ mainSSRC rtxSSRC s = (r, s')"
  shows "state_inv s' \<and>
    (is_ok r \<longleftrightarrow> idx s sid mainSSRC = None \<and> idx s sid rtxSSRC = None) \<and>
    (\<not> is_ok r \<longrightarrow> sendStreams s' = sendStreams s \<and> idx s' = idx s) \<and>
    (is_ok r \<longrightarrow> (\<exists>k ss. idx s' sid mainSSRC = Some k \<and> map_of (sendStreams s') k = Some ss \<and>
        ss_addr ss = addr \<and> ss_type ss = typ \<and> ss_sendingParticipant ss = pid \<and> \<not> ss_rtx ss) \<and>
      (rtxSSRC \<noteq> 0 \<longrightarrow> (\<exists>k ss. idx s' sid rtxSSRC = Some k \<and> map_of (sendStreams s') k = Some ss \<and>
        ss_addr ss = addr \<and> ss_rtx ss)))"
proof (cases "idx s sid mainSSRC = None \<and> idx s sid rtxSSRC = None")
  case False
  then have "\<not> is_ok r" "s' = ensure_session sid s" using assms(4) by (auto simp: addSendStream_eq Let_def split: if_splits)
  then show ?thesis using False state_inv_ensure_session [OF assms(1)] by auto
next
  case True
  note added = addSendStream_added [OF assms(1-3) _ _ assms(4)]
  show ?thesis using True added by (auto simp: main_stream_def)
qed

theorem addSendStream_correct_witness:
  "\<exists>k ss. idx (snd (addSendStream 1 2 (IPv4Port 3 4) video 10 11 agent_state_init)) 1 11 = Some k \<and>
     map_of (sendStreams (snd (addSendStream 1 2 (IPv4Port 3 4) video 10 11 agent_state_init))) k = Some ss \<and>
     ss_addr ss = IPv4Port 3 4 \<and> ss_rtx ss"
proof -
  have i: "idx agent_state_init 1 10 = None \<and> idx agent_state_init 1 11 = None"
    by (simp add: idx_def session_index_def agent_state_init_def)
  have u: "unat (next_sendStreamId agent_state_init) + 2 < 2 ^ 32"
    by (simp add: agent_state_init_def)
  obtain r s' where e: "addSendStream 1 2 (IPv4Port 3 4) video 10 11 agent_state_init = (r, s')" by fastforce
  have "(11 :: u32) \<noteq> 10" "(11 :: u32) \<noteq> 0" by simp_all
  then show ?thesis
    using addSendStream_correct [OF state_inv_init _ u e] i e by auto
qed

section \<open>Searching and receive streams\<close>

lemma find_umap: "distinct (map fst m) \<Longrightarrow> find (\<lambda>(k, x). P x) m = Some (k, x) \<Longrightarrow> map_of m k = Some x \<and> P x"
  by (induction m) (auto split: if_splits dest!: find_SomeD simp: image_iff)

lemma find_umap_ex: "map_of m k = Some x \<Longrightarrow> P x \<Longrightarrow> \<exists>k' x'. find (\<lambda>(k, x). P x) m = Some (k', x')"
  by (induction m) (auto split: if_splits)

text \<open>The search over the send streams returns the indexed stream, in whatever order it visits them.\<close>

lemma getSendStream_iff:
  assumes "state_inv s"
  shows "getSendStream s sid ssrc = Some (k, ss) \<longleftrightarrow>
    map_of (sendStreams s) k = Some ss \<and> ss_sessionId ss = sid \<and> ss_ssrc ss = ssrc"
proof
  assume "getSendStream s sid ssrc = Some (k, ss)"
  then show "map_of (sendStreams s) k = Some ss \<and> ss_sessionId ss = sid \<and> ss_ssrc ss = ssrc"
    using assms find_umap [of "sendStreams s" "\<lambda>x. ss_sessionId x = sid \<and> ss_ssrc x = ssrc"]
    by (auto simp: getSendStream_def state_inv_def umap_inv_def)
next
  assume a: "map_of (sendStreams s) k = Some ss \<and> ss_sessionId ss = sid \<and> ss_ssrc ss = ssrc"
  then obtain k' ss' where f: "getSendStream s sid ssrc = Some (k', ss')"
    using find_umap_ex [of "sendStreams s" k ss "\<lambda>x. ss_sessionId x = sid \<and> ss_ssrc x = ssrc"]
    by (auto simp: getSendStream_def)
  then have b: "map_of (sendStreams s) k' = Some ss' \<and> ss_sessionId ss' = sid \<and> ss_ssrc ss' = ssrc"
    using assms find_umap [of "sendStreams s" "\<lambda>x. ss_sessionId x = sid \<and> ss_ssrc x = ssrc"]
    by (auto simp: getSendStream_def state_inv_def umap_inv_def)
  have "idx s sid ssrc = Some k" "idx s sid ssrc = Some k'"
    using assms a b unfolding state_inv_def index_exact_def by blast+
  with a b f show "getSendStream s sid ssrc = Some (k, ss)" by simp
qed

lemma getSendStream_None_iff:
  assumes "state_inv s"
  shows "getSendStream s sid ssrc = None \<longleftrightarrow> idx s sid ssrc = None"
proof -
  have "(\<exists>k ss. getSendStream s sid ssrc = Some (k, ss)) \<longleftrightarrow> (\<exists>k. idx s sid ssrc = Some k)"
    using getSendStream_iff [OF assms] assms unfolding state_inv_def index_exact_def by blast
  then show ?thesis by (metis not_None_eq prod.exhaust)
qed

lemma put_recv_sel [simp]:
  "sendStreams (put_recv k ss p a x s) =
     umap_put k (ss\<lparr> receiveStreamIds := receiveStreamIds ss @ [next_receiveStreamId s] \<rparr>) (sendStreams s)"
  "next_sendStreamId (put_recv k ss p a x s) = next_sendStreamId s"
  "next_receiveStreamId (put_recv k ss p a x s) = next_receiveStreamId s + 1"
  "sessions (put_recv k ss p a x s) = sessions s"
  by (simp_all add: put_recv_def Let_def)

lemma idx_put_recv [simp]: "idx (put_recv k ss p a x s) = idx s"
  by (intro ext) (simp add: idx_def session_index_def)

lemma state_inv_put_recv:
  assumes inv: "state_inv s" and k: "map_of (sendStreams s) k = Some ss"
    and bound: "unat (next_receiveStreamId s) + 1 < 2 ^ 32"
  shows "state_inv (put_recv k ss p a x s)"
proof -
  let ?r = "next_receiveStreamId s" and ?s' = "put_recv k ss p a x s"
  let ?ss = "ss\<lparr> receiveStreamIds := receiveStreamIds ss @ [?r] \<rparr>"
  have fresh: "map_of (receiveStreams s) ?r = None"
    using inv by (fastforce simp: state_inv_def ids_fresh_def dom_def)
  obtain rs where rs: "receiveStreams ?s' = umap_put ?r rs (receiveStreams s)" "linked k ?ss ?r rs"
      "rs_sendStreamId rs = k"
    by (simp add: put_recv_def Let_def linked_def)
  have keep: "linked j tt r q \<Longrightarrow> linked j (tt\<lparr> receiveStreamIds := receiveStreamIds tt @ [?r] \<rparr>) r q" for j tt r q
    by (auto simp: linked_def)
  have "index_exact ?s'"
    using inv k by (fastforce simp: state_inv_def index_exact_def)
  moreover have "links_ok ?s'"
    unfolding links_ok_def
  proof (intro conjI allI impI ballI)
    fix j tt r
    assume j: "map_of (sendStreams ?s') j = Some tt" and r: "r \<in> set (receiveStreamIds tt)"
    show "\<exists>q. map_of (receiveStreams ?s') r = Some q \<and> linked j tt r q"
    proof (cases "r = ?r \<and> j = k")
      case True
      then show ?thesis using j rs by auto
    next
      case False
      obtain tt0 where tt0: "map_of (sendStreams s) j = Some tt0" "r \<in> set (receiveStreamIds tt0) \<or> r = ?r \<and> j = k"
          "tt = (if j = k then tt0\<lparr> receiveStreamIds := receiveStreamIds tt0 @ [?r] \<rparr> else tt0)"
        using j r k by (auto split: if_splits)
      then obtain q where q: "map_of (receiveStreams s) r = Some q" "linked j tt0 r q"
        using inv False by (fastforce simp: state_inv_def links_ok_def)
      then have "r \<noteq> ?r" using fresh by auto
      then show ?thesis using q tt0(3) rs(1) keep by auto
    qed
  next
    fix r q
    assume r: "map_of (receiveStreams ?s') r = Some q"
    show "\<exists>tt. map_of (sendStreams ?s') (rs_sendStreamId q) = Some tt \<and> linked (rs_sendStreamId q) tt r q"
    proof (cases "r = ?r")
      case True
      then show ?thesis using r rs by auto
    next
      case False
      then have "map_of (receiveStreams s) r = Some q" using r rs(1) by simp
      then obtain tt where "map_of (sendStreams s) (rs_sendStreamId q) = Some tt" "linked (rs_sendStreamId q) tt r q"
        using inv unfolding state_inv_def links_ok_def by blast
      then show ?thesis using keep k by auto
    qed
  qed
  moreover have "ids_fresh ?s'"
    using inv bound k rs(1)
    by (auto simp: state_inv_def ids_fresh_def dom_def intro: word_less_add_one word_self_less_add_one)
  ultimately show ?thesis
    using inv rs(1) by (simp add: state_inv_def umap_inv_put)
qed

lemma links_put_recv:
  assumes "state_inv s" and "map_of (sendStreams s) k = Some ss"
  shows "\<exists>r rs. map_of (receiveStreams (put_recv k ss p a x s)) r = Some rs \<and> map_of (receiveStreams s) r = None \<and>
    rs_addr rs = a \<and> rs_receivingParticipant rs = p \<and> rs_sendStreamId rs = k \<and> rs_ssrc rs = ss_ssrc ss \<and>
    rs_sessionId rs = ss_sessionId ss \<and> rs_decodeTarget rs = hi \<and> rs_rtx rs = x"
proof -
  have "map_of (receiveStreams s) (next_receiveStreamId s) = None"
    using assms(1) by (fastforce simp: state_inv_def ids_fresh_def dom_def)
  then show ?thesis
    by (intro exI [of _ "next_receiveStreamId s"]) (simp add: put_recv_def Let_def)
qed

lemma main_receive_stream:
  assumes "state_inv s" "unat (next_receiveStreamId s) + 2 < 2 ^ 32" "getSendStream s sid x = Some (k, ss)"
  shows "idx s sid x = Some k \<and> state_inv (put_recv k ss p a False s)" "unat (next_receiveStreamId (put_recv k ss p a False s)) + 1 < 2 ^ 32"
    "\<exists>i rs. map_of (receiveStreams (put_recv k ss p a False s)) i = Some rs \<and> map_of (receiveStreams s) i = None \<and>
       rs_sessionId rs = sid \<and> rs_ssrc rs = x \<and> rs_addr rs = a \<and> rs_receivingParticipant rs = p \<and>
       rs_decodeTarget rs = hi \<and> \<not> rs_rtx rs \<and> rs_sendStreamId rs = k"
proof -
  have k: "map_of (sendStreams s) k = Some ss" "ss_sessionId ss = sid" "ss_ssrc ss = x" "idx s sid x = Some k"
    using assms(3) getSendStream_iff [OF assms(1)] assms(1) by (auto simp: state_inv_def index_exact_def)
  have "state_inv (put_recv k ss p a False s)" using assms(2) by (intro state_inv_put_recv [OF assms(1) k(1)]) simp
  then show "idx s sid x = Some k \<and> state_inv (put_recv k ss p a False s)" using k(4) by simp
  show "unat (next_receiveStreamId (put_recv k ss p a False s)) + 1 < 2 ^ 32"
    using assms(2) unat_add_one [of "next_receiveStreamId s"] by simp
  show "\<exists>i rs. map_of (receiveStreams (put_recv k ss p a False s)) i = Some rs \<and> map_of (receiveStreams s) i = None \<and>
       rs_sessionId rs = sid \<and> rs_ssrc rs = x \<and> rs_addr rs = a \<and> rs_receivingParticipant rs = p \<and>
       rs_decodeTarget rs = hi \<and> \<not> rs_rtx rs \<and> rs_sendStreamId rs = k"
    using links_put_recv [OF assms(1) k(1), of p a False] k by auto
qed

lemma rtx_receive_stream:
  assumes "state_inv s" "unat (next_receiveStreamId s) + 1 < 2 ^ 32" "getSendStream s sid x = Some (k, ss)"
  shows "state_inv (put_recv k ss p a True s)" "map_of (receiveStreams s) i = Some rs \<Longrightarrow> map_of (receiveStreams (put_recv k ss p a True s)) i = Some rs"
proof -
  have "map_of (sendStreams s) k = Some ss" using assms(3) getSendStream_iff [OF assms(1)] by blast
  then show "state_inv (put_recv k ss p a True s)" by (rule state_inv_put_recv [OF assms(1) _ assms(2)])
  assume i: "map_of (receiveStreams s) i = Some rs"
  then have "i < next_receiveStreamId s" using assms(1) by (auto simp: state_inv_def ids_fresh_def dom_def)
  then show "map_of (receiveStreams (put_recv k ss p a True s)) i = Some rs" using i by (auto simp: put_recv_def Let_def)
qed

text \<open>
  C13: adding a receive stream keeps the agent's tables consistent on every path. It succeeds exactly when
  send streams with the main SSRC and, unless it is zero, the retransmission SSRC exist in the
  session; then a new receive stream at the receiver's address, linked to the main send stream
  and starting at the highest decode target, is recorded.
\<close>

theorem addReceiveStream_correct:
  assumes "state_inv s" and "unat (next_receiveStreamId s) + 2 < 2 ^ 32"
    and "addReceiveStream sid fromPid toPid addr mainSSRC rtxSSRC s = (r, s')"
  shows "state_inv s' \<and>
    (is_ok r \<longleftrightarrow> idx s sid mainSSRC \<noteq> None \<and> (rtxSSRC \<noteq> 0 \<longrightarrow> idx s sid rtxSSRC \<noteq> None)) \<and>
    (idx s sid mainSSRC = None \<longrightarrow> s' = s) \<and>
    (is_ok r \<longrightarrow> (\<exists>i rs. map_of (receiveStreams s') i = Some rs \<and> map_of (receiveStreams s) i = None \<and>
       rs_sessionId rs = sid \<and> rs_ssrc rs = mainSSRC \<and> rs_addr rs = addr \<and> rs_receivingParticipant rs = toPid \<and>
       rs_decodeTarget rs = hi \<and> \<not> rs_rtx rs \<and> idx s sid mainSSRC = Some (rs_sendStreamId rs)))"
proof (cases "getSendStream s sid mainSSRC")
  case None
  have "idx s sid mainSSRC = None" using None getSendStream_None_iff [OF assms(1)] by blast
  with None show ?thesis
    using assms by (auto simp: addReceiveStream_def)
next
  case (Some e)
  obtain k ss where e: "e = (k, ss)" by fastforce
  let ?s1 = "put_recv k ss toPid addr False s"
  note main = main_receive_stream [OF assms(1,2) Some [unfolded e], where p = toPid and a = addr]
  note inv = main(1) [THEN conjunct2]
  show ?thesis
  proof (cases "rtxSSRC = 0")
    case True
    then show ?thesis using assms(3) Some e main by (auto simp: addReceiveStream_def Let_def)
  next
    case rtx: False
    show ?thesis
    proof (cases "getSendStream ?s1 sid rtxSSRC")
      case None
      have "idx s sid rtxSSRC = None"
        using None getSendStream_None_iff [OF inv] by simp
      with None show ?thesis
        using rtx assms(3) Some e main(1) by (auto simp: addReceiveStream_def Let_def)
    next
      case 2: (Some e2)
      obtain k2 ss2 where e2: "e2 = (k2, ss2)" by fastforce
      have "idx s sid rtxSSRC \<noteq> None" using 2 getSendStream_None_iff [OF inv, of sid rtxSSRC] by simp
      moreover have "r = Inr ()" "s' = put_recv k2 ss2 toPid addr True ?s1"
        using rtx assms(3) Some e 2 e2 by (auto simp: addReceiveStream_def Let_def)
      ultimately show ?thesis
        using rtx_receive_stream [OF inv main(2) 2 [unfolded e2], where p = toPid and a = addr] main(1,3) by auto
    qed
  qed
qed

theorem addReceiveStream_correct_witness:
  "is_ok (fst (addReceiveStream 1 2 3 (IPv4Port 5 6) 10 0
     (snd (addSendStream 1 2 (IPv4Port 3 4) video 10 0 agent_state_init))))"
proof -
  let ?s = "snd (addSendStream 1 2 (IPv4Port 3 4) video 10 0 agent_state_init)"
  let ?x = "\<lparr> ss_sessionId = 1, ss_sendingParticipant = 2, ss_addr = IPv4Port 3 4, ss_ssrc = 10,
      ss_type = video, ss_rtx = False, receiveStreamIds = [] \<rparr>"
  have s: "?s = put_send ?x (ensure_session 1 agent_state_init)"
    by (simp add: addSendStream_def Let_def session_index_def ensure_session_def agent_state_init_def umap_ins_def)
  have "idx agent_state_init 1 10 = None" by (simp add: idx_def session_index_def agent_state_init_def)
  then have inv: "state_inv ?s" and "idx ?s 1 10 \<noteq> None"
    unfolding s using state_inv_ensure_session [OF state_inv_init, of 1]
    by (auto simp: idx_put_send agent_state_init_def intro!: state_inv_put_send)
  moreover have "unat (next_receiveStreamId ?s) + 2 < 2 ^ 32" unfolding s by (simp add: agent_state_init_def)
  moreover obtain r s' where e: "addReceiveStream 1 2 3 (IPv4Port 5 6) 10 0 ?s = (r, s')" by fastforce
  ultimately show ?thesis
    using addReceiveStream_correct [OF inv _ e] by simp
qed

text \<open>
  When only the retransmission stream is missing, the exception leaves the main receive stream behind.
\<close>

lemma addReceiveStream_partial:
  assumes "getSendStream s sid mainSSRC = Some (k, ss)" and "rtxSSRC \<noteq> 0"
    and "getSendStream (put_recv k ss toPid addr False s) sid rtxSSRC = None"
  shows "\<not> is_ok (fst (addReceiveStream sid fromPid toPid addr mainSSRC rtxSSRC s)) \<and>
    snd (addReceiveStream sid fromPid toPid addr mainSSRC rtxSSRC s) = put_recv k ss toPid addr False s"
  using assms by (simp add: addReceiveStream_def)

section \<open>What the other components rely on\<close>

text \<open>Where the sender of a stream is; adding streams never moves a sender.\<close>

definition sender_addr :: "agent_state \<Rightarrow> u32 \<Rightarrow> IPv4Port option" where
  "sender_addr s k = map_option ss_addr (map_of (sendStreams s) k)"

lemma send_id_fresh: "state_inv s \<Longrightarrow> map_of (sendStreams s) (next_sendStreamId s) = None"
  by (fastforce simp: state_inv_def ids_fresh_def dom_def)

lemma recv_id_fresh: "state_inv s \<Longrightarrow> map_of (receiveStreams s) (next_receiveStreamId s) = None"
  by (fastforce simp: state_inv_def ids_fresh_def dom_def)

lemma sender_addr_put_send: "state_inv s \<Longrightarrow> sender_addr s \<subseteq>\<^sub>m sender_addr (put_send x s)"
  using send_id_fresh [of s] by (auto simp: map_le_def sender_addr_def)

lemma sender_addr_put_recv:
  "map_of (sendStreams s) k = Some ss \<Longrightarrow> sender_addr (put_recv k ss p a x s) = sender_addr s"
  by (intro ext) (auto simp: sender_addr_def)

lemma addSendStream_keeps:
  assumes "state_inv s" and "rtxSSRC \<noteq> mainSSRC" and "unat (next_sendStreamId s) + 2 < 2 ^ 32"
    and "addSendStream sid pid addr typ mainSSRC rtxSSRC s = (Inr (), s')"
  shows "state_inv s'" and "receiveStreams s' = receiveStreams s" and "sender_addr s \<subseteq>\<^sub>m sender_addr s'"
    and "next_receiveStreamId s' = next_receiveStreamId s"
proof -
  let ?x = "main_stream sid pid addr typ mainSSRC" and ?y = "(main_stream sid pid addr typ rtxSSRC)\<lparr> ss_rtx := True \<rparr>"
  let ?s0 = "ensure_session sid s" and ?s1 = "put_send (main_stream sid pid addr typ mainSSRC) (ensure_session sid s)"
  have r: "idx s sid mainSSRC = None" "idx s sid rtxSSRC = None" "s' = (if rtxSSRC \<noteq> 0 then put_send ?y ?s1 else ?s1)"
    using assms(4) by (auto simp: addSendStream_eq Let_def split: if_splits)
  note added = addSendStream_added [OF assms(1-3) r(1,2) assms(4)]
  show "state_inv s'" "receiveStreams s' = receiveStreams s" "next_receiveStreamId s' = next_receiveStreamId s"
    by (rule added(2), rule added(6), rule added(7))
  have inv0: "state_inv ?s0" using assms(1) by (rule state_inv_ensure_session)
  have inv1: "state_inv ?s1" using inv0 r assms(3) by (intro state_inv_put_send) (auto simp: main_stream_def)
  have "sender_addr s = sender_addr ?s0" by (intro ext) (simp add: sender_addr_def)
  then show "sender_addr s \<subseteq>\<^sub>m sender_addr s'"
    using r(3) sender_addr_put_send [OF inv0, of ?x] sender_addr_put_send [OF inv1, of ?y]
    by (auto intro: map_le_trans)
qed

lemma addReceiveStream_ok:
  assumes "addReceiveStream sid fromPid toPid addr mainSSRC rtxSSRC s = (Inr (), s')"
  shows "\<exists>k ss. getSendStream s sid mainSSRC = Some (k, ss) \<and>
    (if rtxSSRC = 0 then s' = put_recv k ss toPid addr False s
     else \<exists>k2 ss2. getSendStream (put_recv k ss toPid addr False s) sid rtxSSRC = Some (k2, ss2) \<and>
       s' = put_recv k2 ss2 toPid addr True (put_recv k ss toPid addr False s))"
  using assms by (auto simp: addReceiveStream_def Let_def split: option.splits if_splits)

end
