(* ===== verification/Rpc.thy ===== *)
theory Rpc
  imports Agent_State
begin

text \<open>
  \<open>lib/rpc.{h,cc}\<close>: the messages exchanged between controller, switch agents and clients, their JSON
  constructors and printers. The JSON library is not part of the repository: its operations are
  fields of the record \<open>json_api\<close> and the documented behaviour the messages rely on is the
  predicate \<open>json_laws\<close>. The lemmas are the round trips through the printed form, with their
  exceptions.
\<close>

section \<open>The JSON library\<close>

text \<open>
  \<open>j_find\<close> is \<open>find(key) != end()\<close> together with the value found, \<open>j_set key v j\<close> is \<open>j[key] = v\<close>, \<open>j_null\<close> the
  default value and what \<open>= {}\<close> assigns; the getters are the implicit conversions, which throw on
  a value of another kind. \<open>dump\<close> throws on a value that holds a string which is not valid UTF-8, so
  that printing and parsing are inverse on the values for which \<open>j_valid\<close> holds, all that are built from
  ASCII strings and numbers of 64 bits among them.
\<close>

record 'j json_api =
  j_null :: 'j
  j_find :: "'j \<Rightarrow> string \<Rightarrow> 'j option"
  j_set :: "string \<Rightarrow> 'j \<Rightarrow> 'j \<Rightarrow> 'j"
  j_of_str :: "string \<Rightarrow> 'j"
  j_of_num :: "nat \<Rightarrow> 'j"
  j_of_bool :: "bool \<Rightarrow> 'j"
  j_of_array :: "'j list \<Rightarrow> 'j"
  j_get_str :: "'j \<Rightarrow> string result"
  j_get_num :: "'j \<Rightarrow> nat result"
  j_dump :: "'j \<Rightarrow> string"
  j_parse :: "string \<Rightarrow> 'j result"
  j_objectish :: "'j \<Rightarrow> bool"
  j_valid :: "'j \<Rightarrow> bool"

text \<open>A string of ASCII characters, which is valid UTF-8.\<close>

definition ascii :: "string \<Rightarrow> bool" where
  "ascii s \<longleftrightarrow> list_all (\<lambda>c. code c < 128) s"

definition json_laws :: "'j json_api \<Rightarrow> bool" where
  "json_laws J \<longleftrightarrow>
     j_objectish J (j_null J) \<and> (\<forall>k. j_find J (j_null J) k = None) \<and>
     (\<forall>j k v. j_objectish J j \<longrightarrow> j_objectish J (j_set J k v j) \<and>
        (\<forall>k'. j_find J (j_set J k v j) k' = (if k' = k then Some v else j_find J j k'))) \<and>
     (\<forall>s. j_get_str J (j_of_str J s) = Inr s) \<and> (\<forall>n < 2 ^ 64. j_get_num J (j_of_num J n) = Inr n) \<and>
     j_valid J (j_null J) \<and> (\<forall>n < 2 ^ 64. j_valid J (j_of_num J n)) \<and> (\<forall>s. ascii s \<longrightarrow> j_valid J (j_of_str J s)) \<and>
     (\<forall>j k v. j_valid J j \<and> ascii k \<and> j_valid J v \<longrightarrow> j_valid J (j_set J k v j)) \<and>
     (\<forall>j. j_valid J j \<longrightarrow> j_parse J (j_dump J j) = Inr j)"

text \<open>\<open>j[key] == "text"\<close>\<close>

definition j_is_str :: "'j json_api \<Rightarrow> 'j \<Rightarrow> string \<Rightarrow> bool" where
  "j_is_str J j s \<longleftrightarrow> j_get_str J j = Inr s"

section \<open>Messages\<close>

datatype Direction = recvonly | sendrecv | sendonly | inactive

definition directionString :: "Direction \<Rightarrow> string" where
  "directionString d =
     (case d of recvonly \<Rightarrow> ''recvonly'' | sendrecv \<Rightarrow> ''sendrecv'' | sendonly \<Rightarrow> ''sendonly'' | inactive \<Rightarrow> ''inactive'')"

record sw_Hello =
  swh_switchId :: "u32 option"

record sw_AddParticipant =
  ap_sessionId :: u32
  ap_participantId :: u32
  ap_ip :: IPv4

text \<open>\<open>None\<close> stands for a field the constructor leaves uninitialised.\<close>

record sw_AddStream =
  as_sessionId :: u32
  as_participantId :: u32
  as_ip :: IPv4
  as_port :: u16
  as_iceUfrag :: string
  as_icePwd :: string
  as_mainSSRC :: u32
  as_rtxSSRC :: u32
  as_rtcpSSRC :: u32
  as_rtcpRtxSSRC :: u32
  as_mediaType :: "MediaType option"
  as_direction :: "Direction option"

record cl_Hello =
  clh_sessionId :: "u32 option"
  clh_participantId :: "u32 option"

record cl_Offer =
  of_sdp :: string
  of_participantId :: u32

record cl_Answer =
  an_sdp :: string
  an_participantId :: u32

section \<open>Parsing\<close>

definition check_type :: "'j json_api \<Rightarrow> 'j \<Rightarrow> string \<Rightarrow> string \<Rightarrow> unit result" where
  "check_type J msg ident err =
     (case j_find J msg ''type'' of
        Some t \<Rightarrow> if j_is_str J t ident then Inr () else Inl (Runtime_error err)
      | None \<Rightarrow> Inl (Runtime_error err))"

definition need :: "'j json_api \<Rightarrow> 'j \<Rightarrow> string \<Rightarrow> string \<Rightarrow> ('j \<Rightarrow> 'a result) \<Rightarrow> 'a result" where
  "need J dat key err conv =
     (case j_find J dat key of Some v \<Rightarrow> conv v | None \<Rightarrow> Inl (Runtime_error err))"

definition num32 :: "'j json_api \<Rightarrow> 'j \<Rightarrow> u32 result" where
  "num32 J v = rbind (j_get_num J v) (\<lambda>n. Inr (of_nat n))"

definition num16 :: "'j json_api \<Rightarrow> 'j \<Rightarrow> u16 result" where
  "num16 J v = rbind (j_get_num J v) (\<lambda>n. Inr (of_nat n))"

definition ip_of :: "'j json_api \<Rightarrow> 'j \<Rightarrow> IPv4 result" where
  "ip_of J v = rbind (j_get_str J v) IPv4_of_string"

definition parse_AddParticipant :: "'j json_api \<Rightarrow> 'j \<Rightarrow> sw_AddParticipant result" where
  "parse_AddParticipant J msg =
     rbind (check_type J msg ''add_participant'' ''rpc::sw::AddParticipant: failed parsing types'') (\<lambda>_.
     need J msg ''data'' ''rpc::sw::AddParticipant: failed parsing data'' (\<lambda>dat.
     rbind (need J dat ''session_id'' ''rpc::sw::AddParticipant: failed parsing session_id'' (num32 J)) (\<lambda>sid.
     rbind (need J dat ''participant_id'' ''rpc::sw::AddParticipant: failed parsing participant_id'' (num32 J)) (\<lambda>pid.
     rbind (need J dat ''ip'' ''rpc::sw::AddParticipant: failed parsing ip'' (ip_of J)) (\<lambda>addr.
       Inr \<lparr> ap_sessionId = sid, ap_participantId = pid, ap_ip = addr \<rparr>)))))"

definition media_of :: "'j json_api \<Rightarrow> 'j \<Rightarrow> MediaType option result" where
  "media_of J v =
     Inr (if j_is_str J v ''audio'' then Some audio else if j_is_str J v ''video'' then Some video else None)"

definition direction_of :: "'j json_api \<Rightarrow> 'j \<Rightarrow> Direction option result" where
  "direction_of J v =
     Inr (if j_is_str J v ''sendonly'' then Some sendonly else if j_is_str J v ''recvonly'' then Some recvonly else None)"

definition parse_AddStream :: "'j json_api \<Rightarrow> 'j \<Rightarrow> sw_AddStream result" where
  "parse_AddStream J msg =
     rbind (check_type J msg ''add_stream'' ''rpc::sw::AddStream: failed parsing type'') (\<lambda>_.
     need J msg ''data'' ''rpc::sw::AddStream: failed parsing data'' (\<lambda>dat.
     rbind (need J dat ''session_id'' ''rpc::sw::AddStream: failed parsing session_id'' (num32 J)) (\<lambda>sid.
     rbind (need J dat ''participant_id'' ''rpc::sw::AddStream: failed parsing participant_id'' (num32 J)) (\<lambda>pid.
     rbind (need J dat ''ip'' ''rpc::sw::AddStream: failed parsing ip'' (ip_of J)) (\<lambda>addr.
     rbind (need J dat ''port'' ''rpc::sw::AddStream: failed parsing port'' (num16 J)) (\<lambda>prt.
     rbind (need J dat ''ice_ufrag'' ''rpc::sw::AddStream: failed parsing ice_ufrag'' (j_get_str J)) (\<lambda>uf.
     rbind (need J dat ''ice_pwd'' ''rpc::sw::AddStream: failed parsing ice_pwd'' (j_get_str J)) (\<lambda>pw.
     rbind (need J dat ''main_ssrc'' ''rpc::sw::AddStream: failed parsing main_ssrc'' (num32 J)) (\<lambda>m.
     rbind (need J dat ''rtx_ssrc'' ''rpc::sw::AddStream: failed parsing rtx_ssrc'' (num32 J)) (\<lambda>x.
     rbind (need J dat ''rtcp_ssrc'' ''rpc::sw::AddStream: failed parsing rtcp_ssrc'' (num32 J)) (\<lambda>c.
     rbind (need J dat ''rtcp_rtx_ssrc'' ''rpc::sw::AddStream: failed parsing rtcp_rtx_ssrc'' (num32 J)) (\<lambda>cx.
     rbind (need J dat ''media_type'' ''rpc::sw::AddStream: failed parsing media_type'' (media_of J)) (\<lambda>mt.
     rbind (need J dat ''direction'' ''rpc::sw::AddStream: failed parsing direction'' (direction_of J)) (\<lambda>dir.
       Inr \<lparr> as_sessionId = sid, as_participantId = pid, as_ip = addr, as_port = prt, as_iceUfrag = uf,
             as_icePwd = pw, as_mainSSRC = m, as_rtxSSRC = x, as_rtcpSSRC = c, as_rtcpRtxSSRC = cx,
             as_mediaType = mt, as_direction = dir \<rparr>))))))))))))))"

definition optional :: "'j json_api \<Rightarrow> 'j \<Rightarrow> string \<Rightarrow> u32 option result" where
  "optional J dat key =
     (case j_find J dat key of None \<Rightarrow> Inr None | Some v \<Rightarrow> rbind (num32 J v) (\<lambda>n. Inr (Some n)))"

definition parse_cl_Hello :: "'j json_api \<Rightarrow> 'j \<Rightarrow> cl_Hello result" where
  "parse_cl_Hello J msg =
     rbind (check_type J msg ''hello'' ''rpc::Hello: failed parsing message'') (\<lambda>_.
       case j_find J msg ''data'' of
         None \<Rightarrow> Inr \<lparr> clh_sessionId = None, clh_participantId = None \<rparr>
       | Some dat \<Rightarrow>
           rbind (optional J dat ''session_id'') (\<lambda>s. rbind (optional J dat ''participant_id'') (\<lambda>p.
             Inr \<lparr> clh_sessionId = s, clh_participantId = p \<rparr>)))"

definition parse_sw_Hello :: "'j json_api \<Rightarrow> 'j \<Rightarrow> sw_Hello result" where
  "parse_sw_Hello J msg =
     rbind (check_type J msg ''hello'' ''rpc::Hello: failed parsing message'') (\<lambda>_.
       case j_find J msg ''data'' of
         None \<Rightarrow> Inr \<lparr> swh_switchId = None \<rparr>
       | Some dat \<Rightarrow> rbind (optional J dat ''switch_id'') (\<lambda>s. Inr \<lparr> swh_switchId = s \<rparr>))"

text \<open>An offer without \<open>data\<close> is accepted with its defaults, an answer is not.\<close>

definition parse_Offer :: "'j json_api \<Rightarrow> 'j \<Rightarrow> cl_Offer result" where
  "parse_Offer J msg =
     rbind (check_type J msg ''offer'' ''rpc::cl::Offer: failed parsing message'') (\<lambda>_.
       case j_find J msg ''data'' of
         None \<Rightarrow> Inr \<lparr> of_sdp = [], of_participantId = 0 \<rparr>
       | Some dat \<Rightarrow>
           rbind (need J dat ''sdp'' ''rpc::cl::Answer: failed parsing message: sdp missing'' (j_get_str J)) (\<lambda>s.
           rbind (need J dat ''participant_id'' ''rpc::cl::Offer: failed parsing sdp: participant_id missing'' (num32 J)) (\<lambda>p.
             Inr \<lparr> of_sdp = s, of_participantId = p \<rparr>)))"

definition parse_Answer :: "'j json_api \<Rightarrow> 'j \<Rightarrow> cl_Answer result" where
  "parse_Answer J msg =
     rbind (check_type J msg ''answer'' ''rpc::cl::Answer: failed parsing message'') (\<lambda>_.
       need J msg ''data'' ''rpc::cl::Answer: failed parsing sdp'' (\<lambda>dat.
         rbind (need J dat ''sdp'' ''rpc::cl::Answer: failed parsing sdp: sdp missing'' (j_get_str J)) (\<lambda>s.
         rbind (need J dat ''participant_id'' ''rpc::cl::Answer: failed parsing sdp: participant_id missing'' (num32 J)) (\<lambda>p.
           Inr \<lparr> an_sdp = s, an_participantId = p \<rparr>))))"

section \<open>Printing\<close>

definition obj :: "'j json_api \<Rightarrow> (string \<times> 'j) list \<Rightarrow> 'j" where
  "obj J kvs = fold (\<lambda>(k, v). j_set J k v) kvs (j_null J)"

definition json_AddParticipant :: "'j json_api \<Rightarrow> sw_AddParticipant \<Rightarrow> string" where
  "json_AddParticipant J m =
     j_dump J (obj J [(''type'', j_of_str J ''add_participant''),
       (''data'', obj J
         [(''session_id'', j_of_num J (unat (ap_sessionId m))),
          (''participant_id'', j_of_num J (unat (ap_participantId m))),
          (''ip'', j_of_str J (IPv4_str (ap_ip m)))])])"

text \<open>The \<open>assert\<close> on the direction holds or the process ends.\<close>

definition json_AddStream :: "'j json_api \<Rightarrow> sw_AddStream \<Rightarrow> string result" where
  "json_AddStream J m =
     (case (as_mediaType m, as_direction m) of
        (Some mt, Some dir) \<Rightarrow>
          if dir = sendonly \<or> dir = recvonly then
            Inr (j_dump J (obj J [(''type'', j_of_str J ''add_stream''),
              (''data'', obj J
                [(''session_id'', j_of_num J (unat (as_sessionId m))),
                 (''participant_id'', j_of_num J (unat (as_participantId m))),
                 (''ip'', j_of_str J (IPv4_str (as_ip m))),
                 (''port'', j_of_num J (unat (as_port m))),
                 (''ice_ufrag'', j_of_str J (as_iceUfrag m)),
                 (''ice_pwd'', j_of_str J (as_icePwd m)),
                 (''main_ssrc'', j_of_num J (unat (as_mainSSRC m))),
                 (''rtx_ssrc'', j_of_num J (unat (as_rtxSSRC m))),
                 (''rtcp_ssrc'', j_of_num J (unat (as_rtcpSSRC m))),
                 (''rtcp_rtx_ssrc'', j_of_num J (unat (as_rtcpRtxSSRC m))),
                 (''media_type'', j_of_str J (mediaTypeString mt)),
                 (''direction'', j_of_str J (if dir = sendonly then ''sendonly'' else ''recvonly''))])]))
          else Inl (Runtime_error ''assertion failed'')
      | _ \<Rightarrow> Inl (Undefined_behaviour ''uninitialised field''))"

definition json_cl_Hello :: "'j json_api \<Rightarrow> cl_Hello \<Rightarrow> string" where
  "json_cl_Hello J m =
     j_dump J (obj J ((''type'', j_of_str J ''hello'') #
       (if clh_sessionId m \<noteq> None \<or> clh_participantId m \<noteq> None then
          [(''data'', obj J
             ((case clh_sessionId m of None \<Rightarrow> [] | Some n \<Rightarrow> [(''session_id'', j_of_num J (unat n))]) @
              (case clh_participantId m of None \<Rightarrow> [] | Some n \<Rightarrow> [(''participant_id'', j_of_num J (unat n))])))]
        else [])))"

definition json_sw_Hello :: "'j json_api \<Rightarrow> sw_Hello \<Rightarrow> string" where
  "json_sw_Hello J m =
     j_dump J (obj J ((''type'', j_of_str J ''hello'') #
       (case swh_switchId m of
          None \<Rightarrow> []
        | Some n \<Rightarrow> [(''data'', obj J [(''switch_id'', j_of_num J (unat n))])])))"

definition json_Offer :: "'j json_api \<Rightarrow> cl_Offer \<Rightarrow> string" where
  "json_Offer J m =
     j_dump J (obj J [(''type'', j_of_str J ''offer''),
       (''data'', obj J ([(''type'', j_of_str J ''offer''), (''sdp'', j_of_str J (of_sdp m))] @
          (if of_participantId m \<noteq> 0 then [(''participant_id'', j_of_num J (unat (of_participantId m)))] else [])))])"

definition json_Answer :: "'j json_api \<Rightarrow> cl_Answer \<Rightarrow> string" where
  "json_Answer J m =
     j_dump J (obj J [(''type'', j_of_str J ''answer''),
       (''data'', obj J ([(''type'', j_of_str J ''answer''), (''sdp'', j_of_str J (an_sdp m))] @
          (if an_participantId m \<noteq> 0 then [(''participant_id'', j_of_num J (unat (an_participantId m)))] else [])))])"

section \<open>Round trips\<close>

lemma objectish_obj: "json_laws J \<Longrightarrow> j_objectish J (obj J kvs)"
  unfolding obj_def by (induction kvs rule: rev_induct) (auto simp: json_laws_def)

lemma find_obj: "json_laws J \<Longrightarrow> j_find J (obj J kvs) k = map_of (rev kvs) k"
proof (induction kvs rule: rev_induct)
  case Nil
  then show ?case by (simp add: obj_def json_laws_def)
next
  case (snoc kv kvs)
  obtain k' v where kv: "kv = (k', v)" by fastforce
  have "obj J (kvs @ [kv]) = j_set J k' v (obj J kvs)" by (simp add: obj_def kv)
  then show ?case
    using snoc objectish_obj [OF snoc.prems, of kvs] by (auto simp: json_laws_def kv)
qed

lemma valid_obj:
  "json_laws J \<Longrightarrow> list_all (\<lambda>(k, v). ascii k \<and> j_valid J v) kvs \<Longrightarrow> j_valid J (obj J kvs)"
  unfolding obj_def by (induction kvs rule: rev_induct) (auto simp: json_laws_def)

text \<open>The library keeps numbers in 64 bits, which is enough for the fields of the messages.\<close>

lemma unat_64: "unat (a :: u32) < 2 ^ 64" "unat (b :: u16) < 2 ^ 64"
  using unat_lt2p [of a] unat_lt2p [of b] by simp_all

lemma valid_leaf:
  "json_laws J \<Longrightarrow> ascii s \<Longrightarrow> j_valid J (j_of_str J s)"
  "json_laws J \<Longrightarrow> j_valid J (j_of_num J (unat (a :: u32)))" "json_laws J \<Longrightarrow> j_valid J (j_of_num J (unat (b :: u16)))"
  using unat_64 by (auto simp: json_laws_def)

lemma get_num:
  "json_laws J \<Longrightarrow> j_get_num J (j_of_num J (unat (a :: u32))) = Inr (unat a)"
  "json_laws J \<Longrightarrow> j_get_num J (j_of_num J (unat (b :: u16))) = Inr (unat b)"
  using unat_64 by (auto simp: json_laws_def)

lemma ascii_literal [simp]:
  "ascii []" "ascii (c # s) \<longleftrightarrow> of_char c < (128 :: nat) \<and> ascii s" "ascii (s @ t) \<longleftrightarrow> ascii s \<and> ascii t"
  by (auto simp: ascii_def code_def)

lemma ascii_dec [simp]: "ascii (dec n)"
  unfolding ascii_def list_all_iff by (auto dest!: dec_digits simp: is_digit_def)

lemma ascii_IPv4_str [simp]: "ascii (IPv4_str a)"
  by (simp add: IPv4_str_def Let_def)

lemma json_conv:
  assumes "json_laws J"
  shows "j_get_str J (j_of_str J s) = Inr s" "j_is_str J (j_of_str J s) t \<longleftrightarrow> s = t"
    "num32 J (j_of_num J (unat a)) = Inr a" "num16 J (j_of_num J (unat b)) = Inr b"
    "ip_of J (j_of_str J (IPv4_str i)) = Inr i" "j_valid J j \<Longrightarrow> j_parse J (j_dump J j) = Inr j"
  using assms IPv4_of_str get_num [OF assms] by (auto simp: json_laws_def j_is_str_def num32_def num16_def ip_of_def)

lemmas json_simps = check_type_def need_def optional_def find_obj json_conv valid_obj valid_leaf media_of_def direction_of_def

lemma AddStream_parsed:
  assumes "json_laws J" "ascii (as_iceUfrag m)" "ascii (as_icePwd m)" "json_AddStream J m = Inr s"
  obtains msg where "j_parse J s = Inr msg" "j_find J msg ''type'' = Some (j_of_str J ''add_stream'')" "parse_AddStream J msg = Inr m"
  using assms
  by (auto simp: json_AddStream_def parse_AddStream_def json_simps mediaTypeString_def split: option.splits if_splits MediaType.splits)

text \<open>
  C31: with any JSON library that keeps the documented laws, the switch-side messages survive the trip
  through their printed form: a printed stream or participant message is parsed back to the same
  message, and so is a hello. ICE credentials have to be ASCII, as the grammar of SDP has them.
\<close>

theorem switch_messages_roundtrip:
  assumes "json_laws J"
  shows "(\<forall>m s. ascii (as_iceUfrag m) \<and> ascii (as_icePwd m) \<and> json_AddStream J m = Inr s \<longrightarrow>
      rbind (j_parse J s) (parse_AddStream J) = Inr m) \<and>
    (\<forall>m. rbind (j_parse J (json_AddParticipant J m)) (parse_AddParticipant J) = Inr m) \<and>
    (\<forall>m. rbind (j_parse J (json_sw_Hello J m)) (parse_sw_Hello J) = Inr m)"
proof (intro conjI allI impI)
  fix m :: sw_AddStream and s
  assume "ascii (as_iceUfrag m) \<and> ascii (as_icePwd m) \<and> json_AddStream J m = Inr s"
  then obtain msg where "j_parse J s = Inr msg" "parse_AddStream J msg = Inr m" using AddStream_parsed [OF assms] by blast
  then show "rbind (j_parse J s) (parse_AddStream J) = Inr m" by simp
next
  fix m :: sw_AddParticipant
  show "rbind (j_parse J (json_AddParticipant J m)) (parse_AddParticipant J) = Inr m"
    using assms by (simp add: json_AddParticipant_def parse_AddParticipant_def json_simps)
next
  fix m :: sw_Hello
  show "rbind (j_parse J (json_sw_Hello J m)) (parse_sw_Hello J) = Inr m"
    using assms by (cases "swh_switchId m") (simp_all add: json_sw_Hello_def parse_sw_Hello_def json_simps)
qed

text \<open>
  C32: with any JSON library that keeps the documented laws, client hellos survive the trip through their
  printed form, and offers and answers do so exactly when their participant id is not zero: the
  printer leaves out an id of zero, and the parser insists on it.
\<close>

theorem client_messages_roundtrip:
  assumes "json_laws J"
  shows "(\<forall>m. rbind (j_parse J (json_cl_Hello J m)) (parse_cl_Hello J) = Inr m) \<and>
    (\<forall>m. ascii (of_sdp m) \<longrightarrow>
      (rbind (j_parse J (json_Offer J m)) (parse_Offer J) = Inr m \<longleftrightarrow> of_participantId m \<noteq> 0)) \<and>
    (\<forall>m. ascii (an_sdp m) \<longrightarrow>
      (rbind (j_parse J (json_Answer J m)) (parse_Answer J) = Inr m \<longleftrightarrow> an_participantId m \<noteq> 0))"
proof (intro conjI allI impI)
  fix m :: cl_Hello
  show "rbind (j_parse J (json_cl_Hello J m)) (parse_cl_Hello J) = Inr m"
    using assms
    by (cases "clh_sessionId m"; cases "clh_participantId m") (simp_all add: json_cl_Hello_def parse_cl_Hello_def json_simps)
next
  fix m :: cl_Offer
  assume "ascii (of_sdp m)"
  then show "rbind (j_parse J (json_Offer J m)) (parse_Offer J) = Inr m \<longleftrightarrow> of_participantId m \<noteq> 0"
    using assms by (simp add: json_Offer_def parse_Offer_def json_simps)
next
  fix m :: cl_Answer
  assume "ascii (an_sdp m)"
  then show "rbind (j_parse J (json_Answer J m)) (parse_Answer J) = Inr m \<longleftrightarrow> an_participantId m \<noteq> 0"
    using assms by (simp add: json_Answer_def parse_Answer_def json_simps)
qed

section \<open>An instance of the library\<close>

text \<open>
  JSON values as a tree, an object as the chain of its members, an array as the chain of its elements; the printed form is the prefix code
  of the tree, with every character of a string marked and every string closed by a full stop.
\<close>

datatype json = JNull | JBool bool | JStr string | JNum nat | JField string json json | JElem json json

fun tree_find :: "json \<Rightarrow> string \<Rightarrow> json option" where
  "tree_find (JField k v r) q = (if q = k then Some v else tree_find r q)"
| "tree_find j q = None"

fun code_str :: "string \<Rightarrow> string" where
  "code_str [] = ''.''"
| "code_str (c # s) = CHR ''c'' # c # code_str s"

fun read_str :: "string \<Rightarrow> (string \<times> string) option" where
  "read_str (m # s) =
     (if m = CHR ''.'' then Some ([], s)
      else case s of [] \<Rightarrow> None | c # s \<Rightarrow> map_option (\<lambda>(v, s). (c # v, s)) (read_str s))"
| "read_str [] = None"

fun code_tree :: "json \<Rightarrow> string" where
  "code_tree JNull = ''0''"
| "code_tree (JStr s) = CHR ''s'' # code_str s"
| "code_tree (JNum n) = CHR ''n'' # code_str (dec n)"
| "code_tree (JBool b) = (if b then ''1'' else ''2'')"
| "code_tree (JElem v r) = CHR ''e'' # code_tree v @ code_tree r"
| "code_tree (JField k v r) = CHR ''f'' # code_str k @ code_tree v @ code_tree r"

fun read_tree :: "nat \<Rightarrow> string \<Rightarrow> (json \<times> string) option" where
  "read_tree (Suc n) (m # s) =
     (if m = CHR ''0'' then Some (JNull, s)
      else if m = CHR ''1'' then Some (JBool True, s)
      else if m = CHR ''2'' then Some (JBool False, s)
      else if m = CHR ''e'' then
        (case read_tree n s of None \<Rightarrow> None | Some (v, s) \<Rightarrow>
           map_option (\<lambda>(r, s). (JElem v r, s)) (read_tree n s))
      else if m = CHR ''s'' then map_option (\<lambda>(v, s). (JStr v, s)) (read_str s)
      else if m = CHR ''n'' then map_option (\<lambda>(v, s). (JNum (dec_value v), s)) (read_str s)
      else case read_str s of None \<Rightarrow> None | Some (k, s) \<Rightarrow>
        (case read_tree n s of None \<Rightarrow> None | Some (v, s) \<Rightarrow>
           map_option (\<lambda>(r, s). (JField k v r, s)) (read_tree n s)))"
| "read_tree _ _ = None"

definition tree_api :: "json json_api" where
  "tree_api =
     \<lparr> j_null = JNull, j_find = tree_find, j_set = JField, j_of_str = JStr, j_of_num = JNum,
       j_of_bool = JBool, j_of_array = (\<lambda>js. foldr JElem js JNull),
       j_get_str = (\<lambda>j. case j of JStr s \<Rightarrow> Inr s | _ \<Rightarrow> Inl (Domain_error ''type must be string'')),
       j_get_num = (\<lambda>j. case j of JNum n \<Rightarrow> Inr n | _ \<Rightarrow> Inl (Domain_error ''type must be number'')),
       j_dump = code_tree,
       j_parse = (\<lambda>s. case read_tree (length s) s of
          Some (j, []) \<Rightarrow> Inr j | _ \<Rightarrow> Inl (Runtime_error ''parse error'')),
       j_objectish = (\<lambda>_. True), j_valid = (\<lambda>_. True) \<rparr>"

lemma read_code_str: "read_str (code_str v @ s) = Some (v, s)"
  by (induction v) auto

lemma read_tree_tag:
  "read_tree (Suc n) (CHR ''0'' # s) = Some (JNull, s)"
  "read_tree (Suc n) (CHR ''1'' # s) = Some (JBool True, s)"
  "read_tree (Suc n) (CHR ''2'' # s) = Some (JBool False, s)"
  "read_tree (Suc n) (CHR ''s'' # s) = map_option (\<lambda>(v, s). (JStr v, s)) (read_str s)"
  "read_tree (Suc n) (CHR ''n'' # s) = map_option (\<lambda>(v, s). (JNum (dec_value v), s)) (read_str s)"
  "read_tree (Suc n) (CHR ''e'' # s) =
     (case read_tree n s of None \<Rightarrow> None | Some (v, s) \<Rightarrow> map_option (\<lambda>(r, s). (JElem v r, s)) (read_tree n s))"
  "read_tree (Suc n) (CHR ''f'' # s) =
     (case read_str s of None \<Rightarrow> None | Some (k, s) \<Rightarrow>
        (case read_tree n s of None \<Rightarrow> None | Some (v, s) \<Rightarrow> map_option (\<lambda>(r, s). (JField k v r, s)) (read_tree n s)))"
  by simp_all

declare read_tree.simps(1) [simp del]

lemma read_code_tree: "length (code_tree j) \<le> n \<Longrightarrow> read_tree n (code_tree j @ s) = Some (j, s)"
proof (induction j arbitrary: n s)
  case JNull
  then show ?case by (cases n) (simp_all add: read_tree_tag)
next
  case (JBool b)
  then show ?case by (cases n; cases b) (simp_all add: read_tree_tag)
next
  case (JStr v)
  then show ?case by (cases n) (simp_all add: read_tree_tag read_code_str)
next
  case (JNum v)
  then show ?case by (cases n) (simp_all add: read_tree_tag read_code_str dec_value_dec)
next
  case (JField k v r)
  then show ?case by (cases n) (simp_all add: read_tree_tag read_code_str)
next
  case (JElem v r)
  then show ?case by (cases n) (simp_all add: read_tree_tag)
qed

lemma tree_api_laws: "json_laws tree_api"
  using read_code_tree [of _ _ "[]"] by (auto simp: json_laws_def tree_api_def)

text \<open>The hypotheses of the switch-side round trip hold for a stream message of the tree instance.\<close>

definition sample_AddStream :: sw_AddStream where
  "sample_AddStream = \<lparr> as_sessionId = 1, as_participantId = 2, as_ip = 0x0A000001, as_port = 5000,
     as_iceUfrag = ''uf'', as_icePwd = ''pw'', as_mainSSRC = 11, as_rtxSSRC = 12, as_rtcpSSRC = 13,
     as_rtcpRtxSSRC = 14, as_mediaType = Some video, as_direction = Some sendonly \<rparr>"

theorem switch_messages_roundtrip_witness:
  "\<exists>s. json_AddStream tree_api sample_AddStream = Inr s \<and>
     rbind (j_parse tree_api s) (parse_AddStream tree_api) = Inr sample_AddStream"
proof -
  have "ascii (as_iceUfrag sample_AddStream) \<and> ascii (as_icePwd sample_AddStream)"
    by (simp add: sample_AddStream_def)
  moreover obtain s where "json_AddStream tree_api sample_AddStream = Inr s"
    by (simp add: json_AddStream_def sample_AddStream_def)
  ultimately show ?thesis
    using switch_messages_roundtrip [OF tree_api_laws] by blast
qed

theorem client_messages_roundtrip_witness:
  "rbind (j_parse tree_api (json_Offer tree_api \<lparr> of_sdp = ''v=0'', of_participantId = 7 \<rparr>)) (parse_Offer tree_api) =
     Inr \<lparr> of_sdp = ''v=0'', of_participantId = 7 \<rparr> \<and>
   rbind (j_parse tree_api (json_Answer tree_api \<lparr> an_sdp = ''v=0'', an_participantId = 0 \<rparr>)) (parse_Answer tree_api) \<noteq>
     Inr \<lparr> an_sdp = ''v=0'', an_participantId = 0 \<rparr>"
  using client_messages_roundtrip [OF tree_api_laws] by simp

end
