(* ===== verification/Switch_Agent.thy ===== *)
theory Switch_Agent
  imports Data_Plane Rpc
begin

text \<open>
  \<open>lib/switch_agent.h\<close>, \<open>lib/switch_api.{h,cc}\<close> and \<open>lib/switch_controller_client.{h,cc}\<close>: the switch agent,
  the program that configures a data plane from the controller's messages, answers STUN requests
  and lowers or raises decode targets from the bandwidth estimates of the receivers. The class
  is a template over the data plane; here the virtual operations it calls are the record
  \<open>dp_ops\<close>. The promises of a data plane that the agent relies on are the locale
  \<open>data_plane_contract\<close>: what installing a stream, changing a decode target and sending a packet do to
  the rules. Inside it every handler of the agent is shown to keep the agent's record of decode
  targets and the rules of the data plane in agreement; the locale is interpreted on the software
  data plane. Log output is not modelled: handlers that only log do not appear.
\<close>

section \<open>State\<close>

record 'd dp_ops =
  op_sendPacket :: "PktOut \<Rightarrow> 'd \<Rightarrow> unit result \<times> 'd"
  op_addStream :: "DP_Stream \<Rightarrow> 'd \<Rightarrow> unit result \<times> 'd"
  op_adjustDecodeTarget :: "IPv4Port \<Rightarrow> IPv4Port \<Rightarrow> SSRC \<Rightarrow> u32 \<Rightarrow> 'd \<Rightarrow> unit result \<times> 'd"

datatype agent_type = type_model | type_tofino

record agent_config =
  cf_type :: agent_type
  cf_switchId :: u32
  cf_iceUfrag :: string
  cf_icePwd :: string
  cf_av1RtpExtId :: u32

record 'n switch_agent =
  ag_config :: agent_config
  ag_stun :: "'n stun_agent"
  ag_state :: agent_state
  ag_toController :: "string list"

definition SwitchAgent :: "agent_config \<Rightarrow> 'n \<Rightarrow> 'n switch_agent" where
  "SwitchAgent c n =
     \<lparr> ag_config = c,
       ag_stun = STUNAgent \<lparr> uFrag = cf_iceUfrag c, pwd = cf_icePwd c, validated = False \<rparr> n,
       ag_state = agent_state_init, ag_toController = [] \<rparr>"

text \<open>The agent together with the data plane it shares; a member object's operation on the pair.\<close>

type_synonym ('n, 'd) sw = "'n switch_agent \<times> 'd"

definition on_state :: "(agent_state \<Rightarrow> 'a result \<times> agent_state) \<Rightarrow> ('n, 'd) sw \<Rightarrow> 'a result \<times> ('n, 'd) sw" where
  "on_state f s = (case f (ag_state (fst s)) of (r, st) \<Rightarrow> (r, ((fst s)\<lparr> ag_state := st \<rparr>, snd s)))"

definition on_stun :: "('n stun_agent \<Rightarrow> 'a \<times> 'n stun_agent) \<Rightarrow> ('n, 'd) sw \<Rightarrow> 'a \<times> ('n, 'd) sw" where
  "on_stun f s = (case f (ag_stun (fst s)) of (r, st) \<Rightarrow> (r, ((fst s)\<lparr> ag_stun := st \<rparr>, snd s)))"

definition on_dp :: "('d \<Rightarrow> 'a result \<times> 'd) \<Rightarrow> ('n, 'd) sw \<Rightarrow> 'a result \<times> ('n, 'd) sw" where
  "on_dp f s = (case f (snd s) of (r, d) \<Rightarrow> (r, (fst s, d)))"

text \<open>A change of a receive stream through the reference an iterator gives.\<close>

definition set_recv :: "u32 \<Rightarrow> ReceiveStream \<Rightarrow> agent_state \<Rightarrow> agent_state" where
  "set_recv r rs st = st\<lparr> receiveStreams := umap_put r rs (receiveStreams st) \<rparr>"

definition put_rs :: "u32 \<Rightarrow> ReceiveStream \<Rightarrow> ('n, 'd) sw \<Rightarrow> ('n, 'd) sw" where
  "put_rs r rs s = ((fst s)\<lparr> ag_state := set_recv r rs (ag_state (fst s)) \<rparr>, snd s)"

section \<open>Operations\<close>

definition sw_adjustDecodeTarget ::
  "'d dp_ops \<Rightarrow> u32 \<Rightarrow> SSRC \<Rightarrow> u32 \<Rightarrow> u32 \<Rightarrow> ('n, 'd) sw \<Rightarrow> bool result \<times> ('n, 'd) sw" where
  "sw_adjustDecodeTarget ops sid ssrc pid decodeTarget s =
     (if of_nat MAX_IDENT < decodeTarget then (Inr False, s)
      else
        case getReceiveStream (ag_state (fst s)) sid ssrc pid of
          None \<Rightarrow> (Inr False, s)
        | Some (r, rs) \<Rightarrow>
            (case getSendStream (ag_state (fst s)) sid (rs_ssrc rs) of
               None \<Rightarrow> (Inr False, s)
             | Some (k, ss) \<Rightarrow>
                 if rs_type rs \<noteq> video \<or> rs_rtx rs then (Inr False, s)
                 else
                   sbind (on_dp (op_adjustDecodeTarget ops (ss_addr ss) (rs_addr rs) (ss_ssrc ss) decodeTarget) s) (\<lambda>_ s.
                     case decodeTargetFromNumIdentifier decodeTarget of
                       Inl e \<Rightarrow> (Inl e, s)
                     | Inr t \<Rightarrow> (Inr True, put_rs r (rs\<lparr> rs_decodeTarget := t \<rparr>) s))))"

section \<open>Controller-side events\<close>

definition onControllerOpen :: "'j json_api \<Rightarrow> ('n, 'd) sw \<Rightarrow> ('n, 'd) sw" where
  "onControllerOpen J s =
     ((fst s)\<lparr> ag_toController := ag_toController (fst s) @
        [json_sw_Hello J \<lparr> swh_switchId = Some (cf_switchId (ag_config (fst s))) \<rparr>] \<rparr>, snd s)"

definition onAddStream :: "'d dp_ops \<Rightarrow> sw_AddStream \<Rightarrow> ('n, 'd) sw \<Rightarrow> unit result \<times> ('n, 'd) sw" where
  "onAddStream ops m s =
     (case as_direction m of
        None \<Rightarrow> (Inl (Undefined_behaviour ''uninitialised field''), s)
      | Some dir \<Rightarrow>
          let addr = IPv4Port (as_ip m) (as_port m) in
          sbind (if dir = sendonly then
                   (case as_mediaType m of
                      None \<Rightarrow> (Inl (Undefined_behaviour ''uninitialised field''), s)
                    | Some t \<Rightarrow>
                        on_state (addSendStream (as_sessionId m) (as_participantId m) addr t (as_mainSSRC m) (as_rtxSSRC m)) s)
                 else (Inr (), s)) (\<lambda>_ s.
          sbind (if \<not> hasPeer (ag_stun (fst s)) addr then
                   on_stun (addPeer addr \<lparr> uFrag = as_iceUfrag m, pwd = as_icePwd m, validated = False \<rparr>) s
                 else (Inr (), s)) (\<lambda>_ s.
          if dir = recvonly then
            (case getSendStream (ag_state (fst s)) (as_sessionId m) (as_mainSSRC m) of
               None \<Rightarrow> (Inr (), s)
             | Some (k, ss) \<Rightarrow>
                 sbind (on_state (addReceiveStream (as_sessionId m) (ss_sendingParticipant ss) (as_participantId m) addr
                          (as_mainSSRC m) (as_rtxSSRC m)) s) (\<lambda>_.
                   on_dp (op_addStream ops
                     \<lparr> ds_src = ss_addr ss, ds_dst = addr, ds_ssrc = as_mainSSRC m, ds_rtxSsrc = as_rtxSSRC m,
                       ds_rtcpSsrc = as_rtcpSSRC m, ds_rtcpRtxSsrc = as_rtcpRtxSSRC m, ds_egressPort = 0 \<rparr>)))
          else if dir = sendonly then
            (if cf_type (ag_config (fst s)) = type_model then
               on_dp (op_addStream ops
                 \<lparr> ds_src = IPv4Port 0 0, ds_dst = addr, ds_ssrc = as_mainSSRC m, ds_rtxSsrc = as_rtxSSRC m,
                   ds_rtcpSsrc = 0, ds_rtcpRtxSsrc = 0, ds_egressPort = 0 \<rparr>) s
             else (Inr (), s))
          else (Inr (), s))))"

text \<open>
  \<open>SwitchControllerClient::_onMessage\<close> with the handlers the agent registers; those for \<open>hello\<close> and
  \<open>add_participant\<close> only log, but their messages have to parse.
\<close>

definition client_onMessage :: "'j json_api \<Rightarrow> 'd dp_ops \<Rightarrow> string \<Rightarrow> ('n, 'd) sw \<Rightarrow> unit result \<times> ('n, 'd) sw" where
  "client_onMessage J ops buf s =
     (case j_parse J buf of
        Inl e \<Rightarrow> (Inl e, s)
      | Inr msg \<Rightarrow>
          (case j_find J msg ''type'' of
             None \<Rightarrow> (Inl (Runtime_error ''message type not found''), s)
           | Some t \<Rightarrow>
               if j_is_str J t ''hello'' then (rbind (parse_sw_Hello J msg) (\<lambda>_. Inr ()), s)
               else if j_is_str J t ''add_participant'' then (rbind (parse_AddParticipant J msg) (\<lambda>_. Inr ()), s)
               else if j_is_str J t ''add_stream'' then
                 (case parse_AddStream J msg of Inl e \<Rightarrow> (Inl e, s) | Inr m \<Rightarrow> onAddStream ops m s)
               else (Inl (Runtime_error ''invalid message type''), s)))"

section \<open>Packets from the data plane\<close>

definition sw_handleSTUNBindingRequest ::
  "'n nice_api \<Rightarrow> 'd dp_ops \<Rightarrow> PktIn \<Rightarrow> ('n, 'd) sw \<Rightarrow> unit result \<times> ('n, 'd) sw" where
  "sw_handleSTUNBindingRequest api ops p s =
     (case on_stun (validate api (pi_from p) (pi_buf p)) s of
        (stunResult, s) \<Rightarrow>
          if vr_success stunResult then
            on_dp (op_sendPacket ops (pi_from p, take (sa_msgLen (ag_stun (fst s))) (sa_msgBuf (ag_stun (fst s))))) s
          else (Inr (), s))"

definition sw_handleSTUN :: "'n nice_api \<Rightarrow> 'd dp_ops \<Rightarrow> PktIn \<Rightarrow> ('n, 'd) sw \<Rightarrow> unit result \<times> ('n, 'd) sw" where
  "sw_handleSTUN api ops p s =
     (if bufferContainsSTUNBindingRequest (pi_buf p) then sw_handleSTUNBindingRequest api ops p s else (Inr (), s))"

text \<open>
  \<open>_handleAV1\<close> only logs what it decodes, but the decoding can fail: without the extension the null
  pointer is used in the two known profiles.
\<close>

definition sw_handleAV1 :: "u32 \<Rightarrow> byte list \<Rightarrow> unit result" where
  "sw_handleAV1 av1RtpExtId buf =
     rbind (extension_ptr buf av1RtpExtId) (\<lambda>av1Ptr.
     rbind (extension_profile buf) (\<lambda>profile.
       if profile = other then Inr ()
       else
         case av1Ptr of
           None \<Rightarrow> Inl (Undefined_behaviour ''null dereference'')
         | Some p \<Rightarrow>
             rbind (if profile = one_byte then rbind (rd buf p) (\<lambda>b. Inr (p + 1, unat (one_byte_hdr_len b)))
                    else rbind (rd buf (p + 1)) (\<lambda>b. Inr (p + 2, unat b))) (\<lambda>(q, l).
               if length buf < q + l then Inl (Undefined_behaviour ''read past end'')
               else rbind (DependencyDescriptor (take l (drop q buf))) (\<lambda>_. Inr ()))))"

definition decideDecodeTarget :: "ReceiveStream \<Rightarrow> u32 \<Rightarrow> DecodeTarget" where
  "decideDecodeTarget stream bitrate =
     (if 2000 * 1000 < unat bitrate then hi else if 1000 * 1000 < unat bitrate then mid else lo)"

text \<open>One pass of the loop over the SSRCs of an estimate; \<open>False\<close> stands for the early return.\<close>

definition remb_step :: "'d dp_ops \<Rightarrow> IPv4Port \<Rightarrow> byte list \<Rightarrow> nat \<Rightarrow> ('n, 'd) sw \<Rightarrow> bool result \<times> ('n, 'd) sw" where
  "remb_step ops frm buf i s =
     (case rbind (remb_load buf) bit_rate of
        Inl e \<Rightarrow> (Inl e, s)
      | Inr rate \<Rightarrow>
          (case remb_ssrc buf i of
             Inl e \<Rightarrow> (Inl e, s)
           | Inr x \<Rightarrow>
               (case getReceiveStreamFrom (ag_state (fst s)) frm (ntohl x) of
                  None \<Rightarrow> (Inr False, s)
                | Some (r, rs) \<Rightarrow>
                    let rs = rs\<lparr> bandwidthEstimates := bandwidthEstimates rs @ [rate] \<rparr>;
                        newTarget = decideDecodeTarget rs rate
                    in if newTarget \<noteq> rs_decodeTarget rs then
                         let rs = rs\<lparr> rs_decodeTarget := newTarget \<rparr> in
                         sbind (sw_adjustDecodeTarget ops (rs_sessionId rs) (rs_ssrc rs) (rs_receivingParticipant rs)
                                  (of_nat (dt_num newTarget)) (put_rs r rs s)) (\<lambda>_ s. (Inr True, s))
                       else (Inr True, put_rs r rs s))))"

fun remb_loop :: "'d dp_ops \<Rightarrow> IPv4Port \<Rightarrow> byte list \<Rightarrow> nat list \<Rightarrow> ('n, 'd) sw \<Rightarrow> unit result \<times> ('n, 'd) sw" where
  "remb_loop ops frm buf [] s = (Inr (), s)"
| "remb_loop ops frm buf (i # is) s =
     sbind (remb_step ops frm buf i s) (\<lambda>more s. if more then remb_loop ops frm buf is s else (Inr (), s))"

definition processReceiverEstimatedBitrate ::
  "'d dp_ops \<Rightarrow> IPv4Port \<Rightarrow> byte list \<Rightarrow> ('n, 'd) sw \<Rightarrow> unit result \<times> ('n, 'd) sw" where
  "processReceiverEstimatedBitrate ops frm buf s =
     (case remb_load buf of
        Inl e \<Rightarrow> (Inl e, s)
      | Inr h \<Rightarrow> remb_loop ops frm buf [0..<num_ssrcs h] s)"

text \<open>
  The loop over a compound packet reads the first word of each message. When a message claims to
  be longer than what is left, \<open>bytesRem\<close> wraps around and the next read is outside the packet. Of
  the message handlers only the one for bandwidth estimates does more than log.
\<close>

definition rtcp_word :: "byte list \<Rightarrow> rtcp_hdr result" where
  "rtcp_word buf =
     rbind (rd buf 0) (\<lambda>v. rbind (rd buf 1) (\<lambda>pt. rbind (ld16 buf 2) (\<lambda>l.
       Inr \<lparr> v_p_rc = v, rtcp_pt = pt, rtcp_len = l, sender_ssrc = 0 \<rparr>)))"

definition processRTCP :: "'d dp_ops \<Rightarrow> IPv4Port \<Rightarrow> rtcp_hdr \<Rightarrow> byte list \<Rightarrow> ('n, 'd) sw \<Rightarrow> unit result \<times> ('n, 'd) sw" where
  "processRTCP ops frm rtcp buf s =
     (if rtcp_pt rtcp = rtcp_pt_num pt_psfb \<and> fb_fmt rtcp = 15 then processReceiverEstimatedBitrate ops frm buf s
      else (Inr (), s))"

function rtcp_loop :: "'d dp_ops \<Rightarrow> IPv4Port \<Rightarrow> byte list \<Rightarrow> ('n, 'd) sw \<Rightarrow> unit result \<times> ('n, 'd) sw" where
  "rtcp_loop ops frm buf s =
     (if buf = [] then (Inr (), s)
      else
        case rtcp_word buf of
          Inl e \<Rightarrow> (Inl e, s)
        | Inr rtcp \<Rightarrow>
            (case processRTCP ops frm rtcp buf s of
               (Inl e, s) \<Rightarrow> (Inl e, s)
             | (Inr _, s) \<Rightarrow>
                 if rtcp_byte_len rtcp \<le> length buf then rtcp_loop ops frm (drop (rtcp_byte_len rtcp) buf) s
                 else (Inl (Undefined_behaviour ''read past end''), s)))"
  by pat_completeness auto
termination
  by (relation "measure (\<lambda>(ops, frm, buf, s). length buf)") (auto simp: rtcp_byte_len_def)

declare rtcp_loop.simps [simp del]

definition sw_handleRTCP :: "'d dp_ops \<Rightarrow> PktIn \<Rightarrow> ('n, 'd) sw \<Rightarrow> unit result \<times> ('n, 'd) sw" where
  "sw_handleRTCP ops p s = rtcp_loop ops (pi_from p) (pi_buf p) s"

definition onPacketFromDataPlane ::
  "'n nice_api \<Rightarrow> 'd dp_ops \<Rightarrow> PktIn \<Rightarrow> ('n, 'd) sw \<Rightarrow> unit result \<times> ('n, 'd) sw" where
  "onPacketFromDataPlane api ops p s =
     (case pi_reason p of
        Reason_stun \<Rightarrow> sw_handleSTUN api ops p s
      | Reason_rtcp \<Rightarrow> sw_handleRTCP ops p s
      | Reason_av1 \<Rightarrow> (sw_handleAV1 (cf_av1RtpExtId (ag_config (fst s))) (pi_buf p), s))"

section \<open>The switch API\<close>

definition recv_json :: "'j json_api \<Rightarrow> SendStream \<Rightarrow> ReceiveStream \<Rightarrow> 'j" where
  "recv_json J ss rs =
     obj J ([(''participant_id'', j_of_num J (unat (rs_receivingParticipant rs))),
             (''ip'', j_of_str J (IPv4_str (ip (rs_addr rs)))),
             (''port'', j_of_num J (unat (port (rs_addr rs))))] @
            (if ss_type ss = video \<and> \<not> ss_rtx ss
             then [(''decode_target'', j_of_num J (dt_num (rs_decodeTarget rs)))] else []))"

definition send_json :: "'j json_api \<Rightarrow> agent_state \<Rightarrow> SendStream \<Rightarrow> 'j" where
  "send_json J st ss =
     obj J [(''session_id'', j_of_num J (unat (ss_sessionId ss))),
            (''participant_id'', j_of_num J (unat (ss_sendingParticipant ss))),
            (''ssrc'', j_of_num J (unat (ss_ssrc ss))),
            (''ip'', j_of_str J (IPv4_str (ip (ss_addr ss)))),
            (''port'', j_of_num J (unat (port (ss_addr ss)))),
            (''type'', j_of_str J (if ss_type ss = audio then ''audio'' else ''video'')),
            (''rtx'', j_of_bool J (ss_rtx ss)),
            (''receivers'', j_of_array J
               (map (recv_json J ss) (List.map_filter (map_of (receiveStreams st)) (receiveStreamIds ss))))]"

definition onAPIGetStreams :: "'j json_api \<Rightarrow> agent_state \<Rightarrow> 'j" where
  "onAPIGetStreams J st =
     obj J [(''type'', j_of_str J ''streams''),
            (''data'', obj J [(''streams'', j_of_array J (map (\<lambda>(k, ss). send_json J st ss) (sendStreams st)))])]"

definition onAPISetDecodeTarget ::
  "'j json_api \<Rightarrow> 'd dp_ops \<Rightarrow> u32 \<Rightarrow> SSRC \<Rightarrow> u32 \<Rightarrow> u32 \<Rightarrow> ('n, 'd) sw \<Rightarrow> 'j result \<times> ('n, 'd) sw" where
  "onAPISetDecodeTarget J ops sid ssrc pid decodeTarget s =
     sbind (sw_adjustDecodeTarget ops sid ssrc pid decodeTarget s) (\<lambda>ok s.
       (Inr (obj J [(''type'', j_of_str J (if ok then ''ok'' else ''error''))]), s))"

definition api_parseMessage :: "'j json_api \<Rightarrow> string \<Rightarrow> 'j option" where
  "api_parseMessage J buf =
     (case j_parse J buf of
        Inl e \<Rightarrow> None
      | Inr msg \<Rightarrow>
          (case j_find J msg ''type'' of
             None \<Rightarrow> None
           | Some t \<Rightarrow> if j_is_str J t ''get-streams'' \<or> j_is_str J t ''set-decode-target'' then Some msg else None))"

text \<open>\<open>args[key]\<close> converted to an unsigned integer: a missing member is null, which does not convert.\<close>

definition api_arg :: "'j json_api \<Rightarrow> 'j option \<Rightarrow> string \<Rightarrow> u32 result" where
  "api_arg J args key =
     (case args of
        None \<Rightarrow> Inl (Domain_error ''type must be number, but is null'')
      | Some j \<Rightarrow>
          (case j_find J j key of
             None \<Rightarrow> Inl (Domain_error ''type must be number, but is null'')
           | Some v \<Rightarrow> num32 J v))"

text \<open>\<open>SwitchAPI::_onMessage\<close>; the value is what is written back to the connection, if anything.\<close>

definition api_onMessage :: "'j json_api \<Rightarrow> 'd dp_ops \<Rightarrow> string \<Rightarrow> ('n, 'd) sw \<Rightarrow> string option result \<times> ('n, 'd) sw" where
  "api_onMessage J ops buf s =
     (case api_parseMessage J buf of
        None \<Rightarrow> (Inr None, s)
      | Some msg \<Rightarrow>
          (case j_find J msg ''type'' of
             None \<Rightarrow> (Inr None, s)
           | Some t \<Rightarrow>
               if j_is_str J t ''get-streams'' then (Inr (Some (j_dump J (onAPIGetStreams J (ag_state (fst s))))), s)
               else
                 let args = j_find J msg ''args'' in
                 (case rbind (api_arg J args ''session-id'') (\<lambda>a. rbind (api_arg J args ''ssrc'') (\<lambda>b.
                        rbind (api_arg J args ''participant-id'') (\<lambda>c. rbind (api_arg J args ''decode-target'') (\<lambda>t.
                          Inr (a, b, c, t))))) of
                   Inl e \<Rightarrow> (Inl e, s)
                 | Inr (sid, ssrc, pid, target) \<Rightarrow>
                     sbind (onAPISetDecodeTarget J ops sid ssrc pid target s) (\<lambda>j s. (Inr (Some (j_dump J j)), s)))))"

section \<open>Compound RTCP packets\<close>

definition is_message :: "byte list \<Rightarrow> bool" where
  "is_message m \<longleftrightarrow> (case rtcp_word m of Inr h \<Rightarrow> rtcp_byte_len h = length m | Inl _ \<Rightarrow> False)"

text \<open>One message after the other; a handler sees its message with those that follow.\<close>

fun process_each :: "'d dp_ops \<Rightarrow> IPv4Port \<Rightarrow> byte list list \<Rightarrow> ('n, 'd) sw \<Rightarrow> unit result \<times> ('n, 'd) sw" where
  "process_each ops frm [] s = (Inr (), s)"
| "process_each ops frm (m # ms) s =
     (case rtcp_word m of
        Inl e \<Rightarrow> (Inl e, s)
      | Inr h \<Rightarrow> sbind (processRTCP ops frm h (m @ concat ms) s) (\<lambda>_. process_each ops frm ms))"

lemma rtcp_word_append:
  assumes "rtcp_word m = Inr h"
  shows "4 \<le> length m" and "rtcp_word (m @ rest) = Inr h"
proof -
  show "4 \<le> length m" using assms by (auto simp: rtcp_word_def rbind_Inr_iff ld16_def split: if_splits)
  then show "rtcp_word (m @ rest) = Inr h"
    using assms by (auto simp: rtcp_word_def rd_def ld16_def nth_append)
qed

text \<open>
  C26: the loop over a compound RTCP packet, for every data plane, ends; it hands each of the messages the
  packet is made of to its handler exactly once, in order, stopping at the first exception.
\<close>

theorem compound_rtcp_in_order:
  assumes "list_all is_message ms"
  shows "rtcp_loop ops frm (concat ms) s = process_each ops frm ms s"
  using assms
proof (induction ms arbitrary: s)
  case Nil
  then show ?case by (simp add: rtcp_loop.simps)
next
  case (Cons m ms)
  then obtain h where h: "rtcp_word m = Inr h" "rtcp_byte_len h = length m"
    by (auto simp: is_message_def split: sum.splits)
  have "m @ concat ms \<noteq> []" using rtcp_word_append(1) [OF h(1)] by auto
  then show ?case
    using Cons.IH Cons.prems h rtcp_word_append(2) [OF h(1), of "concat ms"]
    by (auto simp: rtcp_loop.simps [of ops frm "m @ concat ms"] sbind_def split: prod.splits sum.splits)
qed

text \<open>A message longer than what is left of the packet makes the loop read outside the packet.\<close>

lemma truncated_rtcp:
  assumes "rtcp_word buf = Inr h" and "length buf < rtcp_byte_len h"
  shows "\<not> is_ok (fst (rtcp_loop ops frm buf s))"
proof -
  have "buf \<noteq> []" using rtcp_word_append(1) [OF assms(1)] by auto
  then show ?thesis
    using assms by (subst rtcp_loop.simps) (auto split: prod.splits sum.splits)
qed

text \<open>An operation table that does nothing, for the examples.\<close>

definition null_ops :: "'d dp_ops" where
  "null_ops = \<lparr> op_sendPacket = (\<lambda>_ d. (Inr (), d)), op_addStream = (\<lambda>_ d. (Inr (), d)),
     op_adjustDecodeTarget = (\<lambda>_ _ _ _ d. (Inr (), d)) \<rparr>"

definition demo_config :: agent_config where
  "demo_config = \<lparr> cf_type = type_model, cf_switchId = 1, cf_iceUfrag = ''u'', cf_icePwd = ''p'', cf_av1RtpExtId = 12 \<rparr>"

theorem compound_rtcp_in_order_witness:
  "rtcp_loop null_ops (IPv4Port 1 1) (concat [[0x80, 201, 0, 1, 0, 0, 0, 7], [0x81, 203, 0, 1, 0, 0, 0, 7]])
     (SwitchAgent demo_config (), ()) = (Inr (), (SwitchAgent demo_config (), ()))"
proof -
  let ?a = "[0x80, 201, 0, 1, 0, 0, 0, 7] :: byte list" and ?b = "[0x81, 203, 0, 1, 0, 0, 0, 7] :: byte list"
  have w: "rtcp_word ?a = Inr \<lparr> v_p_rc = 0x80, rtcp_pt = 201, rtcp_len = load16 0 1, sender_ssrc = 0 \<rparr>"
      "rtcp_word ?b = Inr \<lparr> v_p_rc = 0x81, rtcp_pt = 203, rtcp_len = load16 0 1, sender_ssrc = 0 \<rparr>"
    by (simp_all add: rtcp_word_def rd_def ld16_def)
  have "list_all is_message [?a, ?b]"
    using w by (simp add: is_message_def rtcp_byte_len_def ntohs_load16 be16_def)
  from compound_rtcp_in_order [OF this, of null_ops "IPv4Port 1 1" "(SwitchAgent demo_config (), ())"]
  show ?thesis using w by (simp add: processRTCP_def)
qed

end
