(* ===== verification/Agent_Contract.thy ===== *)
theory Agent_Contract
  imports Switch_Agent
begin

text \<open>
  The contract between the switch agent and its data plane. Both keep a decode target per receiver:
  the agent in its receive streams, the data plane in its forwarding rules. The locale
  \<open>data_plane_contract\<close> states what the agent needs of the operations of a data plane, in terms of the
  set of rules (\<open>edges\<close>) and the decode target each rule enforces (\<open>target_of\<close>); the lemmas inside it show
  that every handler of the agent that returns normally keeps the two records in agreement
  (\<open>in_step\<close>).
\<close>

section \<open>Agreement\<close>

text \<open>A forwarding rule: media of an SSRC from one address to another.\<close>

type_synonym rule = "IPv4Port \<times> SSRC \<times> IPv4Port"

definition adaptive :: "ReceiveStream \<Rightarrow> bool" where
  "adaptive rs \<longleftrightarrow> rs_type rs = video \<and> \<not> rs_rtx rs"

definition rule_of :: "agent_state \<Rightarrow> ReceiveStream \<Rightarrow> rule option" where
  "rule_of st rs = map_option (\<lambda>a. (a, rs_ssrc rs, rs_addr rs)) (sender_addr st (rs_sendStreamId rs))"

text \<open>
  Every adaptive receive stream has its rule, and except for the streams in \<open>X\<close> the rule enforces the
  stream's decode target; rules that belong to no receive stream drop nothing.
\<close>

definition agree :: "u32 set \<Rightarrow> agent_state \<Rightarrow> rule set \<Rightarrow> (rule \<Rightarrow> DecodeTarget) \<Rightarrow> bool" where
  "agree X st E T \<longleftrightarrow>
     (\<forall>r rs. map_of (receiveStreams st) r = Some rs \<longrightarrow> adaptive rs \<longrightarrow>
        (\<exists>k. rule_of st rs = Some k \<and> k \<in> E \<and> (r \<notin> X \<longrightarrow> T k = rs_decodeTarget rs))) \<and>
     (\<forall>k. T k \<noteq> hi \<longrightarrow> (\<exists>r rs. map_of (receiveStreams st) r = Some rs \<and> rule_of st rs = Some k))"

lemma agreeI:
  assumes "\<And>r rs. map_of (receiveStreams st) r = Some rs \<Longrightarrow> adaptive rs \<Longrightarrow>
      \<exists>k. rule_of st rs = Some k \<and> k \<in> E \<and> (r \<notin> X \<longrightarrow> T k = rs_decodeTarget rs)"
    and "\<And>k. T k \<noteq> hi \<Longrightarrow> \<exists>r rs. map_of (receiveStreams st) r = Some rs \<and> rule_of st rs = Some k"
  shows "agree X st E T"
  using assms unfolding agree_def by blast

lemma agreeD:
  assumes "agree X st E T" and "map_of (receiveStreams st) r = Some rs" and "adaptive rs"
  obtains k where "rule_of st rs = Some k" "k \<in> E" "r \<notin> X \<longrightarrow> T k = rs_decodeTarget rs"
  using assms unfolding agree_def by blast

lemma agree_other:
  assumes "agree X st E T" and "T k \<noteq> hi"
  obtains r rs where "map_of (receiveStreams st) r = Some rs" "rule_of st rs = Some k"
  using assms unfolding agree_def by blast

text \<open>The two searches for receive streams have unique results.\<close>

definition separate :: "agent_state \<Rightarrow> bool" where
  "separate st \<longleftrightarrow>
     (\<forall>r rs r' rs'. map_of (receiveStreams st) r = Some rs \<longrightarrow> map_of (receiveStreams st) r' = Some rs' \<longrightarrow>
        rs_ssrc rs = rs_ssrc rs' \<longrightarrow>
        rs_addr rs = rs_addr rs' \<or>
        rs_sessionId rs = rs_sessionId rs' \<and> rs_receivingParticipant rs = rs_receivingParticipant rs' \<longrightarrow> r = r')"

definition in_step :: "u32 set \<Rightarrow> agent_state \<Rightarrow> rule set \<Rightarrow> (rule \<Rightarrow> DecodeTarget) \<Rightarrow> bool" where
  "in_step X st E T \<longleftrightarrow> state_inv st \<and> separate st \<and> agree X st E T"

lemma in_step_init: "in_step {} agent_state_init {} (\<lambda>_. hi)"
  using state_inv_init by (simp add: in_step_def separate_def agree_def agent_state_init_def)

section \<open>Changing one receive stream\<close>

text \<open>Two versions of a receive stream that differ in target and history only.\<close>

definition same_stream :: "ReceiveStream \<Rightarrow> ReceiveStream \<Rightarrow> bool" where
  "same_stream a b \<longleftrightarrow>
     b = a\<lparr> rs_decodeTarget := rs_decodeTarget b, bandwidthEstimates := bandwidthEstimates b \<rparr>"

lemma same_stream_fields:
  assumes "same_stream a b"
  shows "rs_sessionId b = rs_sessionId a" "rs_sendingParticipant b = rs_sendingParticipant a" "rs_addr b = rs_addr a"
    "rs_ssrc b = rs_ssrc a" "rs_type b = rs_type a" "rs_rtx b = rs_rtx a" "rs_sendStreamId b = rs_sendStreamId a"
    "rs_receivingParticipant b = rs_receivingParticipant a"
  using assms by (cases a; cases b; simp add: same_stream_def)+

lemma same_stream_views:
  assumes "same_stream a b"
  shows "adaptive b = adaptive a" "rule_of st b = rule_of st a" "linked k ss r b = linked k ss r a"
  using same_stream_fields [OF assms] by (simp_all add: adaptive_def rule_of_def linked_def)

lemma same_stream_updates [simp]:
  "same_stream a (a\<lparr> rs_decodeTarget := t \<rparr>)" "same_stream a (a\<lparr> bandwidthEstimates := bs \<rparr>)"
  "same_stream a (a\<lparr> bandwidthEstimates := bs, rs_decodeTarget := t \<rparr>)"
  by (simp_all add: same_stream_def)

lemma set_recv_sel [simp]:
  "sendStreams (set_recv r rs st) = sendStreams st" "sessions (set_recv r rs st) = sessions st"
  "receiveStreams (set_recv r rs st) = umap_put r rs (receiveStreams st)"
  "next_sendStreamId (set_recv r rs st) = next_sendStreamId st"
  "next_receiveStreamId (set_recv r rs st) = next_receiveStreamId st"
  by (simp_all add: set_recv_def)

lemma set_recv_views [simp]: "sender_addr (set_recv r rs st) = sender_addr st" "idx (set_recv r rs st) = idx st"
    "rule_of (set_recv r rs st) = rule_of st"
  by (intro ext; simp add: sender_addr_def idx_def session_index_def rule_of_def)+

lemma state_inv_set_recv:
  assumes "state_inv st" and "map_of (receiveStreams st) r = Some rs" and "same_stream rs rs'"
  shows "state_inv (set_recv r rs' st)"
proof -
  have "links_ok st" "index_exact st" "ids_fresh st" using assms(1) by (simp_all add: state_inv_def)
  then have "index_exact (set_recv r rs' st)" "ids_fresh (set_recv r rs' st)"
    using assms(2) by (auto simp: index_exact_def ids_fresh_def dom_def)
  moreover have "links_ok (set_recv r rs' st)"
    using \<open>links_ok st\<close> assms(2) same_stream_views(3) [OF assms(3)] same_stream_fields(7) [OF assms(3)]
    unfolding links_ok_def by (fastforce split: if_splits)
  ultimately show ?thesis
    using assms(1) by (simp add: state_inv_def umap_inv_put)
qed

lemma separate_set_recv:
  assumes "separate st" and "map_of (receiveStreams st) r = Some rs" and "same_stream rs rs'"
  shows "separate (set_recv r rs' st)"
  using assms(1,2) same_stream_fields [OF assms(3)] unfolding separate_def by (simp split: if_splits) metis

lemma agree_set_recv:
  assumes "agree X st E T" and "map_of (receiveStreams st) r = Some rs" and "same_stream rs rs'"
    and "r \<notin> X' \<Longrightarrow> adaptive rs \<Longrightarrow> rs_decodeTarget rs' = rs_decodeTarget rs" and "X \<subseteq> X'"
  shows "agree X' (set_recv r rs' st) E T"
proof (rule agreeI)
  note v = same_stream_views [OF assms(3)]
  fix q qs
  assume a: "map_of (receiveStreams (set_recv r rs' st)) q = Some qs" "adaptive qs"
  define ps where "ps = (if q = r then rs else qs)"
  have p: "map_of (receiveStreams st) q = Some ps" "adaptive ps" "rule_of st qs = rule_of st ps"
    using a assms(2) v by (auto simp: ps_def split: if_splits)
  obtain k where "rule_of st ps = Some k" "k \<in> E" "q \<notin> X \<longrightarrow> T k = rs_decodeTarget ps"
    using agreeD [OF assms(1) p(1,2)] .
  then show "\<exists>k. rule_of (set_recv r rs' st) qs = Some k \<and> k \<in> E \<and> (q \<notin> X' \<longrightarrow> T k = rs_decodeTarget qs)"
    using p assms(4,5) a by (auto simp: ps_def split: if_splits)
next
  fix k
  assume "T k \<noteq> hi"
  then obtain q qs where q: "map_of (receiveStreams st) q = Some qs" "rule_of st qs = Some k"
    using agree_other [OF assms(1)] by blast
  then show "\<exists>q qs. map_of (receiveStreams (set_recv r rs' st)) q = Some qs \<and> rule_of (set_recv r rs' st) qs = Some k"
    using assms(2) same_stream_views(2) [OF assms(3)] by (intro exI [of _ q] exI [of _ "if q = r then rs' else qs"]) auto
qed

lemma in_step_set_recv:
  assumes "in_step X st E T" and "map_of (receiveStreams st) r = Some rs" and "same_stream rs rs'"
    and "r \<notin> X' \<Longrightarrow> adaptive rs \<Longrightarrow> rs_decodeTarget rs' = rs_decodeTarget rs" and "X \<subseteq> X'"
  shows "in_step X' (set_recv r rs' st) E T"
  using assms state_inv_set_recv separate_set_recv agree_set_recv unfolding in_step_def by blast

text \<open>Changing the target of a rule together with the target of its stream.\<close>

lemma in_step_retarget:
  assumes "in_step X st E T" and "map_of (receiveStreams st) r = Some rs" and "rule_of st rs = Some k"
    and "X \<subseteq> {r}"
  shows "in_step {} (set_recv r (rs\<lparr> rs_decodeTarget := t \<rparr>) st) E (T(k := t))"
proof -
  let ?rs = "rs\<lparr> rs_decodeTarget := t \<rparr>" and ?st = "set_recv r (rs\<lparr> rs_decodeTarget := t \<rparr>) st"
  have I: "in_step {r} ?st E T"
    by (rule in_step_set_recv [OF assms(1,2)]) (use assms(4) in auto)
  then have sep: "separate ?st" and ag: "agree {r} ?st E T" by (simp_all add: in_step_def)
  have r: "map_of (receiveStreams ?st) r = Some ?rs" "rule_of ?st ?rs = Some k"
    using assms(3) by (simp_all add: rule_of_def)
  have only: "r' = r" if "map_of (receiveStreams ?st) r' = Some rs'" "rule_of ?st rs' = Some k" for r' rs'
  proof -
    have "rs_ssrc rs' = rs_ssrc ?rs" "rs_addr rs' = rs_addr ?rs"
      using that(2) r(2) by (auto simp: rule_of_def)
    then show ?thesis using sep that(1) r(1) unfolding separate_def by blast
  qed
  have "agree {} ?st E (T(k := t))"
  proof (rule agreeI)
    fix r' rs'
    assume a: "map_of (receiveStreams ?st) r' = Some rs'" "adaptive rs'"
    obtain j where j: "rule_of ?st rs' = Some j" "j \<in> E" "r' \<notin> {r} \<longrightarrow> T j = rs_decodeTarget rs'"
      using agreeD [OF ag a] .
    have "r' = r \<Longrightarrow> j = k \<and> rs_decodeTarget rs' = t" using a(1) r j(1) by auto
    with j show "\<exists>j. rule_of ?st rs' = Some j \<and> j \<in> E \<and> (r' \<notin> {} \<longrightarrow> (T(k := t)) j = rs_decodeTarget rs')"
      using only [OF a(1)] by (intro exI [of _ j]) auto
  next
    fix j
    assume "(T(k := t)) j \<noteq> hi"
    then have "j = k \<or> T j \<noteq> hi" by (auto split: if_splits)
    then show "\<exists>r' rs'. map_of (receiveStreams ?st) r' = Some rs' \<and> rule_of ?st rs' = Some j"
      using r agree_other [OF ag, of j] by blast
  qed
  with I show ?thesis by (simp add: in_step_def)
qed

section \<open>Adding streams\<close>

lemma rule_of_mono: "sender_addr st \<subseteq>\<^sub>m sender_addr st' \<Longrightarrow> rule_of st rs = Some k \<Longrightarrow> rule_of st' rs = Some k"
  unfolding rule_of_def map_le_def by (metis domI map_option_eq_Some)

lemma agree_mono:
  assumes "agree X st E T" and "receiveStreams st' = receiveStreams st" and "sender_addr st \<subseteq>\<^sub>m sender_addr st'"
    and "E \<subseteq> E'"
  shows "agree X st' E' T"
proof (rule agreeI, unfold assms(2))
  fix r rs
  assume "map_of (receiveStreams st) r = Some rs" "adaptive rs"
  then obtain k where "rule_of st rs = Some k" "k \<in> E" "r \<notin> X \<longrightarrow> T k = rs_decodeTarget rs"
    by (rule agreeD [OF assms(1)])
  then show "\<exists>k. rule_of st' rs = Some k \<and> k \<in> E' \<and> (r \<notin> X \<longrightarrow> T k = rs_decodeTarget rs)"
    using rule_of_mono [OF assms(3)] assms(4) by blast
next
  fix k
  assume "T k \<noteq> hi"
  then obtain r rs where "map_of (receiveStreams st) r = Some rs" "rule_of st rs = Some k"
    by (rule agree_other [OF assms(1)])
  then show "\<exists>r rs. map_of (receiveStreams st) r = Some rs \<and> rule_of st' rs = Some k"
    using rule_of_mono [OF assms(3)] by blast
qed

lemma in_step_mono: "in_step X st E T \<Longrightarrow> E \<subseteq> E' \<Longrightarrow> in_step X st E' T"
  by (auto simp: in_step_def intro: agree_mono)

text \<open>No receive stream has this SSRC at this address or for this participant.\<close>

definition fresh_for :: "agent_state \<Rightarrow> u32 \<Rightarrow> u32 \<Rightarrow> IPv4Port \<Rightarrow> SSRC \<Rightarrow> bool" where
  "fresh_for st sid pid addr x \<longleftrightarrow>
     list_all (\<lambda>(r, rs). rs_ssrc rs = x \<longrightarrow>
       rs_addr rs \<noteq> addr \<and> \<not> (rs_sessionId rs = sid \<and> rs_receivingParticipant rs = pid)) (receiveStreams st)"

lemma fresh_forD:
  "fresh_for st sid pid addr x \<Longrightarrow> map_of (receiveStreams st) r = Some rs \<Longrightarrow> rs_ssrc rs = x \<Longrightarrow>
   rs_addr rs \<noteq> addr \<and> \<not> (rs_sessionId rs = sid \<and> rs_receivingParticipant rs = pid)"
  by (auto simp: fresh_for_def list_all_iff dest!: map_of_SomeD)

lemma in_step_put_recv:
  assumes I: "in_step {} st E T" and k: "map_of (sendStreams st) k = Some ss"
    and fresh: "fresh_for st (ss_sessionId ss) pid addr (ss_ssrc ss)"
    and E: "E \<subseteq> E'" "ss_type ss = video \<Longrightarrow> \<not> rtx \<Longrightarrow> (ss_addr ss, ss_ssrc ss, addr) \<in> E'"
    and bound: "unat (next_receiveStreamId st) + 1 < 2 ^ 32"
  shows "in_step {} (put_recv k ss pid addr rtx st) E' T"
proof -
  let ?st = "put_recv k ss pid addr rtx st" and ?r = "next_receiveStreamId st"
  obtain rs where rs: "receiveStreams ?st = umap_put ?r rs (receiveStreams st)"
      "rs_sessionId rs = ss_sessionId ss" "rs_ssrc rs = ss_ssrc ss" "rs_addr rs = addr" "rs_receivingParticipant rs = pid"
      "rs_decodeTarget rs = hi" "rs_type rs = ss_type ss" "rs_rtx rs = rtx" "rs_sendStreamId rs = k"
    by (simp add: put_recv_def Let_def)
  have inv: "state_inv st" "separate st" "agree {} st E T" using I by (simp_all add: in_step_def)
  have new: "map_of (receiveStreams st) ?r = None" using inv(1) recv_id_fresh by blast
  have ro: "rule_of ?st = rule_of st" by (intro ext) (simp add: rule_of_def sender_addr_put_recv [OF k])
  have rule: "rule_of st rs = Some (ss_addr ss, ss_ssrc ss, addr)"
    using k by (simp add: rule_of_def sender_addr_def rs)
  have T: "T (ss_addr ss, ss_ssrc ss, addr) = hi"
  proof (rule ccontr)
    assume "T (ss_addr ss, ss_ssrc ss, addr) \<noteq> hi"
    then obtain r' rs' where "map_of (receiveStreams st) r' = Some rs'" "rule_of st rs' = Some (ss_addr ss, ss_ssrc ss, addr)"
      by (rule agree_other [OF inv(3)])
    then show False using fresh_forD [OF fresh, of r' rs'] by (auto simp: rule_of_def)
  qed
  have "agree {} ?st E' T"
  proof (rule agreeI, unfold ro rs(1))
    fix r' rs'
    assume a: "map_of (umap_put ?r rs (receiveStreams st)) r' = Some rs'" "adaptive rs'"
    show "\<exists>j. rule_of st rs' = Some j \<and> j \<in> E' \<and> (r' \<notin> {} \<longrightarrow> T j = rs_decodeTarget rs')"
    proof (cases "r' = ?r")
      case True
      then show ?thesis using a rule T E(2) rs by (auto simp: adaptive_def)
    next
      case False
      then have "map_of (receiveStreams st) r' = Some rs'" using a(1) by simp
      then obtain j where "rule_of st rs' = Some j" "j \<in> E" "r' \<notin> {} \<longrightarrow> T j = rs_decodeTarget rs'"
        using a(2) by (rule agreeD [OF inv(3)])
      then show ?thesis using E(1) by blast
    qed
  next
    fix j
    assume "T j \<noteq> hi"
    then obtain r' rs' where "map_of (receiveStreams st) r' = Some rs'" "rule_of st rs' = Some j"
      by (rule agree_other [OF inv(3)])
    then show "\<exists>r' rs'. map_of (umap_put ?r rs (receiveStreams st)) r' = Some rs' \<and> rule_of st rs' = Some j"
      using new by (intro exI [of _ r'] exI [of _ rs']) auto
  qed
  moreover have "separate ?st"
    using inv(2) fresh_forD [OF fresh] rs(2-5) unfolding separate_def rs(1) by (auto split: if_splits; blast)
  ultimately show ?thesis
    using inv state_inv_put_recv [OF _ k bound] by (simp add: in_step_def)
qed

text \<open>
  What the agent relies on in the controller's messages: a retransmission SSRC differs from the main
  one; a receive stream has an address, and its SSRCs are new at that address and for that
  participant; the ids the agent hands out have not run out.
\<close>

definition wf_AddStream :: "agent_state \<Rightarrow> sw_AddStream \<Rightarrow> bool" where
  "wf_AddStream st m \<longleftrightarrow>
     as_rtxSSRC m \<noteq> as_mainSSRC m \<and>
     unat (next_sendStreamId st) + 2 < 2 ^ 32 \<and> unat (next_receiveStreamId st) + 2 < 2 ^ 32 \<and>
     (as_direction m = Some recvonly \<longrightarrow>
        IPv4Port (as_ip m) (as_port m) \<noteq> IPv4Port 0 0 \<and>
        fresh_for st (as_sessionId m) (as_participantId m) (IPv4Port (as_ip m) (as_port m)) (as_mainSSRC m) \<and>
        (as_rtxSSRC m \<noteq> 0 \<longrightarrow>
           fresh_for st (as_sessionId m) (as_participantId m) (IPv4Port (as_ip m) (as_port m)) (as_rtxSSRC m)))"

lemma in_step_addSendStream:
  assumes "in_step {} st E T" and "rtx \<noteq> main" and "unat (next_sendStreamId st) + 2 < 2 ^ 32"
    and "addSendStream sid pid addr typ main rtx st = (Inr (), st')"
  shows "in_step {} st' E T"
proof -
  have inv: "state_inv st" using assms(1) by (simp add: in_step_def)
  note k = addSendStream_keeps [OF inv assms(2-4)]
  show ?thesis
    using assms(1) k(1) agree_mono [OF _ k(2,3) subset_refl] unfolding in_step_def separate_def k(2) by blast
qed

lemma set_umap_put: "set (umap_put k v m) \<subseteq> insert (k, v) (set m)"
  by (induction m) (auto split: if_splits)

lemma fresh_for_put_recv:
  "fresh_for st sid pid addr x \<Longrightarrow> ss_ssrc ss \<noteq> x \<Longrightarrow> fresh_for (put_recv k ss p a rtx st) sid pid addr x"
  unfolding fresh_for_def list_all_iff put_recv_def Let_def
  by (auto dest!: subsetD [OF set_umap_put])

lemma in_step_addReceiveStream:
  assumes I: "in_step {} st E T" and "rtx \<noteq> main" and bound: "unat (next_receiveStreamId st) + 2 < 2 ^ 32"
    and fresh: "fresh_for st sid pid addr main" "rtx \<noteq> 0 \<longrightarrow> fresh_for st sid pid addr rtx"
    and found: "getSendStream st sid main = Some (k, ss)"
    and E: "E \<subseteq> E'" "(ss_addr ss, main, addr) \<in> E'"
    and run: "addReceiveStream sid p pid addr main rtx st = (Inr (), st')"
  shows "in_step {} st' E' T"
proof -
  let ?st1 = "put_recv k ss pid addr False st"
  have inv: "state_inv st" using I by (simp add: in_step_def)
  have k: "map_of (sendStreams st) k = Some ss" "ss_sessionId ss = sid" "ss_ssrc ss = main"
    using getSendStream_iff [OF inv] found by blast+
  have I1: "in_step {} ?st1 E' T"
    by (rule in_step_put_recv [OF I k(1)]) (use k fresh E bound in auto)
  show ?thesis
  proof (cases "rtx = 0")
    case True
    then show ?thesis using addReceiveStream_ok [OF run] found I1 by auto
  next
    case False
    then obtain k2 ss2 where 2: "getSendStream ?st1 sid rtx = Some (k2, ss2)" "st' = put_recv k2 ss2 pid addr True ?st1"
      using addReceiveStream_ok [OF run] found by auto
    have "state_inv ?st1" using I1 by (simp add: in_step_def)
    then have k2: "map_of (sendStreams ?st1) k2 = Some ss2" "ss_sessionId ss2 = sid" "ss_ssrc ss2 = rtx"
      using getSendStream_iff 2(1) by blast+
    have "unat (next_receiveStreamId ?st1) + 1 < 2 ^ 32"
      using bound unat_add_one [of "next_receiveStreamId st"] by simp
    then show ?thesis
      unfolding 2(2)
      by (intro in_step_put_recv [OF I1 k2(1)]) (use False k k2 fresh(2) assms(2) in \<open>auto intro!: fresh_for_put_recv\<close>)
  qed
qed

section \<open>The contract\<close>

locale data_plane_contract =
  fixes ops :: "'d dp_ops" and dp_inv :: "'d \<Rightarrow> bool" and edges :: "'d \<Rightarrow> rule set"
    and target_of :: "'d \<Rightarrow> rule \<Rightarrow> DecodeTarget"
  assumes send_law: "dp_inv d \<Longrightarrow> op_sendPacket ops p d = (r, d') \<Longrightarrow>
      dp_inv d' \<and> edges d' = edges d \<and> target_of d' = target_of d"
    and add_law: "dp_inv d \<Longrightarrow> op_addStream ops s d = (r, d') \<Longrightarrow>
      r = Inr () \<and> dp_inv d' \<and> edges d \<subseteq> edges d' \<and> target_of d' = target_of d \<and>
      (ds_dst s \<noteq> IPv4Port 0 0 \<longrightarrow> (ds_src s, ds_ssrc s, ds_dst s) \<in> edges d')"
    and adjust_law: "dp_inv d \<Longrightarrow> (frm, ssrc, to) \<in> edges d \<Longrightarrow> decodeTargetFromNumIdentifier n = Inr t \<Longrightarrow>
      op_adjustDecodeTarget ops frm to ssrc n d = (r, d') \<Longrightarrow>
      r = Inr () \<and> dp_inv d' \<and> edges d' = edges d \<and> target_of d' = (target_of d)((frm, ssrc, to) := t)"
begin

definition ok :: "u32 set \<Rightarrow> ('n, 'd) sw \<Rightarrow> bool" where
  "ok X s \<longleftrightarrow> dp_inv (snd s) \<and> in_step X (ag_state (fst s)) (edges (snd s)) (target_of (snd s))"

lemma ok_inv: "ok X s \<Longrightarrow> state_inv (ag_state (fst s)) \<and> separate (ag_state (fst s)) \<and> dp_inv (snd s)"
  by (simp add: ok_def in_step_def)

lemma getReceiveStream_found:
  "state_inv st \<Longrightarrow> getReceiveStream st sid ssrc pid = Some (r, rs) \<Longrightarrow>
   map_of (receiveStreams st) r = Some rs \<and> rs_sessionId rs = sid \<and> rs_ssrc rs = ssrc \<and> rs_receivingParticipant rs = pid"
  using find_umap [of "receiveStreams st" "\<lambda>x. rs_sessionId x = sid \<and> rs_ssrc x = ssrc \<and> rs_receivingParticipant x = pid" r rs]
  by (simp add: getReceiveStream_def state_inv_def umap_inv_def)

lemma getReceiveStreamFrom_found:
  "state_inv st \<Longrightarrow> getReceiveStreamFrom st frm ssrc = Some (r, rs) \<Longrightarrow>
   map_of (receiveStreams st) r = Some rs \<and> rs_addr rs = frm \<and> rs_ssrc rs = ssrc"
  using find_umap [of "receiveStreams st" "\<lambda>x. rs_addr x = frm \<and> rs_ssrc x = ssrc" r rs]
  by (simp add: getReceiveStreamFrom_def state_inv_def umap_inv_def)

text \<open>The sender of a receive stream is found by the session and SSRC of the receive stream.\<close>

lemma getSendStream_of_recv:
  assumes "state_inv st" and "map_of (receiveStreams st) r = Some rs"
  obtains ss where "getSendStream st (rs_sessionId rs) (rs_ssrc rs) = Some (rs_sendStreamId rs, ss)"
    "rule_of st rs = Some (ss_addr ss, rs_ssrc rs, rs_addr rs)" "ss_ssrc ss = rs_ssrc rs"
proof -
  obtain ss where ss: "map_of (sendStreams st) (rs_sendStreamId rs) = Some ss" "linked (rs_sendStreamId rs) ss r rs"
    using assms unfolding state_inv_def links_ok_def by blast
  have "getSendStream st (rs_sessionId rs) (rs_ssrc rs) = Some (rs_sendStreamId rs, ss)"
    using getSendStream_iff [OF assms(1)] ss by (simp add: linked_def)
  moreover have "rule_of st rs = Some (ss_addr ss, rs_ssrc rs, rs_addr rs)" "ss_ssrc ss = rs_ssrc rs"
    using ss by (simp_all add: linked_def rule_of_def sender_addr_def)
  ultimately show ?thesis by (rule that)
qed

text \<open>
  Adjusting the target of an adaptive stream succeeds, and repairs the agreement for that stream if it was
  lost.
\<close>

lemma adjust_adaptive:
  assumes ok: "ok X s" and X: "X \<subseteq> {r}" and r: "map_of (receiveStreams (ag_state (fst s))) r = Some rs" "adaptive rs"
    and t: "decodeTargetFromNumIdentifier n = Inr t"
  shows "\<exists>s' k. sw_adjustDecodeTarget ops (rs_sessionId rs) (rs_ssrc rs) (rs_receivingParticipant rs) n s = (Inr True, s') \<and>
    ok {} s' \<and> ag_state (fst s') = set_recv r (rs\<lparr> rs_decodeTarget := t \<rparr>) (ag_state (fst s)) \<and>
    rule_of (ag_state (fst s)) rs = Some k \<and> target_of (snd s') = (target_of (snd s))(k := t) \<and>
    edges (snd s') = edges (snd s)"
proof -
  let ?st = "ag_state (fst s)"
  have inv: "state_inv ?st" "separate ?st" "dp_inv (snd s)" using ok_inv [OF ok] by auto
  obtain ss where ss: "getSendStream ?st (rs_sessionId rs) (rs_ssrc rs) = Some (rs_sendStreamId rs, ss)"
      "rule_of ?st rs = Some (ss_addr ss, rs_ssrc rs, rs_addr rs)" "ss_ssrc ss = rs_ssrc rs"
    using getSendStream_of_recv [OF inv(1) r(1)] .
  obtain r1 rs1 where f: "getReceiveStream ?st (rs_sessionId rs) (rs_ssrc rs) (rs_receivingParticipant rs) = Some (r1, rs1)"
    using find_umap_ex [OF r(1), of "\<lambda>x. rs_sessionId x = rs_sessionId rs \<and> rs_ssrc x = rs_ssrc rs \<and>
        rs_receivingParticipant x = rs_receivingParticipant rs"] by (auto simp: getReceiveStream_def)
  then have f1: "r1 = r" "rs1 = rs"
    using getReceiveStream_found [OF inv(1) f] r(1) inv(2) unfolding separate_def by (metis option.inject)+
  have le: "\<not> of_nat MAX_IDENT < n"
    using t by (auto simp: decodeTargetFromNumIdentifier_def MAX_IDENT_def split: if_splits)
  obtain q d' where q: "op_adjustDecodeTarget ops (ss_addr ss) (rs_addr rs) (rs_ssrc rs) n (snd s) = (q, d')" by fastforce
  have e: "(ss_addr ss, rs_ssrc rs, rs_addr rs) \<in> edges (snd s)"
    using ok r ss(2) unfolding ok_def in_step_def by (metis agreeD option.inject)
  note law = adjust_law [OF inv(3) e t q]
  let ?s = "put_rs r (rs\<lparr> rs_decodeTarget := t \<rparr>) (fst s, d')"
  have "sw_adjustDecodeTarget ops (rs_sessionId rs) (rs_ssrc rs) (rs_receivingParticipant rs) n s = (Inr True, ?s)"
    using le f f1 ss r(2) q t law by (simp add: sw_adjustDecodeTarget_def adaptive_def on_dp_def)
  moreover have "in_step {} (set_recv r (rs\<lparr> rs_decodeTarget := t \<rparr>) ?st) (edges (snd s))
      ((target_of (snd s))((ss_addr ss, rs_ssrc rs, rs_addr rs) := t))"
    using ok X r(1) ss(2) by (intro in_step_retarget) (simp_all add: ok_def)
  ultimately show ?thesis
    using law ss(2) by (intro exI [of _ ?s] exI [of _ "(ss_addr ss, rs_ssrc rs, rs_addr rs)"]) (simp add: ok_def put_rs_def)
qed

lemma adjust_keeps:
  assumes ok: "ok {} s" and run: "sw_adjustDecodeTarget ops sid ssrc pid n s = (Inr b, s')"
  shows "ok {} s'"
proof (cases "\<exists>r rs t. getReceiveStream (ag_state (fst s)) sid ssrc pid = Some (r, rs) \<and> adaptive rs \<and>
    decodeTargetFromNumIdentifier n = Inr t")
  case True
  then obtain r rs t where c: "getReceiveStream (ag_state (fst s)) sid ssrc pid = Some (r, rs)" "adaptive rs"
      "decodeTargetFromNumIdentifier n = Inr t" by blast
  have "map_of (receiveStreams (ag_state (fst s))) r = Some rs" "rs_sessionId rs = sid" "rs_ssrc rs = ssrc"
      "rs_receivingParticipant rs = pid"
    using getReceiveStream_found [OF _ c(1)] ok_inv [OF ok] by auto
  then show ?thesis using adjust_adaptive [OF ok _ _ c(2,3), of r] run by auto
next
  case False
  have "2 < unat n \<or> unat n = dt_num lo \<or> unat n = dt_num mid \<or> unat n = dt_num hi" by auto
  then have "2 < unat n \<or> (\<exists>t. decodeTargetFromNumIdentifier n = Inr t)"
    unfolding decodeTarget_dt_num by blast
  then have "of_nat MAX_IDENT < n \<or> (\<exists>t. decodeTargetFromNumIdentifier n = Inr t)"
    by (auto simp: MAX_IDENT_def word_less_nat_alt)
  with False run have "s' = s"
    by (auto simp: sw_adjustDecodeTarget_def adaptive_def split: option.splits if_splits)
  with ok show ?thesis by simp
qed

lemma dt_num_ident: "decodeTargetFromNumIdentifier (of_nat (dt_num t)) = Inr t"
  by (cases t) (simp_all add: decodeTarget_dt_num)

lemma umap_put_put: "umap_put k v (umap_put k w m) = umap_put k v m"
  by (induction m) auto

lemma set_recv_twice: "set_recv r a (set_recv r b st) = set_recv r a st"
  by (simp add: set_recv_def umap_put_put)

text \<open>
  A bandwidth estimate for an adaptive stream: the stream's history is extended and its target and
  the target of its rule become the one the estimate asks for.
\<close>

lemma remb_step_adaptive:
  assumes ok: "ok {} s" and rate: "rbind (remb_load buf) bit_rate = Inr rate" "remb_ssrc buf i = Inr x"
    and found: "getReceiveStreamFrom (ag_state (fst s)) frm (ntohl x) = Some (r, rs)" and ad: "adaptive rs"
  defines "t \<equiv> decideDecodeTarget rs rate"
  shows "\<exists>s' k. remb_step ops frm buf i s = (Inr True, s') \<and> ok {} s' \<and>
    ag_state (fst s') = set_recv r (rs\<lparr> bandwidthEstimates := bandwidthEstimates rs @ [rate], rs_decodeTarget := t \<rparr>)
      (ag_state (fst s)) \<and>
    rule_of (ag_state (fst s)) rs = Some k \<and> target_of (snd s') = (target_of (snd s))(k := t) \<and>
    edges (snd s') = edges (snd s)"
proof -
  let ?st = "ag_state (fst s)" and ?h = "bandwidthEstimates rs @ [rate]"
  let ?rs = "rs\<lparr> bandwidthEstimates := ?h, rs_decodeTarget := t \<rparr>"
  have r: "map_of (receiveStreams ?st) r = Some rs"
    using getReceiveStreamFrom_found found ok_inv [OF ok] by blast
  have t: "decideDecodeTarget (rs\<lparr> bandwidthEstimates := ?h \<rparr>) rate = t"
    by (simp add: t_def decideDecodeTarget_def)
  show ?thesis
  proof (cases "t = rs_decodeTarget rs")
    case True
    let ?s = "put_rs r (rs\<lparr> bandwidthEstimates := ?h \<rparr>) s"
    have "remb_step ops frm buf i s = (Inr True, ?s)"
      using rate found t True by (simp add: remb_step_def Let_def)
    moreover have "ok {} ?s"
      using in_step_set_recv [OF _ r, of "{}"] ok by (simp add: ok_def put_rs_def)
    moreover obtain k where "rule_of ?st rs = Some k" "target_of (snd s) k = rs_decodeTarget rs"
      using ok r ad unfolding ok_def in_step_def by (metis agreeD empty_iff)
    moreover have "?rs = rs\<lparr> bandwidthEstimates := ?h \<rparr>" using True by simp
    ultimately show ?thesis
      using True by (intro exI [of _ ?s] exI [of _ k]) (auto simp: put_rs_def)
  next
    case False
    let ?s = "put_rs r ?rs s"
    have r': "map_of (receiveStreams (ag_state (fst ?s))) r = Some ?rs" by (simp add: put_rs_def)
    have ad': "adaptive ?rs" and ok': "ok {r} ?s"
      using ad in_step_set_recv [OF _ r, of "{}" _ _ ?rs "{r}"] ok by (simp_all add: ok_def put_rs_def adaptive_def)
    obtain s' k where s': "sw_adjustDecodeTarget ops (rs_sessionId ?rs) (rs_ssrc ?rs) (rs_receivingParticipant ?rs)
          (of_nat (dt_num t)) ?s = (Inr True, s')"
        "ok {} s'" "ag_state (fst s') = set_recv r (?rs\<lparr> rs_decodeTarget := t \<rparr>) (ag_state (fst ?s))"
        "rule_of (ag_state (fst ?s)) ?rs = Some k" "target_of (snd s') = (target_of (snd ?s))(k := t)"
        "edges (snd s') = edges (snd ?s)"
      using adjust_adaptive [OF ok' subset_refl r' ad' dt_num_ident [of t]] by blast
    moreover have "remb_step ops frm buf i s = (Inr True, s')"
      using rate found t False s'(1) by (simp add: remb_step_def Let_def)
    ultimately show ?thesis
      by (intro exI [of _ s'] exI [of _ k]) (simp add: put_rs_def set_recv_twice rule_of_def)
  qed
qed

lemma remb_step_keeps:
  assumes ok: "ok {} s" and run: "remb_step ops frm buf i s = (Inr b, s')"
  shows "ok {} s'"
proof -
  let ?st = "ag_state (fst s)"
  obtain rate x where rate: "rbind (remb_load buf) bit_rate = Inr rate" "remb_ssrc buf i = Inr x"
    using run by (auto simp: remb_step_def split: sum.splits)
  show ?thesis
  proof (cases "getReceiveStreamFrom ?st frm (ntohl x)")
    case None
    then show ?thesis using run rate ok by (simp add: remb_step_def)
  next
    case (Some e)
    obtain r rs where e: "e = (r, rs)" by fastforce
    have r: "map_of (receiveStreams ?st) r = Some rs"
      using getReceiveStreamFrom_found Some e ok_inv [OF ok] by blast
    show ?thesis
    proof (cases "adaptive rs")
      case True
      then show ?thesis using remb_step_adaptive [OF ok rate Some [unfolded e]] run by auto
    next
      case False
      define rs' where "rs' = rs\<lparr> bandwidthEstimates := bandwidthEstimates rs @ [rate] \<rparr>"
      define t where "t = decideDecodeTarget rs' rate"
      have ss: "ok {} (put_rs r q s)" if "same_stream rs q" for q
        using in_step_set_recv [OF _ r that, of "{}" _ _ "{}"] False ok by (simp add: ok_def put_rs_def)
      have "ok {} (put_rs r (rs'\<lparr> rs_decodeTarget := t \<rparr>) s)" "ok {} (put_rs r rs' s)"
        by (rule ss; simp add: rs'_def)+
      moreover have "s' = put_rs r rs' s \<or>
          sw_adjustDecodeTarget ops (rs_sessionId rs') (rs_ssrc rs') (rs_receivingParticipant rs') (of_nat (dt_num t))
            (put_rs r (rs'\<lparr> rs_decodeTarget := t \<rparr>) s) = (Inr True, s') \<or>
          sw_adjustDecodeTarget ops (rs_sessionId rs') (rs_ssrc rs') (rs_receivingParticipant rs') (of_nat (dt_num t))
            (put_rs r (rs'\<lparr> rs_decodeTarget := t \<rparr>) s) = (Inr False, s')"
        using run rate Some e
        by (auto simp: remb_step_def Let_def sbind_def rs'_def t_def split: prod.splits sum.splits if_splits)
      ultimately show ?thesis using adjust_keeps by metis
    qed
  qed
qed

lemma remb_loop_keeps: "ok {} s \<Longrightarrow> remb_loop ops frm buf is s = (Inr (), s') \<Longrightarrow> ok {} s'"
proof (induction "is" arbitrary: s)
  case (Cons i "is")
  then show ?case
    using remb_step_keeps [OF Cons.prems(1), of frm buf i]
    by (cases "remb_step ops frm buf i s"; cases "fst (remb_step ops frm buf i s)") (auto split: if_splits)
qed simp

lemma rtcp_loop_keeps: "ok {} s \<Longrightarrow> rtcp_loop ops frm buf s = (Inr (), s') \<Longrightarrow> ok {} s'"
proof (induction "length buf" arbitrary: buf s rule: less_induct)
  case less
  show ?case
  proof (cases "buf = []")
    case True
    then show ?thesis using less.prems by (simp add: rtcp_loop.simps [of _ _ "[]"])
  next
    case False
    then obtain h s1 where h: "rtcp_word buf = Inr h" "processRTCP ops frm h buf s = (Inr (), s1)"
        "rtcp_byte_len h \<le> length buf" "rtcp_loop ops frm (drop (rtcp_byte_len h) buf) s1 = (Inr (), s')"
      using less.prems(2) by (subst (asm) rtcp_loop.simps) (auto split: sum.splits prod.splits if_splits)
    have "ok {} s1"
      using h(2) less.prems(1)
      by (auto simp: processRTCP_def processReceiverEstimatedBitrate_def split: if_splits sum.splits intro: remb_loop_keeps)
    moreover have "length (drop (rtcp_byte_len h) buf) < length buf"
      using rtcp_byte_len_ge(1) [of h] False by (simp add: Suc_le_eq)
    ultimately show ?thesis using less.hyps h(4) by blast
  qed
qed

lemma stun_keeps:
  assumes "ok {} s" and "sw_handleSTUNBindingRequest api ops p s = (Inr (), s')"
  shows "ok {} s'"
proof -
  obtain v a where v: "validate api (pi_from p) (pi_buf p) (ag_stun (fst s)) = (v, a)" by fastforce
  obtain q d' where q: "op_sendPacket ops (pi_from p, take (sa_msgLen a) (sa_msgBuf a)) (snd s) = (q, d')" by fastforce
  have "dp_inv d' \<and> edges d' = edges (snd s) \<and> target_of d' = target_of (snd s)"
    using send_law [OF _ q] assms(1) by (simp add: ok_def)
  then show ?thesis
    using assms v q by (auto simp: sw_handleSTUNBindingRequest_def on_stun_def on_dp_def ok_def split: if_splits)
qed

text \<open>Every packet handler of the agent keeps the agreement.\<close>

lemma packet_keeps: "ok {} s \<Longrightarrow> onPacketFromDataPlane api ops p s = (Inr (), s') \<Longrightarrow> ok {} s'"
  by (auto simp: onPacketFromDataPlane_def sw_handleSTUN_def sw_handleRTCP_def split: Reason.splits if_splits
      intro: stun_keeps rtcp_loop_keeps)

text \<open>
  So does the handler of the controller's stream messages; after a message for a receiver the media
  rule from the sender found for it is installed.
\<close>

lemma on_dp_add:
  assumes "ok {} s" and "on_dp (op_addStream ops x) s = (r, s')"
  shows "ok {} s' \<and> fst s' = fst s"
proof -
  obtain q d' where q: "op_addStream ops x (snd s) = (q, d')" by fastforce
  have "dp_inv (snd s)" using assms(1) by (simp add: ok_def)
  from add_law [OF this q] show ?thesis
    using assms q in_step_mono by (auto simp: on_dp_def ok_def)
qed

lemma onAddStream_recv:
  assumes ok: "ok {} s" and wf: "wf_AddStream (ag_state (fst s)) m" and dir: "as_direction m = Some recvonly"
    and found: "getSendStream (ag_state (fst s)) (as_sessionId m) (as_mainSSRC m) = Some (k, ss)"
    and run: "onAddStream ops m s = (Inr (), s')"
  shows "ok {} s' \<and> (ss_addr ss, as_mainSSRC m, IPv4Port (as_ip m) (as_port m)) \<in> edges (snd s')"
proof -
  let ?addr = "IPv4Port (as_ip m) (as_port m)"
  let ?x = "\<lparr> ds_src = ss_addr ss, ds_dst = ?addr, ds_ssrc = as_mainSSRC m, ds_rtxSsrc = as_rtxSSRC m,
      ds_rtcpSsrc = as_rtcpSSRC m, ds_rtcpRtxSsrc = as_rtcpRtxSSRC m, ds_egressPort = 0 \<rparr>"
  obtain q d' where q: "op_addStream ops ?x (snd s) = (q, d')" by fastforce
  obtain st' where st': "addReceiveStream (as_sessionId m) (ss_sendingParticipant ss) (as_participantId m) ?addr
      (as_mainSSRC m) (as_rtxSSRC m) (ag_state (fst s)) = (Inr (), st')"
      "ag_state (fst s') = st'" "snd s' = d'"
    using run dir found q
    by (auto simp: onAddStream_def Let_def on_state_def on_stun_def on_dp_def sbind_def addPeer_def hasPeer_def
        split: prod.splits sum.splits if_splits)
  have I: "dp_inv (snd s)" "in_step {} (ag_state (fst s)) (edges (snd s)) (target_of (snd s))"
    using ok by (simp_all add: ok_def)
  have law: "dp_inv d'" "edges (snd s) \<subseteq> edges d'" "target_of d' = target_of (snd s)"
      "(ss_addr ss, as_mainSSRC m, ?addr) \<in> edges d'"
    using add_law [OF I(1) q] wf dir by (auto simp: wf_AddStream_def)
  have "in_step {} st' (edges d') (target_of (snd s))"
    by (rule in_step_addReceiveStream [OF I(2) _ _ _ _ found law(2,4) st'(1)]) (use wf dir in \<open>auto simp: wf_AddStream_def\<close>)
  then show ?thesis using law st'(2,3) by (simp add: ok_def)
qed

lemma onAddStream_keeps:
  assumes ok: "ok {} s" and wf: "wf_AddStream (ag_state (fst s)) m"
    and run: "onAddStream ops m s = (Inr (), s')"
  shows "ok {} s'"
proof -
  let ?addr = "IPv4Port (as_ip m) (as_port m)"
  let ?x = "\<lparr> ds_src = IPv4Port 0 0, ds_dst = ?addr, ds_ssrc = as_mainSSRC m, ds_rtxSsrc = as_rtxSSRC m,
      ds_rtcpSsrc = 0, ds_rtcpRtxSsrc = 0, ds_egressPort = 0 \<rparr>"
  obtain dir where dir: "as_direction m = Some dir" using run by (auto simp: onAddStream_def split: option.splits)
  consider "dir = recvonly" | "dir = sendonly" | "dir = sendrecv" | "dir = inactive" by (cases dir) auto
  then show ?thesis
  proof cases
    case 1
    show ?thesis
    proof (cases "getSendStream (ag_state (fst s)) (as_sessionId m) (as_mainSSRC m)")
      case None
      then have "ag_state (fst s') = ag_state (fst s) \<and> snd s' = snd s"
        using run dir 1
        by (auto simp: onAddStream_def Let_def on_stun_def sbind_def addPeer_def hasPeer_def split: if_splits)
      then show ?thesis using ok by (simp add: ok_def)
    next
      case (Some e)
      then show ?thesis using onAddStream_recv [OF ok wf _ _ run] dir 1 by (cases e) auto
    qed
  next
    case 2
    then obtain t st' where a: "addSendStream (as_sessionId m) (as_participantId m) ?addr t (as_mainSSRC m) (as_rtxSSRC m)
        (ag_state (fst s)) = (Inr (), st')" and t: "as_mediaType m = Some t"
      using run dir by (auto simp: onAddStream_def Let_def on_state_def sbind_def split: option.splits prod.splits sum.splits)
    obtain q d' where q: "op_addStream ops ?x (snd s) = (q, d')" by fastforce
    have s': "ag_state (fst s') = st' \<and> (snd s' = d' \<or> snd s' = snd s)"
      using run dir 2 a q t
      by (auto simp: onAddStream_def Let_def on_state_def on_stun_def on_dp_def sbind_def addPeer_def hasPeer_def
          split: option.splits prod.splits sum.splits if_splits)
    have I: "dp_inv (snd s)" "in_step {} (ag_state (fst s)) (edges (snd s)) (target_of (snd s))"
      using ok by (simp_all add: ok_def)
    have "in_step {} st' (edges (snd s)) (target_of (snd s))"
      by (rule in_step_addSendStream [OF I(2) _ _ a]) (use wf in \<open>auto simp: wf_AddStream_def\<close>)
    then show ?thesis using s' add_law [OF I(1) q] I(1) in_step_mono by (auto simp: ok_def)
  qed (use run dir ok in \<open>auto simp: ok_def onAddStream_def Let_def on_stun_def sbind_def addPeer_def hasPeer_def
      split: if_splits\<close>)
qed

end

end
