(* ===== verification/Switch_System.thy ===== *)
theory Switch_System
  imports Agent_Contract
begin

text \<open>
  The switch as it runs with the software data plane: the agent and \<open>DataPlaneModel\<close> connected by the
  packet callback. The data plane's operations are an interpretation of the contract; the
  reachable states of the connected program, under datagrams, messages of the controller, calls
  of the switch API and texts sent to the controller in any order, are those of the relation \<open>switch_step\<close>. A run ends with the
  first exception, which leaves the event loop, so that only calls that return make a step.
\<close>

section \<open>The software data plane keeps the contract\<close>

definition model_ops :: "'e data_plane_model dp_ops" where
  "model_ops =
     \<lparr> op_sendPacket = (\<lambda>p d. (Inr (), sendPacket p d)), op_addStream = addStream,
       op_adjustDecodeTarget = adjustDecodeTarget \<rparr>"

definition model_inv :: "'e data_plane_model \<Rightarrow> bool" where
  "model_inv d \<longleftrightarrow> sfu_inv (dp_sfu d)"

definition model_edges :: "'e data_plane_model \<Rightarrow> rule set" where
  "model_edges d = {(src, ssrc, dst). (Match src ssrc, dst) \<in> fwd (dp_sfu d)}"

text \<open>The target a list of actions enforces towards a receiver: without a setting nothing is dropped.\<close>

definition enforced :: "Action list \<Rightarrow> IPv4Port \<Rightarrow> DecodeTarget" where
  "enforced e to = (case map_of (map (\<lambda>a. (a_to a, svcConfig a)) e) to of Some (Some t) \<Rightarrow> t | _ \<Rightarrow> hi)"

definition model_target :: "'e data_plane_model \<Rightarrow> rule \<Rightarrow> DecodeTarget" where
  "model_target d = (\<lambda>(src, ssrc, dst). enforced (entry (dp_sfu d) (Match src ssrc)) dst)"

lemma enforced_append: "\<forall>a \<in> set e'. a = Action (a_to a) \<Longrightarrow> enforced (e @ e') to = enforced e to"
proof -
  assume new: "\<forall>a \<in> set e'. a = Action (a_to a)"
  have "svcConfig a = None" if "a \<in> set e'" for a
    using new that by (metis Action.select_convs(2) Action_def)
  then have "map_of (map (\<lambda>a. (a_to a, svcConfig a)) e') to = Some x \<Longrightarrow> x = None" for x
    by (auto dest!: map_of_SomeD)
  then show ?thesis
    by (auto simp: enforced_def map_add_def split: option.splits)
qed

lemma enforced_adjust:
  "enforced (map (\<lambda>a. if a_to a = to then a\<lparr> svcConfig := Some t \<rparr> else a) e) dst =
   (if dst = to \<and> to \<in> a_to ` set e then t else enforced e dst)"
  unfolding enforced_def by (induction e) auto

lemma enforced_extends: "extends t t' \<Longrightarrow> enforced (entry t' m) to = enforced (entry t m) to"
  unfolding extends_def using enforced_append by metis

lemma model_target_extends: "extends (dp_sfu d) (dp_sfu d') \<Longrightarrow> model_target d' = model_target d"
  by (simp add: model_target_def enforced_extends)

interpretation mdl: data_plane_contract model_ops model_inv model_edges model_target
proof
  fix p r and d d' :: "'e data_plane_model"
  assume "model_inv d" "op_sendPacket model_ops p d = (r, d')"
  then show "model_inv d' \<and> model_edges d' = model_edges d \<and> model_target d' = model_target d"
    by (auto simp: model_ops_def sendPacket_def model_inv_def model_edges_def model_target_def)
next
  fix s r and d d' :: "'e data_plane_model"
  assume a: "model_inv d" "op_addStream model_ops s d = (r, d')"
  then have "dp_sfu d' = snd (addStream_table s (dp_sfu d))"
    by (auto simp: model_ops_def addStream_def Let_def split_beta)
  then have "grows (dp_sfu d) (dp_sfu d') (new_matches s) (new_edges s)" and "r = Inr ()"
    using addStream_table_grows [of s "dp_sfu d"] a(2) by (auto simp: model_ops_def addStream_def Let_def split_beta)
  then show "r = Inr () \<and> model_inv d' \<and> model_edges d \<subseteq> model_edges d' \<and> model_target d' = model_target d \<and>
      (ds_dst s \<noteq> IPv4Port 0 0 \<longrightarrow> (ds_src s, ds_ssrc s, ds_dst s) \<in> model_edges d')"
    using a(1) model_target_extends [of d d']
    by (auto simp: grows_def model_inv_def model_edges_def new_edges_def)
next
  fix frm ssrc to n t r and d d' :: "'e data_plane_model"
  assume a: "model_inv d" "(frm, ssrc, to) \<in> model_edges d" "decodeTargetFromNumIdentifier n = Inr t"
    "op_adjustDecodeTarget model_ops frm to ssrc n d = (r, d')"
  let ?upd = "\<lambda>e. map (\<lambda>a. if a_to a = to then a\<lparr> svcConfig := Some t \<rparr> else a) e"
  obtain tbl where tbl: "adjustDecodeTarget frm to ssrc n d = (Inr (), d\<lparr> dp_sfu := tbl \<rparr>)"
      "\<And>m. map_of tbl m = (if m = Match frm ssrc then map_option ?upd (map_of (dp_sfu d) m) else map_of (dp_sfu d) m)"
      "sfu_inv tbl"
    using adjustDecodeTarget_table [OF _ a(3), of d frm to ssrc] a(1) by (auto simp: model_inv_def)
  then have d': "dp_sfu d' = tbl" "r = Inr ()" using a(4) by (auto simp: model_ops_def)
  have "receivers tbl m = receivers (dp_sfu d) m" for m
    by (simp add: receivers_def tbl(2) split: option.splits)
  then have "fwd tbl = fwd (dp_sfu d)" by (simp add: fwd_def)
  moreover have "to \<in> a_to ` set (entry (dp_sfu d) (Match frm ssrc))"
    using a(2) by (auto simp: model_edges_def fwd_def receivers_def entry_def split: option.splits)
  moreover have "entry tbl m = (if m = Match frm ssrc then ?upd (entry (dp_sfu d) m) else entry (dp_sfu d) m)" for m
    by (simp add: entry_def tbl(2) split: option.splits)
  ultimately show "r = Inr () \<and> model_inv d' \<and> model_edges d' = model_edges d \<and> model_target d' = (model_target d)((frm, ssrc, to) := t)"
    using d' tbl(3) by (auto simp: model_inv_def model_edges_def model_target_def enforced_adjust fun_eq_iff)
qed

section \<open>The connected program\<close>

definition agent_handler :: "'n nice_api \<Rightarrow> 'n switch_agent handler" where
  "agent_handler api p d =
     (case onPacketFromDataPlane api model_ops p (dp_agent d, d) of (r, (a, d)) \<Rightarrow> (r, d\<lparr> dp_agent := a \<rparr>))"

inductive switch_step :: "'n nice_api \<Rightarrow> 'n switch_agent data_plane_model \<Rightarrow> 'n switch_agent data_plane_model \<Rightarrow> bool"
  for api where
  datagram: "onPacket (Some (agent_handler api)) rnd addr prt buf d = (Inr (), d') \<Longrightarrow> switch_step api d d'"
| stream_message: "wf_AddStream (ag_state (dp_agent d)) m \<Longrightarrow>
    onAddStream model_ops m (dp_agent d, d) = (Inr (), (a, d')) \<Longrightarrow> switch_step api d (d'\<lparr> dp_agent := a \<rparr>)"
| target_call: "sw_adjustDecodeTarget model_ops sid ssrc pid n (dp_agent d, d) = (Inr b, (a, d')) \<Longrightarrow>
    switch_step api d (d'\<lparr> dp_agent := a \<rparr>)"
| to_controller: "switch_step api d (d\<lparr> dp_agent := (dp_agent d)\<lparr> ag_toController := ag_toController (dp_agent d) @ [hello] \<rparr> \<rparr>)"

inductive reachable :: "'n nice_api \<Rightarrow> agent_config \<Rightarrow> 'n \<Rightarrow> u32 \<Rightarrow> 'n switch_agent data_plane_model \<Rightarrow> bool"
  for api cfg n ext where
  start: "reachable api cfg n ext (DataPlaneModel ext (SwitchAgent cfg n))"
| step: "reachable api cfg n ext d \<Longrightarrow> switch_step api d d' \<Longrightarrow> reachable api cfg n ext d'"

definition sys_ok :: "'n switch_agent data_plane_model \<Rightarrow> bool" where
  "sys_ok d \<longleftrightarrow> mdl.ok {} (dp_agent d, d)"

lemma sys_ok_iff:
  "sys_ok d \<longleftrightarrow> sfu_inv (dp_sfu d) \<and> in_step {} (ag_state (dp_agent d)) (model_edges d) (model_target d)"
  by (simp add: sys_ok_def mdl.ok_def model_inv_def)

lemma sys_ok_merge: "mdl.ok {} (a, d) \<Longrightarrow> sys_ok (d\<lparr> dp_agent := a \<rparr>)"
  by (simp add: sys_ok_def mdl.ok_def model_inv_def model_edges_def model_target_def)

text \<open>A change of the data plane that touches neither agent nor rules.\<close>

definition quiet :: "'e data_plane_model \<Rightarrow> 'e data_plane_model \<Rightarrow> bool" where
  "quiet d d' \<longleftrightarrow> dp_agent d' = dp_agent d \<and> rules (dp_sfu d') = rules (dp_sfu d) \<and>
     (sfu_inv (dp_sfu d) \<longrightarrow> sfu_inv (dp_sfu d'))"

lemma quiet_updates [simp]: "quiet d (d\<lparr> dp_stats := st \<rparr>)" "quiet d (d\<lparr> dp_out := out \<rparr>)"
  by (simp_all add: quiet_def)

lemma quiet_forward: "forward_rtp av1 frm buf d = (r, d') \<Longrightarrow> quiet d d'"
  using forward_rtp_table [of av1 frm buf d r d'] by (simp add: quiet_def)

lemma enforced_rules: "rules t = rules t' \<Longrightarrow> enforced (entry t m) to = enforced (entry t' m) to"
proof -
  have "enforced (entry t m) to = (case rules t m of None \<Rightarrow> hi | Some xs \<Rightarrow> (case map_of xs to of Some (Some x) \<Rightarrow> x | _ \<Rightarrow> hi))" for t
    by (simp add: enforced_def entry_def rules_def split: option.splits)
  then show "rules t = rules t' \<Longrightarrow> enforced (entry t m) to = enforced (entry t' m) to" by simp
qed

lemma sys_ok_quiet: "quiet d d' \<Longrightarrow> sys_ok d \<Longrightarrow> sys_ok d'"
proof -
  assume q: "quiet d d'" and ok: "sys_ok d"
  have "fwd (dp_sfu d') = fwd (dp_sfu d)" using q fwd_rules unfolding quiet_def by metis
  moreover have "model_target d' = model_target d"
    using q enforced_rules by (auto simp: model_target_def quiet_def fun_eq_iff)
  ultimately show ?thesis
    using ok q by (simp add: sys_ok_iff model_edges_def quiet_def)
qed

text \<open>
  What quiet changes and the registered handler keep, the data plane keeps on every datagram it
  handles without an exception.
\<close>

lemma sbind_Inr: "sbind (r, d) f = (Inr y, d') \<longleftrightarrow> (\<exists>x. r = Inr x \<and> f x d = (Inr y, d'))"
  by (cases r) auto

lemma toController_preserves:
  assumes "\<And>p d d'. f p d = (Inr (), d') \<Longrightarrow> P d \<Longrightarrow> P d'" and "toController (Some f) p d = (Inr (), d')" and "P d"
  shows "P d'"
  using assms by (simp add: toController_def)

lemma handleRTP_preserves:
  assumes quiet: "\<And>d d'. quiet d d' \<Longrightarrow> P d \<Longrightarrow> P d'" and f: "\<And>p d d'. f p d = (Inr (), d') \<Longrightarrow> P d \<Longrightarrow> P d'"
    and run: "handleRTP (Some f) rnd frm buf d = (Inr (), d')" and "P d"
  shows "P d'"
proof (cases rnd)
  case True
  then show ?thesis using run \<open>P d\<close> by (simp add: handleRTP_def)
next
  case False
  let ?d = "d\<lparr> dp_stats := (dp_stats d)\<lparr> st_rtpPkts := st_rtpPkts (dp_stats d) + 1 \<rparr> \<rparr>"
  have P: "P ?d" using quiet [OF _ \<open>P d\<close>] by simp
  have fw: "forward_rtp av1 frm buf (e\<lparr> dp_stats := st \<rparr>) = (Inr (), d') \<Longrightarrow> P e \<Longrightarrow> P d'" for av1 e st
    using quiet quiet_forward quiet_updates(1) by blast
  have "forward_rtp av1 frm buf e = (Inr (), d') \<Longrightarrow> P e \<Longrightarrow> P d'" for av1 e
    using quiet quiet_forward by blast
  then show ?thesis
    using run False P \<open>P d\<close> fw f
    by (auto simp: handleRTP_def Let_def toController_def sbind_def
        split: sum.splits option.splits prod.splits if_splits)
qed

lemma handleRTCP_preserves:
  assumes quiet: "\<And>d d'. quiet d d' \<Longrightarrow> P d \<Longrightarrow> P d'" and f: "\<And>p d d'. f p d = (Inr (), d') \<Longrightarrow> P d \<Longrightarrow> P d'"
    and run: "handleRTCP (Some f) frm buf d = (Inr (), d')" and "P d"
  shows "P d'"
proof -
  have P: "P (d\<lparr> dp_stats := st \<rparr>)" "P (d\<lparr> dp_stats := st, dp_out := out \<rparr>)" for st out
    using quiet \<open>P d\<close> quiet_updates by blast+
  then show ?thesis
    using run f
    by (auto simp: handleRTCP_def Let_def handleSR_def handleRR_def handleRTPFB_def handlePSFB_def
        send_to_all_receivers toController_def split: sum.splits if_splits)
qed

lemma onPacket_preserves:
  assumes quiet: "\<And>d d'. quiet d d' \<Longrightarrow> P d \<Longrightarrow> P d'" and f: "\<And>p d d'. f p d = (Inr (), d') \<Longrightarrow> P d \<Longrightarrow> P d'"
    and run: "onPacket (Some f) rnd addr prt buf d = (Inr (), d')" and "P d"
  shows "P d'"
proof -
  have P: "P (count_pkt n d)" "P ((count_pkt n d)\<lparr> dp_stats := st \<rparr>)" for n st
    using quiet \<open>P d\<close> quiet_updates unfolding count_pkt_def by blast+
  show ?thesis
    using run \<open>P d\<close>
    by (auto simp: onPacket_def handleSTUN_def toController_def split: sum.splits if_splits
        intro: f [OF _ P(2)] handleRTP_preserves [where P = P, OF quiet f _ P(1)]
          handleRTCP_preserves [where P = P, OF quiet f _ P(1)])
qed

lemma handler_keeps: "agent_handler api p d = (Inr (), d') \<Longrightarrow> sys_ok d \<Longrightarrow> sys_ok d'"
  using mdl.packet_keeps [of "(dp_agent d, d)" api p] sys_ok_merge
  by (auto simp: agent_handler_def sys_ok_def split: prod.splits)

lemma switch_step_keeps: "switch_step api d d' \<Longrightarrow> sys_ok d \<Longrightarrow> sys_ok d'"
proof (induction rule: switch_step.induct)
  case (datagram rnd addr prt buf d d')
  show ?case
    by (rule onPacket_preserves [where P = sys_ok, OF _ _ datagram.hyps datagram.prems]) (auto intro: sys_ok_quiet handler_keeps)
next
  case (stream_message d m a d')
  then show ?case
    using mdl.onAddStream_keeps [of "(dp_agent d, d)" m "(a, d')"] sys_ok_merge by (simp add: sys_ok_def)
next
  case (target_call sid ssrc pid n d b a d')
  then show ?case
    using mdl.adjust_keeps [of "(dp_agent d, d)" sid ssrc pid n b "(a, d')"] sys_ok_merge by (simp add: sys_ok_def)
next
  case (to_controller d hello)
  then show ?case by (simp add: sys_ok_iff model_edges_def model_target_def)
qed

lemma sys_ok_init: "sys_ok (DataPlaneModel ext (SwitchAgent cfg n))"
proof -
  let ?d = "DataPlaneModel ext (SwitchAgent cfg n)"
  have "model_edges ?d = {}" "model_target ?d = (\<lambda>_. hi)"
    by (auto simp: model_edges_def model_target_def DataPlaneModel_def fwd_def receivers_def enforced_def entry_def)
  then show ?thesis
    using in_step_init sfu_inv_empty by (simp add: sys_ok_iff) (simp add: DataPlaneModel_def SwitchAgent_def)
qed

lemma reachable_ok: "reachable api cfg n ext d \<Longrightarrow> sys_ok d"
  by (induction rule: reachable.induct) (auto intro: sys_ok_init switch_step_keeps)

section \<open>Properties of the connected program\<close>

lemma enforced_action:
  assumes "distinct (map a_to e)" and "a \<in> set e"
  shows "enforced e (a_to a) = (case svcConfig a of None \<Rightarrow> hi | Some t \<Rightarrow> t)"
proof -
  have "map_of (map (\<lambda>a. (a_to a, svcConfig a)) e) (a_to a) = Some (svcConfig a)"
    using assms by (intro map_of_is_SomeI) (auto simp: comp_def)
  then show ?thesis by (simp add: enforced_def split: option.splits)
qed

text \<open>
  C4: in every reachable state of the agent connected to the software data plane, the data plane has a
  rule for each video receive stream the agent knows (retransmissions apart), from the address
  of its sender to the receiver, and this rule drops exactly the templates that the decode target
  in the agent's record drops, whatever order datagrams, controller messages and API calls came
  in; and a rule that drops anything belongs to a stream of the agent. Reachable states are those after controller messages
  that satisfy \<open>wf_AddStream\<close>, which the agent relies on and does not check: a retransmission SSRC differs from the main
  one, SSRCs of a receive stream are new for its address and participant, its address is not zero, and ids have not run out.
\<close>

theorem reachable_targets_agree:
  assumes "reachable api cfg n ext d"
  shows "(\<forall>r rs. map_of (receiveStreams (ag_state (dp_agent d))) r = Some rs \<and> rs_type rs = video \<and> \<not> rs_rtx rs \<longrightarrow>
      (\<exists>ss e a. map_of (sendStreams (ag_state (dp_agent d))) (rs_sendStreamId rs) = Some ss \<and>
         map_of (dp_sfu d) (Match (ss_addr ss) (rs_ssrc rs)) = Some e \<and> a \<in> set e \<and> a_to a = rs_addr rs \<and>
         (\<forall>tid. (case svcConfig a of None \<Rightarrow> False | Some t \<Rightarrow> L1T3_drop t tid) = L1T3_drop (rs_decodeTarget rs) tid))) \<and>
    (\<forall>m e a t. map_of (dp_sfu d) m = Some e \<and> a \<in> set e \<and> svcConfig a = Some t \<and> t \<noteq> hi \<longrightarrow>
      (\<exists>r rs. map_of (receiveStreams (ag_state (dp_agent d))) r = Some rs \<and> rs_ssrc rs = m_ssrc m \<and> rs_addr rs = a_to a))"
proof (intro conjI allI impI; elim conjE)
  let ?st = "ag_state (dp_agent d)"
  have ok: "sfu_inv (dp_sfu d)" "agree {} ?st (model_edges d) (model_target d)"
    using reachable_ok [OF assms] by (simp_all add: sys_ok_iff in_step_def)
  {
    fix r rs
    assume r: "map_of (receiveStreams ?st) r = Some rs" "rs_type rs = video" "\<not> rs_rtx rs"
    then have "adaptive rs" by (simp add: adaptive_def)
    then obtain k where k: "rule_of ?st rs = Some k" "k \<in> model_edges d" "model_target d k = rs_decodeTarget rs"
      using agreeD [OF ok(2) r(1)] by blast
    then obtain ss where ss: "map_of (sendStreams ?st) (rs_sendStreamId rs) = Some ss" "k = (ss_addr ss, rs_ssrc rs, rs_addr rs)"
      by (auto simp: rule_of_def sender_addr_def)
    obtain e a where e: "map_of (dp_sfu d) (Match (ss_addr ss) (rs_ssrc rs)) = Some e" "a \<in> set e" "a_to a = rs_addr rs"
      using k(2) ss(2)
      by (cases "map_of (dp_sfu d) (Match (ss_addr ss) (rs_ssrc rs))") (auto simp: model_edges_def fwd_def receivers_def)
    have "(case svcConfig a of None \<Rightarrow> hi | Some t \<Rightarrow> t) = rs_decodeTarget rs"
      using k(3) ss(2) e enforced_action [OF sfu_inv_lookup [OF ok(1) e(1)] e(2)] by (simp add: model_target_def entry_def)
    then have "(case svcConfig a of None \<Rightarrow> False | Some t \<Rightarrow> L1T3_drop t tid) = L1T3_drop (rs_decodeTarget rs) tid" for tid
      by (auto split: option.splits)
    with ss(1) e show "\<exists>ss e a. map_of (sendStreams ?st) (rs_sendStreamId rs) = Some ss \<and>
         map_of (dp_sfu d) (Match (ss_addr ss) (rs_ssrc rs)) = Some e \<and> a \<in> set e \<and> a_to a = rs_addr rs \<and>
         (\<forall>tid. (case svcConfig a of None \<Rightarrow> False | Some t \<Rightarrow> L1T3_drop t tid) = L1T3_drop (rs_decodeTarget rs) tid)"
      by blast
  next
    fix m e a t
    assume m: "map_of (dp_sfu d) m = Some e" "a \<in> set e" "svcConfig a = Some t" "t \<noteq> hi"
    then have "model_target d (m_ipPort m, m_ssrc m, a_to a) \<noteq> hi"
      using enforced_action [OF sfu_inv_lookup [OF ok(1) m(1)] m(2)] by (simp add: model_target_def entry_def)
    then obtain r rs where "map_of (receiveStreams ?st) r = Some rs" "rule_of ?st rs = Some (m_ipPort m, m_ssrc m, a_to a)"
      by (rule agree_other [OF ok(2)])
    then show "\<exists>r rs. map_of (receiveStreams ?st) r = Some rs \<and> rs_ssrc rs = m_ssrc m \<and> rs_addr rs = a_to a"
      by (auto simp: rule_of_def)
  }
qed

text \<open>A session with one sender and one receiver, set up by two messages of the controller.\<close>

definition run_message :: "sw_AddStream \<Rightarrow> 'n switch_agent data_plane_model \<Rightarrow> 'n switch_agent data_plane_model" where
  "run_message m d = (case onAddStream model_ops m (dp_agent d, d) of (r, (a, d)) \<Rightarrow> d\<lparr> dp_agent := a \<rparr>)"

definition demo_send :: sw_AddStream where
  "demo_send = \<lparr> as_sessionId = 1, as_participantId = 2, as_ip = 0x0A000001, as_port = 5000, as_iceUfrag = ''a'',
     as_icePwd = ''b'', as_mainSSRC = 10, as_rtxSSRC = 0, as_rtcpSSRC = 0, as_rtcpRtxSSRC = 0,
     as_mediaType = Some video, as_direction = Some sendonly \<rparr>"

definition demo_recv :: sw_AddStream where
  "demo_recv = demo_send\<lparr> as_participantId := 3, as_ip := 0x0A000002, as_port := 6000, as_rtcpSSRC := 77,
     as_direction := Some recvonly \<rparr>"

definition demo_switch :: "unit switch_agent data_plane_model" where
  "demo_switch = run_message demo_recv (run_message demo_send (DataPlaneModel 12 (SwitchAgent demo_config ())))"

lemma reachable_message:
  assumes "reachable api cfg n ext d" and "wf_AddStream (ag_state (dp_agent d)) m"
    and "is_ok (fst (onAddStream model_ops m (dp_agent d, d)))"
  shows "reachable api cfg n ext (run_message m d)"
proof -
  obtain a d' where r: "onAddStream model_ops m (dp_agent d, d) = (Inr (), (a, d'))"
    using assms(3) by (cases "onAddStream model_ops m (dp_agent d, d)") (auto simp: is_ok_iff)
  show ?thesis
    using reachable.step [OF assms(1) switch_step.stream_message [OF assms(2) r]] r by (simp add: run_message_def)
qed

lemma addStream_eq: "addStream x d = (Inr (), d\<lparr> dp_sfu := snd (addStream_table x (dp_sfu d)) \<rparr>)"
  using addStream_table_grows [of x "dp_sfu d"] by (simp add: addStream_def split_beta)

lemmas demo_eval = demo_send_def demo_recv_def demo_config_def SwitchAgent_def STUNAgent_def DataPlaneModel_def agent_state_init_def
  onAddStream_def on_state_def on_stun_def on_dp_def sbind_def addSendStream_def ensure_session_def session_index_def put_send_def
  umap_ins_def hasPeer_def addPeer_def getSendStream_def addReceiveStream_def put_recv_def model_ops_def addStream_eq
  Let_def run_message_def

lemma demo_reachable_sender: "reachable api demo_config () 12 (run_message demo_send (DataPlaneModel 12 (SwitchAgent demo_config ())))"
proof -
  let ?d0 = "DataPlaneModel 12 (SwitchAgent demo_config ())"
  have "wf_AddStream (ag_state (dp_agent ?d0)) demo_send" "is_ok (fst (onAddStream model_ops demo_send (dp_agent ?d0, ?d0)))"
    by (simp_all add: demo_eval wf_AddStream_def fresh_for_def)
  then show ?thesis by (rule reachable_message [OF reachable.start])
qed

lemma demo_wf_recv:
  "wf_AddStream (ag_state (dp_agent (run_message demo_send (DataPlaneModel 12 (SwitchAgent demo_config ()))))) demo_recv"
  by (simp add: demo_eval wf_AddStream_def fresh_for_def)

lemma demo_reachable: "reachable api demo_config () 12 demo_switch"
  unfolding demo_switch_def by (rule reachable_message [OF demo_reachable_sender demo_wf_recv]) (simp add: demo_eval)

lemma demo_stream:
  "map_of (receiveStreams (ag_state (dp_agent demo_switch))) 0 =
     Some \<lparr> rs_sessionId = 1, rs_sendingParticipant = 2, rs_addr = IPv4Port 0x0A000002 6000, rs_ssrc = 10, rs_type = video,
       rs_rtx = False, rs_sendStreamId = 0, rs_receivingParticipant = 3, rs_decodeTarget = hi, bandwidthEstimates = [] \<rparr>"
  by (simp add: demo_switch_def demo_eval)

theorem reachable_targets_agree_witness:
  "\<exists>ss e a. map_of (sendStreams (ag_state (dp_agent demo_switch))) 0 = Some ss \<and>
     map_of (dp_sfu demo_switch) (Match (ss_addr ss) 10) = Some e \<and> a \<in> set e \<and> a_to a = IPv4Port 0x0A000002 6000 \<and>
     (\<forall>tid. (case svcConfig a of None \<Rightarrow> False | Some t \<Rightarrow> L1T3_drop t tid) = L1T3_drop hi tid)"
  using reachable_targets_agree [OF demo_reachable] demo_stream by fastforce

text \<open>The rule of a receive stream, by its send stream.\<close>

lemma rule_of_sender:
  "rule_of st rs = Some k \<Longrightarrow> \<exists>ss. map_of (sendStreams st) (rs_sendStreamId rs) = Some ss \<and> k = (ss_addr ss, rs_ssrc rs, rs_addr rs)"
  by (auto simp: rule_of_def sender_addr_def)

text \<open>
  C23: a call of the switch API in a reachable state is accepted exactly when the target is one of the
  three of the structure and the participant receives the stream as video that is not a
  retransmission. An accepted call sets the target of that stream in the agent's record and in its
  rule of the data plane and changes no other rule; a refused call changes nothing. As before, reachable means after
  controller messages that satisfy \<open>wf_AddStream\<close>.
\<close>

theorem set_decode_target_call:
  assumes "reachable api cfg n ext d"
  shows "(case getReceiveStream (ag_state (dp_agent d)) sid ssrc pid of
      Some (r, rs) \<Rightarrow> unat target \<le> 2 \<and> rs_type rs = video \<and> \<not> rs_rtx rs \<and>
        (\<exists>a d' ss t. sw_adjustDecodeTarget model_ops sid ssrc pid target (dp_agent d, d) = (Inr True, (a, d')) \<and>
           decodeTargetFromNumIdentifier target = Inr t \<and>
           ag_state a = set_recv r (rs\<lparr> rs_decodeTarget := t \<rparr>) (ag_state (dp_agent d)) \<and>
           map_of (sendStreams (ag_state (dp_agent d))) (rs_sendStreamId rs) = Some ss \<and>
           model_target d' = (model_target d)((ss_addr ss, ssrc, rs_addr rs) := t) \<and> model_edges d' = model_edges d)
    | None \<Rightarrow> False) \<or>
    \<not> (case getReceiveStream (ag_state (dp_agent d)) sid ssrc pid of
      Some (r, rs) \<Rightarrow> unat target \<le> 2 \<and> rs_type rs = video \<and> \<not> rs_rtx rs | None \<Rightarrow> False) \<and>
    sw_adjustDecodeTarget model_ops sid ssrc pid target (dp_agent d, d) = (Inr False, (dp_agent d, d))"
proof -
  let ?st = "ag_state (dp_agent d)"
  have ok: "mdl.ok {} (dp_agent d, d)" using reachable_ok [OF assms] by (simp add: sys_ok_def)
  then have inv: "state_inv ?st" using mdl.ok_inv by fastforce
  have max: "of_nat MAX_IDENT < target \<longleftrightarrow> \<not> unat target \<le> 2" by (auto simp: MAX_IDENT_def word_less_nat_alt)
  show ?thesis
  proof (cases "getReceiveStream ?st sid ssrc pid")
    case None
    then show ?thesis by (simp add: sw_adjustDecodeTarget_def)
  next
    case (Some e)
    obtain r rs where e: "e = (r, rs)" by fastforce
    have f: "map_of (receiveStreams ?st) r = Some rs" "rs_sessionId rs = sid" "rs_ssrc rs = ssrc" "rs_receivingParticipant rs = pid"
      using mdl.getReceiveStream_found [OF inv Some [unfolded e]] by auto
    show ?thesis
    proof (cases "unat target \<le> 2 \<and> rs_type rs = video \<and> \<not> rs_rtx rs")
      case True
      then have "unat target = dt_num lo \<or> unat target = dt_num mid \<or> unat target = dt_num hi" by auto
      then obtain t where t: "decodeTargetFromNumIdentifier target = Inr t" unfolding decodeTarget_dt_num by blast
      have "adaptive rs" using True by (simp add: adaptive_def)
      then obtain s' k where s': "sw_adjustDecodeTarget model_ops sid ssrc pid target (dp_agent d, d) = (Inr True, s')"
          "ag_state (fst s') = set_recv r (rs\<lparr> rs_decodeTarget := t \<rparr>) ?st" "rule_of ?st rs = Some k"
          "model_target (snd s') = (model_target d)(k := t)" "model_edges (snd s') = model_edges d"
        using mdl.adjust_adaptive [OF ok _ _ _ t, of r rs] f by auto
      obtain ss where "map_of (sendStreams ?st) (rs_sendStreamId rs) = Some ss" "k = (ss_addr ss, ssrc, rs_addr rs)"
        using rule_of_sender [OF s'(3)] f by blast
      with s' t True Some e show ?thesis
        by (intro disjI1) (simp, intro exI [of _ "fst s'"] exI [of _ "snd s'"] exI [of _ ss], simp)
    next
      case False
      then show ?thesis using Some e max by (auto simp: sw_adjustDecodeTarget_def split: option.splits)
    qed
  qed
qed

theorem set_decode_target_call_witness:
  "\<exists>a d'. sw_adjustDecodeTarget model_ops 1 10 3 1 (dp_agent demo_switch, demo_switch) = (Inr True, (a, d'))"
proof -
  have g: "getReceiveStream (ag_state (dp_agent demo_switch)) 1 10 3 =
     Some (0, \<lparr> rs_sessionId = 1, rs_sendingParticipant = 2, rs_addr = IPv4Port 0x0A000002 6000, rs_ssrc = 10, rs_type = video,
       rs_rtx = False, rs_sendStreamId = 0, rs_receivingParticipant = 3, rs_decodeTarget = hi, bandwidthEstimates = [] \<rparr>)"
    by (simp add: getReceiveStream_def demo_switch_def demo_eval)
  show ?thesis
    using set_decode_target_call [OF demo_reachable, where sid = 1 and ssrc = 10 and pid = 3 and target = 1] g by auto
qed

text \<open>
  C7: a bandwidth estimate that a receiver sends for one video stream, in a reachable state, is handled
  without an exception; afterwards the estimate is in the history of that receive stream, and the
  stream and its rule in the data plane have the decode target chosen for the estimate (above 2
  Mbit/s, above 1 Mbit/s, or less); no other stream and no other rule changes. As before, reachable means after
  controller messages that satisfy \<open>wf_AddStream\<close>.
\<close>

theorem remb_drives_target:
  assumes "reachable api cfg n ext d" and "remb_load buf = Inr h" and "num_ssrcs h = 1" and "bit_rate h = Inr rate"
    and "remb_ssrc buf 0 = Inr x" and "getReceiveStreamFrom (ag_state (dp_agent d)) frm (ntohl x) = Some (r, rs)"
    and "rs_type rs = video" and "\<not> rs_rtx rs"
  defines "t \<equiv> if 2000000 < unat rate then hi else if 1000000 < unat rate then mid else lo"
  shows "\<exists>a d' ss. processReceiverEstimatedBitrate model_ops frm buf (dp_agent d, d) = (Inr (), (a, d')) \<and>
    ag_state a = set_recv r (rs\<lparr> bandwidthEstimates := bandwidthEstimates rs @ [rate], rs_decodeTarget := t \<rparr>)
      (ag_state (dp_agent d)) \<and>
    map_of (sendStreams (ag_state (dp_agent d))) (rs_sendStreamId rs) = Some ss \<and>
    model_target d' = (model_target d)((ss_addr ss, rs_ssrc rs, frm) := t) \<and> model_edges d' = model_edges d"
proof -
  let ?st = "ag_state (dp_agent d)"
  have ok: "mdl.ok {} (dp_agent d, d)" using reachable_ok [OF assms(1)] by (simp add: sys_ok_def)
  then have "state_inv ?st" using mdl.ok_inv by fastforce
  then have frm: "rs_addr rs = frm" using mdl.getReceiveStreamFrom_found [OF _ assms(6)] by blast
  have t: "decideDecodeTarget rs rate = t" by (simp add: decideDecodeTarget_def t_def)
  have "rbind (remb_load buf) bit_rate = Inr rate" "adaptive rs" using assms by (simp_all add: adaptive_def)
  then obtain s' k where s': "remb_step model_ops frm buf 0 (dp_agent d, d) = (Inr True, s')"
      "ag_state (fst s') = set_recv r (rs\<lparr> bandwidthEstimates := bandwidthEstimates rs @ [rate], rs_decodeTarget := t \<rparr>) ?st"
      "rule_of ?st rs = Some k" "model_target (snd s') = (model_target d)(k := t)" "model_edges (snd s') = model_edges d"
    using mdl.remb_step_adaptive [OF ok _ assms(5), of rate frm r rs] assms(6) t by auto
  obtain ss where "map_of (sendStreams ?st) (rs_sendStreamId rs) = Some ss" "k = (ss_addr ss, rs_ssrc rs, frm)"
    using rule_of_sender [OF s'(3)] frm by blast
  moreover have "processReceiverEstimatedBitrate model_ops frm buf (dp_agent d, d) = (Inr (), s')"
    using assms(2,3) s'(1) by (simp add: processReceiverEstimatedBitrate_def)
  ultimately show ?thesis
    using s' by (intro exI [of _ "fst s'"] exI [of _ "snd s'"] exI [of _ ss]) simp
qed

definition demo_remb :: "byte list" where
  "demo_remb = [0x8f, 206, 0, 5, 0, 0, 0, 77, 0, 0, 0, 0, 0x52, 0x45, 0x4d, 0x42, 1, 0x0a, 0, 0, 0, 0, 0, 10]"

theorem remb_drives_target_witness:
  "\<exists>a d' rs. processReceiverEstimatedBitrate model_ops (IPv4Port 0x0A000002 6000) demo_remb (dp_agent demo_switch, demo_switch) =
      (Inr (), (a, d')) \<and> map_of (receiveStreams (ag_state a)) 0 = Some rs \<and> rs_decodeTarget rs = lo"
proof -
  let ?rs = "\<lparr> rs_sessionId = 1, rs_sendingParticipant = 2, rs_addr = IPv4Port 0x0A000002 6000, rs_ssrc = 10, rs_type = video,
       rs_rtx = False, rs_sendStreamId = 0, rs_receivingParticipant = 3, rs_decodeTarget = hi, bandwidthEstimates = [] \<rparr>"
  let ?h = "\<lparr> remb_source_ssrc = load32 0 0 0 0, remb_id = load32 0x52 0x45 0x4d 0x42, num_exp_man = load32 1 0x0a 0 0 \<rparr>"
  have h: "remb_load demo_remb = Inr ?h" "remb_ssrc demo_remb 0 = Inr (load32 0 0 0 10)"
    by (simp_all add: demo_remb_def remb_load_def remb_ssrc_def ld32_def)
  have "num_ssrcs ?h = 1" "bit_rate ?h = Inr (push_bit 2 0x20000)"
    by (simp_all add: num_ssrcs_def bit_rate_def ntohl_load32 be32_def)
  moreover have "getReceiveStreamFrom (ag_state (dp_agent demo_switch)) (IPv4Port 0x0A000002 6000) (ntohl (load32 0 0 0 10)) = Some (0, ?rs)"
    by (simp add: getReceiveStreamFrom_def demo_switch_def demo_eval ntohl_load32 be32_def)
  ultimately obtain a d' where
      "processReceiverEstimatedBitrate model_ops (IPv4Port 0x0A000002 6000) demo_remb (dp_agent demo_switch, demo_switch) = (Inr (), (a, d'))"
      "ag_state a = set_recv 0 (?rs\<lparr> bandwidthEstimates := [push_bit 2 0x20000], rs_decodeTarget := lo \<rparr>) (ag_state (dp_agent demo_switch))"
    using remb_drives_target [OF demo_reachable h(1) _ _ h(2)] by fastforce
  then show ?thesis by (simp add: set_recv_def)
qed

lemma addReceiveStream_returns:
  assumes inv: "state_inv st" and bound: "unat (next_receiveStreamId st) + 2 < 2 ^ 32"
    and found: "getSendStream st sid main = Some (k, ss)" and rtx: "rtx = 0 \<or> getSendStream st sid rtx \<noteq> None"
  shows "\<exists>st'. addReceiveStream sid p pid addr main rtx st = (Inr (), st')"
proof -
  let ?st = "put_recv k ss pid addr False st"
  have "map_of (sendStreams st) k = Some ss" using found getSendStream_iff [OF inv] by blast
  then have "state_inv ?st" using state_inv_put_recv [OF inv] bound by simp
  then have "rtx = 0 \<or> getSendStream ?st sid rtx \<noteq> None"
    using rtx getSendStream_None_iff [OF inv] getSendStream_None_iff [of ?st] by simp
  then show ?thesis using found by (auto simp: addReceiveStream_def Let_def)
qed

text \<open>
  A well-formed message that announces a receiver, in a reachable state in which the agent knows the
  sender (and the sender's retransmission stream, if one is announced), is handled without an
  exception and makes the data plane forward the sender's media to the receiver at the highest
  decode target; the receiver's STUN credentials are known afterwards, and no rule is lost or
  changed.
\<close>

lemma receiver_gets_media_path:
  assumes "reachable api cfg n ext d" and "wf_AddStream (ag_state (dp_agent d)) m" and "as_direction m = Some recvonly"
    and "getSendStream (ag_state (dp_agent d)) (as_sessionId m) (as_mainSSRC m) = Some (k, ss)"
    and "as_rtxSSRC m = 0 \<or> getSendStream (ag_state (dp_agent d)) (as_sessionId m) (as_rtxSSRC m) \<noteq> None"
  shows "\<exists>a d'. onAddStream model_ops m (dp_agent d, d) = (Inr (), (a, d')) \<and>
    (ss_addr ss, as_mainSSRC m, IPv4Port (as_ip m) (as_port m)) \<in> model_edges d' \<and>
    model_target d' (ss_addr ss, as_mainSSRC m, IPv4Port (as_ip m) (as_port m)) = hi \<and>
    model_edges d \<subseteq> model_edges d' \<and> model_target d' = model_target d \<and>
    hasPeer (ag_stun a) (IPv4Port (as_ip m) (as_port m))"
proof -
  let ?st = "ag_state (dp_agent d)" and ?addr = "IPv4Port (as_ip m) (as_port m)"
  let ?x = "\<lparr> ds_src = ss_addr ss, ds_dst = ?addr, ds_ssrc = as_mainSSRC m, ds_rtxSsrc = as_rtxSSRC m,
      ds_rtcpSsrc = as_rtcpSSRC m, ds_rtcpRtxSsrc = as_rtcpRtxSSRC m, ds_egressPort = 0 \<rparr>"
  have ok: "mdl.ok {} (dp_agent d, d)" using reachable_ok [OF assms(1)] by (simp add: sys_ok_def)
  then have inv: "state_inv ?st" "agree {} ?st (model_edges d) (model_target d)" "model_inv d"
    by (simp_all add: mdl.ok_def in_step_def)
  have wf: "unat (next_receiveStreamId ?st) + 2 < 2 ^ 32" "?addr \<noteq> IPv4Port 0 0"
      "fresh_for ?st (as_sessionId m) (as_participantId m) ?addr (as_mainSSRC m)"
    using assms(2,3) by (simp_all add: wf_AddStream_def)
  obtain st' where st': "addReceiveStream (as_sessionId m) (ss_sendingParticipant ss) (as_participantId m) ?addr
      (as_mainSSRC m) (as_rtxSSRC m) ?st = (Inr (), st')"
    using addReceiveStream_returns [OF inv(1) wf(1) assms(4,5)] by blast
  obtain q d' where q: "op_addStream model_ops ?x d = (q, d')" by fastforce
  have law: "q = Inr ()" "model_edges d \<subseteq> model_edges d'" "model_target d' = model_target d"
      "(ss_addr ss, as_mainSSRC m, ?addr) \<in> model_edges d'"
    using mdl.add_law [OF inv(3) q] wf(2) by auto
  have hi: "model_target d (ss_addr ss, as_mainSSRC m, ?addr) = hi"
  proof (rule ccontr)
    assume "model_target d (ss_addr ss, as_mainSSRC m, ?addr) \<noteq> hi"
    then obtain r rs where "map_of (receiveStreams ?st) r = Some rs" "rule_of ?st rs = Some (ss_addr ss, as_mainSSRC m, ?addr)"
      by (rule agree_other [OF inv(2)])
    then show False using fresh_forD [OF wf(3), of r rs] by (auto simp: rule_of_def)
  qed
  have "\<exists>a. onAddStream model_ops m (dp_agent d, d) = (Inr (), (a, d')) \<and> hasPeer (ag_stun a) ?addr"
    using assms(3,4) st' q law(1)
    by (simp add: onAddStream_def Let_def on_state_def on_stun_def on_dp_def hasPeer_def addPeer_def)
  with law hi show ?thesis by auto
qed

end
