(* ===== verification/Regex.thy ===== *)
theory Regex
  imports Cpp_Strings
begin

text \<open>
  \<open>std::regex_match\<close> with the ECMAScript grammar, as far as the patterns of \<open>lib/proto/sdp.h\<close> use it: literals,
  character classes, groups, alternatives and greedy repetition. A pattern is a term of the
  datatype \<open>rx\<close>; \<open>ms\<close> lists all ways to match a prefix of a string in the order in which backtracking
  tries them, and a match of the whole string is the first of them that leaves nothing over. The
  equations for patterns in sequence form evaluate a match from left to right; the lemmas on
  repetitions say when a greedy repetition takes exactly a given part of the string.
\<close>

section \<open>Patterns and matching\<close>

datatype rx = Lit string | Cls "char \<Rightarrow> bool" | Eps | Open nat | Close nat | Seq rx rx | Alt rx rx | Star rx

datatype rx_mark = Opened nat string | Closed nat string

text \<open>Iterations of a repetition consume something, so that the length of the string bounds their number.\<close>

fun star_loop :: "(string \<Rightarrow> (rx_mark list \<times> string) list) \<Rightarrow> nat \<Rightarrow> string \<Rightarrow> (rx_mark list \<times> string) list" where
  "star_loop f 0 s = [([], s)]"
| "star_loop f (Suc n) s =
     concat (map (\<lambda>(c, t). if length t < length s then map (\<lambda>(d, u). (c @ d, u)) (star_loop f n t) else []) (f s)) @ [([], s)]"

primrec ms :: "rx \<Rightarrow> string \<Rightarrow> (rx_mark list \<times> string) list" where
  "ms (Lit w) s = (if prefix w s then [([], drop (length w) s)] else [])"
| "ms (Cls p) s = (case s of [] \<Rightarrow> [] | c # t \<Rightarrow> if p c then [([], t)] else [])"
| "ms Eps s = [([], s)]"
| "ms (Open i) s = [([Opened i s], s)]"
| "ms (Close i) s = [([Closed i s], s)]"
| "ms (Seq a b) s = concat (map (\<lambda>(c, t). map (\<lambda>(d, u). (c @ d, u)) (ms b t)) (ms a s))"
| "ms (Alt a b) s = ms a s @ ms b s"
| "ms (Star a) s = star_loop (ms a) (length s) s"

definition full :: "(rx_mark list \<times> string) list \<Rightarrow> rx_mark list option" where
  "full L = map_option fst (find (\<lambda>(c, t). t = []) L)"

definition regex_match :: "rx \<Rightarrow> string \<Rightarrow> rx_mark list option" where
  "regex_match r s = full (ms r s)"

text \<open>The text a group matched, if it took part in the match; otherwise it reads as the empty string.\<close>

fun opened :: "nat \<Rightarrow> rx_mark list \<Rightarrow> string option" where
  "opened i [] = None"
| "opened i (Opened j s # xs) = (case opened i xs of Some t \<Rightarrow> Some t | None \<Rightarrow> if i = j then Some s else None)"
| "opened i (Closed j s # xs) = opened i xs"

fun closed :: "nat \<Rightarrow> rx_mark list \<Rightarrow> string option" where
  "closed i [] = None"
| "closed i (Opened j s # xs) = closed i xs"
| "closed i (Closed j s # xs) = (case closed i xs of Some t \<Rightarrow> Some t | None \<Rightarrow> if i = j then Some s else None)"

definition group :: "rx_mark list \<Rightarrow> nat \<Rightarrow> string option" where
  "group m i = (case (opened i m, closed i m) of (Some a, Some b) \<Rightarrow> Some (take (length a - length b) a) | _ \<Rightarrow> None)"

definition sub :: "rx_mark list \<Rightarrow> nat \<Rightarrow> string" where
  "sub m i = (case group m i of Some s \<Rightarrow> s | None \<Rightarrow> [])"

text \<open>The constructs of the grammar.\<close>

fun cat :: "rx list \<Rightarrow> rx" where
  "cat [] = Eps"
| "cat (r # rs) = Seq r (cat rs)"

definition grp :: "nat \<Rightarrow> rx \<Rightarrow> rx" where
  "grp i r = Seq (Open i) (Seq r (Close i))"

definition plus :: "rx \<Rightarrow> rx" where
  "plus r = Seq r (Star r)"

definition opt :: "rx \<Rightarrow> rx" where
  "opt r = Alt r Eps"

fun up_to :: "nat \<Rightarrow> rx \<Rightarrow> rx" where
  "up_to 0 r = Eps"
| "up_to (Suc n) r = Alt (Seq r (up_to n r)) Eps"

definition rep1 :: "nat \<Rightarrow> rx \<Rightarrow> rx" where
  "rep1 n r = Seq r (up_to (n - 1) r)"

fun words :: "string list \<Rightarrow> rx" where
  "words [] = Cls (\<lambda>c. False)"
| "words [w] = Lit w"
| "words (w # ws) = Alt (Lit w) (words ws)"

definition is_word :: "char \<Rightarrow> bool" where
  "is_word c \<longleftrightarrow> is_digit c \<or> 65 \<le> code c \<and> code c \<le> 90 \<or> 97 \<le> code c \<and> code c \<le> 122 \<or> c = CHR ''_''"

definition is_dot :: "char \<Rightarrow> bool" where
  "is_dot c \<longleftrightarrow> code c \<noteq> 10 \<and> code c \<noteq> 13"

section \<open>Evaluation from left to right\<close>

lemma full_append: "full (L @ M) = (case full L of Some c \<Rightarrow> Some c | None \<Rightarrow> full M)"
  by (induction L) (auto simp: full_def split: option.splits)

lemma full_map: "full (map (\<lambda>(d, u). (c @ d, u)) L) = map_option (\<lambda>d. c @ d) (full L)"
  by (induction L) (auto simp: full_def)

lemma full_Nil [simp]: "full [] = None"
  by (simp add: full_def)

lemma match_Eps [simp]: "regex_match Eps s = (if s = [] then Some [] else None)"
  by (simp add: regex_match_def full_def)

lemma match_Seq_Eps [simp]: "regex_match (Seq Eps b) s = regex_match b s"
  by (simp add: regex_match_def split_beta)

lemma match_Lit [simp]: "regex_match (Seq (Lit w) b) s = (if prefix w s then regex_match b (drop (length w) s) else None)"
  by (simp add: regex_match_def split_beta)

lemma match_Cls_Nil [simp]: "regex_match (Seq (Cls p) b) [] = None"
  by (simp add: regex_match_def)

lemma match_Cls_Cons [simp]: "regex_match (Seq (Cls p) b) (c # t) = (if p c then regex_match b t else None)"
  by (simp add: regex_match_def split_beta)

lemma match_Open [simp]: "regex_match (Seq (Open i) b) s = map_option (Cons (Opened i s)) (regex_match b s)"
  using full_map [of "[Opened i s]" "ms b s"] by (simp add: regex_match_def)

lemma match_Close [simp]: "regex_match (Seq (Close i) b) s = map_option (Cons (Closed i s)) (regex_match b s)"
  using full_map [of "[Closed i s]" "ms b s"] by (simp add: regex_match_def)

lemma ms_assoc: "ms (Seq (Seq a b) c) s = ms (Seq a (Seq b c)) s"
proof -
  have "concat (map (\<lambda>(x, t). map (\<lambda>(d, u). (x @ d, u)) (g t)) (concat (map (\<lambda>(x, t). map (\<lambda>(d, u). (x @ d, u)) (f t)) L))) =
    concat (map (\<lambda>(x, t). map (\<lambda>(d, u). (x @ d, u)) (concat (map (\<lambda>(y, t). map (\<lambda>(d, u). (y @ d, u)) (g t)) (f t)))) L)"
    for f g :: "string \<Rightarrow> (rx_mark list \<times> string) list" and L
    by (induction L) (auto simp: map_concat comp_def split_beta)
  then show ?thesis by simp
qed

lemma match_assoc [simp]: "regex_match (Seq (Seq a b) c) s = regex_match (Seq a (Seq b c)) s"
  unfolding regex_match_def ms_assoc ..

lemma match_Alt [simp]:
  "regex_match (Seq (Alt a c) b) s = (case regex_match (Seq a b) s of Some m \<Rightarrow> Some m | None \<Rightarrow> regex_match (Seq c b) s)"
  unfolding regex_match_def by (simp add: full_append split: option.splits)

lemma match_grp [simp]: "regex_match (Seq (grp i r) b) s = map_option (Cons (Opened i s)) (regex_match (Seq r (Seq (Close i) b)) s)"
  by (simp add: grp_def)

lemma match_opt [simp]:
  "regex_match (Seq (opt a) b) s = (case regex_match (Seq a b) s of Some m \<Rightarrow> Some m | None \<Rightarrow> regex_match b s)"
  by (simp add: opt_def split: option.splits)

lemma match_words:
  "regex_match (Seq (words (w # ws)) b) s = (case regex_match (Seq (Lit w) b) s of Some m \<Rightarrow> Some m | None \<Rightarrow> regex_match (Seq (words ws) b) s)"
proof (cases ws)
  case Nil
  have "regex_match (Seq (Cls (\<lambda>c. False)) b) s = None" by (cases s) auto
  then show ?thesis using Nil by (auto split: option.splits)
qed (auto split: option.splits)

section \<open>Repetition\<close>

text \<open>A pattern that never matches the empty string.\<close>

definition eats :: "rx \<Rightarrow> bool" where
  "eats r \<longleftrightarrow> (\<forall>s. \<forall>(c, t) \<in> set (ms r s). length t < length s)"

lemma star_loop_fuel: "length s \<le> n \<Longrightarrow> length s \<le> m \<Longrightarrow> star_loop f n s = star_loop f m s"
proof (induction n arbitrary: s m)
  case 0
  then show ?case by (cases m) auto
next
  case (Suc n)
  show ?case
  proof (cases m)
    case 0
    then show ?thesis using Suc.prems by auto
  next
    case (Suc k)
    have "length t < length s \<Longrightarrow> star_loop f n t = star_loop f k t" for t
      using Suc.IH [of t k] Suc.prems Suc by simp
    then have "(\<lambda>(c, t). if length t < length s then map (\<lambda>(d, u). (c @ d, u)) (star_loop f n t) else []) =
        (\<lambda>(c, t). if length t < length s then map (\<lambda>(d, u). (c @ d, u)) (star_loop f k t) else [])"
      by (auto simp: fun_eq_iff)
    then show ?thesis using Suc by simp
  qed
qed

lemma ms_Star:
  assumes "eats r"
  shows "ms (Star r) s = ms (Seq r (Star r)) s @ [([], s)]"
proof -
  have eat: "length t < length s" if "(c, t) \<in> set (ms r s)" for c t
    using assms that unfolding eats_def by blast
  show ?thesis
  proof (cases s)
    case Nil
    then have "ms r s = []" using assms unfolding eats_def by (cases "ms r []") (auto dest!: spec [of _ "[]"])
    then show ?thesis using Nil by simp
  next
    case (Cons a s')
    have "star_loop (ms r) (length s) s = concat (map (\<lambda>(c, t). map (\<lambda>(d, u). (c @ d, u)) (ms (Star r) t)) (ms r s)) @ [([], s)]"
      using Cons eat [unfolded Cons] by (auto intro!: arg_cong [of _ _ concat] map_cong star_loop_fuel simp: less_Suc_eq_le)
    then show ?thesis by simp
  qed
qed

lemma match_Star:
  assumes "eats r"
  shows "regex_match (Seq (Star r) b) s =
    (case regex_match (Seq r (Seq (Star r) b)) s of Some m \<Rightarrow> Some m | None \<Rightarrow> regex_match b s)"
proof -
  have "ms (Seq (Star r) b) s = ms (Seq (Seq r (Star r)) b) s @ ms b s"
    using ms_Star [OF assms, of s] by (simp del: ms.simps(8) add: split_beta)
  then show ?thesis
    unfolding regex_match_def ms_assoc full_append [symmetric] by simp
qed

lemma eats_Cls [simp]: "eats (Cls p)"
  by (auto simp: eats_def split: list.splits)

lemma star_loop_length:
  assumes "\<And>s c t. (c, t) \<in> set (f s) \<Longrightarrow> length t \<le> length s"
  shows "(c, t) \<in> set (star_loop f n s) \<Longrightarrow> length t \<le> length s"
proof (induction n arbitrary: s c)
  case (Suc n)
  then show ?case using assms by (fastforce split: if_splits)
qed simp

lemma ms_length: "(c, t) \<in> set (ms r s) \<Longrightarrow> length t \<le> length s"
proof (induction r arbitrary: s c t)
  case (Star r)
  show ?case using star_loop_length [of "ms r", OF Star.IH] Star.prems by simp
qed (fastforce split: list.splits if_splits)+

lemma eats_Seq_Cls [simp]: "eats (Seq (Cls p) r)"
  using ms_length [of _ _ r] by (fastforce simp: eats_def split: list.splits)

text \<open>A pattern that does not match a string that starts with a character of the class \<open>p\<close>.\<close>

inductive avoids :: "(char \<Rightarrow> bool) \<Rightarrow> rx \<Rightarrow> bool" for p where
  av_Eps: "avoids p Eps"
| av_Lit: "w \<noteq> [] \<Longrightarrow> \<not> p (hd w) \<Longrightarrow> avoids p (Seq (Lit w) b)"
| av_Cls: "(\<And>c. p c \<Longrightarrow> \<not> q c) \<Longrightarrow> avoids p (Seq (Cls q) b)"
| av_Open: "avoids p b \<Longrightarrow> avoids p (Seq (Open i) b)"
| av_Close: "avoids p b \<Longrightarrow> avoids p (Seq (Close i) b)"
| av_Seq_Eps: "avoids p b \<Longrightarrow> avoids p (Seq Eps b)"
| av_Seq: "avoids p (Seq a (Seq b c)) \<Longrightarrow> avoids p (Seq (Seq a b) c)"
| av_Star: "eats r \<Longrightarrow> avoids p (Seq r (Seq (Star r) b)) \<Longrightarrow> avoids p b \<Longrightarrow> avoids p (Seq (Star r) b)"
| av_Alt: "avoids p (Seq a c) \<Longrightarrow> avoids p (Seq b c) \<Longrightarrow> avoids p (Seq (Alt a b) c)"

lemma avoids_match: "avoids p b \<Longrightarrow> p c \<Longrightarrow> regex_match b (c # s) = None"
  by (induction rule: avoids.induct) (auto simp: neq_Nil_conv match_Star)

lemma av_grp: "avoids p (Seq r (Seq (Close i) b)) \<Longrightarrow> avoids p (Seq (grp i r) b)"
  unfolding grp_def by (intro av_Seq av_Open)

lemma av_opt: "avoids p (Seq r b) \<Longrightarrow> avoids p b \<Longrightarrow> avoids p (Seq (opt r) b)"
  unfolding opt_def by (intro av_Alt av_Seq_Eps)

lemma av_plus: "avoids p (Seq r (Seq (Star r) b)) \<Longrightarrow> avoids p (Seq (plus r) b)"
  unfolding plus_def by (intro av_Seq)

lemmas avoids_intros [simp] = av_Eps av_Lit av_Cls av_Open av_Close av_Seq_Eps av_Seq av_Star av_Alt av_grp av_opt av_plus

text \<open>A greedy repetition takes a run of the class up to a character where the rest of the pattern can go on.\<close>

lemma match_run:
  assumes "avoids p b" and "list_all p w" and "t = [] \<or> \<not> p (hd t)"
  shows "regex_match (Seq (Star (Cls p)) b) (w @ t) = regex_match b t"
  using assms(2)
proof (induction w)
  case Nil
  show ?case
    using assms(3) by (cases t; subst match_Star) auto
next
  case (Cons c w)
  then show ?case
    using avoids_match [OF assms(1), of c "w @ t"] by (subst match_Star) (auto split: option.splits)
qed

text \<open>At the end of the pattern it takes everything.\<close>

lemma match_run_end:
  assumes "regex_match b [] \<noteq> None" and "list_all p w"
  shows "regex_match (Seq (Star (Cls p)) b) w = regex_match b []"
  using assms(2)
proof (induction w)
  case Nil
  show ?case by (subst match_Star) auto
next
  case (Cons c w)
  then show ?case using assms(1) by (subst match_Star) (auto split: option.splits)
qed

lemma match_plus:
  assumes "avoids p b" and "w \<noteq> []" and "list_all p w" and "t = [] \<or> \<not> p (hd t)"
  shows "regex_match (Seq (plus (Cls p)) b) (w @ t) = regex_match b t"
  using assms match_run [OF assms(1) _ assms(4), of "tl w"] by (cases w) (auto simp: plus_def)

lemma match_plus_end:
  assumes "regex_match b [] \<noteq> None" and "w \<noteq> []" and "list_all p w"
  shows "regex_match (Seq (plus (Cls p)) b) w = regex_match b []"
  using assms match_run_end [OF assms(1), of p "tl w"] by (cases w) (auto simp: plus_def)

lemma match_up_to:
  assumes "avoids p b" and "list_all p w" and "length w \<le> n" and "t = [] \<or> \<not> p (hd t)"
  shows "regex_match (Seq (up_to n (Cls p)) b) (w @ t) = regex_match b t"
  using assms(2,3)
proof (induction n arbitrary: w)
  case (Suc n)
  show ?case
  proof (cases w)
    case Nil
    then show ?thesis using assms(4) by (cases t) auto
  next
    case (Cons c w')
    then show ?thesis
      using Suc.IH [of w'] Suc.prems avoids_match [OF assms(1), of c "w' @ t"] by (auto split: option.splits)
  qed
qed simp

lemma match_rep1:
  assumes "avoids p b" and "w \<noteq> []" and "list_all p w" and "length w \<le> n" and "t = [] \<or> \<not> p (hd t)"
  shows "regex_match (Seq (rep1 n (Cls p)) b) (w @ t) = regex_match b t"
  using assms match_up_to [OF assms(1), of "tl w" "n - 1" t] by (cases w) (auto simp: rep1_def)

text \<open>Reading groups.\<close>

lemma group_simps [simp]:
  "opened i (m @ n) = (case opened i n of Some t \<Rightarrow> Some t | None \<Rightarrow> opened i m)"
  "closed i (m @ n) = (case closed i n of Some t \<Rightarrow> Some t | None \<Rightarrow> closed i m)"
  by (induction m rule: opened.induct; auto split: option.splits; fail)
    (induction m rule: closed.induct; auto split: option.splits; fail)

end
