(* ===== verification/SDP.thy ===== *)
theory SDP
  imports Regex Rpc
begin

text \<open>
  \<open>lib/proto/sdp.{h,cc}\<close>: session descriptions, their parser, which matches every line against the patterns of
  the header file, and their printer. A class is a record, its constructor from text a function into
  \<open>result\<close>. \<open>util::formatString\<close> is \<open>snprintf\<close>: a \<open>%u\<close> conversion prints the low 32 bits
  of its argument, a \<open>%s\<close> conversion what is before the first NUL of its argument (\<open>c_str\<close>).
\<close>

section \<open>Data\<close>

record Origin =
  userName :: string
  o_sessionId :: u64
  sessionVersion :: u64
  o_netType :: string
  o_addrType :: string
  unicastAddr :: string

definition Origin_default :: Origin where
  "Origin_default = \<lparr> userName = ''-'', o_sessionId = 0, sessionVersion = 0, o_netType = ''IN'', o_addrType = ''IP4'',
     unicastAddr = ''0.0.0.0'' \<rparr>"

record Timing =
  t_start :: u64
  t_stop :: u64

record ConnectionData =
  c_netType :: string
  c_addrType :: string
  connectionAddress :: string

record SSRCEntry =
  e_ssrc :: u32
  cname :: string
  e_msid :: string

record SSRCDescription =
  ssrcs :: "SSRCEntry list"

record ICECandidate =
  foundation :: string
  componentId :: u32
  protocol :: string
  priority :: u64
  address :: string
  ic_port :: u16
  ic_type :: string
  remainder :: string

record MediaFormat =
  pt :: u32
  codec :: string
  clockRate :: u32
  channels :: "u32 option"
  fbTypes :: "string list"
  fmtParams :: "string list"

record RTPExtension =
  ext_identifier :: u32
  uri :: string

record MediaStreamIdentifier =
  ms_identifier :: string
  appData :: string

record RTCPConfiguration =
  rc_port :: u16
  rc_netType :: string
  rc_addrType :: string
  rc_connectionAddress :: string

datatype MDType = Type_audio | Type_video

text \<open>\<open>md_type\<close> is \<open>None\<close> while the member is uninitialised.\<close>

record MediaDescription =
  md_type :: "MDType option"
  md_port :: u16
  protocols :: string
  connectionData :: "ConnectionData option"
  rtcpConfiguration :: "RTCPConfiguration option"
  iceCandidates :: "ICECandidate list"
  mediaFormats :: "MediaFormat list"
  iceUfrag :: "string option"
  icePwd :: "string option"
  iceOtherLines :: "string list"
  mid :: "string option"
  direction :: "Direction option"
  extensions :: "RTPExtension list"
  md_msid :: "MediaStreamIdentifier option"
  rtcpOtherLines :: "string list"
  ssrcDescription :: "SSRCDescription option"
  md_otherLines :: "string list"

definition MediaDescription_default :: MediaDescription where
  "MediaDescription_default = \<lparr> md_type = None, md_port = 0, protocols = [], connectionData = None, rtcpConfiguration = None,
     iceCandidates = [], mediaFormats = [], iceUfrag = None, icePwd = None, iceOtherLines = [], mid = None, direction = None,
     extensions = [], md_msid = None, rtcpOtherLines = [], ssrcDescription = None, md_otherLines = [] \<rparr>"

record SessionDescription =
  version :: u32
  origin :: Origin
  sessionName :: string
  timing :: "Timing list"
  mediaDescriptions :: "MediaDescription list"
  otherLines :: "string list"

definition SessionDescription_empty :: SessionDescription where
  "SessionDescription_empty = \<lparr> version = 0, origin = Origin_default, sessionName = ''-'', timing = [], mediaDescriptions = [],
     otherLines = [] \<rparr>"

text \<open>The default constructor adds one timing.\<close>

definition SessionDescription_default :: SessionDescription where
  "SessionDescription_default = SessionDescription_empty\<lparr> timing := [\<lparr> t_start = 0, t_stop = 0 \<rparr>] \<rparr>"

section \<open>Patterns\<close>

definition digits :: rx where "digits = plus (Cls is_digit)"
definition word_chars :: rx where "word_chars = plus (Cls is_word)"
definition anything :: rx where "anything = plus (Cls is_dot)"

definition O_LINE :: rx where
  "O_LINE = cat [Lit ''o='', grp 1 (plus (Cls (\<lambda>c. is_word c \<or> is_digit c \<or> c = CHR ''-''))), Lit '' '', grp 2 digits, Lit '' '', grp 3 digits,
     Lit '' '', grp 4 word_chars, Lit '' '', grp 5 word_chars, Lit '' '', grp 6 (plus (Cls (\<lambda>c. is_digit c \<or> c = CHR '':'' \<or> c = CHR ''.'')))]"

definition T_LINE :: rx where
  "T_LINE = cat [Lit ''t='', grp 1 digits, Lit '' '', grp 2 digits]"

definition C_LINE :: rx where
  "C_LINE = cat [Lit ''c='', grp 1 (Lit ''IN''), Lit '' '', grp 2 (words [''IP4'', ''IP6'']), Lit '' '', grp 3 anything]"

definition SSRC_RX :: rx where
  "SSRC_RX = cat [Lit ''a=ssrc'', anything]"

definition SSRC_GROUP :: rx where
  "SSRC_GROUP = cat [Lit ''a=ssrc-group:'', grp 1 (words [''FID'', ''FEC'']), Lit '' '',
     grp 2 (Seq digits (plus (Seq (Cls is_space) digits)))]"

definition SSRC_ATTR :: rx where
  "SSRC_ATTR = cat [Lit ''a=ssrc:'', grp 1 digits, Lit '' '', grp 2 (words [''msid'', ''cname'']), Lit '':'',
     grp 3 (plus (Cls (\<lambda>c. is_word c \<or> is_space c \<or> c = CHR ''-'' \<or> c = CHR ''+'')))]"

definition octet :: rx where "octet = rep1 3 (Cls is_digit)"
definition quad :: rx where "quad = cat [octet, Lit ''.'', octet, Lit ''.'', octet, Lit ''.'', octet]"

definition ICE_CANDIDATE :: rx where
  "ICE_CANDIDATE = cat [Lit ''a=candidate:'',
     grp 1 (plus (Cls (\<lambda>c. is_digit c \<or> 97 \<le> code c \<and> code c \<le> 122 \<or> c = CHR ''/'' \<or> c = CHR ''+''))), Lit '' '', grp 2 octet, Lit '' '',
     grp 3 (words [''tcp'', ''udp'']), Lit '' '', grp 4 digits, Lit '' '',
     grp 5 quad, Lit '' '', grp 6 (rep1 5 (Cls is_digit)), Lit '' typ '',
     grp 7 (words [''host'', ''srflx'', ''prflx'', ''relay'']), opt (Cls is_space), grp 8 (Star (Cls is_dot))]"

definition MEDIA_FORMAT :: rx where
  "MEDIA_FORMAT = cat [Lit ''a='', words [''rtpmap'', ''rtcp-fb'', ''fmtp''], anything]"

definition RTP_MAP :: rx where
  "RTP_MAP = cat [Lit ''a=rtpmap:'', grp 1 digits, Lit '' '', grp 2 word_chars, Lit ''/'', grp 3 digits,
     opt (cat [Lit ''/'', opt (grp 4 digits)])]"

definition RTCP_FB :: rx where
  "RTCP_FB = cat [Lit ''a=rtcp-fb:'', grp 1 digits, Lit '' '', grp 2 (plus (Cls (\<lambda>c. is_word c \<or> is_space c \<or> c = CHR ''-'')))]"

definition RTP_FMTP :: rx where
  "RTP_FMTP = cat [Lit ''a=fmtp:'', grp 1 digits, Lit '' '', grp 2 anything]"

definition EXTMAP :: rx where
  "EXTMAP = cat [Lit ''a=extmap:'', grp 1 digits, Lit '' '', grp 2 anything]"

definition MSID_RX :: rx where
  "MSID_RX = cat [Lit ''a=msid:'', grp 1 (plus (Cls (\<lambda>c. \<not> is_space c))),
     opt (cat [Cls is_space, grp 2 (plus (Cls (\<lambda>c. \<not> is_space c)))])]"

definition RTCP_RX :: rx where
  "RTCP_RX = cat [Lit ''a=rtcp:'', grp 1 digits, opt (cat [Lit '' '', grp 2 (Lit ''IN''), Lit '' '', grp 3 (Lit ''IP4''), Lit '' '', grp 4 anything])]"

definition M_LINE :: rx where
  "M_LINE = cat [Lit ''m='', grp 1 (words [''audio'', ''video'']), Cls is_space, grp 2 (rep1 5 (Cls is_digit)), Cls is_space,
     grp 3 (plus (Cls (\<lambda>c. c = CHR ''/'' \<or> is_word c))), Cls is_space,
     grp 4 (plus (Cls (\<lambda>c. is_digit c \<or> is_space c \<or> c \<in> set ''{1,3}?'')))]"

definition ice_char :: "char \<Rightarrow> bool" where
  "ice_char c \<longleftrightarrow> is_word c \<or> c = CHR ''+'' \<or> c = CHR ''/'' \<or> c = CHR '':''"

definition ICE_UFRAG :: rx where "ICE_UFRAG = cat [Lit ''a=ice-ufrag:'', grp 1 (plus (Cls ice_char))]"
definition ICE_PWD :: rx where "ICE_PWD = cat [Lit ''a=ice-pwd:'', grp 1 (plus (Cls ice_char))]"
definition MID_RX :: rx where "MID_RX = cat [Lit ''a=mid:'', grp 1 word_chars]"
definition DIRECTION_RX :: rx where
  "DIRECTION_RX = cat [Lit ''a='', grp 1 (words [''sendrecv'', ''sendonly'', ''recvonly'', ''inactive''])]"
definition ICE_OTHER :: rx where "ICE_OTHER = cat [Lit ''a=ice-'', anything]"
definition RTCP_OTHER :: rx where "RTCP_OTHER = cat [Lit ''a=rtcp-'', grp 1 (words [''mux'', ''rsize''])]"
definition V_LINE :: rx where "V_LINE = cat [Lit ''v='', grp 1 digits]"
definition S_LINE :: rx where "S_LINE = cat [Lit ''s='', grp 1 anything]"
definition BUNDLE_RX :: rx where "BUNDLE_RX = cat [Lit ''a=group:BUNDLE'', anything]"

section \<open>Lines\<close>

definition stoul_u :: "string \<Rightarrow> u32 result" where
  "stoul_u s = rbind (stoul s) (\<lambda>x. Inr (ucast x))"

definition stoul_us :: "string \<Rightarrow> u16 result" where
  "stoul_us s = rbind (stoul s) (\<lambda>x. Inr (ucast x))"

definition Origin_of :: "string \<Rightarrow> Origin result" where
  "Origin_of l =
     (case regex_match O_LINE l of
        None \<Rightarrow> Inr Origin_default
      | Some m \<Rightarrow>
          rbind (stoul (sub m 2)) (\<lambda>a. rbind (stoul (sub m 3)) (\<lambda>b.
            Inr \<lparr> userName = sub m 1, o_sessionId = a, sessionVersion = b, o_netType = sub m 4, o_addrType = sub m 5,
              unicastAddr = sub m 6 \<rparr>)))"

definition Origin_line :: "Origin \<Rightarrow> string" where
  "Origin_line x = ''o='' @ c_str (userName x) @ '' '' @ dec (unat (o_sessionId x)) @ '' '' @ dec (unat (sessionVersion x)) @ '' '' @
     c_str (o_netType x) @ '' '' @ c_str (o_addrType x) @ '' '' @ c_str (unicastAddr x)"

definition Timing_of :: "string \<Rightarrow> Timing result" where
  "Timing_of l =
     (case regex_match T_LINE l of
        None \<Rightarrow> Inr \<lparr> t_start = 0, t_stop = 0 \<rparr>
      | Some m \<Rightarrow> rbind (stoul (sub m 1)) (\<lambda>a. rbind (stoul (sub m 2)) (\<lambda>b. Inr \<lparr> t_start = a, t_stop = b \<rparr>)))"

definition Timing_line :: "Timing \<Rightarrow> string" where
  "Timing_line x = ''t='' @ dec (unat (t_start x)) @ '' '' @ dec (unat (t_stop x))"

definition ConnectionData_of :: "string \<Rightarrow> ConnectionData" where
  "ConnectionData_of l =
     (case regex_match C_LINE l of
        None \<Rightarrow> \<lparr> c_netType = [], c_addrType = [], connectionAddress = [] \<rparr>
      | Some m \<Rightarrow> \<lparr> c_netType = sub m 1, c_addrType = sub m 2, connectionAddress = sub m 3 \<rparr>)"

definition ConnectionData_line :: "ConnectionData \<Rightarrow> string" where
  "ConnectionData_line x = ''c='' @ c_str (c_netType x) @ '' '' @ c_str (c_addrType x) @ '' '' @ c_str (connectionAddress x)"

text \<open>The parts of an SSRC group, and one attribute of an SSRC.\<close>

fun ssrc_parts :: "string list \<Rightarrow> SSRCEntry list \<Rightarrow> SSRCEntry list result" where
  "ssrc_parts [] es = Inr es"
| "ssrc_parts (p # ps) es = rbind (stoul_u p) (\<lambda>x. ssrc_parts ps (es @ [\<lparr> e_ssrc = x, cname = [], e_msid = [] \<rparr>]))"

definition set_attr :: "string \<Rightarrow> string \<Rightarrow> SSRCEntry \<Rightarrow> SSRCEntry" where
  "set_attr key v e = (if key = ''cname'' then e\<lparr> cname := v \<rparr> else if key = ''msid'' then e\<lparr> e_msid := v \<rparr> else e)"

fun upd_ssrc :: "u32 \<Rightarrow> (SSRCEntry \<Rightarrow> SSRCEntry) \<Rightarrow> SSRCEntry list \<Rightarrow> SSRCEntry list" where
  "upd_ssrc x f [] = [f \<lparr> e_ssrc = x, cname = [], e_msid = [] \<rparr>]"
| "upd_ssrc x f (e # es) = (if e_ssrc e = x then f e # es else e # upd_ssrc x f es)"

definition ssrc_line :: "string \<Rightarrow> SSRCEntry list \<Rightarrow> SSRCEntry list result" where
  "ssrc_line l es =
     (case regex_match SSRC_GROUP l of
        Some m \<Rightarrow>
          (case splitString (sub m 2) '' '' of
             None \<Rightarrow> Inl (Undefined_behaviour ''endless loop'')
           | Some ps \<Rightarrow> ssrc_parts ps es)
      | None \<Rightarrow>
          (case regex_match SSRC_ATTR l of
             Some m \<Rightarrow> rbind (stoul_u (sub m 1)) (\<lambda>x. Inr (upd_ssrc x (set_attr (sub m 2) (sub m 3)) es))
           | None \<Rightarrow> Inr es))"

fun ssrc_loop :: "string list \<Rightarrow> SSRCEntry list \<Rightarrow> SSRCEntry list result" where
  "ssrc_loop [] es = Inr es"
| "ssrc_loop (l # ls) es = rbind (ssrc_line l es) (ssrc_loop ls)"

definition SSRCDescription_of :: "string list \<Rightarrow> SSRCDescription result" where
  "SSRCDescription_of ls = rbind (ssrc_loop ls []) (\<lambda>es. Inr \<lparr> ssrcs = es \<rparr>)"

definition attr_lines :: "SSRCEntry \<Rightarrow> string list" where
  "attr_lines e =
     (if cname e \<noteq> [] then [''a=ssrc:'' @ dec (unat (e_ssrc e)) @ '' cname:'' @ c_str (cname e)] else []) @
     (if e_msid e \<noteq> [] then [''a=ssrc:'' @ dec (unat (e_ssrc e)) @ '' msid:'' @ c_str (e_msid e)] else [])"

definition SSRCDescription_lines :: "SSRCDescription \<Rightarrow> string list" where
  "SSRCDescription_lines x =
     (if 1 < length (ssrcs x)
      then [''a=ssrc-group:FID '' @ joinStrings (map (\<lambda>e. dec (unat (e_ssrc e))) (ssrcs x)) '' ''] else []) @
     concat (map attr_lines (ssrcs x))"

definition ssrcValues :: "SSRCDescription \<Rightarrow> u32 list" where
  "ssrcValues x = map e_ssrc (ssrcs x)"

definition ICECandidate_default :: ICECandidate where
  "ICECandidate_default = \<lparr> foundation = [], componentId = 0, protocol = [], priority = 0, address = [], ic_port = 0, ic_type = [],
     remainder = [] \<rparr>"

definition ICECandidate_of :: "string \<Rightarrow> ICECandidate result" where
  "ICECandidate_of l =
     (case regex_match ICE_CANDIDATE l of
        None \<Rightarrow> Inr ICECandidate_default
      | Some m \<Rightarrow>
          rbind (stoul_u (sub m 2)) (\<lambda>c. rbind (stoul (sub m 4)) (\<lambda>p. rbind (stoul_us (sub m 6)) (\<lambda>q.
            Inr \<lparr> foundation = sub m 1, componentId = c, protocol = sub m 3, priority = p, address = sub m 5, ic_port = q,
              ic_type = sub m 7, remainder = sub m 8 \<rparr>))))"

definition ICECandidate_line :: "ICECandidate \<Rightarrow> string" where
  "ICECandidate_line x =
     ''a=candidate:'' @ c_str (foundation x) @ '' '' @ dec (unat (componentId x)) @ '' '' @ c_str (protocol x) @ '' '' @
     dec (unat (priority x) mod 2 ^ 32) @ '' '' @ c_str (address x) @ '' '' @ dec (unat (ic_port x)) @ '' typ '' @ c_str (ic_type x) @
     (if remainder x \<noteq> [] then '' '' @ remainder x else [])"

definition MediaFormat_default :: MediaFormat where
  "MediaFormat_default = \<lparr> pt = 0, codec = [], clockRate = 0, channels = None, fbTypes = [], fmtParams = [] \<rparr>"

definition fmt_line :: "string \<Rightarrow> MediaFormat \<Rightarrow> MediaFormat result" where
  "fmt_line l f =
     (case regex_match RTP_MAP l of
        Some m \<Rightarrow>
          rbind (stoul_u (sub m 1)) (\<lambda>p. rbind (stoul_u (sub m 3)) (\<lambda>r.
            let f = f\<lparr> pt := p, codec := sub m 2, clockRate := r \<rparr> in
            (case group m 4 of
               None \<Rightarrow> Inr f
             | Some c \<Rightarrow> rbind (stoul_u c) (\<lambda>n. Inr (f\<lparr> channels := Some n \<rparr>)))))
      | None \<Rightarrow>
          (case regex_match RTCP_FB l of
             Some m \<Rightarrow> rbind (stoul (sub m 1)) (\<lambda>p. Inr (if p = ucast (pt f) then f\<lparr> fbTypes := fbTypes f @ [sub m 2] \<rparr> else f))
           | None \<Rightarrow>
               (case regex_match RTP_FMTP l of
                  Some m \<Rightarrow> rbind (stoul (sub m 1)) (\<lambda>p. Inr (if p = ucast (pt f) then f\<lparr> fmtParams := fmtParams f @ [sub m 2] \<rparr> else f))
                | None \<Rightarrow> Inr f)))"

fun fmt_loop :: "string list \<Rightarrow> MediaFormat \<Rightarrow> MediaFormat result" where
  "fmt_loop [] f = Inr f"
| "fmt_loop (l # ls) f = rbind (fmt_line l f) (fmt_loop ls)"

definition MediaFormat_of :: "string list \<Rightarrow> MediaFormat result" where
  "MediaFormat_of ls = fmt_loop ls MediaFormat_default"

definition MediaFormat_lines :: "MediaFormat \<Rightarrow> string list" where
  "MediaFormat_lines f =
     [''a=rtpmap:'' @ dec (unat (pt f)) @ '' '' @ c_str (codec f) @ ''/'' @ dec (unat (clockRate f)) @
        (case channels f of Some n \<Rightarrow> ''/'' @ dec (unat n) | None \<Rightarrow> [])] @
     map (\<lambda>t. ''a=rtcp-fb:'' @ dec (unat (pt f)) @ '' '' @ c_str t) (fbTypes f) @
     map (\<lambda>t. ''a=fmtp:'' @ dec (unat (pt f)) @ '' '' @ c_str t) (fmtParams f)"

definition payloadTypesString :: "MediaFormat list \<Rightarrow> string" where
  "payloadTypesString fs = joinStrings (map (\<lambda>f. dec (unat (pt f))) fs) '' ''"

text \<open>Without a match the identifier is left uninitialised.\<close>

definition RTPExtension_of :: "string \<Rightarrow> RTPExtension result" where
  "RTPExtension_of l =
     (case regex_match EXTMAP l of
        None \<Rightarrow> Inl (Undefined_behaviour ''uninitialised field'')
      | Some m \<Rightarrow> rbind (stoul_u (sub m 1)) (\<lambda>i. Inr \<lparr> ext_identifier = i, uri = sub m 2 \<rparr>))"

definition RTPExtension_line :: "RTPExtension \<Rightarrow> string" where
  "RTPExtension_line x = ''a=extmap:'' @ dec (unat (ext_identifier x)) @ '' '' @ c_str (uri x)"

definition MediaStreamIdentifier_of :: "string \<Rightarrow> MediaStreamIdentifier" where
  "MediaStreamIdentifier_of l =
     (case regex_match MSID_RX l of
        None \<Rightarrow> \<lparr> ms_identifier = [], appData = [] \<rparr>
      | Some m \<Rightarrow> \<lparr> ms_identifier = sub m 1, appData = sub m 2 \<rparr>)"

definition MediaStreamIdentifier_line :: "MediaStreamIdentifier \<Rightarrow> string" where
  "MediaStreamIdentifier_line x = ''a=msid:'' @ ms_identifier x @ (if appData x \<noteq> [] then '' '' @ appData x else [])"

definition RTCPConfiguration_of :: "string \<Rightarrow> RTCPConfiguration result" where
  "RTCPConfiguration_of l =
     (case regex_match RTCP_RX l of
        None \<Rightarrow> Inr \<lparr> rc_port = 9, rc_netType = [], rc_addrType = [], rc_connectionAddress = [] \<rparr>
      | Some m \<Rightarrow>
          rbind (stoul_us (sub m 1)) (\<lambda>p.
            Inr \<lparr> rc_port = p, rc_netType = sub m 2, rc_addrType = sub m 3, rc_connectionAddress = sub m 4 \<rparr>))"

definition RTCPConfiguration_line :: "RTCPConfiguration \<Rightarrow> string" where
  "RTCPConfiguration_line x = ''a=rtcp:'' @ dec (unat (rc_port x)) @
     (if rc_netType x \<noteq> [] \<and> rc_addrType x \<noteq> [] \<and> rc_connectionAddress x \<noteq> []
      then '' '' @ rc_netType x @ '' '' @ rc_addrType x @ '' '' @ rc_connectionAddress x else [])"

definition typeFromString :: "string \<Rightarrow> MDType result" where
  "typeFromString s =
     (if s = ''audio'' then Inr Type_audio else if s = ''video'' then Inr Type_video
      else Inl (Invalid_argument ''SDP::MediaDescription::typeFromString: could not parse media type.''))"

definition stringFromType :: "MDType \<Rightarrow> string" where
  "stringFromType t = (case t of Type_audio \<Rightarrow> ''audio'' | Type_video \<Rightarrow> ''video'')"

definition directionFromString :: "string \<Rightarrow> Direction result" where
  "directionFromString s =
     (if s = ''recvonly'' then Inr recvonly else if s = ''sendrecv'' then Inr sendrecv else if s = ''sendonly'' then Inr sendonly
      else if s = ''inactive'' then Inr inactive
      else Inl (Invalid_argument ''SDP::directionFromString: could not parse direction''))"

section \<open>Media descriptions\<close>

text \<open>The state of the constructor's loop: the object, and the lines kept for later.\<close>

record md_state =
  md_obj :: MediaDescription
  ssrcLines :: "string list"
  iceCandidateLines :: "string list"
  currentFormatLines :: "string list"

definition matches :: "rx \<Rightarrow> string \<Rightarrow> bool" where
  "matches r l \<longleftrightarrow> regex_match r l \<noteq> None"

text \<open>\<open>if (regex_match(line, matches, r)) { ... } else ...\<close>\<close>

definition on_match :: "rx \<Rightarrow> string \<Rightarrow> (rx_mark list \<Rightarrow> 'a) \<Rightarrow> 'a \<Rightarrow> 'a" where
  "on_match r l f g = (case regex_match r l of Some m \<Rightarrow> f m | None \<Rightarrow> g)"

definition upd_md :: "(MediaDescription \<Rightarrow> MediaDescription) \<Rightarrow> md_state \<Rightarrow> md_state" where
  "upd_md f st = st\<lparr> md_obj := f (md_obj st) \<rparr>"

definition flush_format :: "md_state \<Rightarrow> md_state result" where
  "flush_format st =
     (if currentFormatLines st \<noteq> [] then
        rbind (MediaFormat_of (currentFormatLines st)) (\<lambda>f.
          Inr ((upd_md (\<lambda>d. d\<lparr> mediaFormats := mediaFormats d @ [f] \<rparr>) st)\<lparr> currentFormatLines := [] \<rparr>))
      else Inr st)"

definition md_line :: "string \<Rightarrow> md_state \<Rightarrow> md_state result" where
  "md_line l st =
     on_match M_LINE l (\<lambda>m.
       rbind (typeFromString (sub m 1)) (\<lambda>t. rbind (stoul_us (sub m 2)) (\<lambda>p.
         Inr (upd_md (\<lambda>d. d\<lparr> md_type := Some t, md_port := p, protocols := sub m 3 \<rparr>) st))))
    (on_match C_LINE l (\<lambda>m. Inr (upd_md (\<lambda>d. d\<lparr> connectionData := Some (ConnectionData_of l) \<rparr>) st))
    (on_match RTCP_RX l (\<lambda>m.
       rbind (RTCPConfiguration_of l) (\<lambda>c. Inr (upd_md (\<lambda>d. d\<lparr> rtcpConfiguration := Some c \<rparr>) st)))
    (on_match ICE_UFRAG l (\<lambda>m. Inr (upd_md (\<lambda>d. d\<lparr> iceUfrag := Some (sub m 1) \<rparr>) st))
    (on_match ICE_PWD l (\<lambda>m. Inr (upd_md (\<lambda>d. d\<lparr> icePwd := Some (sub m 1) \<rparr>) st))
    (on_match MID_RX l (\<lambda>m. Inr (upd_md (\<lambda>d. d\<lparr> mid := Some (sub m 1) \<rparr>) st))
    (on_match EXTMAP l (\<lambda>m.
       rbind (RTPExtension_of l) (\<lambda>x. Inr (upd_md (\<lambda>d. d\<lparr> extensions := extensions d @ [x] \<rparr>) st)))
    (on_match MSID_RX l (\<lambda>m. Inr (upd_md (\<lambda>d. d\<lparr> md_msid := Some (MediaStreamIdentifier_of l) \<rparr>) st))
    (on_match DIRECTION_RX l (\<lambda>m.
       rbind (directionFromString (sub m 1)) (\<lambda>x. Inr (upd_md (\<lambda>d. d\<lparr> direction := Some x \<rparr>) st)))
    (on_match ICE_CANDIDATE l (\<lambda>m. Inr (st\<lparr> iceCandidateLines := iceCandidateLines st @ [l] \<rparr>))
    (on_match SSRC_RX l (\<lambda>m. Inr (st\<lparr> ssrcLines := ssrcLines st @ [l] \<rparr>))
    (on_match MEDIA_FORMAT l (\<lambda>m.
       rbind (if matches RTP_MAP l then flush_format st else Inr st) (\<lambda>st.
         Inr (st\<lparr> currentFormatLines := currentFormatLines st @ [l] \<rparr>)))
    (on_match ICE_OTHER l (\<lambda>m. Inr (upd_md (\<lambda>d. d\<lparr> iceOtherLines := iceOtherLines d @ [l] \<rparr>) st))
    (on_match RTCP_OTHER l (\<lambda>m. Inr (upd_md (\<lambda>d. d\<lparr> rtcpOtherLines := rtcpOtherLines d @ [l] \<rparr>) st))
    (Inr (upd_md (\<lambda>d. d\<lparr> md_otherLines := md_otherLines d @ [l] \<rparr>) st)))))))))))))))"

fun md_loop :: "string list \<Rightarrow> md_state \<Rightarrow> md_state result" where
  "md_loop [] st = Inr st"
| "md_loop (l # ls) st = rbind (md_line l st) (md_loop ls)"

fun candidates_of :: "string list \<Rightarrow> ICECandidate list result" where
  "candidates_of [] = Inr []"
| "candidates_of (l # ls) = rbind (ICECandidate_of l) (\<lambda>c. rbind (candidates_of ls) (\<lambda>cs. Inr (c # cs)))"

definition md_finish :: "md_state \<Rightarrow> MediaDescription result" where
  "md_finish st =
     rbind (flush_format st) (\<lambda>st.
     rbind (candidates_of (iceCandidateLines st)) (\<lambda>cs.
       let d = (md_obj st)\<lparr> iceCandidates := cs \<rparr> in
       if ssrcLines st \<noteq> [] then rbind (SSRCDescription_of (ssrcLines st)) (\<lambda>x. Inr (d\<lparr> ssrcDescription := Some x \<rparr>))
       else Inr d))"

definition MediaDescription_of :: "string list \<Rightarrow> MediaDescription result" where
  "MediaDescription_of ls =
     rbind (md_loop ls \<lparr> md_obj = MediaDescription_default, ssrcLines = [], iceCandidateLines = [], currentFormatLines = [] \<rparr>) md_finish"

definition opt_line :: "('a \<Rightarrow> string) \<Rightarrow> 'a option \<Rightarrow> string list" where
  "opt_line f x = (case x of None \<Rightarrow> [] | Some y \<Rightarrow> [f y])"

definition ufrag_line :: "string \<Rightarrow> string" where "ufrag_line u = ''a=ice-ufrag:'' @ c_str u"
definition pwd_line :: "string \<Rightarrow> string" where "pwd_line u = ''a=ice-pwd:'' @ c_str u"
definition mid_line :: "string \<Rightarrow> string" where "mid_line u = ''a=mid:'' @ c_str u"
definition direction_line :: "Direction \<Rightarrow> string" where "direction_line x = ''a='' @ directionString x"

definition MediaDescription_lines :: "MediaDescription \<Rightarrow> string list result" where
  "MediaDescription_lines d =
     (case md_type d of
        None \<Rightarrow> Inl (Undefined_behaviour ''uninitialised field'')
      | Some t \<Rightarrow> Inr (
          [''m='' @ stringFromType t @ '' '' @ dec (unat (md_port d)) @ '' '' @ c_str (protocols d) @ '' '' @ payloadTypesString (mediaFormats d)] @
          opt_line ConnectionData_line (connectionData d) @
          opt_line RTCPConfiguration_line (rtcpConfiguration d) @
          map ICECandidate_line (iceCandidates d) @
          opt_line ufrag_line (iceUfrag d) @
          opt_line pwd_line (icePwd d) @
          iceOtherLines d @
          opt_line mid_line (mid d) @
          map RTPExtension_line (extensions d) @
          opt_line direction_line (direction d) @
          opt_line MediaStreamIdentifier_line (md_msid d) @
          rtcpOtherLines d @
          concat (map MediaFormat_lines (mediaFormats d)) @
          (case ssrcDescription d of None \<Rightarrow> [] | Some x \<Rightarrow> SSRCDescription_lines x)))"

section \<open>Session descriptions\<close>

record sd_state =
  sd_obj :: SessionDescription
  parsed_version :: bool
  parsed_origin :: bool

definition upd_sd :: "(SessionDescription \<Rightarrow> SessionDescription) \<Rightarrow> sd_state \<Rightarrow> sd_state" where
  "upd_sd f st = st\<lparr> sd_obj := f (sd_obj st) \<rparr>"

definition sd_line :: "string \<Rightarrow> sd_state \<Rightarrow> sd_state result" where
  "sd_line l st =
     on_match V_LINE l (\<lambda>m.
       rbind (stoul_u (sub m 1)) (\<lambda>v. Inr ((upd_sd (\<lambda>d. d\<lparr> version := v \<rparr>) st)\<lparr> parsed_version := True \<rparr>)))
    (on_match O_LINE l (\<lambda>m.
       rbind (Origin_of l) (\<lambda>x. Inr ((upd_sd (\<lambda>d. d\<lparr> origin := x \<rparr>) st)\<lparr> parsed_origin := True \<rparr>)))
    (on_match S_LINE l (\<lambda>m. Inr (upd_sd (\<lambda>d. d\<lparr> sessionName := sub m 1 \<rparr>) st))
    (on_match T_LINE l (\<lambda>m. rbind (Timing_of l) (\<lambda>x. Inr (upd_sd (\<lambda>d. d\<lparr> timing := timing d @ [x] \<rparr>) st)))
    (on_match BUNDLE_RX l (\<lambda>m. Inr st)
    (Inr (upd_sd (\<lambda>d. d\<lparr> otherLines := otherLines d @ [l] \<rparr>) st))))))"

text \<open>
  The loop over the lines: inside a media section its lines are collected, and the section ends with the
  last line or before the next media line.
\<close>

fun sd_loop :: "bool \<Rightarrow> string list \<Rightarrow> string list \<Rightarrow> sd_state \<Rightarrow> sd_state result" where
  "sd_loop inMedia sectionLines [] st = Inr st"
| "sd_loop inMedia sectionLines (l # ls) st =
     (if inMedia \<or> matches M_LINE l then
        let sec = sectionLines @ [l] in
        if ls = [] \<or> matches M_LINE (hd ls) then
          rbind (MediaDescription_of sec) (\<lambda>d.
            sd_loop False [] ls (upd_sd (\<lambda>x. x\<lparr> mediaDescriptions := mediaDescriptions x @ [d] \<rparr>) st))
        else sd_loop True sec ls st
      else rbind (sd_line l st) (sd_loop False sectionLines ls))"

definition SessionDescription_of_lines :: "string list \<Rightarrow> SessionDescription result" where
  "SessionDescription_of_lines ls =
     rbind (sd_loop False [] ls \<lparr> sd_obj = SessionDescription_empty, parsed_version = False, parsed_origin = False \<rparr>) (\<lambda>st.
       if \<not> parsed_version st \<or> version (sd_obj st) \<noteq> 0
       then Inl (Invalid_argument ''SessionDescription: invalid sdp: no v-line or version != 0'')
       else if \<not> parsed_origin st then Inl (Invalid_argument ''SessionDescription: invalid sdp: no o-line'')
       else if timing (sd_obj st) = [] then Inl (Invalid_argument ''SessionDescription: invalid sdp: no t-line'')
       else Inr (sd_obj st))"

definition crlf :: string where
  "crlf = [char_of (13 :: nat), char_of (10 :: nat)]"

definition SessionDescription_of :: "string \<Rightarrow> SessionDescription result" where
  "SessionDescription_of s =
     (case splitString s crlf of
        None \<Rightarrow> Inl (Undefined_behaviour ''endless loop'')
      | Some ls \<Rightarrow> SessionDescription_of_lines ls)"

fun bundle_mids :: "MediaDescription list \<Rightarrow> string result" where
  "bundle_mids [] = Inr []"
| "bundle_mids (d # ds) =
     (case mid d of
        None \<Rightarrow> Inl (Logic_error ''SessionDescription: lines() description has media w/o mid'')
      | Some x \<Rightarrow> rbind (bundle_mids ds) (\<lambda>r. Inr ('' '' @ x @ r)))"

fun media_lines :: "MediaDescription list \<Rightarrow> string list result" where
  "media_lines [] = Inr []"
| "media_lines (d # ds) = rbind (MediaDescription_lines d) (\<lambda>a. rbind (media_lines ds) (\<lambda>b. Inr (a @ b)))"

definition SessionDescription_lines :: "SessionDescription \<Rightarrow> string list result" where
  "SessionDescription_lines d =
     rbind (bundle_mids (mediaDescriptions d)) (\<lambda>b.
     rbind (media_lines (mediaDescriptions d)) (\<lambda>ml. Inr (
       [''v='' @ dec (unat (version d)), Origin_line (origin d), ''s='' @ sessionName d] @ map Timing_line (timing d) @
       (if mediaDescriptions d \<noteq> [] then [''a=group:BUNDLE'' @ b] else []) @ otherLines d @ ml)))"

definition escapedString :: "SessionDescription \<Rightarrow> string result" where
  "escapedString d = rbind (SessionDescription_lines d) (\<lambda>ls. Inr (concat (map (\<lambda>l. l @ crlf) ls)))"

fun bundle_nums :: "nat \<Rightarrow> nat \<Rightarrow> string" where
  "bundle_nums i 0 = []"
| "bundle_nums i (Suc n) = '' '' @ dec i @ bundle_nums (Suc i) n"

definition bundleLine :: "u32 \<Rightarrow> string" where
  "bundleLine count = ''a=group:BUNDLE'' @ bundle_nums 0 (unat count)"

section \<open>Candidates\<close>

fun filterCandidatesBySubnet :: "ICECandidate list \<Rightarrow> IPv4Prefix \<Rightarrow> ICECandidate list result" where
  "filterCandidatesBySubnet [] n = Inr []"
| "filterCandidatesBySubnet (c # cs) n =
     rbind (IPv4_of_string (address c)) (\<lambda>a. rbind (isInSubnet a (prefix_ip n) (prefix_len n)) (\<lambda>b.
       rbind (filterCandidatesBySubnet cs n) (\<lambda>r. Inr (if b then c # r else r))))"

fun max_candidate :: "ICECandidate \<Rightarrow> ICECandidate list \<Rightarrow> ICECandidate" where
  "max_candidate m [] = m"
| "max_candidate m (c # cs) = max_candidate (if priority m < priority c then c else m) cs"

definition highestPriorityICECandidate :: "ICECandidate list \<Rightarrow> ICECandidate result" where
  "highestPriorityICECandidate cs =
     (case cs of [] \<Rightarrow> Inl (Undefined_behaviour ''dereferenced end iterator'') | c # r \<Rightarrow> Inr (max_candidate c r))"

end
