(* ===== verification/Media_Stream.thy ===== *)
theory Media_Stream
  imports SDP
begin

text \<open>
  \<open>lib/sfu_config.h\<close> and \<open>lib/stream.{h,cc}\<close>: what the forwarding unit says about itself in session
  descriptions, and a media stream of a participant: the media description it was made from and
  the part of it the data plane needs. A send stream takes its SSRCs from its own description, a
  receive stream from the description of the stream it receives.
\<close>

section \<open>Configuration of the forwarding unit\<close>

record SFUConfig =
  sfu_ip :: string
  sfu_port :: u16
  sfu_iceUfrag :: string
  sfu_icePwd :: string
  sessionTemplate :: SessionDescription
  sfu_iceCandidate :: ICECandidate
  videoFbTypes :: "string list"
  audioFbTypes :: "string list"
  audioRTPExtensions :: "RTPExtension list"
  videoRTPExtensions :: "RTPExtension list"
  netLimit :: IPv4Prefix

definition SFUConfig_of :: "string \<Rightarrow> u16 \<Rightarrow> string \<Rightarrow> string \<Rightarrow> IPv4Prefix \<Rightarrow> u32 \<Rightarrow> SFUConfig" where
  "SFUConfig_of addr p uf pw lim av1ExtensionId =
     \<lparr> sfu_ip = addr, sfu_port = p, sfu_iceUfrag = uf, sfu_icePwd = pw,
       sessionTemplate = SessionDescription_default\<lparr> version := 0,
         origin := \<lparr> userName = ''-'', o_sessionId = 0, sessionVersion = 0, o_netType = ''IN'', o_addrType = ''IP4'', unicastAddr = addr \<rparr>,
         otherLines := [''a=extmap-allow-mixed'', ''a=msid-semantic: WMS''] \<rparr>,
       sfu_iceCandidate = \<lparr> foundation = ''0'', componentId = 1, protocol = ''udp'', priority = 1, address = addr, ic_port = p,
         ic_type = ''host'', remainder = ''generation 0 network-id 1 network-cost 10'' \<rparr>,
       videoFbTypes = [''goog-remb'', ''nack'', ''nack pli'', ''ccm fir''],
       audioFbTypes = [''goog-remb''],
       audioRTPExtensions =
         [\<lparr> ext_identifier = 2, uri = ''http://www.webrtc.org/experiments/rtp-hdrext/abs-send-time'' \<rparr>,
          \<lparr> ext_identifier = 9, uri = ''urn:ietf:params:rtp-hdrext:sdes:mid'' \<rparr>,
          \<lparr> ext_identifier = 14, uri = ''urn:ietf:params:rtp-hdrext:ssrc-audio-level'' \<rparr>],
       videoRTPExtensions =
         [\<lparr> ext_identifier = 2, uri = ''http://www.webrtc.org/experiments/rtp-hdrext/abs-send-time'' \<rparr>,
          \<lparr> ext_identifier = 9, uri = ''urn:ietf:params:rtp-hdrext:sdes:mid'' \<rparr>,
          \<lparr> ext_identifier = av1ExtensionId,
            uri = ''https://aomediacodec.github.io/av1-rtp-spec/#dependency-descriptor-rtp-header-extension'' \<rparr>],
       netLimit = lim \<rparr>"

section \<open>Streams\<close>

record DataPlaneConfig =
  dc_addr :: IPv4Port
  dc_iceUfrag :: string
  dc_icePwd :: string
  dc_mediaType :: MediaType
  mainSSRC :: u32
  rtxSSRC :: u32

record ReceiveStreamConfig = DataPlaneConfig +
  rtcpSSRC :: u32
  rtcpRtxSSRC :: u32

text \<open>\<open>std::variant<SendStreamConfig, ReceiveStreamConfig>\<close>\<close>

datatype stream_config = Send_config DataPlaneConfig | Receive_config ReceiveStreamConfig

record Stream =
  description :: MediaDescription
  dataPlaneConfig :: stream_config

text \<open>Dereferencing an \<open>std::optional\<close>, and the first element of a vector of SSRCs, neither of which is checked.\<close>

definition deref :: "'a option \<Rightarrow> 'a result" where
  "deref x = (case x of None \<Rightarrow> Inl (Undefined_behaviour ''empty optional'') | Some y \<Rightarrow> Inr y)"

definition main_ssrc :: "SSRCEntry list \<Rightarrow> u32 result" where
  "main_ssrc es = (case es of [] \<Rightarrow> Inl (Undefined_behaviour ''index out of range'') | e # _ \<Rightarrow> Inr (e_ssrc e))"

definition rtx_ssrc :: "SSRCEntry list \<Rightarrow> u32" where
  "rtx_ssrc es = (case es of _ # e # _ \<Rightarrow> e_ssrc e | _ \<Rightarrow> 0)"

text \<open>The address of a stream: that of its candidate with the highest priority in the configured network.\<close>

definition stream_addr :: "MediaDescription \<Rightarrow> SFUConfig \<Rightarrow> IPv4Port result" where
  "stream_addr media cfg =
     rbind (filterCandidatesBySubnet (iceCandidates media) (netLimit cfg)) (\<lambda>filtered.
       if filtered = [] then Inl (Invalid_argument ''Stream: Stream(): no ICE candidates matching subnet filter'')
       else rbind (highestPriorityICECandidate filtered) (\<lambda>highest. IPv4Port_of_string (address highest) (ic_port highest)))"

definition media_type :: "MDType \<Rightarrow> MediaType" where
  "media_type t = (if t = Type_audio then audio else video)"

text \<open>The assignments both branches of the constructor start with; \<open>es\<close> are the SSRCs of the media.\<close>

definition base_config :: "MediaDescription \<Rightarrow> SFUConfig \<Rightarrow> SSRCEntry list \<Rightarrow> DataPlaneConfig result" where
  "base_config media cfg es =
     rbind (stream_addr media cfg) (\<lambda>a. rbind (deref (iceUfrag media)) (\<lambda>uf. rbind (deref (icePwd media)) (\<lambda>pw.
     rbind (deref (md_type media)) (\<lambda>t. rbind (main_ssrc es) (\<lambda>s.
       Inr \<lparr> dc_addr = a, dc_iceUfrag = uf, dc_icePwd = pw, dc_mediaType = media_type t, mainSSRC = s, rtxSSRC = rtx_ssrc es \<rparr>)))))"

text \<open>The SSRCs a receiver sends its feedback with; a transceiver without SSRCs uses 1.\<close>

definition rtcp_ssrcs :: "MediaDescription \<Rightarrow> (u32 \<times> u32) result" where
  "rtcp_ssrcs media =
     (case ssrcDescription media of
        None \<Rightarrow> Inr (1, 1)
      | Some x \<Rightarrow> rbind (main_ssrc (ssrcs x)) (\<lambda>s. Inr (s, rtx_ssrc (ssrcs x))))"

definition receive_config :: "DataPlaneConfig \<Rightarrow> u32 \<Rightarrow> u32 \<Rightarrow> ReceiveStreamConfig" where
  "receive_config c s x =
     \<lparr> dc_addr = dc_addr c, dc_iceUfrag = dc_iceUfrag c, dc_icePwd = dc_icePwd c, dc_mediaType = dc_mediaType c, mainSSRC = mainSSRC c,
       rtxSSRC = rtxSSRC c, rtcpSSRC = s, rtcpRtxSSRC = x \<rparr>"

definition Stream_of :: "MediaDescription \<Rightarrow> SFUConfig \<Rightarrow> SSRCDescription \<Rightarrow> Stream result" where
  "Stream_of media cfg sd =
     (case direction media of
        None \<Rightarrow> Inl (Logic_error ''Stream: Stream: direction not set in description'')
      | Some dir \<Rightarrow>
          if dir = sendonly then
            (if ssrcValues sd \<noteq> [] then Inl (Invalid_argument ''Stream: Stream(): SSRCs can only be provided in recvonly streams'')
             else
               (case ssrcDescription media of
                  None \<Rightarrow> Inl (Logic_error ''Stream: Stream: ssrc description not set in sendonly stream'')
                | Some x \<Rightarrow>
                    rbind (base_config media cfg (ssrcs x)) (\<lambda>ss.
                      Inr \<lparr> description = media, dataPlaneConfig = Send_config ss \<rparr>)))
          else if dir = recvonly then
            (if ssrcValues sd = [] then Inl (Invalid_argument ''Stream: Stream(): SSRCs must be provided in recvonly streams'')
             else
               rbind (base_config media cfg (ssrcs sd)) (\<lambda>ss. rbind (rtcp_ssrcs media) (\<lambda>(s, x).
                 Inr \<lparr> description = media,
                   dataPlaneConfig = Receive_config (receive_config ss s x) \<rparr>)))
          else Inl (Invalid_argument ''Stream: Stream: unsupported direction''))"

text \<open>What other participants are offered: the stream with the forwarding unit as its sender.\<close>

definition stream_offer :: "SFUConfig \<Rightarrow> Stream \<Rightarrow> MediaDescription result" where
  "stream_offer cfg s =
     rbind (deref (connectionData (description s))) (\<lambda>c.
       Inr ((description s)\<lparr> md_port := sfu_port cfg, connectionData := Some (c\<lparr> connectionAddress := sfu_ip cfg \<rparr>),
         iceCandidates := [sfu_iceCandidate cfg], iceUfrag := Some (sfu_iceUfrag cfg), icePwd := Some (sfu_icePwd cfg) \<rparr>))"

section \<open>What a constructed stream looks like\<close>

definition is_send :: "Stream \<Rightarrow> bool" where
  "is_send s \<longleftrightarrow> (case dataPlaneConfig s of Send_config _ \<Rightarrow> True | Receive_config _ \<Rightarrow> False)"

lemma deref_Inr [simp]: "deref x = Inr y \<longleftrightarrow> x = Some y"
  by (cases x) (simp_all add: deref_def)

lemma deref_Some [simp]: "deref (Some y) = Inr y"
  by (simp add: deref_def)

lemma main_ssrc_Inr [simp]: "main_ssrc es = Inr x \<longleftrightarrow> es \<noteq> [] \<and> x = e_ssrc (hd es)"
  by (cases es) (auto simp: main_ssrc_def)

lemma max_candidate_in: "max_candidate c cs \<in> set (c # cs)"
proof (induction cs arbitrary: c)
  case (Cons d cs)
  then show ?case using Cons.IH [of d] Cons.IH [of c] by auto
qed simp

lemma max_candidate_ge: "priority c \<le> priority (max_candidate c cs)"
proof (induction cs arbitrary: c)
  case (Cons d cs)
  then show ?case using Cons.IH [of c] Cons.IH [of d] by (cases "priority c < priority d") (simp_all add: order_trans [OF less_imp_le])
qed simp

lemma max_candidate_max: "x \<in> set (c # cs) \<Longrightarrow> priority x \<le> priority (max_candidate c cs)"
proof (induction cs arbitrary: c)
  case (Cons d cs)
  show ?case
  proof (cases "x \<in> set cs")
    case True
    then show ?thesis using Cons.IH [of c] Cons.IH [of d] by simp
  next
    case False
    then have "x = c \<or> x = d" using Cons.prems by auto
    then show ?thesis using max_candidate_ge [of c cs] max_candidate_ge [of c "d # cs"] max_candidate_ge [of d cs]
      by (cases "priority c < priority d") (auto simp: not_less intro: order_trans)
  qed
qed simp

lemma filterCandidates_sound:
  "filterCandidatesBySubnet cs n = Inr fs \<Longrightarrow> c \<in> set fs \<longleftrightarrow>
     c \<in> set cs \<and> (\<exists>a. IPv4_of_string (address c) = Inr a \<and> isInSubnet a (prefix_ip n) (prefix_len n) = Inr True)"
  by (induction cs arbitrary: fs) (auto simp: rbind_Inr_iff split: if_splits)

text \<open>
  A stream is made for the candidate with the highest priority among those in the configured network.
\<close>

definition best_candidate :: "MediaDescription \<Rightarrow> SFUConfig \<Rightarrow> IPv4Port \<Rightarrow> bool" where
  "best_candidate media cfg a \<longleftrightarrow> (\<exists>c \<in> set (iceCandidates media).
     IPv4_of_string (address c) = Inr (ip a) \<and> port a = ic_port c \<and>
     isInSubnet (ip a) (prefix_ip (netLimit cfg)) (prefix_len (netLimit cfg)) = Inr True \<and>
     (\<forall>c' \<in> set (iceCandidates media). \<forall>a'. IPv4_of_string (address c') = Inr a' \<and>
        isInSubnet a' (prefix_ip (netLimit cfg)) (prefix_len (netLimit cfg)) = Inr True \<longrightarrow> priority c' \<le> priority c))"

lemma stream_addr_best:
  assumes "stream_addr media cfg = Inr a"
  shows "best_candidate media cfg a"
proof -
  obtain fs where fs: "filterCandidatesBySubnet (iceCandidates media) (netLimit cfg) = Inr fs" "fs \<noteq> []"
      and h: "rbind (highestPriorityICECandidate fs) (\<lambda>c. IPv4Port_of_string (address c) (ic_port c)) = Inr a"
    using assms by (auto simp: stream_addr_def rbind_Inr_iff split: if_splits)
  obtain c r where r: "fs = c # r" using fs(2) by (cases fs) auto
  let ?c = "max_candidate c r"
  have c: "IPv4_of_string (address ?c) = Inr (ip a)" "port a = ic_port ?c"
    using h r by (auto simp: highestPriorityICECandidate_def IPv4Port_of_string_def split: sum.splits)
  have "?c \<in> set fs" using max_candidate_in r by simp
  then have "?c \<in> set (iceCandidates media)"
      "isInSubnet (ip a) (prefix_ip (netLimit cfg)) (prefix_len (netLimit cfg)) = Inr True"
    using filterCandidates_sound [OF fs(1)] c(1) by auto
  moreover have "priority c' \<le> priority ?c"
    if "c' \<in> set (iceCandidates media)" "IPv4_of_string (address c') = Inr a'"
      "isInSubnet a' (prefix_ip (netLimit cfg)) (prefix_len (netLimit cfg)) = Inr True" for c' a'
    using that filterCandidates_sound [OF fs(1), of c'] max_candidate_max [of c' c r] r by auto
  ultimately show ?thesis using c unfolding best_candidate_def by blast
qed

lemma Stream_of_description: "Stream_of media cfg sd = Inr s \<Longrightarrow> description s = media"
  by (auto simp: Stream_of_def rbind_Inr_iff split: option.splits if_splits)

lemma base_config_Inr:
  "base_config media cfg es = Inr c \<longleftrightarrow>
     stream_addr media cfg = Inr (dc_addr c) \<and> iceUfrag media = Some (dc_iceUfrag c) \<and> icePwd media = Some (dc_icePwd c) \<and>
     (\<exists>t. md_type media = Some t \<and> dc_mediaType c = media_type t) \<and> es \<noteq> [] \<and> mainSSRC c = e_ssrc (hd es) \<and> rtxSSRC c = rtx_ssrc es"
  by (cases c) (auto simp: base_config_def rbind_Inr_iff)

lemma Stream_of_send:
  "Stream_of media cfg \<lparr> ssrcs = [] \<rparr> = Inr s \<longleftrightarrow>
     direction media = Some sendonly \<and>
     (\<exists>x c. ssrcDescription media = Some x \<and> base_config media cfg (ssrcs x) = Inr c \<and>
        description s = media \<and> dataPlaneConfig s = Send_config c)"
  by (cases s) (auto simp: Stream_of_def rbind_Inr_iff ssrcValues_def split: option.splits if_splits)

lemma Stream_of_receive:
  assumes "ssrcs sd \<noteq> []"
  shows "Stream_of media cfg sd = Inr s \<longleftrightarrow>
     direction media = Some recvonly \<and>
     (\<exists>c p. base_config media cfg (ssrcs sd) = Inr c \<and> rtcp_ssrcs media = Inr p \<and>
        description s = media \<and> dataPlaneConfig s = Receive_config (receive_config c (fst p) (snd p)))"
  using assms by (cases s) (auto simp: Stream_of_def rbind_Inr_iff ssrcValues_def split: option.splits if_splits)

end
