(* ===== verification/Session.thy ===== *)
theory Session
  imports Media_Stream
begin

text \<open>
  \<open>lib/participant.{h,cc}\<close>, \<open>lib/session.{h,cc}\<close> and \<open>lib/session_manager.{h,cc}\<close>: the participants of a
  session with the streams they send and receive, and the offer/answer exchange between them. A
  member function that may throw is a function from the session to its outcome and the session it
  leaves behind. The callback for new streams belongs to the owner of the session: it is an argument,
  a function on the owner's state, and the session only records whether one was set.
\<close>

text \<open>A call that does not change the state, and a vector built from calls that may throw.\<close>

definition pure :: "'a result \<Rightarrow> 's \<Rightarrow> 'a result \<times> 's" where
  "pure r s = (r, s)"

fun rmap :: "('a \<Rightarrow> 'b result) \<Rightarrow> 'a list \<Rightarrow> 'b list result" where
  "rmap f [] = Inr []"
| "rmap f (x # xs) = rbind (f x) (\<lambda>y. rbind (rmap f xs) (\<lambda>ys. Inr (y # ys)))"

section \<open>Participants\<close>

record Transceiver =
  streams :: "Stream list"
  t_iceCandidates :: "ICECandidate list"

definition Transceiver_default :: Transceiver where
  "Transceiver_default = \<lparr> streams = [], t_iceCandidates = [] \<rparr>"

definition t_addStream :: "Stream \<Rightarrow> Transceiver \<Rightarrow> Transceiver" where
  "t_addStream s t = t\<lparr> streams := streams t @ [s] \<rparr>"

definition addICECandidate :: "ICECandidate \<Rightarrow> Transceiver \<Rightarrow> Transceiver" where
  "addICECandidate c t = t\<lparr> t_iceCandidates := t_iceCandidates t @ [c] \<rparr>"

definition hasICECandidate :: "Transceiver \<Rightarrow> ICECandidate \<Rightarrow> bool" where
  "hasICECandidate t c \<longleftrightarrow> c \<in> set (t_iceCandidates t)"

definition updateICECandidates :: "SessionDescription \<Rightarrow> Transceiver \<Rightarrow> Transceiver" where
  "updateICECandidates sdp t =
     fold (\<lambda>c t. if hasICECandidate t c then t else addICECandidate c t) (concat (map iceCandidates (mediaDescriptions sdp))) t"

definition hasStreamWithMid :: "Transceiver \<Rightarrow> string \<Rightarrow> bool" where
  "hasStreamWithMid t x \<longleftrightarrow> list_ex (\<lambda>s. mid (description s) = Some x) (streams t)"

datatype SignalingState = stable | gotOffer | awaitAnswer

text \<open>\<open>None\<close> is a control port that was never set.\<close>

record Participant =
  p_id :: u32
  controlIp :: string
  controlPort :: "u16 option"
  sender :: Transceiver
  receivers :: "(u32, Transceiver) omap"
  signalingState :: SignalingState

definition Participant_default :: Participant where
  "Participant_default = \<lparr> p_id = 0, controlIp = [], controlPort = None, sender = Transceiver_default, receivers = [], signalingState = stable \<rparr>"

definition addOutgoingStream :: "Stream \<Rightarrow> Participant \<Rightarrow> Participant" where
  "addOutgoingStream s p = p\<lparr> sender := t_addStream s (sender p) \<rparr>"

text \<open>\<open>_receivers[j]\<close>, which adds an empty receiver for a new \<open>j\<close>.\<close>

definition receiver :: "Participant \<Rightarrow> u32 \<Rightarrow> Transceiver" where
  "receiver p j = (case map_of (receivers p) j of None \<Rightarrow> Transceiver_default | Some t \<Rightarrow> t)"

definition upd_receiver :: "u32 \<Rightarrow> (Transceiver \<Rightarrow> Transceiver) \<Rightarrow> Participant \<Rightarrow> Participant" where
  "upd_receiver j f p = p\<lparr> receivers := omap_put j (f (receiver p j)) (receivers p) \<rparr>"

definition outgoingStreams :: "Participant \<Rightarrow> Stream list" where
  "outgoingStreams p = streams (sender p)"

definition incomingStreams :: "Participant \<Rightarrow> Stream list" where
  "incomingStreams p = concat (map (\<lambda>(_, r). streams r) (receivers p))"

definition sendsStreamWithMid :: "Participant \<Rightarrow> string \<Rightarrow> bool" where
  "sendsStreamWithMid p x = hasStreamWithMid (sender p) x"

definition sendStreamWithMid :: "Participant \<Rightarrow> string \<Rightarrow> Stream result" where
  "sendStreamWithMid p x =
     (case find (\<lambda>s. mid (description s) = Some x) (streams (sender p)) of
        None \<Rightarrow> Inl (Logic_error ''Participant: sendStreamWithMid: participant does'nt send this mid'')
      | Some s \<Rightarrow> Inr s)"

section \<open>Sessions\<close>

record Session =
  s_id :: u32
  nextParticipantId :: u32
  s_config :: SFUConfig
  participants :: "(u32, Participant) omap"
  s_onNewStream :: bool

definition Session_of :: "u32 \<Rightarrow> SFUConfig \<Rightarrow> Session" where
  "Session_of i cfg = \<lparr> s_id = i, nextParticipantId = 0, s_config = cfg, participants = [], s_onNewStream = False \<rparr>"

definition participantExistsAt :: "Session \<Rightarrow> string \<Rightarrow> u16 \<Rightarrow> bool" where
  "participantExistsAt s a q \<longleftrightarrow> list_ex (\<lambda>(_, p). controlIp p = a \<and> controlPort p = Some q) (participants s)"

definition participantExists :: "Session \<Rightarrow> u32 \<Rightarrow> bool" where
  "participantExists s i \<longleftrightarrow> map_of (participants s) i \<noteq> None"

definition addParticipant :: "string \<Rightarrow> u16 \<Rightarrow> Session \<Rightarrow> u32 result \<times> Session" where
  "addParticipant a q s =
     (if participantExistsAt s a q then (Inl (Logic_error ''Session: addParticipant: participant already exists''), s)
      else
        let i = nextParticipantId s + 1; s = s\<lparr> nextParticipantId := i \<rparr> in
        if participantExists s i then (Inl (Runtime_error ''Session: addParticipant: failed adding participant''), s)
        else (Inr i, s\<lparr> participants := omap_put i (Participant_default\<lparr> p_id := i, controlIp := a, controlPort := Some q \<rparr>) (participants s) \<rparr>))"

definition countParticipants :: "Session \<Rightarrow> u32" where
  "countParticipants s = of_nat (length (participants s))"

definition getParticipant :: "Session \<Rightarrow> u32 \<Rightarrow> Participant result" where
  "getParticipant s i =
     (case map_of (participants s) i of
        None \<Rightarrow> Inl (Logic_error ''Session: getParticipant: participant does not exist'')
      | Some p \<Rightarrow> Inr p)"

definition removeParticipant :: "u32 \<Rightarrow> Session \<Rightarrow> unit result \<times> Session" where
  "removeParticipant i s =
     (if participantExists s i then (Inr (), s\<lparr> participants := assoc_del i (participants s) \<rparr>)
      else (Inl (Logic_error ''Session: removeParticipant: participant does not exist''), s))"

definition particpantsInState :: "Session \<Rightarrow> SignalingState \<Rightarrow> u32 list" where
  "particpantsInState s st = map (\<lambda>(_, p). p_id p) (filter (\<lambda>(_, p). signalingState p = st) (participants s))"

definition participantInState :: "Session \<Rightarrow> SignalingState \<Rightarrow> u32 result" where
  "participantInState s st =
     (case particpantsInState s st of
        [i] \<Rightarrow> Inr i
      | [] \<Rightarrow> Inl (Logic_error ''Session: participantInState: no participants in state'')
      | _ \<Rightarrow> Inl (Logic_error ''Session: participantInState: multiple participants in state''))"

definition signalingActive :: "Session \<Rightarrow> bool" where
  "signalingActive s \<longleftrightarrow> list_ex (\<lambda>(_, p). signalingState p \<noteq> stable) (participants s)"

text \<open>\<open>_participants[i]\<close>, which adds a default participant for a new \<open>i\<close>.\<close>

definition participant :: "Session \<Rightarrow> u32 \<Rightarrow> Participant" where
  "participant s i = (case map_of (participants s) i of None \<Rightarrow> Participant_default | Some p \<Rightarrow> p)"

definition upd_participant :: "u32 \<Rightarrow> (Participant \<Rightarrow> Participant) \<Rightarrow> Session \<Rightarrow> Session" where
  "upd_participant i f s = s\<lparr> participants := omap_put i (f (participant s i)) (participants s) \<rparr>"

definition set_state :: "SignalingState \<Rightarrow> Participant \<Rightarrow> Participant" where
  "set_state st p = p\<lparr> signalingState := st \<rparr>"

definition countStreams :: "Session \<Rightarrow> u32" where
  "countStreams s = of_nat (sum_list (map (\<lambda>(_, p). length (outgoingStreams p)) (participants s)))"

section \<open>Offers\<close>

type_synonym 'w new_stream = "Session \<Rightarrow> u32 \<Rightarrow> Stream \<Rightarrow> 'w \<Rightarrow> unit result \<times> 'w"

definition call_onNewStream :: "'w new_stream \<Rightarrow> u32 \<Rightarrow> Stream \<Rightarrow> Session \<times> 'w \<Rightarrow> unit result \<times> (Session \<times> 'w)" where
  "call_onNewStream h i st sw =
     (case sw of (s, w) \<Rightarrow>
        if s_onNewStream s then (case h s i st w of (r, w) \<Rightarrow> (r, (s, w)))
        else (Inl (Logic_error ''Session: addOffer: no new stream callback set''), (s, w)))"

text \<open>The media with a candidate: a candidate seen before, if it brings none itself.\<close>

definition with_candidate :: "ICECandidate list \<Rightarrow> MediaDescription \<Rightarrow> MediaDescription result" where
  "with_candidate known media =
     (if iceCandidates media \<noteq> [] then Inr media
      else (case known of [] \<Rightarrow> Inl (Logic_error ''Session: addOffer: no ice candidates in offer'') | c # _ \<Rightarrow> Inr (media\<lparr> iceCandidates := [c] \<rparr>)))"

definition offer_media :: "'w new_stream \<Rightarrow> u32 \<Rightarrow> MediaDescription \<Rightarrow> Session \<times> 'w \<Rightarrow> unit result \<times> (Session \<times> 'w)" where
  "offer_media h i media sw =
     (if direction media = Some sendonly then
        sbind (pure (deref (mid media)) sw) (\<lambda>x (s, w).
          if sendsStreamWithMid (participant s i) x then (Inr (), (s, w))
          else
            sbind (pure (rbind (with_candidate (t_iceCandidates (sender (participant s i))) media) (\<lambda>m.
                Stream_of m (s_config s) \<lparr> ssrcs = [] \<rparr>)) (s, w)) (\<lambda>st (s, w).
              call_onNewStream h i st (upd_participant i (addOutgoingStream st) s, w)))
      else (Inr (), sw))"

fun each_media :: "(MediaDescription \<Rightarrow> 's \<Rightarrow> unit result \<times> 's) \<Rightarrow> MediaDescription list \<Rightarrow> 's \<Rightarrow> unit result \<times> 's" where
  "each_media f [] s = (Inr (), s)"
| "each_media f (m # rest) s = sbind (f m s) (\<lambda>_. each_media f rest)"

definition addOffer :: "'w new_stream \<Rightarrow> u32 \<Rightarrow> SessionDescription \<Rightarrow> Session \<times> 'w \<Rightarrow> unit result \<times> (Session \<times> 'w)" where
  "addOffer h i sdp sw =
     (case sw of (s, w) \<Rightarrow>
        if \<not> participantExists s i then (Inl (Logic_error ''Session: addOffer: participant does not exist''), (s, w))
        else if signalingActive s then (Inl (Logic_error ''Session: addOffer: there is already an active signaling session''), (s, w))
        else
          sbind (each_media (offer_media h i) (mediaDescriptions sdp)
              (upd_participant i (\<lambda>p. p\<lparr> sender := updateICECandidates sdp (sender p) \<rparr>) s, w)) (\<lambda>_ (s, w).
            (Inr (), (upd_participant i (set_state gotOffer) s, w))))"

text \<open>Extensions and feedback types the forwarding unit supports, for video and for audio.\<close>

definition supported :: "SFUConfig \<Rightarrow> MDType \<Rightarrow> MediaDescription \<Rightarrow> MediaDescription" where
  "supported cfg t m =
     (case t of
        Type_video \<Rightarrow> m\<lparr> extensions := videoRTPExtensions cfg,
          mediaFormats := map (\<lambda>f. if codec f \<noteq> ''rtx'' then f\<lparr> fbTypes := videoFbTypes cfg \<rparr> else f) (mediaFormats m) \<rparr>
      | Type_audio \<Rightarrow> m\<lparr> extensions := audioRTPExtensions cfg, mediaFormats := map (\<lambda>f. f\<lparr> fbTypes := audioFbTypes cfg \<rparr>) (mediaFormats m) \<rparr>)"

definition offered :: "SFUConfig \<Rightarrow> Stream \<Rightarrow> MediaDescription result" where
  "offered cfg st =
     rbind (stream_offer cfg st) (\<lambda>m. rbind (deref (md_type (description st))) (\<lambda>t.
       Inr (supported cfg t (m\<lparr> direction := Some sendonly \<rparr>))))"

definition getOffer :: "u32 \<Rightarrow> Session \<Rightarrow> SessionDescription result \<times> Session" where
  "getOffer i s =
     (if \<not> participantExists s i then (Inl (Logic_error ''Session: getOffer: participant does not exist''), s)
      else
        let s = upd_participant i (set_state awaitAnswer) s in
        pure (rbind (participantInState s gotOffer) (\<lambda>j. rbind (getParticipant s j) (\<lambda>p.
          rbind (rmap (offered (s_config s)) (outgoingStreams p)) (\<lambda>ms.
            Inr ((sessionTemplate (s_config s))\<lparr> mediaDescriptions := mediaDescriptions (sessionTemplate (s_config s)) @ ms \<rparr>))))) s)"

section \<open>Answers\<close>

text \<open>One media description of the answer participant \<open>i\<close> gives to the offer of participant \<open>j\<close>.\<close>

definition answer_media :: "'w new_stream \<Rightarrow> u32 \<Rightarrow> u32 \<Rightarrow> MediaDescription \<Rightarrow> Session \<times> 'w \<Rightarrow> unit result \<times> (Session \<times> 'w)" where
  "answer_media h j i media sw =
     (case sw of (s, w) \<Rightarrow>
        (case mid media of
           None \<Rightarrow> (Inl (Logic_error ''Session: addAnswer: answer media desc. does not have mid''), (s, w))
         | Some x \<Rightarrow>
             sbind (pure (sendStreamWithMid (participant s j) x) (s, w)) (\<lambda>out (s, w).
             let k = p_id (participant s j) in
             (case ssrcDescription (description out) of
                None \<Rightarrow> (Inl (Runtime_error ''assertion failed''), (s, w))
              | Some sd \<Rightarrow>
                  let s = (if iceCandidates media = [] then upd_participant i (upd_receiver k (\<lambda>r. r)) s else s) in
                  sbind (pure (rbind (with_candidate (t_iceCandidates (receiver (participant s i) k)) media) (\<lambda>m.
                      Stream_of m (s_config s) sd)) (s, w)) (\<lambda>st (s, w).
                    let s = upd_participant i (upd_receiver k (\<lambda>r. r)) s in
                    if hasStreamWithMid (receiver (participant s i) k) x then (Inr (), (s, w))
                    else call_onNewStream h i st (upd_participant i (upd_receiver k (t_addStream st)) s, w))))))"

definition addAnswer :: "'w new_stream \<Rightarrow> u32 \<Rightarrow> SessionDescription \<Rightarrow> Session \<times> 'w \<Rightarrow> unit result \<times> (Session \<times> 'w)" where
  "addAnswer h i sdp sw =
     (case sw of (s, w) \<Rightarrow>
        sbind (pure (participantInState s gotOffer) (s, w)) (\<lambda>j (s, w).
        let s = upd_participant i (\<lambda>p. p) (upd_participant j (\<lambda>p. p) s); k = p_id (participant s j) in
        if signalingState (participant s i) \<noteq> awaitAnswer then (Inl (Logic_error ''Session: addAnswer: unexpected answer''), (s, w))
        else
          let s = fold (\<lambda>c. upd_participant i (upd_receiver k (addICECandidate c))) (concat (map iceCandidates (mediaDescriptions sdp))) s in
          sbind (each_media (answer_media h j i) (mediaDescriptions sdp) (s, w)) (\<lambda>_ (s, w).
            (Inr (), (upd_participant i (set_state stable) s, w)))))"

definition answered :: "SFUConfig \<Rightarrow> Stream \<Rightarrow> MediaDescription result" where
  "answered cfg st =
     rbind (stream_offer cfg st) (\<lambda>m. rbind (deref (md_type (description st))) (\<lambda>t.
       Inr (supported cfg t (m\<lparr> direction := Some recvonly, ssrcDescription := None, md_msid := None \<rparr>))))"

definition getAnswer :: "u32 \<Rightarrow> Session \<Rightarrow> SessionDescription result \<times> Session" where
  "getAnswer i s =
     (if \<not> participantExists s i then (Inl (Logic_error ''Session: getAnswer: participant does not exist''), s)
      else if signalingState (participant s i) \<noteq> gotOffer then (Inl (Logic_error ''Session: getAnswer: no previous offer''), s)
      else
        let t = sessionTemplate (s_config s) in
        sbind (pure (rmap (answered (s_config s)) (outgoingStreams (participant s i))) s) (\<lambda>ms s.
          (Inr (t\<lparr> origin := (origin t)\<lparr> o_sessionId := ucast (s_id s) \<rparr>, mediaDescriptions := mediaDescriptions t @ ms \<rparr>),
           upd_participant i (set_state stable) s)))"

section \<open>The sessions of a controller\<close>

type_synonym SessionManager = "(u32, Session) omap"

definition session_exists :: "SessionManager \<Rightarrow> u32 \<Rightarrow> bool" where
  "session_exists m i \<longleftrightarrow> map_of m i \<noteq> None"

definition session_add :: "u32 \<Rightarrow> SFUConfig \<Rightarrow> SessionManager \<Rightarrow> unit result \<times> SessionManager" where
  "session_add i cfg m =
     (if session_exists m i then (Inl (Logic_error (''SessionManager: SessionManager: add: session with id '' @ dec (unat i) @ '' already exists.'')), m)
      else (Inr (), omap_put i ((Session_of i cfg)\<lparr> s_onNewStream := True \<rparr>) m))"

definition session_get :: "SessionManager \<Rightarrow> u32 \<Rightarrow> Session result" where
  "session_get m i =
     (case map_of m i of None \<Rightarrow> Inl (Logic_error (''SessionManager: get: session with id '' @ dec (unat i) @ '' does not exist.'')) | Some s \<Rightarrow> Inr s)"

definition session_remove :: "u32 \<Rightarrow> SessionManager \<Rightarrow> unit result \<times> SessionManager" where
  "session_remove i m =
     (if session_exists m i then (Inr (), assoc_del i m)
      else (Inl (Logic_error (''SessionManager: remove: session with id '' @ dec (unat i) @ '' does not exist.'')), m))"

end
