(* ===== verification/Controller.thy ===== *)
theory Controller
  imports Session
begin

text \<open>
  \<open>controller/controller.{h,cc}\<close> with the connections it works on, \<open>lib/controller_client_connection\<close>,
  \<open>lib/controller_client_interface\<close>, \<open>lib/controller_switch_connection\<close>, \<open>lib/controller_switch_interface\<close>
  and \<open>lib/controller_api\<close>. A WebSocket session is a number, its index in the list of all sessions that
  were ever accepted; a connection refers to it. What is written to a WebSocket is appended to a log.
  An exception that leaves a handler ends the program: \<open>operator()\<close> returns.
\<close>

section \<open>Endpoints\<close>

text \<open>\<open>asio::ip::tcp::endpoint\<close>: the servers listen on IPv4; endpoints are ordered by address, then port.\<close>

instantiation IPv4Port :: linorder
begin

definition less_eq_IPv4Port :: "IPv4Port \<Rightarrow> IPv4Port \<Rightarrow> bool" where
  "a \<le> b \<longleftrightarrow> ip a < ip b \<or> ip a = ip b \<and> port a \<le> port b"

definition less_IPv4Port :: "IPv4Port \<Rightarrow> IPv4Port \<Rightarrow> bool" where
  "a < b \<longleftrightarrow> ip a < ip b \<or> ip a = ip b \<and> port a < port b"

instance
proof
  fix a b c :: IPv4Port
  show "a < b \<longleftrightarrow> a \<le> b \<and> \<not> b \<le> a" by (auto simp: less_IPv4Port_def less_eq_IPv4Port_def)
  show "a \<le> a" by (simp add: less_eq_IPv4Port_def)
  show "a \<le> b \<Longrightarrow> b \<le> c \<Longrightarrow> a \<le> c" by (auto simp: less_eq_IPv4Port_def)
  show "a \<le> b \<Longrightarrow> b \<le> a \<Longrightarrow> a = b" by (auto simp: less_eq_IPv4Port_def intro: IPv4Port.expand)
  show "a \<le> b \<or> b \<le> a" by (auto simp: less_eq_IPv4Port_def)
qed

end

section \<open>State\<close>

record ClientMeta =
  registered :: bool
  cm_sessionId :: u32
  cm_participantId :: u32

record SwitchMeta =
  sm_registered :: bool
  sm_id :: u32

definition ClientMeta_default :: ClientMeta where
  "ClientMeta_default = \<lparr> registered = False, cm_sessionId = 0, cm_participantId = 0 \<rparr>"

definition SwitchMeta_default :: SwitchMeta where
  "SwitchMeta_default = \<lparr> sm_registered = False, sm_id = 0 \<rparr>"

datatype sent = To_client nat string | To_switch nat string

record controller =
  c_sessions :: SessionManager
  c_config :: SFUConfig
  c_clients :: "(IPv4Port \<times> ClientMeta) list"
  c_clientConns :: "(IPv4Port, nat) omap"
  c_switches :: "(IPv4Port \<times> SwitchMeta) list"
  c_switchConns :: "(IPv4Port, nat) omap"
  c_sent :: "sent list"

text \<open>The credentials are those the constructor passes; the extension id is its default.\<close>

definition Controller_of :: "string \<Rightarrow> u16 \<Rightarrow> string \<Rightarrow> byte \<Rightarrow> controller result" where
  "Controller_of dataPlaneIPv4 dataPlanePort limitNetwork limitMask =
     rbind (IPv4Prefix_of_string limitNetwork limitMask) (\<lambda>lim.
       Inr \<lparr> c_sessions = [], c_config = SFUConfig_of dataPlaneIPv4 dataPlanePort ''7Ad/'' ''UKZe/aYNEouGzQUhChnKGiIS'' lim 13,
         c_clients = [], c_clientConns = [], c_switches = [], c_switchConns = [], c_sent = [] \<rparr>)"

definition client_meta :: "controller \<Rightarrow> nat \<Rightarrow> ClientMeta" where
  "client_meta c n = snd (c_clients c ! n)"

definition client_remote :: "controller \<Rightarrow> nat \<Rightarrow> IPv4Port" where
  "client_remote c n = fst (c_clients c ! n)"

definition switch_meta :: "controller \<Rightarrow> nat \<Rightarrow> SwitchMeta" where
  "switch_meta c n = snd (c_switches c ! n)"

definition write_client :: "nat \<Rightarrow> string \<Rightarrow> controller \<Rightarrow> controller" where
  "write_client n d c = c\<lparr> c_sent := c_sent c @ [To_client n d] \<rparr>"

definition write_switch :: "nat \<Rightarrow> string \<Rightarrow> controller \<Rightarrow> controller" where
  "write_switch n d c = c\<lparr> c_sent := c_sent c @ [To_switch n d] \<rparr>"

text \<open>\<open>SecureWebSocketSession::write\<close> hands the data to the socket in messages of at most 1024 bytes.\<close>

function ws_chunks :: "string \<Rightarrow> string list" where
  "ws_chunks d = (if d = [] then [] else take 1024 d # ws_chunks (drop 1024 d))"
  by auto
termination by (relation "measure length") simp_all

declare ws_chunks.simps [simp del]

lemma ws_chunks_data: "concat (ws_chunks d) = d \<and> (\<forall>p \<in> set (ws_chunks d). p \<noteq> [] \<and> length p \<le> 1024)"
proof (induction d rule: ws_chunks.induct)
  case (1 d)
  show ?case
  proof (cases "d = []")
    case False
    then have "ws_chunks d = take 1024 d # ws_chunks (drop 1024 d)" by (subst ws_chunks.simps) simp
    then show ?thesis using 1 False by simp
  qed (simp add: ws_chunks.simps)
qed

section \<open>Client connections\<close>

definition sendHello :: "'j json_api \<Rightarrow> nat \<Rightarrow> controller \<Rightarrow> controller" where
  "sendHello J n c =
     (let m = client_meta c n in
      write_client n (json_cl_Hello J
        \<lparr> clh_sessionId = (if cm_sessionId m \<noteq> 0 then Some (cm_sessionId m) else None),
          clh_participantId = (if cm_participantId m \<noteq> 0 then Some (cm_participantId m) else None) \<rparr>) c)"

definition sendOffer :: "'j json_api \<Rightarrow> nat \<Rightarrow> SessionDescription \<Rightarrow> u32 \<Rightarrow> controller \<Rightarrow> unit result \<times> controller" where
  "sendOffer J n sdp related c =
     sbind (pure (escapedString sdp) c) (\<lambda>t c. (Inr (), write_client n (json_Offer J \<lparr> of_sdp = t, of_participantId = related \<rparr>) c))"

definition sendAnswer :: "'j json_api \<Rightarrow> nat \<Rightarrow> SessionDescription \<Rightarrow> u32 \<Rightarrow> controller \<Rightarrow> unit result \<times> controller" where
  "sendAnswer J n sdp related c =
     sbind (pure (escapedString sdp) c) (\<lambda>t c. (Inr (), write_client n (json_Answer J \<lparr> an_sdp = t, an_participantId = related \<rparr>) c))"

definition clients_get :: "controller \<Rightarrow> u32 \<Rightarrow> u32 \<Rightarrow> nat result" where
  "clients_get c sid pid =
     (case find (\<lambda>(_, n). cm_sessionId (client_meta c n) = sid \<and> cm_participantId (client_meta c n) = pid) (c_clientConns c) of
        None \<Rightarrow> Inl (Logic_error ''ControllerClientInterface: get: participant does not exist'')
      | Some (_, n) \<Rightarrow> Inr n)"

section \<open>Switch connections\<close>

definition connectionById :: "controller \<Rightarrow> u32 \<Rightarrow> bool \<Rightarrow> (IPv4Port \<times> nat) option" where
  "connectionById c i reg =
     find (\<lambda>(_, n). sm_id (switch_meta c n) = i \<and> (reg \<longrightarrow> sm_registered (switch_meta c n))) (c_switchConns c)"

definition countRegistered :: "controller \<Rightarrow> nat" where
  "countRegistered c = length (filter (\<lambda>(_, n). sm_registered (switch_meta c n)) (c_switchConns c))"

definition switches_exists :: "controller \<Rightarrow> u32 \<Rightarrow> bool" where
  "switches_exists c i \<longleftrightarrow> connectionById c i True \<noteq> None"

definition switches_get :: "controller \<Rightarrow> u32 \<Rightarrow> nat result" where
  "switches_get c i =
     (case connectionById c i False of
        None \<Rightarrow> Inl (Logic_error (''ControllerSwitchInterface: get: switch does not exist, id='' @ dec (unat i)))
      | Some (_, n) \<Rightarrow> Inr n)"

definition switches_remove :: "u32 \<Rightarrow> controller \<Rightarrow> unit result \<times> controller" where
  "switches_remove i c =
     (case connectionById c i False of
        None \<Rightarrow> (Inl (Logic_error (''ControllerSwitchInterface: remove: switch does not exist, id='' @ dec (unat i))), c)
      | Some (e, _) \<Rightarrow> (Inr (), c\<lparr> c_switchConns := assoc_del e (c_switchConns c) \<rparr>))"

definition sw_sendHello :: "'j json_api \<Rightarrow> nat \<Rightarrow> controller \<Rightarrow> controller" where
  "sw_sendHello J n c = write_switch n (json_sw_Hello J \<lparr> swh_switchId = None \<rparr>) c"

definition sw_addParticipant :: "'j json_api \<Rightarrow> nat \<Rightarrow> u32 \<Rightarrow> u32 \<Rightarrow> IPv4 \<Rightarrow> controller \<Rightarrow> controller" where
  "sw_addParticipant J n sid pid a c =
     write_switch n (json_AddParticipant J \<lparr> ap_sessionId = sid, ap_participantId = pid, ap_ip = a \<rparr>) c"

text \<open>The message for a stream; the last two SSRCs have the default 0 for a send stream.\<close>

definition stream_message :: "u32 \<Rightarrow> u32 \<Rightarrow> Direction \<Rightarrow> 'a DataPlaneConfig_scheme \<Rightarrow> u32 \<Rightarrow> u32 \<Rightarrow> sw_AddStream" where
  "stream_message sid pid dir s rtcp rtcpRtx =
     \<lparr> as_sessionId = sid, as_participantId = pid, as_ip = ip (dc_addr s), as_port = port (dc_addr s), as_iceUfrag = dc_iceUfrag s,
       as_icePwd = dc_icePwd s, as_mainSSRC = mainSSRC s, as_rtxSSRC = rtxSSRC s, as_rtcpSSRC = rtcp, as_rtcpRtxSSRC = rtcpRtx,
       as_mediaType = Some (dc_mediaType s), as_direction = Some dir \<rparr>"

definition config_message :: "u32 \<Rightarrow> u32 \<Rightarrow> stream_config \<Rightarrow> sw_AddStream" where
  "config_message sid pid cfg =
     (case cfg of
        Send_config s \<Rightarrow> stream_message sid pid sendonly s 0 0
      | Receive_config s \<Rightarrow> stream_message sid pid recvonly s (rtcpSSRC s) (rtcpRtxSSRC s))"

definition sw_addStream :: "'j json_api \<Rightarrow> nat \<Rightarrow> sw_AddStream \<Rightarrow> controller \<Rightarrow> unit result \<times> controller" where
  "sw_addStream J n m c = sbind (pure (json_AddStream J m) c) (\<lambda>t c. (Inr (), write_switch n t c))"

section \<open>Events from clients\<close>

definition onNewStream :: "'j json_api \<Rightarrow> controller new_stream" where
  "onNewStream J s pid st c =
     (if direction (description st) = None then (Inr (), c)
      else sbind (pure (switches_get c 0) c) (\<lambda>n. sw_addStream J n (config_message (s_id s) pid (dataPlaneConfig st))))"

text \<open>A call on the session with a given id; the session may call back.\<close>

definition with_session :: "u32 \<Rightarrow> (Session \<times> controller \<Rightarrow> 'a result \<times> (Session \<times> controller)) \<Rightarrow> controller \<Rightarrow> 'a result \<times> controller" where
  "with_session sid f c =
     (case session_get (c_sessions c) sid of
        Inl e \<Rightarrow> (Inl e, c)
      | Inr s \<Rightarrow> (case f (s, c) of (r, (s, c)) \<Rightarrow> (r, c\<lparr> c_sessions := omap_put sid s (c_sessions c) \<rparr>)))"

definition on_session :: "u32 \<Rightarrow> (Session \<Rightarrow> 'a result \<times> Session) \<Rightarrow> controller \<Rightarrow> 'a result \<times> controller" where
  "on_session sid f = with_session sid (\<lambda>(s, c). case f s of (r, s) \<Rightarrow> (r, (s, c)))"

definition set_client_meta :: "nat \<Rightarrow> ClientMeta \<Rightarrow> controller \<Rightarrow> controller" where
  "set_client_meta n m c = c\<lparr> c_clients := (c_clients c)[n := (client_remote c n, m)] \<rparr>"

text \<open>The session of the new participant, added if it does not exist yet.\<close>

definition add_session :: "u32 \<Rightarrow> controller \<Rightarrow> unit result \<times> controller" where
  "add_session sid c =
     (if session_exists (c_sessions c) sid then (Inr (), c)
      else (case session_add sid (c_config c) (c_sessions c) of (r, ss) \<Rightarrow> (r, c\<lparr> c_sessions := ss \<rparr>)))"

text \<open>An offer for the new participant if there are others and streams.\<close>

definition offer_existing :: "'j json_api \<Rightarrow> nat \<Rightarrow> u32 \<Rightarrow> u32 \<Rightarrow> controller \<Rightarrow> unit result \<times> controller" where
  "offer_existing J n sid pid c =
     sbind (pure (session_get (c_sessions c) sid) c) (\<lambda>s c.
       if length (participants s) > 1 \<and> countStreams s > 0 then
         sbind (on_session sid (getOffer pid) c) (\<lambda>sdp c. sendOffer J n sdp 0 c)
       else (Inr (), c))"

definition join_session :: "'j json_api \<Rightarrow> nat \<Rightarrow> u32 \<Rightarrow> controller \<Rightarrow> unit result \<times> controller" where
  "join_session J n sid c =
     sbind (pure (session_get (c_sessions c) sid) c) (\<lambda>s c.
     let a = IPv4_str (ip (client_remote c n)); q = port (client_remote c n) in
     if participantExistsAt s a q then (Inr (), c)
     else
       sbind (on_session sid (addParticipant a q) c) (\<lambda>pid c.
       let c = sendHello J n (set_client_meta n \<lparr> registered = True, cm_sessionId = sid, cm_participantId = pid \<rparr> c) in
       sbind (pure (switches_get c 0) c) (\<lambda>k c.
       sbind (pure (IPv4_of_string a) c) (\<lambda>addr c. offer_existing J n sid pid (sw_addParticipant J k sid pid addr c)))))"

definition onNewParticipant :: "'j json_api \<Rightarrow> nat \<Rightarrow> cl_Hello \<Rightarrow> controller \<Rightarrow> unit result \<times> controller" where
  "onNewParticipant J n m c =
     sbind (pure (deref (clh_sessionId m)) c) (\<lambda>sid c. sbind (add_session sid c) (\<lambda>_. join_session J n sid))"

fun forward_offers :: "'j json_api \<Rightarrow> u32 \<Rightarrow> u32 \<Rightarrow> u32 list \<Rightarrow> controller \<Rightarrow> unit result \<times> controller" where
  "forward_offers J sid pid [] c = (Inr (), c)"
| "forward_offers J sid pid (i # is) c =
     sbind (if i = pid then (Inr (), c)
            else
              sbind (on_session sid (getOffer i) c) (\<lambda>sdp c.
              sbind (pure (session_get (c_sessions c) sid) c) (\<lambda>s c.
              sbind (pure (clients_get c (s_id s) i) c) (\<lambda>n c. sendOffer J n sdp pid c))))
       (\<lambda>_. forward_offers J sid pid is)"

text \<open>The session and the participant a message comes from, or nothing if one of them is unknown.\<close>

definition known_participant :: "controller \<Rightarrow> nat \<Rightarrow> Session option" where
  "known_participant c n =
     (case map_of (c_sessions c) (cm_sessionId (client_meta c n)) of
        None \<Rightarrow> None
      | Some s \<Rightarrow> if participantExists s (cm_participantId (client_meta c n)) then Some s else None)"

definition onClientOffer :: "'j json_api \<Rightarrow> nat \<Rightarrow> cl_Offer \<Rightarrow> controller \<Rightarrow> unit result \<times> controller" where
  "onClientOffer J n m c =
     (let sid = cm_sessionId (client_meta c n); pid = cm_participantId (client_meta c n) in
      if known_participant c n = None then (Inr (), c)
      else
        sbind (pure (SessionDescription_of (of_sdp m)) c) (\<lambda>sdp c.
        sbind (with_session sid (addOffer (onNewStream J) pid sdp) c) (\<lambda>_ c.
        sbind (pure (session_get (c_sessions c) sid) c) (\<lambda>s c.
        if length (participants s) > 1 then forward_offers J sid pid (map fst (participants s)) c
        else sbind (on_session sid (getAnswer pid) c) (\<lambda>ans c. sendAnswer J n ans pid c)))))"

definition onClientAnswer :: "'j json_api \<Rightarrow> nat \<Rightarrow> cl_Answer \<Rightarrow> controller \<Rightarrow> unit result \<times> controller" where
  "onClientAnswer J n m c =
     (let sid = cm_sessionId (client_meta c n); pid = cm_participantId (client_meta c n) in
      if known_participant c n = None then (Inr (), c)
      else
        sbind (pure (SessionDescription_of (an_sdp m)) c) (\<lambda>sdp c.
        sbind (with_session sid (addAnswer (onNewStream J) pid sdp) c) (\<lambda>_ c.
        sbind (pure (session_get (c_sessions c) sid) c) (\<lambda>s c.
        if signalingActive s \<and> particpantsInState s awaitAnswer = [] then
          sbind (pure (participantInState s gotOffer) c) (\<lambda>j c.
          sbind (on_session sid (getAnswer j) c) (\<lambda>ans c.
          sbind (pure (clients_get c sid j) c) (\<lambda>k c. sendAnswer J k ans j c)))
        else (Inr (), c)))))"

definition onClientClose :: "ClientMeta \<Rightarrow> controller \<Rightarrow> unit result \<times> controller" where
  "onClientClose m c =
     (case map_of (c_sessions c) (cm_sessionId m) of
        None \<Rightarrow> (Inr (), c)
      | Some s \<Rightarrow>
          if participantExists s (cm_participantId m) then on_session (cm_sessionId m) (removeParticipant (cm_participantId m)) c
          else (Inr (), c))"

end
