(* ===== verification/Controller_Interface.thy ===== *)
theory Controller_Interface
  imports Controller
begin

text \<open>
  The way of a message to the controller: the interfaces for clients and switches, which parse and
  dispatch what arrives on a connection, the remaining event handlers of the controller, its API, and
  the events the program reacts to.
\<close>

section \<open>Clients\<close>

definition ci_onClientOpen :: "IPv4Port \<Rightarrow> controller \<Rightarrow> unit result \<times> controller" where
  "ci_onClientOpen e c =
     (let n = length (c_clients c); c = c\<lparr> c_clients := c_clients c @ [(e, ClientMeta_default)] \<rparr> in
      (Inr (), if map_of (c_clientConns c) e = None then c\<lparr> c_clientConns := omap_put e n (c_clientConns c) \<rparr> else c))"

definition parseClientMessage :: "'j json_api \<Rightarrow> string \<Rightarrow> 'j option" where
  "parseClientMessage J buf =
     (case j_parse J buf of
        Inl e \<Rightarrow> None
      | Inr msg \<Rightarrow>
          (case j_find J msg ''type'' of
             None \<Rightarrow> None
           | Some t \<Rightarrow> if j_is_str J t ''hello'' \<or> j_is_str J t ''offer'' \<or> j_is_str J t ''answer'' then Some msg else None))"

definition msg_is :: "'j json_api \<Rightarrow> 'j \<Rightarrow> string \<Rightarrow> bool" where
  "msg_is J msg ident \<longleftrightarrow> (case j_find J msg ''type'' of None \<Rightarrow> False | Some t \<Rightarrow> j_is_str J t ident)"

definition onClientHello :: "'j json_api \<Rightarrow> nat \<Rightarrow> controller \<Rightarrow> unit result \<times> controller" where
  "onClientHello J k c = (Inr (), sendHello J k c)"

text \<open>The connection is looked up by the remote endpoint of the WebSocket session, the registration in the session itself.\<close>

definition ci_onClientHello :: "'j json_api \<Rightarrow> nat \<Rightarrow> cl_Hello \<Rightarrow> controller \<Rightarrow> unit result \<times> controller" where
  "ci_onClientHello J n m c =
     (case map_of (c_clientConns c) (client_remote c n) of
        None \<Rightarrow> (Inr (), c)
      | Some k \<Rightarrow>
          if \<not> registered (client_meta c n) then onNewParticipant J k m c
          else if clh_sessionId m \<noteq> None then onClientHello J k c
          else (Inr (), c))"

definition ci_onClientOffer :: "'j json_api \<Rightarrow> nat \<Rightarrow> cl_Offer \<Rightarrow> controller \<Rightarrow> unit result \<times> controller" where
  "ci_onClientOffer J n m c =
     (case map_of (c_clientConns c) (client_remote c n) of
        None \<Rightarrow> (Inr (), c)
      | Some k \<Rightarrow> if registered (client_meta c n) then onClientOffer J k m c else (Inr (), c))"

definition ci_onClientAnswer :: "'j json_api \<Rightarrow> nat \<Rightarrow> cl_Answer \<Rightarrow> controller \<Rightarrow> unit result \<times> controller" where
  "ci_onClientAnswer J n m c =
     (case map_of (c_clientConns c) (client_remote c n) of
        None \<Rightarrow> (Inr (), c)
      | Some k \<Rightarrow> if registered (client_meta c n) then onClientAnswer J k m c else (Inr (), c))"

definition ci_onClientMessage :: "'j json_api \<Rightarrow> nat \<Rightarrow> string \<Rightarrow> controller \<Rightarrow> unit result \<times> controller" where
  "ci_onClientMessage J n buf c =
     sbind (pure (bufferString buf) c) (\<lambda>_ c.
       (case parseClientMessage J buf of
          None \<Rightarrow> (Inr (), c)
        | Some msg \<Rightarrow>
            if registered (client_meta c n) then
              (if msg_is J msg ''hello'' then sbind (pure (parse_cl_Hello J msg) c) (ci_onClientHello J n)
               else if msg_is J msg ''offer'' then sbind (pure (parse_Offer J msg) c) (ci_onClientOffer J n)
               else if msg_is J msg ''answer'' then sbind (pure (parse_Answer J msg) c) (ci_onClientAnswer J n)
               else (Inr (), c))
            else if msg_is J msg ''hello'' then sbind (pure (parse_cl_Hello J msg) c) (ci_onClientHello J n)
            else (Inr (), c)))"

definition ci_onClientClose :: "nat \<Rightarrow> controller \<Rightarrow> unit result \<times> controller" where
  "ci_onClientClose n c = onClientClose (client_meta c n) c"

section \<open>Switches\<close>

definition si_onSwitchOpen :: "IPv4Port \<Rightarrow> controller \<Rightarrow> unit result \<times> controller" where
  "si_onSwitchOpen e c =
     (let n = length (c_switches c); c = c\<lparr> c_switches := c_switches c @ [(e, SwitchMeta_default)] \<rparr> in
      (Inr (), if map_of (c_switchConns c) e = None then c\<lparr> c_switchConns := omap_put e n (c_switchConns c) \<rparr> else c))"

definition onNewSwitch :: "'j json_api \<Rightarrow> nat \<Rightarrow> sw_Hello \<Rightarrow> controller \<Rightarrow> unit result \<times> controller" where
  "onNewSwitch J k m c =
     (if countRegistered c > 0 then (Inr (), c)
      else sbind (pure (deref (swh_switchId m)) c) (\<lambda>i c.
        if i \<noteq> 0 then (Inr (), c)
        else if switches_exists c i then (Inr (), c)
        else (Inr (), sw_sendHello J k (c\<lparr> c_switches := (c_switches c)[k := (fst (c_switches c ! k), \<lparr> sm_registered = True, sm_id = i \<rparr>)] \<rparr>))))"

definition parseSwitchMessage :: "'j json_api \<Rightarrow> string \<Rightarrow> 'j option" where
  "parseSwitchMessage J buf =
     (case j_parse J buf of Inl e \<Rightarrow> None | Inr msg \<Rightarrow> if msg_is J msg ''hello'' then Some msg else None)"

definition si_onSwitchHello :: "'j json_api \<Rightarrow> nat \<Rightarrow> sw_Hello \<Rightarrow> controller \<Rightarrow> unit result \<times> controller" where
  "si_onSwitchHello J n m c =
     (case map_of (c_switchConns c) (fst (c_switches c ! n)) of
        None \<Rightarrow> (Inr (), c)
      | Some k \<Rightarrow>
          if \<not> sm_registered (switch_meta c n) then (if swh_switchId m \<noteq> None then onNewSwitch J k m c else (Inr (), c))
          else (Inr (), c))"

text \<open>Both branches on the registration accept a hello, and \<open>parseSwitchMessage\<close> lets nothing else through.\<close>

definition si_onSwitchMessage :: "'j json_api \<Rightarrow> nat \<Rightarrow> string \<Rightarrow> controller \<Rightarrow> unit result \<times> controller" where
  "si_onSwitchMessage J n buf c =
     sbind (pure (bufferString buf) c) (\<lambda>_ c.
       (case parseSwitchMessage J buf of
          None \<Rightarrow> (Inr (), c)
        | Some msg \<Rightarrow>
            if sm_registered (switch_meta c n) then
              (if msg_is J msg ''hello'' then sbind (pure (parse_sw_Hello J msg) c) (si_onSwitchHello J n) else (Inr (), c))
            else if msg_is J msg ''hello'' then sbind (pure (parse_sw_Hello J msg) c) (si_onSwitchHello J n)
            else (Inr (), c)))"

definition onSwitchClose :: "SwitchMeta \<Rightarrow> controller \<Rightarrow> unit result \<times> controller" where
  "onSwitchClose m c = switches_remove (sm_id m) c"

definition si_onSwitchClose :: "nat \<Rightarrow> controller \<Rightarrow> unit result \<times> controller" where
  "si_onSwitchClose n c = onSwitchClose (switch_meta c n) c"

section \<open>The API\<close>

definition session_json :: "'j json_api \<Rightarrow> Session \<Rightarrow> 'j" where
  "session_json J s =
     obj J [(''id'', j_of_num J (unat (s_id s))), (''participants'', j_of_num J (length (participants s))),
       (''streams'', j_of_num J (unat (countStreams s)))]"

definition onAPIGetSessions :: "'j json_api \<Rightarrow> controller \<Rightarrow> 'j" where
  "onAPIGetSessions J c =
     obj J [(''type'', j_of_str J ''sessions''),
       (''data'', obj J [(''sessions'', j_of_array J (map (\<lambda>(_, s). session_json J s) (c_sessions c)))])]"

text \<open>\<open>std::get\<close> throws if the variant holds the other alternative.\<close>

definition send_stream_json :: "'j json_api \<Rightarrow> Stream \<Rightarrow> 'j result" where
  "send_stream_json J st =
     (case dataPlaneConfig st of
        Receive_config _ \<Rightarrow> Inl (Logic_error ''bad variant access'')
      | Send_config s \<Rightarrow>
          Inr (obj J [(''ip'', j_of_str J (IPv4_str (ip (dc_addr s)))), (''port'', j_of_num J (unat (port (dc_addr s)))),
            (''ssrc'', j_of_num J (unat (mainSSRC s))), (''rtxSsrc'', j_of_num J (unat (rtxSSRC s)))]))"

definition receive_stream_json :: "'j json_api \<Rightarrow> Stream \<Rightarrow> 'j result" where
  "receive_stream_json J st =
     (case dataPlaneConfig st of
        Send_config _ \<Rightarrow> Inl (Logic_error ''bad variant access'')
      | Receive_config s \<Rightarrow>
          Inr (obj J [(''ip'', j_of_str J (IPv4_str (ip (dc_addr s)))), (''port'', j_of_num J (unat (port (dc_addr s)))),
            (''ssrc'', j_of_num J (unat (mainSSRC s))), (''rtxSsrc'', j_of_num J (unat (rtxSSRC s))),
            (''rtcpSsrc'', j_of_num J (unat (rtcpSSRC s))), (''rtcpRtxSsrc'', j_of_num J (unat (rtcpRtxSSRC s)))]))"

definition participant_json :: "'j json_api \<Rightarrow> u32 \<times> Participant \<Rightarrow> 'j result" where
  "participant_json J ip' =
     (case ip' of (i, p) \<Rightarrow>
        rbind (rmap (send_stream_json J) (outgoingStreams p)) (\<lambda>out. rbind (rmap (receive_stream_json J) (incomingStreams p)) (\<lambda>inc.
          Inr (obj J [(''id'', j_of_num J (unat i)), (''sendStreams'', j_of_array J out), (''receiveStreams'', j_of_array J inc)]))))"

definition onAPIGetSession :: "'j json_api \<Rightarrow> controller \<Rightarrow> u32 \<Rightarrow> 'j result" where
  "onAPIGetSession J c i =
     (if \<not> session_exists (c_sessions c) i then
        Inr (obj J [(''type'', j_of_str J ''error''),
          (''data'', obj J [(''msg'', j_of_str J (''session with id '' @ dec (unat i) @ '' does not exist.''))])])
      else
        rbind (session_get (c_sessions c) i) (\<lambda>s. rbind (rmap (participant_json J) (participants s)) (\<lambda>ps.
          Inr (obj J [(''type'', j_of_str J ''session''),
            (''data'', obj J [(''id'', j_of_num J (unat (s_id s))), (''participants'', j_of_array J ps)])]))))"

definition ca_parseMessage :: "'j json_api \<Rightarrow> string \<Rightarrow> 'j option" where
  "ca_parseMessage J buf =
     (case j_parse J buf of
        Inl e \<Rightarrow> None
      | Inr msg \<Rightarrow> if msg_is J msg ''get-session'' \<or> msg_is J msg ''get-sessions'' then Some msg else None)"

text \<open>\<open>msg["data"]["id"]\<close> converted to an unsigned integer: a missing member is null, which does not convert.\<close>

definition data_id :: "'j json_api \<Rightarrow> 'j \<Rightarrow> u32 result" where
  "data_id J msg =
     (case j_find J msg ''data'' of
        None \<Rightarrow> Inl (Domain_error ''type must be number, but is null'')
      | Some d \<Rightarrow> (case j_find J d ''id'' of None \<Rightarrow> Inl (Domain_error ''type must be number, but is null'') | Some v \<Rightarrow> num32 J v))"

definition ca_onMessage :: "'j json_api \<Rightarrow> string \<Rightarrow> controller \<Rightarrow> string option result" where
  "ca_onMessage J buf c =
     (case ca_parseMessage J buf of
        None \<Rightarrow> Inr None
      | Some msg \<Rightarrow>
          if msg_is J msg ''get-sessions'' then Inr (Some (j_dump J (onAPIGetSessions J c)))
          else if msg_is J msg ''get-session'' then
            rbind (data_id J msg) (\<lambda>i. rbind (onAPIGetSession J c i) (\<lambda>j. Inr (Some (j_dump J j))))
          else Inr None)"

section \<open>Events\<close>

datatype event =
    Client_open IPv4Port
  | Client_message nat string
  | Client_close nat
  | Switch_open IPv4Port
  | Switch_message nat string
  | Switch_close nat
  | API_message string

fun possible :: "controller \<Rightarrow> event \<Rightarrow> bool" where
  "possible c (Client_message n _) \<longleftrightarrow> n < length (c_clients c)"
| "possible c (Client_close n) \<longleftrightarrow> n < length (c_clients c)"
| "possible c (Switch_message n _) \<longleftrightarrow> n < length (c_switches c)"
| "possible c (Switch_close n) \<longleftrightarrow> n < length (c_switches c)"
| "possible c _ \<longleftrightarrow> True"

fun handle :: "'j json_api \<Rightarrow> event \<Rightarrow> controller \<Rightarrow> unit result \<times> controller" where
  "handle J (Client_open e) c = ci_onClientOpen e c"
| "handle J (Client_message n buf) c = ci_onClientMessage J n buf c"
| "handle J (Client_close n) c = ci_onClientClose n c"
| "handle J (Switch_open e) c = si_onSwitchOpen e c"
| "handle J (Switch_message n buf) c = si_onSwitchMessage J n buf c"
| "handle J (Switch_close n) c = si_onSwitchClose n c"
| "handle J (API_message buf) c = (rbind (ca_onMessage J buf c) (\<lambda>_. Inr ()), c)"

text \<open>The states of the running program: an exception ends it.\<close>

inductive running :: "'j json_api \<Rightarrow> controller \<Rightarrow> bool" for J where
  start: "Controller_of dataPlaneIPv4 dataPlanePort limitNetwork limitMask = Inr c \<Longrightarrow> running J c"
| event: "running J c \<Longrightarrow> possible c e \<Longrightarrow> handle J e c = (Inr (), c') \<Longrightarrow> running J c'"

end
