(* ===== verification/Api_Client.thy ===== *)
theory Api_Client
  imports Switch_System Controller_Interface
begin

text \<open>
  \<open>lib/{api_client,switch_api_client,controller_api_client}.cc\<close> and the command line programs \<open>util/switch_cli_main.cc\<close>
  and \<open>util/controller_cli_main.cc\<close>. A client is the state of its connection with what it wrote to the
  connection, to the standard output and to the error output. The options parsed by the library, the
  result of connecting and the pieces read from the connection are arguments, and so is the indented printer
  of the JSON library. The lemmas follow commands to the two APIs and replies from pieces to the output.
\<close>

section \<open>Clients\<close>

record api_client =
  ac_open :: bool
  ac_sent :: "string list"
  ac_out :: "string list"
  ac_err :: "string list"

record switch_api_client = api_client +
  rxBuf :: string

definition api_client_new :: api_client where
  "api_client_new = \<lparr> ac_open = False, ac_sent = [], ac_out = [], ac_err = [] \<rparr>"

definition switch_api_client_new :: switch_api_client where
  "switch_api_client_new = \<lparr> ac_open = False, ac_sent = [], ac_out = [], ac_err = [], rxBuf = [] \<rparr>"

definition ws_write :: "string \<Rightarrow> 'a api_client_scheme \<Rightarrow> 'a api_client_scheme" where
  "ws_write m c = c\<lparr> ac_sent := ac_sent c @ [m] \<rparr>"

definition ws_close :: "'a api_client_scheme \<Rightarrow> 'a api_client_scheme" where
  "ws_close c = c\<lparr> ac_open := False \<rparr>"

definition cout :: "string \<Rightarrow> 'a api_client_scheme \<Rightarrow> 'a api_client_scheme" where
  "cout t c = c\<lparr> ac_out := ac_out c @ [t] \<rparr>"

definition cerr :: "string \<Rightarrow> 'a api_client_scheme \<Rightarrow> 'a api_client_scheme" where
  "cerr t c = c\<lparr> ac_err := ac_err c @ [t] \<rparr>"

definition endl :: string where
  "endl = [CHR 0x0A]"

fun what :: "exn \<Rightarrow> string" where
  "what (Logic_error t) = t"
| "what (Invalid_argument t) = t"
| "what (Runtime_error t) = t"
| "what (Domain_error t) = t"
| "what (Out_of_range t) = t"
| "what (Undefined_behaviour t) = t"

definition is_exception :: "exn \<Rightarrow> bool" where
  "is_exception e = (case e of Undefined_behaviour _ \<Rightarrow> False | _ \<Rightarrow> True)"

definition invalid_command :: exn where
  "invalid_command = Invalid_argument ''invalid command''"

text \<open>\<open>j[key]\<close> on an object, where a missing member is null.\<close>

definition member_or_null :: "'j json_api \<Rightarrow> 'j \<Rightarrow> string \<Rightarrow> 'j" where
  "member_or_null J j k = (case j_find J j k of None \<Rightarrow> j_null J | Some v \<Rightarrow> v)"

section \<open>The client of the switch\<close>

definition getStreams :: "'j json_api \<Rightarrow> 'a api_client_scheme \<Rightarrow> 'a api_client_scheme" where
  "getStreams J c = ws_write (j_dump J (obj J [(''type'', j_of_str J ''get-streams'')])) c"

definition setDecodeTarget :: "'j json_api \<Rightarrow> u32 \<Rightarrow> SSRC \<Rightarrow> u32 \<Rightarrow> u32 \<Rightarrow> 'a api_client_scheme \<Rightarrow> 'a api_client_scheme" where
  "setDecodeTarget J sessionId ssrc participantId decodeTarget c =
     ws_write (j_dump J (obj J [(''type'', j_of_str J ''set-decode-target''),
       (''args'', obj J
         [(''session-id'', j_of_num J (unat sessionId)), (''ssrc'', j_of_num J (unat ssrc)),
          (''participant-id'', j_of_num J (unat participantId)), (''decode-target'', j_of_num J (unat decodeTarget))])])) c"

text \<open>
  The arguments of a call are converted in an order that C++ leaves open; here from the left, which decides only
  which of several wrong arguments is reported. Converting to \<open>unsigned\<close> keeps the low 32 bits.
\<close>

definition target_args :: "string list \<Rightarrow> (u32 \<times> SSRC \<times> u32 \<times> u32) result" where
  "target_args cmd =
     rbind (stoi (cmd ! 2)) (\<lambda>a. rbind (stoul (cmd ! 3)) (\<lambda>b. rbind (stoi (cmd ! 4)) (\<lambda>p. rbind (stoi (cmd ! 5)) (\<lambda>t.
       Inr (word_of_int a, ucast b, word_of_int p, word_of_int t)))))"

definition sc_runCLICommand :: "'j json_api \<Rightarrow> string list \<Rightarrow> 'a api_client_scheme \<Rightarrow> unit result \<times> 'a api_client_scheme" where
  "sc_runCLICommand J cmd c =
     (if cmd = [] then (Inl (Undefined_behaviour ''operator[] out of range''), c)
      else if cmd ! 0 = ''show'' \<or> cmd ! 0 = ''s'' then
        (if length cmd = 2 then
           (if cmd ! 1 = ''streams'' \<or> cmd ! 1 = ''str'' then (Inr (), getStreams J c) else (Inl invalid_command, c))
         else (Inl invalid_command, c))
      else if cmd ! 0 = ''set'' then
        (if length cmd = 6 then
           (if cmd ! 1 = ''decode-target'' \<or> cmd ! 1 = ''dt'' then
              (case target_args cmd of
                 Inl e \<Rightarrow> (Inl e, c)
               | Inr (sid, ssrc, pid, t) \<Rightarrow> (Inr (), setDecodeTarget J sid ssrc pid t c))
            else (Inl invalid_command, c))
         else (Inl invalid_command, c))
      else (Inl invalid_command, c))"

definition sc_parseMessage :: "'j json_api \<Rightarrow> string \<Rightarrow> 'j option" where
  "sc_parseMessage J buf =
     (case j_parse J buf of Inl e \<Rightarrow> None | Inr msg \<Rightarrow> if j_find J msg ''type'' \<noteq> None then Some msg else None)"

definition show_reply :: "'j json_api \<Rightarrow> ('j \<Rightarrow> string) \<Rightarrow> 'j \<Rightarrow> 'a api_client_scheme \<Rightarrow> 'a api_client_scheme" where
  "show_reply J pretty msg c =
     (if msg_is J msg ''ok'' then cout (''ok'' @ endl) c
      else if msg_is J msg ''error'' then cerr (pretty msg @ endl) c
      else cout (pretty (member_or_null J msg ''data'') @ endl) c)"

text \<open>The receive buffer has 16384 bytes, and nothing checks that a piece still fits.\<close>

definition sc_onMessage :: "'j json_api \<Rightarrow> ('j \<Rightarrow> string) \<Rightarrow> string \<Rightarrow> switch_api_client \<Rightarrow> unit result \<times> switch_api_client" where
  "sc_onMessage J pretty buf c =
     (if 16384 < length (rxBuf c) + length buf then (Inl (Undefined_behaviour ''write past end''), c)
      else let c = c\<lparr> rxBuf := rxBuf c @ buf \<rparr> in
        case sc_parseMessage J (rxBuf c) of
          None \<Rightarrow> (Inr (), c)
        | Some msg \<Rightarrow> (Inr (), ws_close (show_reply J pretty msg (c\<lparr> rxBuf := [] \<rparr>))))"

section \<open>The client of the controller\<close>

definition getSessions :: "'j json_api \<Rightarrow> 'a api_client_scheme \<Rightarrow> 'a api_client_scheme" where
  "getSessions J c = ws_write (j_dump J (obj J [(''type'', j_of_str J ''get-sessions'')])) c"

definition getSession :: "'j json_api \<Rightarrow> u32 \<Rightarrow> 'a api_client_scheme \<Rightarrow> 'a api_client_scheme" where
  "getSession J i c =
     ws_write (j_dump J (obj J [(''type'', j_of_str J ''get-session''), (''data'', obj J [(''id'', j_of_num J (unat i))])])) c"

definition cc_runCLICommand :: "'j json_api \<Rightarrow> string list \<Rightarrow> 'a api_client_scheme \<Rightarrow> unit result \<times> 'a api_client_scheme" where
  "cc_runCLICommand J cmd c =
     (if cmd = [] then (Inl (Undefined_behaviour ''operator[] out of range''), c)
      else if cmd ! 0 = ''show'' \<or> cmd ! 0 = ''s'' then
        (if length cmd = 2 \<or> length cmd = 3 then
           (if cmd ! 1 = ''sessions'' \<or> cmd ! 1 = ''ses'' then (Inr (), getSessions J c)
            else if cmd ! 1 = ''session'' \<or> cmd ! 1 = ''se'' then
              (if length cmd = 3 then
                 (case stoul (cmd ! 2) of
                    Inl e \<Rightarrow> (Inr (), cerr (''invalid session id: '' @ what e @ endl) c)
                  | Inr i \<Rightarrow> (Inr (), getSession J (ucast i) c))
               else (Inl invalid_command, c))
            else (Inl invalid_command, c))
         else (Inl invalid_command, c))
      else (Inl invalid_command, c))"

text \<open>\<open>msg["type"]\<close> throws for values that are neither objects nor null; the text of the exception is printed.\<close>

definition cc_parseMessage :: "'j json_api \<Rightarrow> string \<Rightarrow> 'j result" where
  "cc_parseMessage J buf =
     rbind (j_parse J buf) (\<lambda>msg.
       if \<not> j_objectish J msg then Inl (Domain_error ''cannot use operator[] with a string argument'')
       else if msg_is J msg ''session'' \<or> msg_is J msg ''sessions'' \<or> msg_is J msg ''error'' then Inr msg
       else Inl (Runtime_error ''invalid message type''))"

definition cc_onMessage :: "'j json_api \<Rightarrow> ('j \<Rightarrow> string) \<Rightarrow> string \<Rightarrow> 'a api_client_scheme \<Rightarrow> unit result \<times> 'a api_client_scheme" where
  "cc_onMessage J pretty buf c =
     (if buf = [] then (Inr (), ws_close (cerr (''received 0 bytes'' @ endl) c))
      else case cc_parseMessage J buf of
        Inl e \<Rightarrow> (Inr (), ws_close (cerr (''failed to parse message'' @ endl) (cerr (''failed to parse message: '' @ what e @ endl) c)))
      | Inr msg \<Rightarrow>
          let reply = member_or_null J msg ''data'' in
          if msg_is J msg ''error'' then
            (if j_objectish J reply then (Inr (), ws_close (cerr (''error: '' @ j_dump J (member_or_null J reply ''msg'') @ endl) c))
             else (Inl (Domain_error ''cannot use operator[] with a string argument''), c))
          else (Inr (), ws_close (cout (pretty reply) c)))"

section \<open>The programs\<close>

text \<open>
  \<open>run_io\<close> is the event loop: the pieces read from the connection go to the handler until the client closes
  it or there are no more.
\<close>

fun run_io :: "(string \<Rightarrow> 'a api_client_scheme \<Rightarrow> unit result \<times> 'a api_client_scheme) \<Rightarrow> string list \<Rightarrow> 'a api_client_scheme \<Rightarrow>
    unit result \<times> 'a api_client_scheme" where
  "run_io h [] c = (Inr (), c)"
| "run_io h (m # rest) c = (if ac_open c then sbind (h m c) (\<lambda>_. run_io h rest) else (Inr (), c))"

datatype exit_status = Exit int | Terminated exn

record cli_options =
  opt_connect :: "string option"
  opt_help :: bool
  opt_cmds :: "string list option"

definition api_open :: "(string \<Rightarrow> u16 \<Rightarrow> unit result) \<Rightarrow> string \<Rightarrow> u16 \<Rightarrow> 'a api_client_scheme \<Rightarrow> unit result \<times> 'a api_client_scheme" where
  "api_open connect host p c = (case connect host p of Inl e \<Rightarrow> (Inl e, c) | Inr _ \<Rightarrow> (Inr (), c\<lparr> ac_open := True \<rparr>))"

text \<open>The \<open>catch\<close> clause of both programs.\<close>

definition main_status :: "unit result \<times> 'a api_client_scheme \<Rightarrow> exit_status \<times> 'a api_client_scheme" where
  "main_status r =
     (case r of
        (Inr _, c) \<Rightarrow> (Exit 0, c)
      | (Inl e, c) \<Rightarrow> if is_exception e then (Exit 1, cerr (''error: '' @ what e @ endl) c) else (Terminated e, c))"

definition switch_help :: string where
  "switch_help = concat (map (\<lambda>l. l @ endl)
     [''  show,s'', ''    streams,str'', ''  set'', ''    decode-target,dt <session-id> <ssrc> <participant-id> <decode-target>''])"

definition cli_address :: "u16 \<Rightarrow> cli_options \<Rightarrow> (string \<times> u16) result" where
  "cli_address p opts = (case opt_connect opts of None \<Rightarrow> Inr (''127.0.0.1'', p) | Some t \<Rightarrow> parseIPPort t)"

text \<open>Exceptions while options are parsed are thrown outside of the \<open>try\<close> block; \<open>usage\<close> is the text of the library.\<close>

definition switch_cli_main :: "'j json_api \<Rightarrow> ('j \<Rightarrow> string) \<Rightarrow> (string \<Rightarrow> u16 \<Rightarrow> unit result) \<Rightarrow> string \<Rightarrow> cli_options \<Rightarrow>
    string list \<Rightarrow> exit_status \<times> switch_api_client" where
  "switch_cli_main J pretty connect usage opts replies =
     (let c = switch_api_client_new in
      case cli_address 4001 opts of
        Inl e \<Rightarrow> (Terminated e, c)
      | Inr (host, p) \<Rightarrow>
          if opt_help opts then (Exit 0, cout switch_help (cout (usage @ endl) c))
          else (case opt_cmds opts of
            None \<Rightarrow> (Terminated (Domain_error ''option has no value''), c)
          | Some cmds \<Rightarrow>
              main_status (sbind (api_open connect host p c) (\<lambda>_ c.
                sbind (sc_runCLICommand J cmds c) (\<lambda>_. run_io (sc_onMessage J pretty) replies)))))"

definition controller_cli_main :: "'j json_api \<Rightarrow> ('j \<Rightarrow> string) \<Rightarrow> (string \<Rightarrow> u16 \<Rightarrow> unit result) \<Rightarrow> string \<Rightarrow> cli_options \<Rightarrow>
    string list \<Rightarrow> exit_status \<times> api_client" where
  "controller_cli_main J pretty connect usage opts replies =
     (let c = api_client_new in
      case cli_address 4000 opts of
        Inl e \<Rightarrow> (Terminated e, c)
      | Inr (host, p) \<Rightarrow>
          if opt_help opts then (Exit 0, cout (usage @ endl) c)
          else let cmds = (case opt_cmds opts of None \<Rightarrow> [] | Some cmds \<Rightarrow> cmds) in
            main_status (sbind (api_open connect host p c) (\<lambda>_ c.
              sbind (if cmds \<noteq> [] then cc_runCLICommand J cmds c
                     else (Inr (), ws_close (if ac_open c then cout (''connection successful, disconnecting...'' @ endl) c else c)))
                (\<lambda>_. run_io (cc_onMessage J pretty) replies))))"

section \<open>Commands reach the APIs\<close>

lemmas stoi_number = stoi_dec [where rest = "[]", simplified]
lemmas stoul_number = stoul_dec [where rest = "[]", simplified]

lemma set_message:
  assumes "json_laws J"
  obtains m where "setDecodeTarget J a b p t c = ws_write m c"
    and "api_onMessage J ops m s = sbind (onAPISetDecodeTarget J ops a b p t s) (\<lambda>j s. (Inr (Some (j_dump J j)), s))"
  using assms by (simp add: setDecodeTarget_def api_onMessage_def api_parseMessage_def api_arg_def json_simps)

lemma streams_message:
  assumes "json_laws J"
  obtains m where "getStreams J c = ws_write m c" and "api_onMessage J ops m s = (Inr (Some (j_dump J (onAPIGetStreams J (ag_state (fst s))))), s)"
  using assms by (simp add: getStreams_def api_onMessage_def api_parseMessage_def json_simps)

lemma sessions_message:
  assumes "json_laws J"
  obtains m where "getSessions J c = ws_write m c" and "ca_onMessage J m k = Inr (Some (j_dump J (onAPIGetSessions J k)))"
  using assms by (simp add: getSessions_def ca_onMessage_def ca_parseMessage_def msg_is_def json_simps)

lemma session_message:
  assumes "json_laws J"
  obtains m where "getSession J i c = ws_write m c" and "ca_onMessage J m k = rbind (onAPIGetSession J k i) (\<lambda>j. Inr (Some (j_dump J j)))"
  using assms by (simp add: getSession_def ca_onMessage_def ca_parseMessage_def msg_is_def data_id_def json_simps)

lemma target_args_numbers:
  assumes "a < 2 ^ 31" "b < 2 ^ 32" "p < 2 ^ 31" "t < 2 ^ 31"
  shows "target_args [x, y, dec a, dec b, dec p, dec t] = Inr (of_nat a, of_nat b, of_nat p, of_nat t)"
proof -
  have "ucast (of_nat b :: u64) = (of_nat b :: u32)" using assms(2) by (simp add: unsigned_of_nat take_bit_nat_eq_self)
  then show ?thesis using assms by (simp add: target_args_def stoi_number stoul_number)
qed

text \<open>
  C37: what is typed on the command line reaches the handlers of the two APIs. With any JSON library that keeps the documented laws,
  \<open>set dt\<close> with four decimal numbers writes one message, for which the agent runs the handler for decode targets with exactly these
  numbers; \<open>show streams\<close>, \<open>show sessions\<close> and \<open>show session\<close> with a number write one message each, which agent and controller answer with the
  streams, the sessions and the session of that number.
\<close>

theorem cli_commands_arrive:
  assumes "json_laws J" "a < 2 ^ 31" "b < 2 ^ 32" "p < 2 ^ 31" "t < 2 ^ 31" "i < 2 ^ 32"
  shows "(\<exists>m. sc_runCLICommand J [''set'', ''dt'', dec a, dec b, dec p, dec t] c = (Inr (), ws_write m c) \<and>
      api_onMessage J ops m s = sbind (onAPISetDecodeTarget J ops (of_nat a) (of_nat b) (of_nat p) (of_nat t) s) (\<lambda>j s. (Inr (Some (j_dump J j)), s))) \<and>
    (\<exists>m. sc_runCLICommand J [''show'', ''streams''] c = (Inr (), ws_write m c) \<and>
      api_onMessage J ops m s = (Inr (Some (j_dump J (onAPIGetStreams J (ag_state (fst s))))), s)) \<and>
    (\<exists>m. cc_runCLICommand J [''show'', ''sessions''] d = (Inr (), ws_write m d) \<and> ca_onMessage J m k = Inr (Some (j_dump J (onAPIGetSessions J k)))) \<and>
    (\<exists>m. cc_runCLICommand J [''show'', ''session'', dec i] d = (Inr (), ws_write m d) \<and>
      ca_onMessage J m k = rbind (onAPIGetSession J k (of_nat i)) (\<lambda>j. Inr (Some (j_dump J j))))"
proof (intro conjI)
  show "\<exists>m. sc_runCLICommand J [''set'', ''dt'', dec a, dec b, dec p, dec t] c = (Inr (), ws_write m c) \<and>
      api_onMessage J ops m s = sbind (onAPISetDecodeTarget J ops (of_nat a) (of_nat b) (of_nat p) (of_nat t) s) (\<lambda>j s. (Inr (Some (j_dump J j)), s))"
    using set_message [OF assms(1), of "of_nat a" "of_nat b" "of_nat p" "of_nat t" c ops s] target_args_numbers [OF assms(2-5), of "''set''" "''dt''"]
    by (auto simp: sc_runCLICommand_def)
  show "\<exists>m. sc_runCLICommand J [''show'', ''streams''] c = (Inr (), ws_write m c) \<and>
      api_onMessage J ops m s = (Inr (Some (j_dump J (onAPIGetStreams J (ag_state (fst s))))), s)"
    using streams_message [OF assms(1), of c ops s] by (auto simp: sc_runCLICommand_def)
  show "\<exists>m. cc_runCLICommand J [''show'', ''sessions''] d = (Inr (), ws_write m d) \<and> ca_onMessage J m k = Inr (Some (j_dump J (onAPIGetSessions J k)))"
    using sessions_message [OF assms(1), of d k] by (auto simp: cc_runCLICommand_def)
  have "ucast (of_nat i :: u64) = (of_nat i :: u32)" using assms(6) by (simp add: unsigned_of_nat take_bit_nat_eq_self)
  moreover have "stoul (dec i) = Inr (of_nat i)" using assms(6) by (simp add: stoul_number)
  ultimately show "\<exists>m. cc_runCLICommand J [''show'', ''session'', dec i] d = (Inr (), ws_write m d) \<and>
      ca_onMessage J m k = rbind (onAPIGetSession J k (of_nat i)) (\<lambda>j. Inr (Some (j_dump J j)))"
    using session_message [OF assms(1), of "of_nat i" d k] by (auto simp: cc_runCLICommand_def)
qed

definition demo_controller :: controller where
  "demo_controller = \<lparr> c_sessions = [], c_config = SFUConfig_of ''10.0.0.9'' 3000 ''7Ad/'' ''UKZe/aYNEouGzQUhChnKGiIS'' (IPv4Prefix 0 0) 13,
     c_clients = [], c_clientConns = [], c_switches = [], c_switchConns = [], c_sent = [] \<rparr>"

definition demo_connect :: "string \<Rightarrow> u16 \<Rightarrow> unit result" where
  "demo_connect host p = Inr ()"

theorem cli_commands_arrive_witness:
  "\<exists>m. sc_runCLICommand tree_api [''set'', ''dt'', dec 1, dec 10, dec 3, dec 7] switch_api_client_new = (Inr (), ws_write m switch_api_client_new) \<and>
     is_ok (fst (api_onMessage tree_api model_ops m (dp_agent demo_switch, demo_switch)))"
proof -
  have "sw_adjustDecodeTarget model_ops 1 10 3 7 (dp_agent demo_switch, demo_switch) = (Inr False, (dp_agent demo_switch, demo_switch))"
    by (simp add: sw_adjustDecodeTarget_def MAX_IDENT_def)
  then show ?thesis
    using cli_commands_arrive [OF tree_api_laws, of 1 10 3 7 0 switch_api_client_new model_ops "(dp_agent demo_switch, demo_switch)" api_client_new demo_controller]
    by (auto simp: onAPISetDecodeTarget_def)
qed

section \<open>Replies\<close>

text \<open>A reply that arrives in pieces is shown once, when its last piece is there.\<close>

lemma run_assembled:
  assumes "chunks \<noteq> []" "ac_open c" "length (rxBuf c @ concat chunks) \<le> 16384"
    and "\<And>k. 0 < k \<Longrightarrow> k < length chunks \<Longrightarrow> sc_parseMessage J (rxBuf c @ concat (take k chunks)) = None"
    and "sc_parseMessage J (rxBuf c @ concat chunks) = Some msg"
  shows "run_io (sc_onMessage J pretty) chunks c = (Inr (), ws_close (show_reply J pretty msg (c\<lparr> rxBuf := [] \<rparr>)))"
  using assms
proof (induction chunks arbitrary: c)
  case (Cons b bs)
  show ?case
  proof (cases "bs = []")
    case True
    then show ?thesis using Cons.prems by (simp add: sc_onMessage_def)
  next
    case False
    let ?c = "c\<lparr> rxBuf := rxBuf c @ b \<rparr>"
    have "sc_parseMessage J (rxBuf c @ b) = None" using Cons.prems(4) [of 1] False by simp
    then have "sc_onMessage J pretty b c = (Inr (), ?c)" using Cons.prems(3) by (simp add: sc_onMessage_def)
    moreover have "run_io (sc_onMessage J pretty) bs ?c = (Inr (), ws_close (show_reply J pretty msg (?c\<lparr> rxBuf := [] \<rparr>)))"
    proof (rule Cons.IH)
      fix k assume "0 < k" "k < length bs"
      then show "sc_parseMessage J (rxBuf ?c @ concat (take k bs)) = None" using Cons.prems(4) [of "Suc k"] by simp
    qed (use False Cons.prems in simp_all)
    ultimately show ?thesis using Cons.prems(2) by simp
  qed
qed simp

text \<open>A reply that does not fit the receive buffer makes the client write past its end.\<close>

lemma long_reply_overruns:
  assumes "ac_open c" "length (rxBuf c) \<le> 16384" "16384 < length (rxBuf c @ concat chunks)"
    and "\<And>k. k < length chunks \<Longrightarrow> sc_parseMessage J (rxBuf c @ concat (take k chunks)) = None"
  shows "fst (run_io (sc_onMessage J pretty) chunks c) = Inl (Undefined_behaviour ''write past end'')"
  using assms
proof (induction chunks arbitrary: c)
  case (Cons b bs)
  let ?c = "c\<lparr> rxBuf := rxBuf c @ b \<rparr>"
  show ?case
  proof (cases "16384 < length (rxBuf c) + length b")
    case True
    then show ?thesis using Cons.prems(1) by (simp add: sc_onMessage_def)
  next
    case False
    then have "bs \<noteq> []" using Cons.prems(3) by auto
    then have "sc_parseMessage J (rxBuf c @ b) = None" using Cons.prems(4) [of 1] by simp
    then have "sc_onMessage J pretty b c = (Inr (), ?c)" using False by (simp add: sc_onMessage_def)
    moreover have "fst (run_io (sc_onMessage J pretty) bs ?c) = Inl (Undefined_behaviour ''write past end'')"
    proof (rule Cons.IH)
      fix k assume "k < length bs"
      then show "sc_parseMessage J (rxBuf ?c @ concat (take k bs)) = None" using Cons.prems(4) [of "Suc k"] by simp
    qed (use False Cons.prems in simp_all)
    ultimately show ?thesis using Cons.prems(1) by simp
  qed
qed simp

text \<open>The client of the controller keeps no pieces: when the first piece of a reply is no message, it gives up.\<close>

lemma split_reply_given_up:
  assumes "ac_open c" "b \<noteq> []" "cc_parseMessage J b = Inl e"
  shows "run_io (cc_onMessage J pretty) (b # bs) c =
    (Inr (), ws_close (cerr (''failed to parse message'' @ endl) (cerr (''failed to parse message: '' @ what e @ endl) c)))"
  using assms by (cases bs) (simp_all add: cc_onMessage_def ws_close_def)

text \<open>A command that is not understood writes nothing; the program says so and ends with status 1, unless there is no command at all.\<close>

lemma runCLICommand_error: "sc_runCLICommand J cmd c = (Inl e, c') \<Longrightarrow> c' = c"
  by (auto simp: sc_runCLICommand_def split: if_splits sum.splits prod.splits)

lemma failed_command_exit:
  assumes "sc_runCLICommand J cmds (switch_api_client_new\<lparr> ac_open := True \<rparr>) = (Inl e, c)" "is_exception e"
    and "opt_connect opts = None" "\<not> opt_help opts" "opt_cmds opts = Some cmds" "connect ''127.0.0.1'' 4001 = Inr ()"
  shows "switch_cli_main J pretty connect usage opts replies = (Exit 1, cerr (''error: '' @ what e @ endl) (switch_api_client_new\<lparr> ac_open := True \<rparr>))"
  using assms runCLICommand_error [OF assms(1)] by (simp add: switch_cli_main_def cli_address_def api_open_def main_status_def)

lemma status_reply:
  assumes "json_laws J"
  shows "sc_parseMessage J (j_dump J (obj J [(''type'', j_of_str J (if ok then ''ok'' else ''error''))])) = Some (obj J [(''type'', j_of_str J (if ok then ''ok'' else ''error''))])"
    and "show_reply J pretty (obj J [(''type'', j_of_str J (if ok then ''ok'' else ''error''))]) c =
      (if ok then cout (''ok'' @ endl) c else cerr (pretty (obj J [(''type'', j_of_str J ''error'')]) @ endl) c)"
  using assms by (auto simp: sc_parseMessage_def show_reply_def msg_is_def json_simps)

text \<open>
  C36: the switch program, the API and the agent together. The program is called with \<open>set dt\<close> and four numbers and can connect. It sends one message; if
  the agent adjusts the decode target, or refuses to, upon this message without an exception, it answers with a text such that, in whatever pieces
  the text arrives, as long as it fits the receive buffer and no piece completes another message, the program ends with
  status 0 and a closed connection and has printed \<open>ok\<close>, respectively the error, and nothing else.
\<close>

theorem switch_cli_sets_target:
  assumes "json_laws J" "a < 2 ^ 31" "b < 2 ^ 32" "p < 2 ^ 31" "t < 2 ^ 31"
    and "opt_connect opts = None" "\<not> opt_help opts" "opt_cmds opts = Some [''set'', ''dt'', dec a, dec b, dec p, dec t]" "connect ''127.0.0.1'' 4001 = Inr ()"
    and "sw_adjustDecodeTarget ops (of_nat a) (of_nat b) (of_nat p) (of_nat t) s = (Inr ok, s')"
  shows "\<exists>m reply. reply = j_dump J (obj J [(''type'', j_of_str J (if ok then ''ok'' else ''error''))]) \<and> api_onMessage J ops m s = (Inr (Some reply), s') \<and>
    (\<forall>chunks. concat chunks = reply \<and> chunks \<noteq> [] \<and> length reply \<le> 16384 \<and>
       (\<forall>k. 0 < k \<and> k < length chunks \<longrightarrow> sc_parseMessage J (concat (take k chunks)) = None) \<longrightarrow>
       switch_cli_main J pretty connect usage opts chunks =
         (Exit 0, \<lparr> ac_open = False, ac_sent = [m], ac_out = (if ok then [''ok'' @ endl] else []),
            ac_err = (if ok then [] else [pretty (obj J [(''type'', j_of_str J ''error'')]) @ endl]), rxBuf = [] \<rparr>))"
proof -
  let ?msg = "obj J [(''type'', j_of_str J (if ok then ''ok'' else ''error''))]" and ?c = "switch_api_client_new\<lparr> ac_open := True \<rparr>"
  obtain m where m: "setDecodeTarget J (of_nat a) (of_nat b) (of_nat p) (of_nat t) ?c = ws_write m ?c"
      "api_onMessage J ops m s = sbind (onAPISetDecodeTarget J ops (of_nat a) (of_nat b) (of_nat p) (of_nat t) s) (\<lambda>j s. (Inr (Some (j_dump J j)), s))"
    using set_message [OF assms(1)] by blast
  have sent: "sc_runCLICommand J [''set'', ''dt'', dec a, dec b, dec p, dec t] ?c = (Inr (), ws_write m ?c)"
    using m(1) target_args_numbers [OF assms(2-5), of "''set''" "''dt''"] by (simp add: sc_runCLICommand_def)
  have "run_io (sc_onMessage J pretty) chunks (ws_write m ?c) = (Inr (), ws_close (show_reply J pretty ?msg (ws_write m ?c)))"
    if "concat chunks = j_dump J ?msg" "chunks \<noteq> []" "length (j_dump J ?msg) \<le> 16384"
      "\<forall>k. 0 < k \<and> k < length chunks \<longrightarrow> sc_parseMessage J (concat (take k chunks)) = None" for chunks
    using run_assembled [of chunks "ws_write m ?c" J ?msg pretty] that status_reply(1) [OF assms(1), of ok]
    by (simp add: ws_write_def switch_api_client_new_def)
  then have "switch_cli_main J pretty connect usage opts chunks = (Exit 0, ws_close (show_reply J pretty ?msg (ws_write m ?c)))"
    if "concat chunks = j_dump J ?msg \<and> chunks \<noteq> [] \<and> length (j_dump J ?msg) \<le> 16384 \<and>
      (\<forall>k. 0 < k \<and> k < length chunks \<longrightarrow> sc_parseMessage J (concat (take k chunks)) = None)" for chunks
    using that assms(6-9) sent by (simp add: switch_cli_main_def cli_address_def api_open_def main_status_def)
  moreover have "ws_close (show_reply J pretty ?msg (ws_write m ?c)) =
      \<lparr> ac_open = False, ac_sent = [m], ac_out = (if ok then [''ok'' @ endl] else []),
        ac_err = (if ok then [] else [pretty (obj J [(''type'', j_of_str J ''error'')]) @ endl]), rxBuf = [] \<rparr>"
    unfolding status_reply(2) [OF assms(1)] by (simp add: ws_write_def ws_close_def cout_def cerr_def switch_api_client_new_def)
  moreover have "api_onMessage J ops m s = (Inr (Some (j_dump J ?msg)), s')" using m(2) assms(10) by (simp add: onAPISetDecodeTarget_def)
  ultimately show ?thesis by metis
qed

definition demo_options :: cli_options where
  "demo_options = \<lparr> opt_connect = None, opt_help = False, opt_cmds = Some [''set'', ''dt'', dec 1, dec 10, dec 3, dec 7] \<rparr>"

definition demo_reply :: string where
  "demo_reply = code_tree (obj tree_api [(''type'', JStr ''error'')])"

theorem switch_cli_sets_target_witness:
  "\<exists>m. api_onMessage tree_api model_ops m (dp_agent demo_switch, demo_switch) = (Inr (Some demo_reply), (dp_agent demo_switch, demo_switch)) \<and>
     (\<exists>c. switch_cli_main tree_api code_tree demo_connect [] demo_options [take 3 demo_reply, drop 3 demo_reply] = (Exit 0, c) \<and>
       ac_sent c = [m] \<and> ac_err c = [demo_reply @ endl] \<and> ac_out c = [])"
proof -
  have reply: "demo_reply = j_dump tree_api (obj tree_api [(''type'', j_of_str tree_api (if False then ''ok'' else ''error''))])"
    by (simp add: demo_reply_def tree_api_def)
  have size: "length demo_reply \<le> 16384" and early: "sc_parseMessage tree_api (take 3 demo_reply) = None"
    by (simp_all add: demo_reply_def obj_def tree_api_def sc_parseMessage_def numeral_3_eq_3 read_tree_tag)
  have agent: "sw_adjustDecodeTarget model_ops (of_nat 1) (of_nat 10) (of_nat 3) (of_nat 7) (dp_agent demo_switch, demo_switch) = (Inr False, (dp_agent demo_switch, demo_switch))"
    by (simp add: sw_adjustDecodeTarget_def MAX_IDENT_def)
  let ?chunks = "[take 3 demo_reply, drop 3 demo_reply]"
  have pieces: "concat ?chunks = demo_reply \<and> ?chunks \<noteq> [] \<and> length demo_reply \<le> 16384 \<and>
      (\<forall>k. 0 < k \<and> k < length ?chunks \<longrightarrow> sc_parseMessage tree_api (concat (take k ?chunks)) = None)"
    using early size by (auto simp: less_Suc_eq)
  have options: "opt_connect demo_options = None" "\<not> opt_help demo_options" "opt_cmds demo_options = Some [''set'', ''dt'', dec 1, dec 10, dec 3, dec 7]"
      "demo_connect ''127.0.0.1'' 4001 = Inr ()"
    by (simp_all add: demo_options_def demo_connect_def)
  have err: "code_tree (obj tree_api [(''type'', j_of_str tree_api ''error'')]) = demo_reply" using reply by (simp add: tree_api_def)
  obtain m where m: "api_onMessage tree_api model_ops m (dp_agent demo_switch, demo_switch) = (Inr (Some demo_reply), (dp_agent demo_switch, demo_switch))"
      "switch_cli_main tree_api code_tree demo_connect [] demo_options ?chunks =
        (Exit 0, \<lparr> ac_open = False, ac_sent = [m], ac_out = [], ac_err = [demo_reply @ endl], rxBuf = [] \<rparr>)"
    using switch_cli_sets_target [where connect = demo_connect and a = 1 and b = 10 and p = 3 and t = 7 and pretty = code_tree and usage = "[]",
      OF tree_api_laws _ _ _ _ options agent, folded reply, unfolded err] pieces by auto
  then show ?thesis by auto
qed

end
