(* ===== verification/Web_Server.thy ===== *)
theory Web_Server
  imports Rpc
begin

text \<open>
  \<open>lib/net/http_server.h\<close> and \<open>lib/controller_web_server.cc\<close>: request targets with their query parameters, the handling of a
  request by routes and files, and the page of the conference client. The file system, the template engine and
  the socket are arguments: records of functions, a file system call may throw. What was written is a list of
  responses. An exception that leaves the handler leaves the event loop and ends the controller.
\<close>

section \<open>Targets\<close>

definition is_hex :: "char \<Rightarrow> bool" where
  "is_hex c \<longleftrightarrow> is_digit c \<or> 65 \<le> code c \<and> code c \<le> 70 \<or> 97 \<le> code c \<and> code c \<le> 102"

definition hex_num :: "char \<Rightarrow> nat" where
  "hex_num c = (if is_digit c then code c - 48 else if code c \<le> 70 then code c - 55 else code c - 87)"

text \<open>
  \<open>strtoul\<close> in base 16 on at most two characters, as a C string: white space, an optional sign, hexadecimal digits;
  no room for digits after a prefix \<open>0x\<close>. A negative number is negated modulo two to the 64.
\<close>

definition strtoul16 :: "string \<Rightarrow> nat" where
  "strtoul16 s =
     (let s = dropWhile is_space (takeWhile (\<lambda>c. code c \<noteq> 0) s);
          neg = (s \<noteq> [] \<and> hd s = CHR ''-'');
          s = (if s \<noteq> [] \<and> (hd s = CHR ''-'' \<or> hd s = CHR ''+'') then tl s else s);
          v = foldl (\<lambda>v c. 16 * v + hex_num c) 0 (takeWhile is_hex s)
      in if neg then (2 ^ 64 - v) mod 2 ^ 64 else v)"

fun decodeURL :: "string \<Rightarrow> string" where
  "decodeURL [] = []"
| "decodeURL (c # cs) =
     (if c = CHR ''%'' then char_of (strtoul16 (take 2 cs) mod 256) # decodeURL (drop 2 cs)
      else if c = CHR ''+'' then CHR '' '' # decodeURL cs
      else c # decodeURL cs)"

record Target =
  tg_path :: string
  fileExtension :: string
  tg_params :: "string \<rightharpoonup> string"

text \<open>\<open>std::getline\<close> with a delimiter: there is no line after the last delimiter.\<close>

definition getlines :: "char \<Rightarrow> string \<Rightarrow> string list" where
  "getlines d s = (let ps = pieces [d] s in if last ps = [] then butlast ps else ps)"

definition rfind :: "char \<Rightarrow> string \<Rightarrow> nat option" where
  "rfind c s = (if c \<in> set s then Some (length s - 1 - length (takeWhile (\<lambda>d. d \<noteq> c) (rev s))) else None)"

definition add_param :: "string \<Rightarrow> (string \<rightharpoonup> string) \<Rightarrow> (string \<rightharpoonup> string)" where
  "add_param pair ps =
     (case str_find pair ''='' 0 of
        Some p \<Rightarrow> ps(decodeURL (take p pair) \<mapsto> decodeURL (drop (p + 1) pair))
      | None \<Rightarrow> ps(decodeURL pair \<mapsto> []))"

definition Target_of :: "string \<Rightarrow> Target" where
  "Target_of url =
     (let (file, query) = (case str_find url ''?'' 0 of None \<Rightarrow> (url, []) | Some p \<Rightarrow> (take p url, drop (p + 1) url));
          extension = (case (rfind (CHR ''.'') file, rfind (CHR ''/'') file) of
             (Some e, Some s) \<Rightarrow> if e > s then drop (e + 1) file else []
           | _ \<Rightarrow> [])
      in \<lparr> tg_path = file, fileExtension = extension, tg_params = fold add_param (getlines (CHR ''&'') query) Map.empty \<rparr>)"

section \<open>Requests\<close>

datatype verb = get | other_verb

record request =
  rq_method :: verb
  rq_target :: string
  rq_version :: nat
  rq_keep_alive :: bool

datatype http_status = ok_200 | bad_request | not_found | method_not_allowed | internal_server_error

datatype body = Text string | File string

text \<open>A response whose \<open>keep_alive\<close> was not set has the one of its version, \<open>None\<close> here.\<close>

record response =
  rs_status :: http_status
  rs_version :: nat
  rs_content_type :: string
  rs_keep_alive :: "bool option"
  rs_body :: body

record fs_api =
  fs_exists :: "string \<Rightarrow> bool result"
  fs_is_directory :: "string \<Rightarrow> bool result"
  fs_open :: "string \<Rightarrow> bool"
  fs_read :: "string \<Rightarrow> string option"

text \<open>\<open>wire\<close> says whether a response can be written to the connection.\<close>

type_synonym wire = "response \<Rightarrow> bool"

definition status_text :: "http_status \<Rightarrow> string" where
  "status_text s =
     (case s of ok_200 \<Rightarrow> ''200 OK'' | not_found \<Rightarrow> ''404 Not Found'' | internal_server_error \<Rightarrow> ''500 Internal Server Error'' | _ \<Rightarrow> ''Unknown status'')"

definition returnStatus :: "wire \<Rightarrow> request \<Rightarrow> http_status \<Rightarrow> response list" where
  "returnStatus io rq s =
     (let r = \<lparr> rs_status = s, rs_version = rq_version rq, rs_content_type = ''text/html'', rs_keep_alive = Some (rq_keep_alive rq),
                rs_body = Text (status_text s) \<rparr> in if io r then [r] else [])"

definition mimeTypes :: "(string \<times> string) list" where
  "mimeTypes = [(''css'', ''text/css''), (''gif'', ''image/gif''), (''html'', ''text/html''), (''ico'', ''image/vnd.microsoft.icon''),
     (''jpeg'', ''image/jpeg''), (''jpg'', ''image/jpeg''), (''js'', ''application/javascript''), (''json'', ''application/json''),
     (''map'', ''application/json''), (''png'', ''image/png''), (''svg'', ''image/svg+xml''), (''txt'', ''text/plain'')]"

definition getMimeType :: "string \<Rightarrow> string" where
  "getMimeType ext = (case map_of mimeTypes ext of Some t \<Rightarrow> t | None \<Rightarrow> ''application/octet-stream'')"

definition send_file :: "fs_api \<Rightarrow> wire \<Rightarrow> request \<Rightarrow> Target \<Rightarrow> string \<Rightarrow> response list" where
  "send_file fs io rq target file =
     (if \<not> fs_open fs file then returnStatus io rq internal_server_error
      else let r = \<lparr> rs_status = ok_200, rs_version = rq_version rq, rs_content_type = getMimeType (fileExtension target), rs_keep_alive = None, rs_body = File file \<rparr>
           in if io r then [r] else returnStatus io rq internal_server_error)"

type_synonym handler = "request \<Rightarrow> Target \<Rightarrow> response list result"

record http_server =
  docRoot :: "string option"
  routes :: "string \<rightharpoonup> handler"

definition serve_file :: "fs_api \<Rightarrow> wire \<Rightarrow> request \<Rightarrow> Target \<Rightarrow> string \<Rightarrow> response list result" where
  "serve_file fs io rq target file =
     rbind (fs_exists fs file) (\<lambda>ex.
     if \<not> ex then Inr (returnStatus io rq not_found)
     else rbind (fs_is_directory fs file) (\<lambda>dir.
     if dir then rbind (fs_exists fs (file @ ''/index.html'')) (\<lambda>idx.
       Inr (if idx then send_file fs io rq target (file @ ''/index.html'') else returnStatus io rq not_found))
     else Inr (send_file fs io rq target file)))"

definition handleRequest :: "fs_api \<Rightarrow> wire \<Rightarrow> http_server \<Rightarrow> request \<Rightarrow> response list result" where
  "handleRequest fs io srv rq =
     (if rq_target rq = [] then Inr (returnStatus io rq bad_request)
      else if rq_method rq \<noteq> get then Inr (returnStatus io rq method_not_allowed)
      else let target = Target_of (rq_target rq) in
        case routes srv (tg_path target) of
          Some h \<Rightarrow> h rq target
        | None \<Rightarrow> (case docRoot srv of
            Some root \<Rightarrow> serve_file fs io rq target (root @ tg_path target)
          | None \<Rightarrow> Inr (returnStatus io rq not_found)))"

section \<open>The page of the client\<close>

record 't inja =
  inja_parse :: "string \<Rightarrow> 't result"
  inja_render :: "'t \<Rightarrow> (string \<times> string) list \<Rightarrow> string result"

definition readFile :: "fs_api \<Rightarrow> string \<Rightarrow> string result" where
  "readFile fs name =
     (case fs_read fs name of Some t \<Rightarrow> Inr t | None \<Rightarrow> Inl (Runtime_error (''util::readFile: failed to open '' @ name)))"

definition page_config :: "'j json_api \<Rightarrow> (string \<rightharpoonup> string) \<Rightarrow> 'j result" where
  "page_config J ps =
     rbind (case ps ''s'' of
        None \<Rightarrow> Inr (j_set J ''sessionId'' (j_of_num J 1) (j_null J))
      | Some s \<Rightarrow> rbind (stoul s) (\<lambda>n. Inr (j_set J ''sessionId'' (j_of_num J (unat n)) (j_set J ''sessionId'' (j_of_num J 1) (j_null J)))))
     (\<lambda>config. case ps ''c'' of
        None \<Rightarrow> Inr config
      | Some c \<Rightarrow> rbind (parseIPPort c) (\<lambda>(host, p).
          Inr (j_set J ''controller'' (j_set J ''port'' (j_of_num J (unat p)) (j_set J ''host'' (j_of_str J host) (j_null J))) config)))"

definition serveSFUApp :: "fs_api \<Rightarrow> wire \<Rightarrow> 'j json_api \<Rightarrow> 't inja \<Rightarrow> handler" where
  "serveSFUApp fs io J tp rq target =
     rbind (rbind (readFile fs ''client/views/client.html.inja'') (inja_parse tp)) (\<lambda>tpl.
     rbind (page_config J (tg_params target)) (\<lambda>config.
     rbind (readFile fs ''client/views/sender-template.mustache'') (\<lambda>sender.
     rbind (readFile fs ''client/views/receiver-panel-tpl.mustache'') (\<lambda>panel.
     rbind (readFile fs ''client/views/receiver-info-tpl.mustache'') (\<lambda>info.
     rbind (inja_render tp tpl [(''config'', escapeJSONForHTML (j_dump J config)), (''sender-tpl'', sender), (''receiver-panel-tpl'', panel),
       (''receiver-info-tpl'', info)]) (\<lambda>page.
     let r = \<lparr> rs_status = ok_200, rs_version = rq_version rq, rs_content_type = ''text/html'', rs_keep_alive = Some (rq_keep_alive rq), rs_body = Text page \<rparr>
     in if io r then Inr [r] else Inl (Runtime_error ''write'')))))))"

definition ControllerWebServer :: "fs_api \<Rightarrow> wire \<Rightarrow> 'j json_api \<Rightarrow> 't inja \<Rightarrow> http_server" where
  "ControllerWebServer fs io J tp = \<lparr> docRoot = Some ''client/dist'', routes = [''/'' \<mapsto> serveSFUApp fs io J tp] \<rparr>"

section \<open>Query parameters\<close>

text \<open>What a client does: every character that is not a letter or a digit is written as its code.\<close>

definition plain_char :: "char \<Rightarrow> bool" where
  "plain_char c \<longleftrightarrow> is_digit c \<or> 65 \<le> code c \<and> code c \<le> 90 \<or> 97 \<le> code c \<and> code c \<le> 122"

definition encodeURL :: "string \<Rightarrow> string" where
  "encodeURL s = concat (map (\<lambda>c. if plain_char c then [c] else CHR ''%'' # hex2 (of_nat (code c))) s)"

definition query_text :: "(string \<times> string) list \<Rightarrow> string" where
  "query_text kvs = joinStrings (map (\<lambda>(k, v). encodeURL k @ ''='' @ encodeURL v) kvs) ''&''"

lemma hex_digit_facts:
  assumes "d < 16"
  shows "hex_num (hex_digit d) = d" "is_hex (hex_digit d)" "\<not> is_space (hex_digit d)" "code (hex_digit d) \<noteq> 0"
    "hex_digit d \<noteq> CHR ''-''" "hex_digit d \<noteq> CHR ''+''" "plain_char (hex_digit d)"
proof -
  have "code (hex_digit d) = (if d < 10 then 48 + d else 87 + d)" using assms by (simp add: hex_digit_def code_def)
  then show "hex_num (hex_digit d) = d" "is_hex (hex_digit d)" "\<not> is_space (hex_digit d)" "code (hex_digit d) \<noteq> 0" "plain_char (hex_digit d)"
    "hex_digit d \<noteq> CHR ''-''" "hex_digit d \<noteq> CHR ''+''"
    using assms by (auto simp: hex_num_def is_hex_def is_digit_def is_space_def plain_char_def code_def split: if_splits)
qed

lemma code_less: "code c < 256"
  by (simp add: code_def)

lemma strtoul16_hex2: "strtoul16 (hex2 (of_nat (code c))) = code c"
proof -
  have n: "unat (of_nat (code c) :: byte) = code c" using code_less [of c] by (intro unat_of_nat_eq) simp
  have "code c div 16 < 16" "code c mod 16 < 16" using code_less [of c] by simp_all
  then show ?thesis by (simp add: strtoul16_def hex2_def n hex_digit_facts Let_def)
qed

lemma decode_encode: "decodeURL (encodeURL s @ t) = s @ decodeURL t"
proof (induction s)
  case Nil
  then show ?case by (simp add: encodeURL_def)
next
  case (Cons c s)
  have plain: "plain_char c \<Longrightarrow> c \<noteq> CHR ''%'' \<and> c \<noteq> CHR ''+''" by (auto simp: plain_char_def is_digit_def code_def)
  have two: "take 2 (hex2 x @ u) = hex2 x" "drop 2 (hex2 x @ u) = u" for x u by (simp_all add: hex2_def)
  have "char_of (code c mod 256) = c" by (simp add: code_def)
  then show ?case using Cons plain by (auto simp: encodeURL_def two strtoul16_hex2 simp del: take_append drop_append)
qed

lemma hex2_plain: "c \<in> set (hex2 b) \<Longrightarrow> plain_char c"
  using hex_digit_facts(7) [of "unat b div 16"] hex_digit_facts(7) [of "unat b mod 16"] unat_lt2p [of b] by (auto simp: hex2_def)

lemma encodeURL_chars: "c \<in> set (encodeURL s) \<Longrightarrow> plain_char c \<or> c = CHR ''%''"
  using hex2_plain by (auto simp: encodeURL_def split: if_splits)

lemma encodeURL_free: "CHR ''='' \<notin> set (encodeURL s)" "CHR ''&'' \<notin> set (encodeURL s)"
  using encodeURL_chars [of "CHR ''=''" s] encodeURL_chars [of "CHR ''&''" s] by (auto simp: plain_char_def is_digit_def code_def)

lemma add_param_pair: "add_param (encodeURL k @ ''='' @ encodeURL v) ps = ps(k \<mapsto> v)"
proof -
  have "str_find (encodeURL k @ ''='' @ encodeURL v) ''='' 0 = Some (length (encodeURL k))"
    using find_sub_char [OF encodeURL_free(1), of k "encodeURL v"] by (simp add: str_find_def)
  then show ?thesis using decode_encode [of k "[]"] decode_encode [of v "[]"] by (simp add: add_param_def)
qed

lemma getlines_query: "getlines (CHR ''&'') (query_text kvs) = map (\<lambda>(k, v). encodeURL k @ ''='' @ encodeURL v) kvs"
proof (cases "kvs = []")
  case True
  then show ?thesis by (simp add: getlines_def query_text_def pieces.simps find_sub_char_None [THEN iffD2])
next
  case False
  then have "pieces ''&'' (query_text kvs) = map (\<lambda>(k, v). encodeURL k @ ''='' @ encodeURL v) kvs"
    unfolding query_text_def using encodeURL_free(2) by (intro pieces_join) auto
  moreover have "last (map (\<lambda>(k, v). encodeURL k @ ''='' @ encodeURL v) kvs) \<noteq> []" using False by (simp add: last_map split_def)
  ultimately show ?thesis by (simp add: getlines_def)
qed

lemma Target_query:
  assumes "CHR ''?'' \<notin> set path"
  shows "tg_path (Target_of (path @ ''?'' @ query_text kvs)) = path" "tg_params (Target_of (path @ ''?'' @ query_text kvs)) = map_of (rev kvs)"
proof -
  have "fold add_param (map (\<lambda>(k, v). encodeURL k @ ''='' @ encodeURL v) kvs) ps = ps ++ map_of (rev kvs)" for ps
    by (induction kvs arbitrary: ps) (auto simp: add_param_pair simp del: append.simps(2))
  moreover have "str_find (path @ ''?'' @ query_text kvs) ''?'' 0 = Some (length path)"
    using find_sub_char [OF assms, of "query_text kvs"] by (simp add: str_find_def)
  ultimately show "tg_path (Target_of (path @ ''?'' @ query_text kvs)) = path" "tg_params (Target_of (path @ ''?'' @ query_text kvs)) = map_of (rev kvs)"
    by (simp_all add: Target_of_def getlines_query)
qed

text \<open>
  C38: query parameters reach the program as they were written. A target with a path and any list of names and values, encoded in the
  usual way, is parsed to that path and to the map from names to values, in which a later value replaces an earlier one.
\<close>

theorem query_params_roundtrip:
  assumes "CHR ''?'' \<notin> set path"
  shows "tg_path (Target_of (path @ ''?'' @ query_text kvs)) = path \<and> tg_params (Target_of (path @ ''?'' @ query_text kvs)) = map_of (rev kvs)"
  using Target_query [OF assms] by blast

theorem query_params_roundtrip_witness:
  "CHR ''?'' \<notin> set ''/'' \<and> query_text [(''s'', ''12''), (''c'', ''10.0.0.1:80'')] = ''s=12&c=10%2e0%2e0%2e1%3a80'' \<and>
   tg_params (Target_of (''/'' @ ''?'' @ query_text [(''s'', ''12''), (''c'', ''10.0.0.1:80'')])) ''c'' = Some ''10.0.0.1:80''"
proof (intro conjI)
  show "query_text [(''s'', ''12''), (''c'', ''10.0.0.1:80'')] = ''s=12&c=10%2e0%2e0%2e1%3a80''" by code_simp
  show "tg_params (Target_of (''/'' @ ''?'' @ query_text [(''s'', ''12''), (''c'', ''10.0.0.1:80'')])) ''c'' = Some ''10.0.0.1:80''"
    using query_params_roundtrip [of "''/''" "[(''s'', ''12''), (''c'', ''10.0.0.1:80'')]"] by simp
qed simp

section \<open>Answers\<close>

text \<open>A request for a file is answered by one response if the calls to the file system return and responses can be written.\<close>

lemma file_answered:
  assumes "\<And>p. is_ok (fs_exists fs p)" "\<And>p. is_ok (fs_is_directory fs p)" "\<And>r. io r" "rq_method rq = get \<Longrightarrow> rq_target rq \<noteq> [] \<Longrightarrow> tg_path (Target_of (rq_target rq)) \<noteq> ''/''"
  shows "\<exists>r. handleRequest fs io (ControllerWebServer fs io J tp) rq = Inr [r]"
proof -
  have answer: "\<exists>r. send_file fs io rq t p = [r]" "\<exists>r. returnStatus io rq st = [r]" for t p st
    using assms(3) by (simp_all add: send_file_def returnStatus_def)
  have "\<exists>r. serve_file fs io rq t p = Inr [r]" for t p
  proof -
    obtain a b c where "fs_exists fs p = Inr a" "fs_is_directory fs p = Inr b" "fs_exists fs (p @ ''/index.html'') = Inr c"
      using assms(1,2) is_ok_iff by metis
    then show ?thesis using answer(1) [of t p] answer(1) [of t "p @ ''/index.html''"] answer(2) [of not_found]
      by (cases a; cases b; cases c) (simp_all add: serve_file_def)
  qed
  then show ?thesis using assms(3,4) by (auto simp: handleRequest_def ControllerWebServer_def returnStatus_def Let_def)
qed

text \<open>The path of a file is not checked: a target can name a file outside of the directory that is served.\<close>

lemma path_leaves_directory:
  assumes "fs_exists fs ''client/dist/../server.pem'' = Inr True" "fs_is_directory fs ''client/dist/../server.pem'' = Inr False" "fs_open fs ''client/dist/../server.pem''" "\<And>r. io r"
  shows "\<exists>r. handleRequest fs io (ControllerWebServer fs io J tp) \<lparr> rq_method = get, rq_target = ''/../server.pem'', rq_version = 11, rq_keep_alive = True \<rparr> = Inr [r] \<and>
    rs_status r = ok_200 \<and> rs_body r = File ''client/dist/../server.pem''"
proof -
  have "tg_path (Target_of ''/../server.pem'') = ''/../server.pem''" by code_simp
  then show ?thesis using assms by (simp add: handleRequest_def ControllerWebServer_def serve_file_def send_file_def)
qed

text \<open>
  C39: the page of the client and its parameters. When the templates can be read and rendered and the response can be
  written, a GET request for the start page is answered by exactly one page, which carries the configuration escaped for HTML, if the
  session, where one is given, starts with a number and the controller, where one is given, is an address with a port. Otherwise
  the handler ends with the exception of the conversion, which nothing catches before it leaves the event loop.
\<close>

theorem client_page_parameters:
  assumes "list_all (\<lambda>f. fs_read fs (''client/views/'' @ f) \<noteq> None) [''client.html.inja'', ''sender-template.mustache'', ''receiver-panel-tpl.mustache'', ''receiver-info-tpl.mustache'']"
    and "\<And>t. is_ok (inja_parse tp t)" "\<And>t d. is_ok (inja_render tp t d)" "\<And>r. io r"
    and "rq_method rq = get" "rq_target rq = ''/'' @ ''?'' @ query_text kvs"
  shows "case page_config J (map_of (rev kvs)) of
      Inl e \<Rightarrow> handleRequest fs io (ControllerWebServer fs io J tp) rq = Inl e \<and>
        ((\<exists>t. map_of (rev kvs) ''s'' = Some t \<and> stoul t = Inl e) \<or> (\<exists>t. map_of (rev kvs) ''c'' = Some t \<and> parseIPPort t = Inl e))
    | Inr config \<Rightarrow> \<exists>tpl d page. handleRequest fs io (ControllerWebServer fs io J tp) rq =
        Inr [\<lparr> rs_status = ok_200, rs_version = rq_version rq, rs_content_type = ''text/html'', rs_keep_alive = Some (rq_keep_alive rq), rs_body = Text page \<rparr>] \<and>
        inja_render tp tpl ((''config'', escapeJSONForHTML (j_dump J config)) # d) = Inr page"
proof -
  have path: "CHR ''?'' \<notin> set ''/''" by simp
  note target = Target_query [OF path, of kvs]
  have eq: "handleRequest fs io (ControllerWebServer fs io J tp) rq = serveSFUApp fs io J tp rq (Target_of (rq_target rq))"
    using assms(5,6) target by (simp add: handleRequest_def ControllerWebServer_def Let_def del: append.simps(2))
  obtain a b c d where files: "fs_read fs ''client/views/client.html.inja'' = Some a" "fs_read fs ''client/views/sender-template.mustache'' = Some b"
      "fs_read fs ''client/views/receiver-panel-tpl.mustache'' = Some c" "fs_read fs ''client/views/receiver-info-tpl.mustache'' = Some d"
    using assms(1) by auto
  obtain tpl where tpl: "inja_parse tp a = Inr tpl" using assms(2) [of a] by (auto simp: is_ok_iff)
  show ?thesis
  proof (cases "page_config J (map_of (rev kvs))")
    case (Inl e)
    then have "(\<exists>t. map_of (rev kvs) ''s'' = Some t \<and> stoul t = Inl e) \<or> (\<exists>t. map_of (rev kvs) ''c'' = Some t \<and> parseIPPort t = Inl e)"
      by (auto simp: page_config_def rbind_Inl_iff split: option.splits)
    then show ?thesis using Inl eq files tpl target assms(6) by (simp add: serveSFUApp_def readFile_def del: append.simps(2))
  next
    case (Inr config)
    obtain page where page: "inja_render tp tpl [(''config'', escapeJSONForHTML (j_dump J config)), (''sender-tpl'', b), (''receiver-panel-tpl'', c), (''receiver-info-tpl'', d)] = Inr page"
      using assms(3) unfolding is_ok_iff by meson
    then show ?thesis using Inr eq files tpl target assms(4,6) by (auto simp: serveSFUApp_def readFile_def Let_def simp del: append.simps(2))
  qed
qed

definition demo_fs :: fs_api where
  "demo_fs = \<lparr> fs_exists = \<lambda>_. Inr True, fs_is_directory = \<lambda>_. Inr False, fs_open = \<lambda>_. True, fs_read = \<lambda>_. Some [] \<rparr>"

definition demo_inja :: "string inja" where
  "demo_inja = \<lparr> inja_parse = Inr, inja_render = \<lambda>t d. Inr (t @ concat (map snd d)) \<rparr>"

definition demo_request :: "(string \<times> string) list \<Rightarrow> request" where
  "demo_request kvs = \<lparr> rq_method = get, rq_target = ''/'' @ ''?'' @ query_text kvs, rq_version = 11, rq_keep_alive = True \<rparr>"

theorem client_page_parameters_witness:
  "handleRequest demo_fs (\<lambda>_. True) (ControllerWebServer demo_fs (\<lambda>_. True) tree_api demo_inja) (demo_request [(''s'', ''abc'')]) = Inl (Invalid_argument ''stoul'') \<and>
   (\<exists>r. handleRequest demo_fs (\<lambda>_. True) (ControllerWebServer demo_fs (\<lambda>_. True) tree_api demo_inja) (demo_request [(''s'', ''12'')]) = Inr [r] \<and> rs_status r = ok_200)"
proof -
  have demo: "list_all (\<lambda>f. fs_read demo_fs (''client/views/'' @ f) \<noteq> None) [''client.html.inja'', ''sender-template.mustache'', ''receiver-panel-tpl.mustache'', ''receiver-info-tpl.mustache'']"
    "is_ok (inja_parse demo_inja t)" "is_ok (inja_render demo_inja t d)" "rq_method (demo_request kvs) = get" "rq_target (demo_request kvs) = ''/'' @ ''?'' @ query_text kvs" for t d kvs
    by (simp_all add: demo_fs_def demo_inja_def demo_request_def)
  note page = client_page_parameters [where fs = demo_fs and io = "\<lambda>_. True" and J = tree_api, OF demo(1-3) TrueI demo(4,5)]
  have "stoul ''abc'' = Inl (Invalid_argument ''stoul'')" "stoul ''12'' = Inr 12"
    by (simp_all add: stoul_def strto_def is_space_def is_digit_def code_def dec_value_def)
  then show ?thesis using page [of "[(''s'', ''abc'')]"] page [of "[(''s'', ''12'')]"] by (auto simp: page_config_def)
qed

end
