(* ===== verification/Tofino.thy ===== *)
theory Tofino
  imports Switch_Agent
begin

text \<open>
  \<open>lib/tofino_data_plane.{h,cc}\<close>: the data plane that runs on a hardware switch. Rules are installed by
  JSON messages over a connection the switch opens; packets of the agent are Ethernet frames
  injected into a network interface, and frames captured there are demultiplexed for the agent.
  The state here is what is written to the two; the switch itself is not part of the program. The
  lemmas show that the frames are what they should be and that the agent on top of this data plane
  answers STUN requests.
\<close>

section \<open>Memory images of the header structs\<close>

definition st16 :: "u16 \<Rightarrow> byte list" where
  "st16 w = [ucast w, ucast (drop_bit 8 w)]"

definition st32 :: "u32 \<Rightarrow> byte list" where
  "st32 w = [ucast w, ucast (drop_bit 8 w), ucast (drop_bit 16 w), ucast (drop_bit 24 w)]"

definition eth_image :: "eth_hdr \<Rightarrow> byte list" where
  "eth_image h = eth_bytes (dst_addr h) @ eth_bytes (src_addr h) @ st16 (ether_type h)"

definition ipv4_image :: "ipv4_hdr \<Rightarrow> byte list" where
  "ipv4_image h = [version_ihl h, type_of_service h] @ st16 (total_length h) @ st16 (ip_id h) @ st16 (fragment_offset h) @
     [time_to_live h, next_proto_id h] @ st16 (hdr_checksum h) @ st32 (ip_src_addr h) @ st32 (ip_dst_addr h)"

definition udp_image :: "udp_hdr \<Rightarrow> byte list" where
  "udp_image h = st16 (udp_src_port h) @ st16 (udp_dst_port h) @ st16 (dgram_len h) @ st16 (dgram_cksum h)"

section \<open>State and operations\<close>

record tofino =
  tf_connected :: bool
  tf_written :: "string list"
  tf_injected :: "byte list list"

definition TofinoDataPlane :: tofino where
  "TofinoDataPlane = \<lparr> tf_connected = False, tf_written = [], tf_injected = [] \<rparr>"

text \<open>The frame is built in an array of 1024 bytes.\<close>

definition zero_eth :: eth_hdr where
  "zero_eth = \<lparr> dst_addr = eth_addr_default, src_addr = eth_addr_default, ether_type = 0 \<rparr>"

definition zero_ipv4 :: ipv4_hdr where
  "zero_ipv4 = \<lparr> version_ihl = 0, type_of_service = 0, total_length = 0, ip_id = 0, fragment_offset = 0, time_to_live = 0,
     next_proto_id = 0, hdr_checksum = 0, ip_src_addr = 0, ip_dst_addr = 0 \<rparr>"

definition frame_of :: "IPv4 \<Rightarrow> IPv4Port \<Rightarrow> byte list \<Rightarrow> byte list" where
  "frame_of src to buf =
     (let eth = (eth_hdr_init_default zero_eth)\<lparr> ether_type := ntohs 0x0800 \<rparr>;
          ip = (ipv4_hdr_init_default zero_ipv4)\<lparr> total_length := ntohs (of_nat (length buf + 20 + 8)), next_proto_id := 17,
                 hdr_checksum := 0, ip_src_addr := ntohl src, ip_dst_addr := ntohl (ip to) \<rparr>;
          udp = \<lparr> udp_src_port = ntohs 3000, udp_dst_port = ntohs (port to), dgram_len = ntohs (of_nat (length buf + 8)),
                  dgram_cksum = 0 \<rparr>
      in eth_image eth @ ipv4_image ip @ udp_image udp @ buf)"

definition tf_sendPacket :: "PktOut \<Rightarrow> tofino \<Rightarrow> unit result \<times> tofino" where
  "tf_sendPacket p d =
     (case IPv4_of_string ''10.0.211.111'' of
        Inl e \<Rightarrow> (Inl e, d)
      | Inr src \<Rightarrow>
          if 1024 < 42 + length (snd p) then (Inl (Undefined_behaviour ''write past end''), d)
          else (Inr (), d\<lparr> tf_injected := tf_injected d @ [frame_of src (fst p) (snd p)] \<rparr>))"

definition tf_write :: "string \<Rightarrow> tofino \<Rightarrow> tofino" where
  "tf_write m d = d\<lparr> tf_written := tf_written d @ [m] \<rparr>"

definition tf_addStream :: "'j json_api \<Rightarrow> DP_Stream \<Rightarrow> tofino \<Rightarrow> unit result \<times> tofino" where
  "tf_addStream J s d =
     (if \<not> tf_connected d then (Inr (), d)
      else (Inr (), tf_write (j_dump J (obj J
        [(''api'', j_of_str J ''add_stream''), (''sip'', j_of_str J (IPv4_str (ip (ds_src s)))),
         (''sport'', j_of_num J (unat (port (ds_src s)))), (''ssrc'', j_of_num J (unat (ds_ssrc s))),
         (''ssrc_retx'', j_of_num J (unat (ds_rtxSsrc s))), (''dip'', j_of_str J (IPv4_str (ip (ds_dst s)))),
         (''dport'', j_of_num J (unat (port (ds_dst s))))])) d))"

definition tf_removeStream :: "DP_Stream \<Rightarrow> tofino \<Rightarrow> unit result \<times> tofino" where
  "tf_removeStream s d = (Inr (), d)"

definition tf_adjustDecodeTarget :: "'j json_api \<Rightarrow> IPv4Port \<Rightarrow> IPv4Port \<Rightarrow> SSRC \<Rightarrow> u32 \<Rightarrow> tofino \<Rightarrow> unit result \<times> tofino" where
  "tf_adjustDecodeTarget J frm to ssrc target d =
     (if \<not> tf_connected d then (Inr (), d)
      else (Inr (), tf_write (j_dump J (obj J
        [(''api'', j_of_str J ''disable_av1_enhancement_layer''), (''sip'', j_of_str J (IPv4_str (ip frm))),
         (''sport'', j_of_num J (unat (port frm))), (''ssrc'', j_of_num J (unat ssrc)), (''ssrc_retx'', j_of_num J 0),
         (''dip'', j_of_str J (IPv4_str (ip to))), (''dport'', j_of_num J (unat (port to)))])) d))"

definition tofino_ops :: "'j json_api \<Rightarrow> tofino dp_ops" where
  "tofino_ops J =
     \<lparr> op_sendPacket = tf_sendPacket, op_addStream = tf_addStream J, op_adjustDecodeTarget = tf_adjustDecodeTarget J \<rparr>"

definition tf_onSwitchOpen :: "tofino \<Rightarrow> tofino" where
  "tf_onSwitchOpen d = d\<lparr> tf_connected := True \<rparr>"

text \<open>Closing does not reset the connection.\<close>

definition tf_onSwitchClose :: "tofino \<Rightarrow> tofino" where
  "tf_onSwitchClose d = d"

section \<open>Frames from the switch\<close>

text \<open>A captured frame: the captured bytes, and the length on the wire.\<close>

record pcap_pkt =
  pk_buf :: "byte list"
  frame_len :: u16

text \<open>
  The UDP datagram in a frame, with its sender. All bytes of the frame are printed first, so that they
  have to be captured. The length of the payload is computed without a sign.
\<close>

definition udp_datagram :: "pcap_pkt \<Rightarrow> (IPv4Port \<times> byte list) option result" where
  "udp_datagram pkt =
     (let buf = pk_buf pkt in
      if length buf < unat (frame_len pkt) then Inl (Undefined_behaviour ''read past end'')
      else
        rbind (ld16 buf 12) (\<lambda>ty.
        if ntohs ty \<noteq> 0x0800 then Inr None
        else
          rbind (rd buf 23) (\<lambda>proto.
          if proto \<noteq> 17 then Inr None
          else
            rbind (rd buf 14) (\<lambda>vi.
            let ihl = unat (vi AND 0x0f) * 4 in
            rbind (ld32 buf 26) (\<lambda>src.
            rbind (ld16 buf (14 + ihl)) (\<lambda>sport.
            let hdrLen = 14 + ihl + 8; payloadLen = (ucast (frame_len pkt) :: u32) - of_nat hdrLen in
            if length buf < hdrLen + unat payloadLen then Inl (Undefined_behaviour ''read past end'')
            else Inr (Some (IPv4Port (ntohl src) (ntohs sport), take (unat payloadLen) (drop hdrLen buf)))))))))"

definition tf_handleSTUN :: "(PktIn \<Rightarrow> 's \<Rightarrow> unit result \<times> 's) option \<Rightarrow> IPv4Port \<Rightarrow> byte list \<Rightarrow> 's \<Rightarrow> unit result \<times> 's" where
  "tf_handleSTUN h frm buf s =
     (case h of
        None \<Rightarrow> (Inl (Logic_error ''DataPlaneModel: no control-plane packet handler set''), s)
      | Some f \<Rightarrow> f \<lparr> pi_reason = Reason_stun, pi_from = frm, pi_buf = buf \<rparr> s)"

text \<open>\<open>_handleRTP\<close> and \<open>_handleRTCP\<close> do nothing; \<open>None\<close> for a packet that could not be captured.\<close>

definition tf_handleRTP :: "IPv4Port \<Rightarrow> byte list \<Rightarrow> 's \<Rightarrow> unit result \<times> 's" where
  "tf_handleRTP frm buf s = (Inr (), s)"

definition tf_handleRTCP :: "IPv4Port \<Rightarrow> byte list \<Rightarrow> 's \<Rightarrow> unit result \<times> 's" where
  "tf_handleRTCP frm buf s = (Inr (), s)"

definition onDataPlanePacket :: "(PktIn \<Rightarrow> 's \<Rightarrow> unit result \<times> 's) option \<Rightarrow> pcap_pkt option \<Rightarrow> 's \<Rightarrow> unit result \<times> 's" where
  "onDataPlanePacket h pkt s =
     (case pkt of
        None \<Rightarrow> (Inr (), s)
      | Some pkt \<Rightarrow>
          (case udp_datagram pkt of
             Inl e \<Rightarrow> (Inl e, s)
           | Inr None \<Rightarrow> (Inr (), s)
           | Inr (Some (frm, payload)) \<Rightarrow>
               if bufferContainsSTUN payload then tf_handleSTUN h frm payload s
               else if contains_rtp_or_rtcp payload then
                 (case rtp_load payload of
                    Inl e \<Rightarrow> (Inl e, s)
                  | Inr rtp \<Rightarrow> if rtp_is_rtcp rtp then tf_handleRTCP frm payload s else tf_handleRTP frm payload s)
               else (Inr (), s)))"

section \<open>Frames are well formed\<close>

lemma length_images [simp]: "length (st16 w) = 2" "length (st32 v) = 4" "length (ipv4_image i) = 20" "length (udp_image u) = 8"
  by (simp_all add: st16_def st32_def ipv4_image_def udp_image_def)

lemma load16_st16: "load16 (ucast w) (ucast (drop_bit 8 w)) = w"
  by (simp add: load16_def wire_simps)

lemma load32_st32: "load32 (ucast w) (ucast (drop_bit 8 w)) (ucast (drop_bit 16 w)) (ucast (drop_bit 24 w)) = w"
  by (simp add: load32_def wire_simps)

lemma frame_bytes:
  "frame_of src to buf =
     [0, 0, 0, 0, 0, 0, 0, 0, 0, 0, 0, 0] @ st16 (ntohs 0x0800) @ [0x45, 0] @ st16 (ntohs (of_nat (length buf + 28))) @ st16 0 @ st16 0 @ [64, 17] @ st16 0 @
     st32 (ntohl src) @ st32 (ntohl (ip to)) @ st16 (ntohs 3000) @ st16 (ntohs (port to)) @ st16 (ntohs (of_nat (length buf + 8))) @
     st16 0 @ buf"
  by (simp add: frame_of_def Let_def eth_image_def ipv4_image_def udp_image_def eth_hdr_init_default_def ipv4_hdr_init_default_def
      eth_addr_default_def eth_ADDR_LEN_def zero_eth_def zero_ipv4_def eval_nat_numeral)

lemma length_frame [simp]: "length (frame_of src to buf) = 42 + length buf"
  by (simp add: frame_bytes)

lemma frame_fields:
  shows "ld16 (frame_of src to buf) 12 = Inr (ntohs 0x0800)" "rd (frame_of src to buf) 23 = Inr 17" "rd (frame_of src to buf) 14 = Inr 0x45"
    "ld32 (frame_of src to buf) 26 = Inr (ntohl src)" "ld32 (frame_of src to buf) 30 = Inr (ntohl (ip to))"
    "ld16 (frame_of src to buf) 34 = Inr (ntohs 3000)" "ld16 (frame_of src to buf) 36 = Inr (ntohs (port to))"
    "ld16 (frame_of src to buf) 38 = Inr (ntohs (of_nat (length buf + 8)))"
    "ld16 (frame_of src to buf) 16 = Inr (ntohs (of_nat (length buf + 28)))"
    "drop 42 (frame_of src to buf) = buf"
  unfolding frame_bytes
  by (simp_all add: ld16_def ld32_def rd_def st16_def st32_def load16_st16 load32_st32)

lemma ntohl_ntohl [simp]: "ntohl (ntohl w) = w"
  by (simp add: ntohl_def wire_simps)

lemma agent_address: "IPv4_of_string ''10.0.211.111'' = Inr 0x0A00D36F"
proof -
  have "dec 10 = ''10''" "dec 0 = ''0''" "dec 211 = ''211''" "dec 111 = ''111''" by code_simp+
  then show ?thesis using ipv4_parse_quad [of 10 0 211 111] by simp
qed

lemma tf_sendPacket_eq:
  "tf_sendPacket (to, buf) d =
     (if length buf \<le> 982 then (Inr (), d\<lparr> tf_injected := tf_injected d @ [frame_of 0x0A00D36F to buf] \<rparr>)
      else (Inl (Undefined_behaviour ''write past end''), d))"
  by (simp add: tf_sendPacket_def agent_address)

lemma udp_datagram_frame:
  assumes "length buf \<le> 982"
  shows "udp_datagram \<lparr> pk_buf = frame_of src to buf, frame_len = of_nat (42 + length buf) \<rparr> = Inr (Some (IPv4Port src 3000, buf))"
proof -
  let ?n = "of_nat (42 + length buf) :: u16"
  have n: "unat ?n = 42 + length buf" using assms by (intro unat_of_nat_eq) simp
  then have "(ucast ?n :: u32) = of_nat (42 + length buf)"
    using of_nat_unat [of ?n, where 'a = u32] by simp
  then have "(ucast ?n :: u32) - of_nat 42 = of_nat (length buf)" by simp
  moreover have "unat (of_nat (length buf) :: u32) = length buf" using assms by (intro unat_of_nat_eq) simp
  ultimately have l: "unat ((ucast ?n :: u32) - of_nat 42) = length buf" by simp
  show ?thesis
    using n l by (simp add: udp_datagram_def frame_fields Let_def)
qed

text \<open>
  C24: a packet of at most 982 bytes that the agent hands to the hardware data plane becomes exactly one
  Ethernet frame. Its length fields are right, it is addressed to the packet's destination, and
  the demultiplexing code recovers the agent's address and the packet from it. A longer packet
  is written past the end of the array the frame is built in.
\<close>

theorem tofino_frame_roundtrip:
  "if length buf \<le> 982 then
     \<exists>frame. tf_sendPacket (to, buf) d = (Inr (), d\<lparr> tf_injected := tf_injected d @ [frame] \<rparr>) \<and>
       length frame = 42 + length buf \<and>
       udp_datagram \<lparr> pk_buf = frame, frame_len = of_nat (length frame) \<rparr> = Inr (Some (IPv4Port 0x0A00D36F 3000, buf)) \<and>
       ld32 frame 30 = Inr (ntohl (ip to)) \<and> ld16 frame 36 = Inr (ntohs (port to)) \<and>
       (\<exists>w. ld16 frame 16 = Inr w \<and> unat (ntohs w) = length buf + 28) \<and>
       (\<exists>w. ld16 frame 38 = Inr w \<and> unat (ntohs w) = length buf + 8)
   else \<not> is_ok (fst (tf_sendPacket (to, buf) d))"
proof (cases "length buf \<le> 982")
  case True
  have "unat (of_nat (length buf + 28) :: u16) = length buf + 28" "unat (of_nat (length buf + 8) :: u16) = length buf + 8"
    using True by (intro unat_of_nat_eq; simp)+
  then show ?thesis
    using True udp_datagram_frame [OF True, of "0x0A00D36F" to]
    by (simp only: if_True) (intro exI [of _ "frame_of 0x0A00D36F to buf"], simp add: tf_sendPacket_eq frame_fields)
qed (simp add: tf_sendPacket_eq)

text \<open>
  C25: with the agent on top of the hardware data plane, a captured frame that holds a STUN binding request is
  answered exactly when the validation succeeds: one frame is injected, to the address and port
  the request came from, with the response libnice wrote (a response of at most 982 bytes); a
  request that fails validation, such as one of an unknown peer, is not answered.
\<close>

theorem tofino_answers_stun:
  assumes "udp_datagram pkt = Inr (Some (frm, req))" and "bufferContainsSTUNBindingRequest req"
    and "validate api frm req (ag_stun a) = (v, st)" and "sa_msgLen st \<le> 982"
  shows "if vr_success v then
      \<exists>frame. onDataPlanePacket (Some (onPacketFromDataPlane api (tofino_ops J))) (Some pkt) (a, d) =
          (Inr (), (a\<lparr> ag_stun := st \<rparr>, d\<lparr> tf_injected := tf_injected d @ [frame] \<rparr>)) \<and>
        ld32 frame 30 = Inr (ntohl (ip frm)) \<and> ld16 frame 36 = Inr (ntohs (port frm)) \<and>
        drop 42 frame = take (sa_msgLen st) (sa_msgBuf st) \<and> hasPeer (ag_stun a) frm
    else onDataPlanePacket (Some (onPacketFromDataPlane api (tofino_ops J))) (Some pkt) (a, d) = (Inr (), (a\<lparr> ag_stun := st \<rparr>, d))"
proof -
  have stun: "bufferContainsSTUN req"
    using assms(2) by (simp add: bufferContainsSTUN_def bufferContainsSTUNBindingRequest_def)
  let ?f = "frame_of 0x0A00D36F frm (take (sa_msgLen st) (sa_msgBuf st))"
  have "tf_sendPacket (frm, take (sa_msgLen st) (sa_msgBuf st)) d = (Inr (), d\<lparr> tf_injected := tf_injected d @ [?f] \<rparr>)"
    using assms(4) by (simp add: tf_sendPacket_eq)
  then show ?thesis
    using assms stun validate_step(4) [OF assms(3)]
    by (simp add: onDataPlanePacket_def tf_handleSTUN_def onPacketFromDataPlane_def sw_handleSTUN_def
        sw_handleSTUNBindingRequest_def on_stun_def on_dp_def tofino_ops_def)
      (intro impI exI [of _ ?f], simp add: frame_fields)
qed

text \<open>A library that accepts every request and answers with one byte; a peer, and its request.\<close>

definition demo_nice :: "unit nice_api" where
  "demo_nice = \<lparr> nice_validate = (\<lambda>n u p r. (n, VALIDATION_SUCCESS)), nice_controlled = (\<lambda>n r. True),
     nice_reply = (\<lambda>n r p c. (n, ICE_RETURN_SUCCESS, [7])) \<rparr>"

definition demo_peer :: "unit switch_agent" where
  "demo_peer = (SwitchAgent demo_config ())\<lparr> ag_stun := snd (addPeer (IPv4Port 0x0A00D36F 3000)
     \<lparr> uFrag = ''a'', pwd = ''b'', validated = False \<rparr> (ag_stun (SwitchAgent demo_config ()))) \<rparr>"

definition demo_request :: "byte list" where
  "demo_request = [0, 1, 0, 0, 0x21, 0x12, 0xa4, 0x42, 0, 0, 0, 0, 0, 0, 0, 0, 0, 0, 0, 0]"

theorem tofino_answers_stun_witness:
  "\<exists>a frame. onDataPlanePacket (Some (onPacketFromDataPlane demo_nice (tofino_ops tree_api)))
     (Some \<lparr> pk_buf = frame_of 0x0A00D36F (IPv4Port 1 2) demo_request, frame_len = 62 \<rparr>) (demo_peer, TofinoDataPlane) =
     (Inr (), (a, TofinoDataPlane\<lparr> tf_injected := [frame] \<rparr>)) \<and> drop 42 frame = [7]"
proof -
  obtain v st where v: "validate demo_nice (IPv4Port 0x0A00D36F 3000) demo_request (ag_stun demo_peer) = (v, st)" by fastforce
  then have "vr_success v" "sa_msgLen st = 1" "sa_msgBuf st = [7]"
    by (auto simp: validate_def demo_nice_def demo_peer_def addPeer_def SwitchAgent_def STUNAgent_def Let_def)
  moreover have "udp_datagram \<lparr> pk_buf = frame_of 0x0A00D36F (IPv4Port 1 2) demo_request, frame_len = 62 \<rparr> =
      Inr (Some (IPv4Port 0x0A00D36F 3000, demo_request))"
    using udp_datagram_frame [of demo_request] by (simp add: demo_request_def)
  moreover have "bufferContainsSTUNBindingRequest demo_request"
    by (simp add: bufferContainsSTUNBindingRequest_def demo_request_def)
  ultimately show ?thesis
    using tofino_answers_stun [OF _ _ v, where J = tree_api and d = TofinoDataPlane] by (fastforce simp: TofinoDataPlane_def)
qed

text \<open>
  Every change of a decode target sends the same instruction, whatever the target; a switch that has
  closed its connection still counts as connected.
\<close>

lemma tf_adjust_ignores_target: "tf_adjustDecodeTarget J frm to ssrc n d = tf_adjustDecodeTarget J frm to ssrc k d"
  by (simp add: tf_adjustDecodeTarget_def)

lemma tf_close_keeps_connection: "tf_connected (tf_onSwitchClose (tf_onSwitchOpen d))"
  by (simp add: tf_onSwitchClose_def tf_onSwitchOpen_def)

end
