(* ===== verification/Session_Spec.thy ===== *)
theory Session_Spec
  imports Session
begin

text \<open>
  What sessions promise. The locale \<open>stream_sink\<close> is the interface to the owner's callback; inside it
  adding an offer or an answer is shown to implement a short specification, the list of the streams that
  are new. The invariant \<open>session_ok\<close> says that there is at most one offer under negotiation and that all
  streams are what their constructor makes of their descriptions.
\<close>

lemma sbind_Inr_iff: "sbind r f = (Inr y, s') \<longleftrightarrow> (\<exists>x s. r = (Inr x, s) \<and> f x s = (Inr y, s'))"
  by (cases r; cases "fst r") auto

lemma sbind_pure_Inr_iff: "sbind (pure r s) f = (Inr y, s') \<longleftrightarrow> (\<exists>x. r = Inr x \<and> f x s = (Inr y, s'))"
  by (simp add: sbind_Inr_iff pure_def)

section \<open>Updates of one participant\<close>

lemma omap_put_put [simp]: "omap_put k v (omap_put k u m) = omap_put k v m"
  by (induction m) auto

lemma omap_put_same: "omap_inv m \<Longrightarrow> map_of m k = Some v \<Longrightarrow> omap_put k v m = m"
  by (induction m) (fastforce simp: omap_inv_def dest: map_of_SomeD)+

lemma participant_upd [simp]:
  "participant (upd_participant i f s) j = (if i = j then f (participant s i) else participant s j)"
  by (simp add: participant_def upd_participant_def)

lemma upd_participant_fields [simp]:
  "s_id (upd_participant i f s) = s_id s" "s_config (upd_participant i f s) = s_config s"
  "s_onNewStream (upd_participant i f s) = s_onNewStream s" "nextParticipantId (upd_participant i f s) = nextParticipantId s"
  by (simp_all add: upd_participant_def)

lemma upd_participant_compose [simp]: "upd_participant i f (upd_participant i g s) = upd_participant i (\<lambda>p. f (g p)) s"
  by (simp add: upd_participant_def participant_def)

lemma exists_upd [simp]: "participantExists (upd_participant i f s) j \<longleftrightarrow> i = j \<or> participantExists s j"
  by (simp add: participantExists_def upd_participant_def)

lemma participant_exists: "participantExists s i \<Longrightarrow> map_of (participants s) i = Some (participant s i)"
  by (auto simp: participantExists_def participant_def)

lemma upd_participant_same: "omap_inv (participants s) \<Longrightarrow> participantExists s i \<Longrightarrow> f (participant s i) = participant s i \<Longrightarrow> upd_participant i f s = s"
  using omap_put_same participant_exists by (fastforce simp: upd_participant_def)

lemma receiver_upd [simp]: "receiver (upd_receiver k f p) j = (if k = j then f (receiver p k) else receiver p j)"
  by (simp add: receiver_def upd_receiver_def)

lemma upd_receiver_fields [simp]:
  "p_id (upd_receiver k f p) = p_id p" "sender (upd_receiver k f p) = sender p" "signalingState (upd_receiver k f p) = signalingState p"
  "controlIp (upd_receiver k f p) = controlIp p" "controlPort (upd_receiver k f p) = controlPort p"
  by (simp_all add: upd_receiver_def)

lemma upd_receiver_compose [simp]: "upd_receiver k f (upd_receiver k g p) = upd_receiver k (\<lambda>r. f (g r)) p"
  by (simp add: upd_receiver_def receiver_def)

lemma set_state_fields [simp]:
  "signalingState (set_state st p) = st" "sender (set_state st p) = sender p" "receivers (set_state st p) = receivers p" "p_id (set_state st p) = p_id p"
  by (simp_all add: set_state_def)

section \<open>The streams of an offer and of an answer\<close>

text \<open>The streams an offer adds: those that are sent and whose identification is new.\<close>

fun offer_streams :: "SFUConfig \<Rightarrow> ICECandidate list \<Rightarrow> string list \<Rightarrow> MediaDescription list \<Rightarrow> Stream list result" where
  "offer_streams cfg known mids [] = Inr []"
| "offer_streams cfg known mids (m # rest) =
     (if direction m = Some sendonly then
        rbind (deref (mid m)) (\<lambda>x.
          if x \<in> set mids then offer_streams cfg known mids rest
          else rbind (with_candidate known m) (\<lambda>m. rbind (Stream_of m cfg \<lparr> ssrcs = [] \<rparr>) (\<lambda>st.
            rbind (offer_streams cfg known (mids @ [x]) rest) (\<lambda>sts. Inr (st # sts)))))
      else offer_streams cfg known mids rest)"

text \<open>The streams an answer to the offer of the streams \<open>out\<close> adds.\<close>

fun answer_streams :: "SFUConfig \<Rightarrow> Stream list \<Rightarrow> ICECandidate list \<Rightarrow> string list \<Rightarrow> MediaDescription list \<Rightarrow> Stream list result" where
  "answer_streams cfg out known mids [] = Inr []"
| "answer_streams cfg out known mids (m # rest) =
     (case mid m of
        None \<Rightarrow> Inl (Logic_error ''Session: addAnswer: answer media desc. does not have mid'')
      | Some x \<Rightarrow>
          (case find (\<lambda>s. mid (description s) = Some x) out of
             None \<Rightarrow> Inl (Logic_error ''Participant: sendStreamWithMid: participant does'nt send this mid'')
           | Some o' \<Rightarrow>
               (case ssrcDescription (description o') of
                  None \<Rightarrow> Inl (Runtime_error ''assertion failed'')
                | Some sd \<Rightarrow>
                    rbind (rbind (with_candidate known m) (\<lambda>m. Stream_of m cfg sd)) (\<lambda>st.
                      if x \<in> set mids then answer_streams cfg out known mids rest
                      else rbind (answer_streams cfg out known (mids @ [x]) rest) (\<lambda>sts. Inr (st # sts))))))"

fun mids_of :: "Stream list \<Rightarrow> string list" where
  "mids_of [] = []"
| "mids_of (s # sts) = (case mid (description s) of None \<Rightarrow> [] | Some x \<Rightarrow> [x]) @ mids_of sts"

lemma mids_of_append [simp]: "mids_of (as @ bs) = mids_of as @ mids_of bs"
  by (induction as) simp_all

lemma in_mids_of: "x \<in> set (mids_of sts) \<longleftrightarrow> (\<exists>s \<in> set sts. mid (description s) = Some x)"
  by (induction sts) (auto split: option.splits)

lemma hasStreamWithMid_iff: "hasStreamWithMid t x \<longleftrightarrow> x \<in> set (mids_of (streams t))"
  by (auto simp: hasStreamWithMid_def in_mids_of list_ex_iff)

lemma with_candidate_mid: "with_candidate known m = Inr m' \<Longrightarrow> mid m' = mid m \<and> direction m' = direction m"
  by (auto simp: with_candidate_def split: if_splits list.splits)

lemma offer_streams_mids:
  "offer_streams cfg known mids mds = Inr sts \<Longrightarrow> distinct mids \<Longrightarrow>
     distinct (mids @ mids_of sts) \<and> list_all (\<lambda>st. mid (description st) \<noteq> None \<and> Stream_of (description st) cfg \<lparr> ssrcs = [] \<rparr> = Inr st) sts"
proof (induction mds arbitrary: mids sts)
  case (Cons m mds)
  show ?case
  proof (cases "direction m = Some sendonly")
    case True
    then obtain x where x: "mid m = Some x" using Cons.prems(1) by (auto simp: rbind_Inr_iff)
    show ?thesis
    proof (cases "x \<in> set mids")
      case False
      then obtain m' st sts' where s: "with_candidate known m = Inr m'" "Stream_of m' cfg \<lparr> ssrcs = [] \<rparr> = Inr st"
          "offer_streams cfg known (mids @ [x]) mds = Inr sts'" "sts = st # sts'"
        using Cons.prems(1) True x by (auto simp: rbind_Inr_iff)
      then have "mid (description st) = Some x" "description st = m'"
        using Stream_of_description with_candidate_mid x by fastforce+
      then show ?thesis using Cons.IH [OF s(3)] Cons.prems(2) False s by auto
    qed (use Cons True x in simp)
  qed (use Cons in simp)
qed simp

section \<open>Effects on a participant\<close>

definition all_candidates :: "SessionDescription \<Rightarrow> ICECandidate list" where
  "all_candidates sdp = concat (map iceCandidates (mediaDescriptions sdp))"

definition offer_new :: "Session \<Rightarrow> u32 \<Rightarrow> SessionDescription \<Rightarrow> Stream list result" where
  "offer_new s i sdp =
     offer_streams (s_config s) (t_iceCandidates (updateICECandidates sdp (sender (participant s i))))
       (mids_of (outgoingStreams (participant s i))) (mediaDescriptions sdp)"

definition offer_effect :: "SessionDescription \<Rightarrow> Stream list \<Rightarrow> Participant \<Rightarrow> Participant" where
  "offer_effect sdp sts p =
     p\<lparr> sender := \<lparr> streams = streams (sender p) @ sts, t_iceCandidates = t_iceCandidates (updateICECandidates sdp (sender p)) \<rparr>,
        signalingState := gotOffer \<rparr>"

text \<open>The effects of an answer to the offer of \<open>k\<close>.\<close>

definition receive_effect :: "u32 \<Rightarrow> Stream list \<Rightarrow> Participant \<Rightarrow> Participant" where
  "receive_effect k sts = upd_receiver k (\<lambda>r. r\<lparr> streams := streams r @ sts \<rparr>)"

definition answer_new :: "Session \<Rightarrow> u32 \<Rightarrow> u32 \<Rightarrow> SessionDescription \<Rightarrow> Stream list result" where
  "answer_new s j i sdp =
     answer_streams (s_config s) (outgoingStreams (participant s j)) (t_iceCandidates (receiver (participant s i) j) @ all_candidates sdp)
       (mids_of (streams (receiver (participant s i) j))) (mediaDescriptions sdp)"

definition answer_effect :: "u32 \<Rightarrow> SessionDescription \<Rightarrow> Stream list \<Rightarrow> Participant \<Rightarrow> Participant" where
  "answer_effect k sdp sts p =
     set_state stable (if mediaDescriptions sdp = [] then p
       else upd_receiver k (\<lambda>r. r\<lparr> t_iceCandidates := t_iceCandidates r @ all_candidates sdp, streams := streams r @ sts \<rparr>) p)"

lemma fold_addOutgoing: "fold addOutgoingStream sts p = p\<lparr> sender := (sender p)\<lparr> streams := streams (sender p) @ sts \<rparr> \<rparr>"
  by (induction sts arbitrary: p) (simp_all add: addOutgoingStream_def t_addStream_def)

lemma updateICECandidates_streams [simp]: "streams (updateICECandidates sdp t) = streams t"
proof -
  have "streams (fold (\<lambda>c t. if hasICECandidate t c then t else addICECandidate c t) cs t) = streams t" for cs
    by (induction cs arbitrary: t) (simp_all add: addICECandidate_def)
  then show ?thesis by (simp add: updateICECandidates_def)
qed

lemma receive_effect_simps [simp]:
  "receive_effect k bs (receive_effect k as p) = receive_effect k (as @ bs) p"
  "t_iceCandidates (receiver (receive_effect k sts p) k) = t_iceCandidates (receiver p k)"
  "streams (receiver (receive_effect k sts p) k) = streams (receiver p k) @ sts"
  by (simp_all add: receive_effect_def)

lemma fold_candidates_participant:
  "fold (\<lambda>c. upd_participant i (upd_receiver k (addICECandidate c))) cs (upd_participant i f s) =
     upd_participant i (\<lambda>p. if cs = [] then f p else upd_receiver k (\<lambda>r. r\<lparr> t_iceCandidates := t_iceCandidates r @ cs \<rparr>) (f p)) s"
proof (induction cs arbitrary: f)
  case (Cons c cs)
  show ?case
    by (simp only: fold.simps o_apply upd_participant_compose Cons.IH) (cases "cs = []"; simp add: addICECandidate_def [abs_def])
qed simp

section \<open>The owner's callback\<close>

text \<open>
  The owner of a session either takes every new stream, as long as it is ready, or refuses it; taking
  one changes its own state by \<open>emit\<close> and does not touch the session.
\<close>

locale stream_sink =
  fixes h :: "'w new_stream"
    and ready :: "'w \<Rightarrow> bool"
    and emit :: "u32 \<Rightarrow> u32 \<Rightarrow> Stream \<Rightarrow> 'w \<Rightarrow> 'w"
  assumes taken: "ready w \<Longrightarrow> direction (description st) \<noteq> None \<Longrightarrow> h s i st w = (Inr (), emit (s_id s) i st w)"
    and stays: "ready w \<Longrightarrow> ready (emit n i st w)"
    and refused: "\<not> ready w \<Longrightarrow> direction (description st) \<noteq> None \<Longrightarrow> \<exists>e. h s i st w = (Inl e, w)"
begin

lemma call_Inr:
  assumes "s_onNewStream s" "direction (description st) \<noteq> None"
  shows "call_onNewStream h i st (s, w) = (Inr (), sw) \<longleftrightarrow> ready w \<and> sw = (s, emit (s_id s) i st w)"
  using assms taken [of w st s i] refused [of w st s i] by (cases "ready w") (auto simp: call_onNewStream_def)

lemma each_offer_Inr:
  assumes "s_onNewStream s"
  shows "each_media (offer_media h i) mds (upd_participant i f s, w) = (Inr (), sw) \<longleftrightarrow>
    (\<exists>sts. offer_streams (s_config s) (t_iceCandidates (sender (f (participant s i)))) (mids_of (streams (sender (f (participant s i))))) mds = Inr sts \<and>
       (sts \<noteq> [] \<longrightarrow> ready w) \<and>
       sw = (upd_participant i (\<lambda>p. fold addOutgoingStream sts (f p)) s, fold (emit (s_id s) i) sts w))"
proof (induction mds arbitrary: f w)
  case Nil
  then show ?case by auto
next
  case (Cons m mds)
  let ?p = "f (participant s i)"
  show ?case
  proof (cases "direction m = Some sendonly \<and> mid m \<noteq> None \<and> the (mid m) \<notin> set (mids_of (streams (sender ?p)))")
    case True
    then obtain x where x: "mid m = Some x" "x \<notin> set (mids_of (streams (sender ?p)))" and d: "direction m = Some sendonly" by auto
    show ?thesis
    proof (cases "rbind (with_candidate (t_iceCandidates (sender ?p)) m) (\<lambda>m. Stream_of m (s_config s) \<lparr> ssrcs = [] \<rparr>)")
      case (Inl e)
      then show ?thesis
        using x d by (cases "with_candidate (t_iceCandidates (sender ?p)) m")
          (auto simp: offer_media_def pure_def sendsStreamWithMid_def hasStreamWithMid_iff)
    next
      case (Inr st)
      then obtain m' where m': "with_candidate (t_iceCandidates (sender ?p)) m = Inr m'" "Stream_of m' (s_config s) \<lparr> ssrcs = [] \<rparr> = Inr st"
        by (auto simp: rbind_Inr_iff)
      then have st: "direction (description st) \<noteq> None" "mid (description st) = Some x"
        using with_candidate_mid [OF m'(1)] Stream_of_description [OF m'(2)] x d by auto
      let ?f = "\<lambda>p. addOutgoingStream st (f p)"
      have step: "offer_media h i m (upd_participant i f s, w) = call_onNewStream h i st (upd_participant i ?f s, w)"
        using x d m' by (simp add: offer_media_def pure_def sendsStreamWithMid_def hasStreamWithMid_iff)
      have p: "t_iceCandidates (sender (?f (participant s i))) = t_iceCandidates (sender ?p)"
          "mids_of (streams (sender (?f (participant s i)))) = mids_of (streams (sender ?p)) @ [x]"
        using st(2) by (simp_all add: addOutgoingStream_def t_addStream_def)
      have r: "offer_streams (s_config s) (t_iceCandidates (sender ?p)) (mids_of (streams (sender ?p))) (m # mds) =
          rbind (offer_streams (s_config s) (t_iceCandidates (sender ?p)) (mids_of (streams (sender ?p)) @ [x]) mds) (\<lambda>sts. Inr (st # sts))"
        using x d m' by simp
      have "call_onNewStream h i st (upd_participant i ?f s, w) = (Inr (), sv) \<longleftrightarrow> ready w \<and> sv = (upd_participant i ?f s, emit (s_id s) i st w)" for sv
        using call_Inr [of "upd_participant i ?f s" st i w sv] assms st(1) by simp
      then have l: "each_media (offer_media h i) (m # mds) (upd_participant i f s, w) = (Inr (), sw) \<longleftrightarrow>
          ready w \<and> each_media (offer_media h i) mds (upd_participant i ?f s, emit (s_id s) i st w) = (Inr (), sw)"
        by (simp add: step sbind_Inr_iff)
      show ?thesis
        unfolding l r Cons.IH [of ?f "emit (s_id s) i st w"] p using stays [of w "s_id s" i st] by (fastforce simp: rbind_Inr_iff)
    qed
  next
    case False
    then show ?thesis
      using Cons.IH by (cases "mid m") (auto simp: offer_media_def pure_def deref_def sendsStreamWithMid_def hasStreamWithMid_iff)
  qed
qed

text \<open>Adding an offer succeeds exactly when no negotiation is going on and its streams can be made, and adds just these.\<close>

lemma addOffer_Inr:
  assumes "s_onNewStream s"
  shows "addOffer h i sdp (s, w) = (Inr (), sw) \<longleftrightarrow>
    participantExists s i \<and> \<not> signalingActive s \<and>
    (\<exists>sts. offer_new s i sdp = Inr sts \<and> (sts \<noteq> [] \<longrightarrow> ready w) \<and>
       sw = (upd_participant i (offer_effect sdp sts) s, fold (emit (s_id s) i) sts w))"
proof -
  let ?f = "\<lambda>p. p\<lparr> sender := updateICECandidates sdp (sender p) \<rparr>"
  have e: "set_state gotOffer (fold addOutgoingStream sts (?f p)) = offer_effect sdp sts p" for sts p
    by (simp add: fold_addOutgoing offer_effect_def set_state_def)
  have e0: "set_state gotOffer (?f p) = offer_effect sdp [] p" for p using e [of "[]" p] by simp
  show ?thesis
    unfolding addOffer_def offer_new_def outgoingStreams_def
    using each_offer_Inr [OF assms, of i "mediaDescriptions sdp" ?f w] by (auto simp: sbind_Inr_iff e e0)
qed

lemma each_answer_Inr:
  assumes "s_onNewStream s" "i \<noteq> j" "p_id (participant s j) = j"
  shows "each_media (answer_media h j i) mds (upd_participant i f s, w) = (Inr (), sw) \<longleftrightarrow>
    (\<exists>sts. answer_streams (s_config s) (outgoingStreams (participant s j)) (t_iceCandidates (receiver (f (participant s i)) j))
         (mids_of (streams (receiver (f (participant s i)) j))) mds = Inr sts \<and>
       (sts \<noteq> [] \<longrightarrow> ready w) \<and>
       sw = (upd_participant i (\<lambda>p. if mds = [] then f p else receive_effect j sts (f p)) s, fold (emit (s_id s) i) sts w))"
proof (induction mds arbitrary: f w)
  case Nil
  then show ?case by auto
next
  case (Cons m mds)
  let ?r = "receiver (f (participant s i)) j" and ?out = "outgoingStreams (participant s j)"
  show ?case
  proof (cases "\<exists>x o' sd st. mid m = Some x \<and> find (\<lambda>s. mid (description s) = Some x) ?out = Some o' \<and> ssrcDescription (description o') = Some sd \<and>
      rbind (with_candidate (t_iceCandidates ?r) m) (\<lambda>m. Stream_of m (s_config s) sd) = Inr st")
    case True
    then obtain x o' sd st where x: "mid m = Some x" "find (\<lambda>s. mid (description s) = Some x) ?out = Some o'"
        "ssrcDescription (description o') = Some sd" "rbind (with_candidate (t_iceCandidates ?r) m) (\<lambda>m. Stream_of m (s_config s) sd) = Inr st"
      by blast
    obtain m' where m': "with_candidate (t_iceCandidates ?r) m = Inr m'" "Stream_of m' (s_config s) sd = Inr st"
      using x(4) by (auto simp: rbind_Inr_iff)
    have st: "direction (description st) \<noteq> None" "mid (description st) = Some x"
      using with_candidate_mid [OF m'(1)] Stream_of_description [OF m'(2)] m'(2) x(1) by (auto simp: Stream_of_def split: option.splits)
    have send: "sendStreamWithMid (participant s j) x = Inr o'" using x(2) by (simp add: sendStreamWithMid_def outgoingStreams_def)
    let ?known = "x \<in> set (mids_of (streams ?r))"
    let ?f = "\<lambda>p. receive_effect j (if ?known then [] else [st]) (f p)"
    have step: "answer_media h j i m (upd_participant i f s, w) =
        (if ?known then (Inr (), (upd_participant i ?f s, w)) else call_onNewStream h i st (upd_participant i ?f s, w))"
      using assms(2,3) x(1,3,4) send
      by (simp add: answer_media_def pure_def Let_def hasStreamWithMid_iff receive_effect_def t_addStream_def)
    have ih: "each_media (answer_media h j i) mds (upd_participant i ?f s, v) = (Inr (), sw) \<longleftrightarrow>
        (\<exists>sts. answer_streams (s_config s) ?out (t_iceCandidates ?r) (mids_of (streams ?r) @ (if ?known then [] else [x])) mds = Inr sts \<and>
          (sts \<noteq> [] \<longrightarrow> ready v) \<and>
          sw = (upd_participant i (\<lambda>p. receive_effect j ((if ?known then [] else [st]) @ sts) (f p)) s, fold (emit (s_id s) i) sts v))" for v
      unfolding Cons.IH [of ?f v] using st(2) by (cases "mds = []") auto
    show ?thesis
    proof (cases ?known)
      case True
      then show ?thesis using ih [of w] x by (simp add: step)
    next
      case False
      have r: "answer_streams (s_config s) ?out (t_iceCandidates ?r) (mids_of (streams ?r)) (m # mds) =
          rbind (answer_streams (s_config s) ?out (t_iceCandidates ?r) (mids_of (streams ?r) @ [x]) mds) (\<lambda>sts. Inr (st # sts))"
        using x False by simp
      have c: "call_onNewStream h i st (upd_participant i ?f s, w) = (Inr (), sv) \<longleftrightarrow>
          ready w \<and> sv = (upd_participant i ?f s, emit (s_id s) i st w)" for sv
        using call_Inr [of "upd_participant i ?f s" st i w sv] assms(1) st(1) by simp
      have "each_media (answer_media h j i) (m # mds) (upd_participant i f s, w) = (Inr (), sw) \<longleftrightarrow>
          ready w \<and> each_media (answer_media h j i) mds (upd_participant i ?f s, emit (s_id s) i st w) = (Inr (), sw)"
        using c False by (simp add: step sbind_Inr_iff)
      then show ?thesis unfolding r ih using False stays by (fastforce simp: rbind_Inr_iff)
    qed
  next
    case False
    have l: "each_media (answer_media h j i) (m # mds) (upd_participant i f s, w) \<noteq> (Inr (), sw)"
      using False assms(2,3) by (cases "mid m"; cases "find (\<lambda>s. mid (description s) = mid m) ?out")
        (auto simp: answer_media_def sbind_Inr_iff pure_def Let_def sendStreamWithMid_def outgoingStreams_def split: option.splits if_splits)
    have "answer_streams (s_config s) ?out (t_iceCandidates ?r) (mids_of (streams ?r)) (m # mds) \<noteq> Inr sts" for sts
      using False by (auto simp: rbind_Inr_iff split: option.splits)
    then show ?thesis using l by blast
  qed
qed

text \<open>
  Adding the answer of \<open>i\<close> succeeds exactly when one participant has an offer under negotiation, \<open>i\<close> owes
  an answer to it and the streams can be made, and adds just these.
\<close>

lemma addAnswer_Inr:
  assumes "s_onNewStream s" "omap_inv (participants s)" "participantExists s i"
    and ids: "\<forall>j. participantExists s j \<longrightarrow> p_id (participant s j) = j"
  shows "addAnswer h i sdp (s, w) = (Inr (), sw) \<longleftrightarrow>
    (\<exists>j sts. participantInState s gotOffer = Inr j \<and> signalingState (participant s i) = awaitAnswer \<and>
       answer_new s j i sdp = Inr sts \<and> (sts \<noteq> [] \<longrightarrow> ready w) \<and>
       sw = (upd_participant i (answer_effect j sdp sts) s, fold (emit (s_id s) i) sts w))"
proof (cases "participantInState s gotOffer")
  case (Inl e)
  then show ?thesis by (simp add: addAnswer_def pure_def)
next
  case (Inr j)
  have "j \<in> set (particpantsInState s gotOffer)"
    using Inr by (auto simp: participantInState_def split: list.splits)
  then obtain j' p where p: "(j', p) \<in> set (participants s)" "p_id p = j" "signalingState p = gotOffer"
    by (auto simp: particpantsInState_def)
  then have "map_of (participants s) j' = Some p" using assms(2) by (simp add: omap_inv_distinct)
  then have j: "participantExists s j" "participant s j = p" using ids p(2)
    by (auto simp: participantExists_def participant_def dest: spec [where x = j'])
  have same: "upd_participant i (\<lambda>p. p) (upd_participant j (\<lambda>p. p) s) = s"
    using upd_participant_same [OF assms(2,3)] upd_participant_same [OF assms(2) j(1)] by simp
  show ?thesis
  proof (cases "signalingState (participant s i) = awaitAnswer")
    case False
    then show ?thesis using Inr same by (simp add: addAnswer_def pure_def)
  next
    case True
    then have "i \<noteq> j" using j(2) p(3) by auto
    let ?f = "\<lambda>p. if all_candidates sdp = [] then p else upd_receiver j (\<lambda>r. r\<lparr> t_iceCandidates := t_iceCandidates r @ all_candidates sdp \<rparr>) p"
    have f: "fold (\<lambda>c. upd_participant i (upd_receiver j (addICECandidate c))) (all_candidates sdp) s = upd_participant i ?f s"
      using fold_candidates_participant [of i j "all_candidates sdp" "\<lambda>p. p" s] upd_participant_same [OF assms(2,3), of "\<lambda>p. p"] by simp
    have none: "mediaDescriptions sdp = [] \<Longrightarrow> all_candidates sdp = []" by (simp add: all_candidates_def)
    have e: "set_state stable (if mediaDescriptions sdp = [] then ?f p else receive_effect j sts (?f p)) = answer_effect j sdp sts p" for sts p
      using none by (cases "all_candidates sdp = []"; cases "mediaDescriptions sdp = []") (simp_all add: answer_effect_def receive_effect_def)
    have known: "t_iceCandidates (receiver (?f p) j) = t_iceCandidates (receiver p j) @ all_candidates sdp"
        "streams (receiver (?f p) j) = streams (receiver p j)" for p
      by simp_all
    have "addAnswer h i sdp (s, w) =
        sbind (each_media (answer_media h j i) (mediaDescriptions sdp) (upd_participant i ?f s, w)) (\<lambda>_ (s, w).
          (Inr (), (upd_participant i (set_state stable) s, w)))"
      using Inr same True ids j(1) f by (simp add: addAnswer_def pure_def Let_def all_candidates_def)
    then show ?thesis
      using each_answer_Inr [OF assms(1) \<open>i \<noteq> j\<close>, of "mediaDescriptions sdp" ?f w] ids j(1) Inr True unfolding known
      by (auto simp: sbind_Inr_iff answer_new_def e)
  qed
qed

end

end
