(* ===== verification/Session_Inv.thy ===== *)
theory Session_Inv
  imports Session_Spec
begin

text \<open>
  The invariant of a session and its preservation by every member function, whether it throws or not
  where the session goes on to be used.
\<close>

definition send_ok :: "SFUConfig \<Rightarrow> Stream \<Rightarrow> bool" where
  "send_ok cfg st \<longleftrightarrow> mid (description st) \<noteq> None \<and> Stream_of (description st) cfg \<lparr> ssrcs = [] \<rparr> = Inr st"

definition recv_ok :: "SFUConfig \<Rightarrow> Stream \<Rightarrow> bool" where
  "recv_ok cfg st \<longleftrightarrow> mid (description st) \<noteq> None \<and> (\<exists>sd. ssrcs sd \<noteq> [] \<and> Stream_of (description st) cfg sd = Inr st)"

definition participant_ok :: "SFUConfig \<Rightarrow> Participant \<Rightarrow> bool" where
  "participant_ok cfg p \<longleftrightarrow>
     list_all (send_ok cfg) (outgoingStreams p) \<and> distinct (mids_of (outgoingStreams p)) \<and> omap_inv (receivers p) \<and>
     (\<forall>r \<in> snd ` set (receivers p). list_all (recv_ok cfg) (streams r) \<and> distinct (mids_of (streams r)))"

definition offering :: "Session \<Rightarrow> u32 \<Rightarrow> bool" where
  "offering s i \<longleftrightarrow> participantExists s i \<and> signalingState (participant s i) = gotOffer"

definition session_ok :: "Session \<Rightarrow> bool" where
  "session_ok s \<longleftrightarrow>
     s_onNewStream s \<and> omap_inv (participants s) \<and>
     (\<forall>i. participantExists s i \<longrightarrow> p_id (participant s i) = i \<and> participant_ok (s_config s) (participant s i)) \<and>
     (\<forall>i j. offering s i \<and> offering s j \<longrightarrow> i = j)"

lemma session_okD:
  assumes "session_ok s"
  shows "s_onNewStream s" "omap_inv (participants s)" "participantExists s i \<Longrightarrow> p_id (participant s i) = i"
    "participantExists s i \<Longrightarrow> participant_ok (s_config s) (participant s i)" "offering s i \<Longrightarrow> offering s j \<Longrightarrow> i = j"
    "\<forall>j. participantExists s j \<longrightarrow> p_id (participant s j) = j"
  using assms by (auto simp: session_ok_def)

lemma session_okI:
  assumes "s_onNewStream s" "omap_inv (participants s)" "\<And>i. participantExists s i \<Longrightarrow> p_id (participant s i) = i"
    "\<And>i. participantExists s i \<Longrightarrow> participant_ok (s_config s) (participant s i)" "\<And>i j. offering s i \<Longrightarrow> offering s j \<Longrightarrow> i = j"
  shows "session_ok s"
  using assms by (simp add: session_ok_def)

lemma send_okD:
  assumes "send_ok cfg st"
  shows "is_send st" "direction (description st) = Some sendonly" "\<exists>x. ssrcDescription (description st) = Some x \<and> ssrcs x \<noteq> []"
    "md_type (description st) \<noteq> None" "mid (description st) \<noteq> None"
  using assms unfolding send_ok_def Stream_of_send base_config_Inr by (auto simp: is_send_def)

lemma recv_okD:
  assumes "recv_ok cfg st"
  shows "\<not> is_send st" "direction (description st) = Some recvonly"
  using assms by (auto simp: recv_ok_def Stream_of_receive is_send_def)

section \<open>The participants by state\<close>

lemma participants_iff: "omap_inv (participants s) \<Longrightarrow> (i, p) \<in> set (participants s) \<longleftrightarrow> participantExists s i \<and> participant s i = p"
  by (auto simp: participantExists_def participant_def omap_inv_distinct dest: map_of_SomeD)

lemma signalingActive_iff:
  assumes "session_ok s"
  shows "signalingActive s \<longleftrightarrow> (\<exists>i. participantExists s i \<and> signalingState (participant s i) \<noteq> stable)"
  using participants_iff [OF session_okD(2) [OF assms]] by (fastforce simp: signalingActive_def list_ex_iff)

lemma in_state_ids:
  assumes "session_ok s"
  shows "particpantsInState s st = map fst (filter (\<lambda>(_, p). signalingState p = st) (participants s))"
proof -
  have "p_id p = i" if "(i, p) \<in> set (participants s)" for i p
    using that participants_iff [OF session_okD(2) [OF assms], of i p] session_okD(3) [OF assms, of i] by simp
  then show ?thesis unfolding particpantsInState_def by (intro map_cong) auto
qed

lemma in_state_iff:
  assumes "session_ok s"
  shows "i \<in> set (particpantsInState s st) \<longleftrightarrow> participantExists s i \<and> signalingState (participant s i) = st"
proof -
  have "i \<in> set (particpantsInState s st) \<longleftrightarrow> (\<exists>p. (i, p) \<in> set (participants s) \<and> signalingState p = st)"
    by (auto simp: in_state_ids [OF assms] image_iff)
  then show ?thesis using participants_iff [OF session_okD(2) [OF assms]] by auto
qed

lemma in_state_distinct:
  assumes "session_ok s"
  shows "distinct (particpantsInState s st)"
  unfolding in_state_ids [OF assms] using omap_inv_distinct [OF session_okD(2) [OF assms]] distinct_map_filter by blast

lemma participantInState_offer:
  assumes "session_ok s"
  shows "participantInState s gotOffer = Inr j \<longleftrightarrow> offering s j"
proof
  assume "participantInState s gotOffer = Inr j"
  then have "j \<in> set (particpantsInState s gotOffer)" by (auto simp: participantInState_def split: list.splits)
  then show "offering s j" using in_state_iff [OF assms] by (simp add: offering_def)
next
  assume j: "offering s j"
  then have "set (particpantsInState s gotOffer) = {j}"
    using in_state_iff [OF assms] session_okD(5) [OF assms] by (auto simp: offering_def)
  then have "particpantsInState s gotOffer = [j]"
    using in_state_distinct [OF assms, of gotOffer] by (cases "particpantsInState s gotOffer" rule: remdups_adj.cases) auto
  then show "participantInState s gotOffer = Inr j" by (simp add: participantInState_def)
qed

section \<open>Preservation\<close>

lemma session_ok_upd:
  assumes "session_ok s" "participantExists s i" "p_id (f (participant s i)) = i" "participant_ok (s_config s) (f (participant s i))"
    and "signalingState (f (participant s i)) = gotOffer \<Longrightarrow> \<forall>j. offering s j \<longrightarrow> j = i"
  shows "session_ok (upd_participant i f s)"
proof (rule session_okI)
  have o: "offering (upd_participant i f s) j \<longleftrightarrow> (if j = i then signalingState (f (participant s i)) = gotOffer else offering s j)" for j
    using assms(2) by (auto simp: offering_def)
  show "j = k" if "offering (upd_participant i f s) j" "offering (upd_participant i f s) k" for j k
  proof (cases "j = i \<or> k = i")
    case True
    then have "signalingState (f (participant s i)) = gotOffer" using that o by auto
    from assms(5) [OF this] show ?thesis using that True unfolding o by metis
  next
    case False
    then show ?thesis using that session_okD(5) [OF assms(1), of j k] by (simp add: o)
  qed
  show "omap_inv (participants (upd_participant i f s))"
    using session_okD(2) [OF assms(1)] by (simp add: upd_participant_def omap_inv_put)
qed (use assms session_okD(1,3,4) [OF assms(1)] in auto)

lemma participant_ok_state [simp]: "participant_ok cfg (set_state st p) \<longleftrightarrow> participant_ok cfg p"
  by (simp add: participant_ok_def outgoingStreams_def)

lemma participant_ok_offer:
  assumes "participant_ok cfg p" "list_all (send_ok cfg) sts" "distinct (mids_of (outgoingStreams p) @ mids_of sts)"
  shows "participant_ok cfg (offer_effect sdp sts p)"
  using assms by (simp add: participant_ok_def offer_effect_def outgoingStreams_def)

lemma receiver_ok: "participant_ok cfg p \<Longrightarrow> list_all (recv_ok cfg) (streams (receiver p k)) \<and> distinct (mids_of (streams (receiver p k)))"
  by (force simp: participant_ok_def receiver_def Transceiver_default_def dest: map_of_SomeD split: option.splits)

lemma set_omap_put: "omap_inv m \<Longrightarrow> set (omap_put k v m) = insert (k, v) {x \<in> set m. fst x \<noteq> k}"
  by (induction k v m rule: omap_put.induct) (force simp: omap_inv_def)+

lemma participant_ok_receiver:
  assumes "participant_ok cfg p" "list_all (recv_ok cfg) (streams (f (receiver p k)))" "distinct (mids_of (streams (f (receiver p k))))"
  shows "participant_ok cfg (upd_receiver k f p)"
  using assms by (auto simp: participant_ok_def outgoingStreams_def upd_receiver_def omap_inv_put set_omap_put)

lemma answer_streams_ok:
  assumes "list_all (send_ok cfg) out"
  shows "answer_streams cfg out known mids mds = Inr sts \<Longrightarrow> distinct mids \<Longrightarrow> list_all (recv_ok cfg) sts \<and> distinct (mids @ mids_of sts)"
proof (induction mds arbitrary: mids sts)
  case (Cons m mds)
  from Cons.prems(1) obtain x o' sd m' st where x: "mid m = Some x" "find (\<lambda>s. mid (description s) = Some x) out = Some o'"
      "ssrcDescription (description o') = Some sd" "with_candidate known m = Inr m'" "Stream_of m' cfg sd = Inr st"
      and rest: "(if x \<in> set mids then answer_streams cfg out known mids mds
        else rbind (answer_streams cfg out known (mids @ [x]) mds) (\<lambda>sts. Inr (st # sts))) = Inr sts"
    by (auto simp: rbind_Inr_iff split: option.splits)
  have "o' \<in> set out" using x(2) by (auto simp: find_Some_iff)
  then have "ssrcs sd \<noteq> []" using assms x(3) send_okD(3) by (fastforce simp: list_all_iff)
  moreover have "description st = m'" "mid m' = Some x" using Stream_of_description [OF x(5)] with_candidate_mid [OF x(4)] x(1) by auto
  ultimately have st: "recv_ok cfg st" "mids_of [st] = [x]" using x(5) by (auto simp: recv_ok_def)
  show ?case
  proof (cases "x \<in> set mids")
    case False
    then obtain sts' where "answer_streams cfg out known (mids @ [x]) mds = Inr sts'" "sts = st # sts'"
      using rest by (auto simp: rbind_Inr_iff)
    then show ?thesis using Cons.IH [of "mids @ [x]" sts'] Cons.prems(2) False st by auto
  qed (use Cons rest in simp)
qed simp

lemma offer_keeps:
  assumes "session_ok s" "participantExists s i" "\<not> signalingActive s" "offer_new s i sdp = Inr sts"
  shows "session_ok (upd_participant i (offer_effect sdp sts) s)"
proof (rule session_ok_upd [OF assms(1,2)])
  show "p_id (offer_effect sdp sts (participant s i)) = i" using session_okD(3) [OF assms(1,2)] by (simp add: offer_effect_def)
  have p: "participant_ok (s_config s) (participant s i)" using session_okD(4) [OF assms(1,2)] .
  then have "distinct (mids_of (outgoingStreams (participant s i)))" by (simp add: participant_ok_def)
  from offer_streams_mids [OF assms(4) [unfolded offer_new_def] this]
  show "participant_ok (s_config s) (offer_effect sdp sts (participant s i))"
    using participant_ok_offer [OF p] by (simp add: list_all_iff send_ok_def)
  show "\<forall>j. offering s j \<longrightarrow> j = i" using assms(1,3) by (auto simp: signalingActive_iff offering_def)
qed

lemma answer_keeps:
  assumes "session_ok s" "participantExists s i" "offering s j" "answer_new s j i sdp = Inr sts"
  shows "session_ok (upd_participant i (answer_effect j sdp sts) s)"
proof (rule session_ok_upd [OF assms(1,2)])
  show "p_id (answer_effect j sdp sts (participant s i)) = i" using session_okD(3) [OF assms(1,2)] by (simp add: answer_effect_def)
  have p: "participant_ok (s_config s) (participant s i)" using session_okD(4) [OF assms(1,2)] .
  have "list_all (send_ok (s_config s)) (outgoingStreams (participant s j))"
    using session_okD(4) [OF assms(1)] assms(3) by (auto simp: offering_def participant_ok_def)
  then have "list_all (recv_ok (s_config s)) sts \<and> distinct (mids_of (streams (receiver (participant s i) j)) @ mids_of sts)"
    using answer_streams_ok [OF _ assms(4) [unfolded answer_new_def]] receiver_ok [OF p] by blast
  then show "participant_ok (s_config s) (answer_effect j sdp sts (participant s i))"
    using participant_ok_receiver [OF p] receiver_ok [OF p, of j] p by (simp add: answer_effect_def)
qed (simp add: answer_effect_def)

lemma state_keeps:
  assumes "session_ok s" "participantExists s i" "st \<noteq> gotOffer"
  shows "session_ok (upd_participant i (set_state st) s)"
  using assms session_okD(3,4) [OF assms(1,2)] by (intro session_ok_upd) auto

lemma getOffer_keeps: "session_ok s \<Longrightarrow> session_ok (snd (getOffer i s))"
  using state_keeps [of s i awaitAnswer] by (simp add: getOffer_def pure_def Let_def)

lemma getAnswer_keeps: "session_ok s \<Longrightarrow> session_ok (snd (getAnswer i s))"
  using state_keeps [of s i stable]
  by (cases "rmap (answered (s_config s)) (outgoingStreams (participant s i))") (simp_all add: getAnswer_def pure_def Let_def)

lemma removeParticipant_keeps:
  assumes "session_ok s"
  shows "session_ok (snd (removeParticipant i s))"
proof (cases "participantExists s i")
  case True
  let ?s = "s\<lparr> participants := assoc_del i (participants s) \<rparr>"
  have m: "map_of (assoc_del i (participants s)) = (map_of (participants s))(i := None)"
    using omap_inv_distinct [OF session_okD(2) [OF assms]] by (rule map_of_assoc_del)
  have "participantExists ?s j \<longleftrightarrow> j \<noteq> i \<and> participantExists s j" "j \<noteq> i \<Longrightarrow> participant ?s j = participant s j" for j
    by (simp_all add: participantExists_def participant_def m)
  moreover have "omap_inv (participants ?s)" using session_okD(2) [OF assms] by (simp add: omap_inv_del)
  ultimately have "session_ok ?s" using assms by (auto simp: session_ok_def offering_def)
  then show ?thesis using True by (simp add: removeParticipant_def)
qed (use assms in \<open>simp add: removeParticipant_def\<close>)

lemma addParticipant_keeps:
  assumes "session_ok s"
  shows "session_ok (snd (addParticipant a q s))"
proof (cases "fst (addParticipant a q s)")
  case (Inl e)
  then have "snd (addParticipant a q s) = s \<or> snd (addParticipant a q s) = s\<lparr> nextParticipantId := nextParticipantId s + 1 \<rparr>"
    by (auto simp: addParticipant_def Let_def split: if_splits)
  moreover have "session_ok (s\<lparr> nextParticipantId := n \<rparr>)" for n
    using assms by (simp add: session_ok_def offering_def participantExists_def participant_def)
  ultimately show ?thesis using assms by metis
next
  case (Inr i)
  let ?p = "Participant_default\<lparr> p_id := i, controlIp := a, controlPort := Some q \<rparr>"
  let ?s = "s\<lparr> nextParticipantId := i, participants := omap_put i ?p (participants s) \<rparr>"
  have s: "snd (addParticipant a q s) = ?s" "\<not> participantExists s i"
    using Inr by (auto simp: addParticipant_def Let_def participantExists_def split: if_splits)
  have "participantExists ?s j \<longleftrightarrow> j = i \<or> participantExists s j" "participant ?s j = (if j = i then ?p else participant s j)" for j
    by (simp_all add: participantExists_def participant_def)
  moreover have "participant_ok (s_config s) ?p"
    by (simp add: participant_ok_def outgoingStreams_def Participant_default_def Transceiver_default_def omap_inv_nil)
  moreover have "omap_inv (participants ?s)" using session_okD(2) [OF assms] by (simp add: omap_inv_put)
  moreover have "p_id ?p = i" "signalingState ?p = stable" by (simp_all add: Participant_default_def)
  ultimately have "session_ok ?s" using assms s(2) by (auto simp: session_ok_def offering_def)
  then show ?thesis by (simp add: s(1))
qed

lemma session_ok_new: "session_ok ((Session_of i cfg)\<lparr> s_onNewStream := True \<rparr>)"
  by (simp add: session_ok_def Session_of_def participantExists_def offering_def omap_inv_nil)

end
