(* ===== verification/Controller_Inv.thy ===== *)
theory Controller_Inv
  imports Controller_Interface Session_Inv
begin

text \<open>
  The controller as the owner of its sessions, and the invariant of the running program: whatever
  clients, switches and API users send, every session satisfies \<open>session_ok\<close>.
\<close>

section \<open>The controller takes new streams\<close>

definition stream_text :: "'j json_api \<Rightarrow> u32 \<Rightarrow> u32 \<Rightarrow> Stream \<Rightarrow> string" where
  "stream_text J sid pid st =
     (case json_AddStream J (config_message sid pid (dataPlaneConfig st)) of Inr t \<Rightarrow> t | Inl _ \<Rightarrow> [])"

definition has_switch :: "controller \<Rightarrow> bool" where
  "has_switch c \<longleftrightarrow> is_ok (switches_get c 0)"

definition the_switch :: "controller \<Rightarrow> nat" where
  "the_switch c = (case switches_get c 0 of Inr n \<Rightarrow> n | Inl _ \<Rightarrow> 0)"

definition announce :: "'j json_api \<Rightarrow> u32 \<Rightarrow> u32 \<Rightarrow> Stream \<Rightarrow> controller \<Rightarrow> controller" where
  "announce J sid pid st c = write_switch (the_switch c) (stream_text J sid pid st) c"

lemma json_config_message: "json_AddStream J (config_message sid pid (dataPlaneConfig st)) = Inr (stream_text J sid pid st)"
  by (cases "dataPlaneConfig st") (simp_all add: stream_text_def config_message_def stream_message_def json_AddStream_def)

lemma write_fields [simp]:
  "switches_get (c\<lparr> c_sent := l \<rparr>) i = switches_get c i" "clients_get (c\<lparr> c_sent := l \<rparr>) sid pid = clients_get c sid pid"
  "client_meta (c\<lparr> c_sent := l \<rparr>) n = client_meta c n" "client_remote (c\<lparr> c_sent := l \<rparr>) n = client_remote c n"
  "switches_get (c\<lparr> c_sessions := m \<rparr>) i = switches_get c i" "clients_get (c\<lparr> c_sessions := m \<rparr>) sid pid = clients_get c sid pid"
  "client_meta (c\<lparr> c_sessions := m \<rparr>) n = client_meta c n" "client_remote (c\<lparr> c_sessions := m \<rparr>) n = client_remote c n"
  by (simp_all add: switches_get_def connectionById_def switch_meta_def clients_get_def client_meta_def client_remote_def)

interpretation ctl: stream_sink "onNewStream J" has_switch "announce J" for J
proof (unfold_locales, goal_cases)
  case (1 w st s i)
  then obtain n where "switches_get w 0 = Inr n" by (auto simp: has_switch_def is_ok_iff)
  then show ?case
    using 1 by (auto simp: onNewStream_def pure_def sw_addStream_def json_config_message announce_def the_switch_def)
next
  case (2 w n i st)
  then show ?case by (simp add: announce_def write_switch_def has_switch_def)
next
  case (3 w st s i)
  then obtain e where "switches_get w 0 = Inl e" by (cases "switches_get w 0") (auto simp: has_switch_def)
  then show ?case using 3 by (simp add: onNewStream_def pure_def)
qed

lemma announce_fields [simp]:
  "c_sessions (announce J sid pid st c) = c_sessions c" "c_config (announce J sid pid st c) = c_config c"
  "c_clients (announce J sid pid st c) = c_clients c" "c_clientConns (announce J sid pid st c) = c_clientConns c"
  "c_switches (announce J sid pid st c) = c_switches c" "c_switchConns (announce J sid pid st c) = c_switchConns c"
  by (simp_all add: announce_def write_switch_def)

lemma announce_all:
  "fold (announce J sid pid) sts c = c\<lparr> c_sent := c_sent c @ map (\<lambda>st. To_switch (the_switch c) (stream_text J sid pid st)) sts \<rparr>"
  by (induction sts arbitrary: c) (simp_all add: announce_def write_switch_def the_switch_def)

section \<open>The invariant\<close>

definition sessions_ok :: "SFUConfig \<Rightarrow> SessionManager \<Rightarrow> bool" where
  "sessions_ok cfg m \<longleftrightarrow> omap_inv m \<and> (\<forall>i s. map_of m i = Some s \<longrightarrow> s_id s = i \<and> s_config s = cfg \<and> session_ok s)"

definition ctl_ok :: "controller \<Rightarrow> bool" where
  "ctl_ok c \<longleftrightarrow> sessions_ok (c_config c) (c_sessions c) \<and> mediaDescriptions (sessionTemplate (c_config c)) = []"

lemma sessions_ok_put:
  "sessions_ok cfg m \<Longrightarrow> s_id s = i \<Longrightarrow> s_config s = cfg \<Longrightarrow> session_ok s \<Longrightarrow> sessions_ok cfg (omap_put i s m)"
  by (simp add: sessions_ok_def omap_inv_put)

lemma ctl_okD:
  assumes "ctl_ok c" "map_of (c_sessions c) i = Some s"
  shows "s_id s = i" "s_config s = c_config c" "session_ok s"
  using assms by (auto simp: ctl_ok_def sessions_ok_def)

text \<open>Calls on one session; the session's identity and configuration never change.\<close>

lemma session_frame:
  "s_id (snd (addParticipant a q s)) = s_id s \<and> s_config (snd (addParticipant a q s)) = s_config s"
  "s_id (snd (removeParticipant i s)) = s_id s \<and> s_config (snd (removeParticipant i s)) = s_config s"
  "s_id (snd (getOffer i s)) = s_id s \<and> s_config (snd (getOffer i s)) = s_config s"
  "s_id (snd (getAnswer i s)) = s_id s \<and> s_config (snd (getAnswer i s)) = s_config s"
  by (auto simp: addParticipant_def removeParticipant_def getOffer_def getAnswer_def pure_def Let_def sbind_def split: sum.splits)

lemma on_session_ok:
  assumes "ctl_ok c" "\<And>s. session_ok s \<Longrightarrow> session_ok (snd (f s))" "\<And>s. s_id (snd (f s)) = s_id s \<and> s_config (snd (f s)) = s_config s"
    and "on_session sid f c = (r, c')"
  shows "ctl_ok c' \<and> c_config c' = c_config c"
proof (cases "map_of (c_sessions c) sid")
  case None
  then show ?thesis using assms(1,4) by (auto simp: on_session_def with_session_def session_get_def)
next
  case (Some s)
  then have "c' = c\<lparr> c_sessions := omap_put sid (snd (f s)) (c_sessions c) \<rparr>"
    using assms(4) by (auto simp: on_session_def with_session_def session_get_def split: prod.splits)
  then show ?thesis
    using assms(1) assms(2) [of s] assms(3) [of s] ctl_okD [OF assms(1) Some] by (auto simp: ctl_ok_def intro: sessions_ok_put)
qed

lemma with_offer_ok:
  assumes "ctl_ok c" "with_session sid (addOffer (onNewStream J) i sdp) c = (Inr (), c')"
  shows "ctl_ok c' \<and> c_config c' = c_config c"
proof -
  obtain s sw where s: "map_of (c_sessions c) sid = Some s" "addOffer (onNewStream J) i sdp (s, c) = (Inr (), sw)"
      "c' = (snd sw)\<lparr> c_sessions := omap_put sid (fst sw) (c_sessions (snd sw)) \<rparr>"
    using assms(2) by (auto simp: with_session_def session_get_def split: option.splits prod.splits)
  note ok = ctl_okD [OF assms(1) s(1)]
  then obtain sts where "sw = (upd_participant i (offer_effect sdp sts) s, fold (announce J (s_id s) i) sts c)"
      "session_ok (upd_participant i (offer_effect sdp sts) s)"
    using s(2) offer_keeps [OF ok(3)] unfolding ctl.addOffer_Inr [OF session_okD(1) [OF ok(3)]] by auto
  then show ?thesis using s(3) ok assms(1) by (auto simp: announce_all ctl_ok_def intro: sessions_ok_put)
qed

lemma with_answer_ok:
  assumes "ctl_ok c" "map_of (c_sessions c) sid = Some s" "participantExists s i"
    and "with_session sid (addAnswer (onNewStream J) i sdp) c = (Inr (), c')"
  shows "ctl_ok c' \<and> c_config c' = c_config c"
proof -
  obtain sw where sw: "addAnswer (onNewStream J) i sdp (s, c) = (Inr (), sw)"
      "c' = (snd sw)\<lparr> c_sessions := omap_put sid (fst sw) (c_sessions (snd sw)) \<rparr>"
    using assms(2,4) by (auto simp: with_session_def session_get_def split: option.splits prod.splits)
  note ok = ctl_okD [OF assms(1,2)]
  note spec = ctl.addAnswer_Inr [OF session_okD(1,2) [OF ok(3)] assms(3) session_okD(6) [OF ok(3)]]
  obtain j sts where "offering s j" "answer_new s j i sdp = Inr sts"
      and "sw = (upd_participant i (answer_effect j sdp sts) s, fold (announce J (s_id s) i) sts c)"
    using sw(1) unfolding spec participantInState_offer [OF ok(3)] by blast
  then show ?thesis
    using sw(2) ok assms(1) answer_keeps [OF ok(3) assms(3)] by (auto simp: announce_all ctl_ok_def intro: sessions_ok_put)
qed

section \<open>Every handler keeps it\<close>

lemma ctl_ok_fields [simp]:
  "ctl_ok (c\<lparr> c_sent := a \<rparr>) = ctl_ok c" "ctl_ok (c\<lparr> c_clients := b \<rparr>) = ctl_ok c" "ctl_ok (c\<lparr> c_clientConns := d \<rparr>) = ctl_ok c"
  "ctl_ok (c\<lparr> c_switches := e \<rparr>) = ctl_ok c" "ctl_ok (c\<lparr> c_switchConns := g \<rparr>) = ctl_ok c"
  by (simp_all add: ctl_ok_def)

lemma ctl_ok_writes [simp]:
  "ctl_ok (sendHello J n c) = ctl_ok c" "ctl_ok (set_client_meta n m c) = ctl_ok c" "ctl_ok (sw_addParticipant J k sid pid a c) = ctl_ok c"
  "ctl_ok (sw_sendHello J n c) = ctl_ok c"
  by (simp_all add: sendHello_def set_client_meta_def sw_addParticipant_def sw_sendHello_def write_client_def write_switch_def Let_def)

lemma send_ok_ctl:
  "sendOffer J n sdp i c = (Inr (), c') \<Longrightarrow> ctl_ok c \<Longrightarrow> ctl_ok c'" "sendAnswer J n sdp i c = (Inr (), c') \<Longrightarrow> ctl_ok c \<Longrightarrow> ctl_ok c'"
  by (auto simp: sendOffer_def sendAnswer_def sbind_pure_Inr_iff write_client_def)

lemma on_session_keeps:
  assumes "ctl_ok c"
  shows "on_session sid (addParticipant a q) c = (r, c') \<Longrightarrow> ctl_ok c'" "on_session sid (removeParticipant i) c = (u, c') \<Longrightarrow> ctl_ok c'"
    "on_session sid (getOffer i) c = (r', c') \<Longrightarrow> ctl_ok c'" "on_session sid (getAnswer i) c = (r', c') \<Longrightarrow> ctl_ok c'"
proof -
  show "ctl_ok c'" if "on_session sid (addParticipant a q) c = (r, c')"
    by (rule on_session_ok [OF assms _ _ that, THEN conjunct1]) (simp_all add: addParticipant_keeps session_frame)
  show "ctl_ok c'" if "on_session sid (removeParticipant i) c = (u, c')"
    by (rule on_session_ok [OF assms _ _ that, THEN conjunct1]) (simp_all add: removeParticipant_keeps session_frame)
  show "ctl_ok c'" if "on_session sid (getOffer i) c = (r', c')"
    by (rule on_session_ok [OF assms _ _ that, THEN conjunct1]) (simp_all add: getOffer_keeps session_frame)
  show "ctl_ok c'" if "on_session sid (getAnswer i) c = (r', c')"
    by (rule on_session_ok [OF assms _ _ that, THEN conjunct1]) (simp_all add: getAnswer_keeps session_frame)
qed

lemma add_session_keeps:
  assumes "add_session sid c = (Inr (), c')" "ctl_ok c"
  shows "ctl_ok c'"
  using assms session_ok_new [of sid "c_config c"]
  by (auto simp: add_session_def session_add_def ctl_ok_def Session_of_def intro!: sessions_ok_put split: if_splits)

lemma offer_existing_keeps: "offer_existing J n sid pid c = (Inr (), c') \<Longrightarrow> ctl_ok c \<Longrightarrow> ctl_ok c'"
  by (auto simp: offer_existing_def sbind_Inr_iff pure_def split: if_splits dest: on_session_keeps(3) send_ok_ctl(1))

lemma join_session_keeps:
  assumes "join_session J n sid c = (Inr (), c')" "ctl_ok c"
  shows "ctl_ok c'"
  using assms on_session_keeps(1) [OF assms(2)] offer_existing_keeps
  by (fastforce simp: join_session_def sbind_Inr_iff pure_def Let_def split: if_splits)

lemma onNewParticipant_keeps: "onNewParticipant J n m c = (Inr (), c') \<Longrightarrow> ctl_ok c \<Longrightarrow> ctl_ok c'"
  by (auto simp: onNewParticipant_def sbind_Inr_iff pure_def dest: add_session_keeps join_session_keeps)

lemma forward_offers_keeps:
  "forward_offers J sid pid is c = (Inr (), c') \<Longrightarrow> ctl_ok c \<Longrightarrow> ctl_ok c'"
proof (induction "is" arbitrary: c)
  case (Cons i "is")
  then show ?case
    by (auto simp: sbind_Inr_iff pure_def split: if_splits dest: on_session_keeps(3) send_ok_ctl(1))
qed simp

lemma onClientOffer_keeps: "onClientOffer J n m c = (Inr (), c') \<Longrightarrow> ctl_ok c \<Longrightarrow> ctl_ok c'"
  by (auto simp: onClientOffer_def sbind_Inr_iff pure_def Let_def split: if_splits
      dest: with_offer_ok forward_offers_keeps on_session_keeps(4) send_ok_ctl(2))

lemma onClientAnswer_keeps:
  assumes "onClientAnswer J n m c = (Inr (), c')" "ctl_ok c"
  shows "ctl_ok c'"
proof (cases "known_participant c n")
  case None
  then show ?thesis using assms by (simp add: onClientAnswer_def)
next
  case (Some s)
  then have "map_of (c_sessions c) (cm_sessionId (client_meta c n)) = Some s" "participantExists s (cm_participantId (client_meta c n))"
    by (auto simp: known_participant_def split: option.splits if_splits)
  note step = with_answer_ok [OF assms(2) this]
  show ?thesis
    using assms Some
    by (auto simp: onClientAnswer_def sbind_Inr_iff pure_def Let_def split: if_splits dest: step on_session_keeps(4) send_ok_ctl(2))
qed

lemma onClientClose_keeps: "onClientClose m c = (Inr (), c') \<Longrightarrow> ctl_ok c \<Longrightarrow> ctl_ok c'"
  by (auto simp: onClientClose_def split: option.splits if_splits dest: on_session_keeps(2))

lemma client_message_keeps: "ci_onClientMessage J n buf c = (Inr (), c') \<Longrightarrow> ctl_ok c \<Longrightarrow> ctl_ok c'"
  by (auto simp: ci_onClientMessage_def ci_onClientHello_def ci_onClientOffer_def ci_onClientAnswer_def onClientHello_def
      sbind_Inr_iff pure_def split: option.splits if_splits
      dest: onNewParticipant_keeps onClientOffer_keeps onClientAnswer_keeps)

lemma switch_message_keeps: "si_onSwitchMessage J n buf c = (Inr (), c') \<Longrightarrow> ctl_ok c \<Longrightarrow> ctl_ok c'"
  by (auto simp: si_onSwitchMessage_def si_onSwitchHello_def onNewSwitch_def sbind_Inr_iff pure_def split: option.splits if_splits)

lemma handle_keeps: "handle J e c = (Inr (), c') \<Longrightarrow> ctl_ok c \<Longrightarrow> ctl_ok c'"
  by (cases e)
    (auto simp: ci_onClientOpen_def ci_onClientClose_def si_onSwitchOpen_def si_onSwitchClose_def onSwitchClose_def switches_remove_def Let_def
      split: if_splits option.splits dest: client_message_keeps switch_message_keeps onClientClose_keeps)

lemma running_ok: "running J c \<Longrightarrow> ctl_ok c"
proof (induction rule: running.induct)
  case (start a q l k c)
  then show ?case
    by (auto simp: Controller_of_def rbind_Inr_iff ctl_ok_def sessions_ok_def omap_inv_nil SFUConfig_of_def SessionDescription_default_def
        SessionDescription_empty_def)
qed (rule handle_keeps)

end
