(* ===== verification/Signaling.thy ===== *)
theory Signaling
  imports Controller_Inv
begin

text \<open>
  The negotiation of streams through the controller: what participants are told about each other, how a
  negotiation runs from an offer over the answers of the others to the answer for the first, and
  what a new participant meets.
\<close>

section \<open>Views of the controller's state\<close>

definition put_session :: "u32 \<Rightarrow> Session \<Rightarrow> controller \<Rightarrow> controller" where
  "put_session sid s c = c\<lparr> c_sessions := omap_put sid s (c_sessions c) \<rparr>"

definition says :: "sent list \<Rightarrow> controller \<Rightarrow> controller" where
  "says l c = c\<lparr> c_sent := c_sent c @ l \<rparr>"

lemma put_session_simps [simp]:
  "map_of (c_sessions (put_session sid s c)) sid = Some s" "put_session sid s' (put_session sid s c) = put_session sid s' c"
  "says l (put_session sid s c) = put_session sid s (says l c)" "says l' (says l c) = says (l @ l') c"
  "c_sessions (says l c) = c_sessions c" "client_meta (put_session sid s c) n = client_meta c n" "client_meta (says l c) n = client_meta c n"
  "clients_get (put_session sid s c) a b = clients_get c a b" "clients_get (says l c) a b = clients_get c a b"
  "switches_get (put_session sid s c) x = switches_get c x" "switches_get (says l c) x = switches_get c x"
  by (simp_all add: put_session_def says_def)

lemma switch_views [simp]:
  "has_switch (put_session sid s c) = has_switch c" "has_switch (says l c) = has_switch c"
  "the_switch (put_session sid s c) = the_switch c" "the_switch (says l c) = the_switch c"
  by (simp_all add: has_switch_def the_switch_def)

lemma on_session_eq:
  assumes "map_of (c_sessions c) sid = Some s"
  shows "on_session sid f c = (fst (f s), put_session sid (snd (f s)) c)"
  using assms by (simp add: on_session_def with_session_def session_get_def put_session_def split: prod.splits)

lemma with_session_eq:
  assumes "map_of (c_sessions c) sid = Some s" "f (s, c) = (r, (s', c'))" "c_sessions c' = c_sessions c"
  shows "with_session sid f c = (r, put_session sid s' c')"
  using assms by (simp add: with_session_def session_get_def put_session_def)

lemma session_get_eq: "map_of (c_sessions c) sid = Some s \<Longrightarrow> session_get (c_sessions c) sid = Inr s"
  by (simp add: session_get_def)

lemma clients_get_meta:
  assumes "clients_get c sid i = Inr n"
  shows "cm_sessionId (client_meta c n) = sid \<and> cm_participantId (client_meta c n) = i"
  using assms by (auto simp: clients_get_def find_Some_iff split: option.splits)

lemma omap_keys_put: "omap_inv m \<Longrightarrow> map_of m k = Some v \<Longrightarrow> map fst (omap_put k w m) = map fst m"
  by (induction m) (fastforce simp: omap_inv_def dest: map_of_SomeD)+

section \<open>What participants are told\<close>

definition offer_sdp :: "Session \<Rightarrow> u32 \<Rightarrow> SessionDescription result" where
  "offer_sdp s j =
     rbind (rmap (offered (s_config s)) (outgoingStreams (participant s j))) (\<lambda>mds.
       Inr ((sessionTemplate (s_config s))\<lparr> mediaDescriptions := mediaDescriptions (sessionTemplate (s_config s)) @ mds \<rparr>))"

definition answer_sdp :: "Session \<Rightarrow> u32 \<Rightarrow> SessionDescription result" where
  "answer_sdp s j =
     rbind (rmap (answered (s_config s)) (outgoingStreams (participant s j))) (\<lambda>mds.
       let t = sessionTemplate (s_config s) in
       Inr (t\<lparr> origin := (origin t)\<lparr> o_sessionId := ucast (s_id s) \<rparr>, mediaDescriptions := mediaDescriptions t @ mds \<rparr>))"

lemma getOffer_eq:
  assumes "session_ok s" "offering s j" "participantExists s i" "i \<noteq> j"
  shows "getOffer i s = (offer_sdp s j, upd_participant i (set_state awaitAnswer) s)"
proof -
  let ?s = "upd_participant i (set_state awaitAnswer) s"
  have "session_ok ?s" using state_keeps [OF assms(1,3)] by simp
  moreover have "offering ?s j" using assms(2,4) by (simp add: offering_def)
  ultimately have "participantInState ?s gotOffer = Inr j" by (simp add: participantInState_offer)
  moreover have "getParticipant ?s j = Inr (participant s j)"
    using \<open>offering ?s j\<close> assms(4) participant_exists [of ?s j] by (simp add: getParticipant_def offering_def)
  ultimately show ?thesis using assms(3) by (simp add: getOffer_def pure_def Let_def offer_sdp_def)
qed

lemma getAnswer_eq:
  assumes "offering s j" "answer_sdp s j = Inr d"
  shows "getAnswer j s = (Inr d, upd_participant j (set_state stable) s)"
  using assms by (auto simp: getAnswer_def offering_def answer_sdp_def pure_def Let_def rbind_Inr_iff)

lemma rmap_Inr: "rmap f xs = Inr ys \<longleftrightarrow> list_all2 (\<lambda>x y. f x = Inr y) xs ys"
  by (induction xs arbitrary: ys) (auto simp: rbind_Inr_iff list_all2_Cons1)

lemma rmap_total: "(\<And>x. x \<in> set xs \<Longrightarrow> \<exists>y. f x = Inr y \<and> P y) \<Longrightarrow> \<exists>ys. rmap f xs = Inr ys \<and> list_all P ys"
  by (induction xs) fastforce+

lemma supported_fields [simp]:
  "mid (supported cfg t m) = mid m" "md_type (supported cfg t m) = md_type m" "direction (supported cfg t m) = direction m"
  "iceCandidates (supported cfg t m) = iceCandidates m" "iceUfrag (supported cfg t m) = iceUfrag m" "icePwd (supported cfg t m) = icePwd m"
  "md_port (supported cfg t m) = md_port m" "connectionData (supported cfg t m) = connectionData m"
  "ssrcDescription (supported cfg t m) = ssrcDescription m" "md_msid (supported cfg t m) = md_msid m"
  by (cases t; simp add: supported_def)+

lemma bundle_total: "list_all (\<lambda>m. mid m \<noteq> None) mds \<Longrightarrow> \<exists>b. bundle_mids mds = Inr b"
  by (induction mds) auto

lemma media_total: "list_all (\<lambda>m. md_type m \<noteq> None) mds \<Longrightarrow> \<exists>l. media_lines mds = Inr l"
  by (induction mds) (auto simp: MediaDescription_lines_def)

lemma escaped_total:
  assumes "list_all (\<lambda>m. mid m \<noteq> None \<and> md_type m \<noteq> None) (mediaDescriptions d)"
  shows "\<exists>t. escapedString d = Inr t"
proof -
  obtain b l where "bundle_mids (mediaDescriptions d) = Inr b" "media_lines (mediaDescriptions d) = Inr l"
    using assms bundle_total [of "mediaDescriptions d"] media_total [of "mediaDescriptions d"] by (auto simp: list_all_iff)
  then show ?thesis by (simp add: escapedString_def SessionDescription_lines_def)
qed

lemma told_total:
  assumes "list_all (send_ok (s_config s)) (outgoingStreams (participant s j))" "mediaDescriptions (sessionTemplate (s_config s)) = []"
    and "\<forall>st \<in> set (outgoingStreams (participant s j)). connectionData (description st) \<noteq> None"
  shows "\<exists>d t. offer_sdp s j = Inr d \<and> escapedString d = Inr t" "\<exists>d t. answer_sdp s j = Inr d \<and> escapedString d = Inr t"
proof -
  let ?P = "\<lambda>m. mid m \<noteq> None \<and> md_type m \<noteq> None"
  have st: "send_ok (s_config s) st \<and> (\<exists>c. connectionData (description st) = Some c)" if "st \<in> set (outgoingStreams (participant s j))" for st
    using assms(1,3) that by (auto simp: list_all_iff)
  have "\<exists>m. offered (s_config s) st = Inr m \<and> ?P m" "\<exists>m. answered (s_config s) st = Inr m \<and> ?P m"
    if "st \<in> set (outgoingStreams (participant s j))" for st
    using st [OF that] send_okD(4,5) by (fastforce simp: offered_def answered_def stream_offer_def)+
  from rmap_total [OF this(1)] rmap_total [OF this(2)]
  show "\<exists>d t. offer_sdp s j = Inr d \<and> escapedString d = Inr t" "\<exists>d t. answer_sdp s j = Inr d \<and> escapedString d = Inr t"
    using escaped_total assms(2) by (fastforce simp: offer_sdp_def answer_sdp_def Let_def)+
qed

section \<open>The course of a negotiation\<close>

text \<open>Participant \<open>j\<close> has made an offer and the participants \<open>W\<close> still owe an answer.\<close>

definition negotiating :: "Session \<Rightarrow> u32 \<Rightarrow> u32 set \<Rightarrow> bool" where
  "negotiating s j W \<longleftrightarrow>
     session_ok s \<and> offering s j \<and> j \<notin> W \<and> (\<forall>i \<in> W. participantExists s i) \<and>
     (\<forall>i. participantExists s i \<and> i \<noteq> j \<longrightarrow> signalingState (participant s i) = (if i \<in> W then awaitAnswer else stable))"

lemma negotiatingD:
  assumes "negotiating s j W"
  shows "session_ok s" "offering s j" "j \<notin> W" "i \<in> W \<Longrightarrow> participantExists s i \<and> signalingState (participant s i) = awaitAnswer"
    "participantExists s i \<Longrightarrow> i \<noteq> j \<Longrightarrow> i \<notin> W \<Longrightarrow> signalingState (participant s i) = stable"
  using assms by (auto simp: negotiating_def)

definition to_switch :: "'j json_api \<Rightarrow> controller \<Rightarrow> u32 \<Rightarrow> u32 \<Rightarrow> Stream list \<Rightarrow> sent list" where
  "to_switch J c sid i sts = map (\<lambda>st. To_switch (the_switch c) (stream_text J sid i st)) sts"

lemma to_switch_views [simp]:
  "to_switch J (put_session x s c) sid i sts = to_switch J c sid i sts" "to_switch J (says l c) sid i sts = to_switch J c sid i sts"
  by (simp_all add: to_switch_def)

lemma announce_says: "fold (announce J sid i) sts c = says (to_switch J c sid i sts) c"
  by (simp add: announce_all says_def to_switch_def)

definition offer_to :: "'j json_api \<Rightarrow> (u32 \<Rightarrow> nat) \<Rightarrow> u32 \<Rightarrow> string \<Rightarrow> u32 \<Rightarrow> sent" where
  "offer_to J conn j t i = To_client (conn i) (json_Offer J \<lparr> of_sdp = t, of_participantId = j \<rparr>)"

lemma told_upd [simp]:
  "i \<noteq> j \<Longrightarrow> offer_sdp (upd_participant i f s) j = offer_sdp s j" "i \<noteq> j \<Longrightarrow> answer_sdp (upd_participant i f s) j = answer_sdp s j"
  "answer_sdp (upd_participant j (set_state st) s) j = answer_sdp s j"
  by (simp_all add: offer_sdp_def answer_sdp_def outgoingStreams_def)

lemma send_eq:
  assumes "escapedString d = Inr t"
  shows "sendOffer J n d i c = (Inr (), says [To_client n (json_Offer J \<lparr> of_sdp = t, of_participantId = i \<rparr>)] c)"
    "sendAnswer J n d i c = (Inr (), says [To_client n (json_Answer J \<lparr> an_sdp = t, an_participantId = i \<rparr>)] c)"
  using assms by (simp_all add: sendOffer_def sendAnswer_def pure_def write_client_def says_def)

lemma forward_offers_eq:
  assumes "offer_sdp s j = Inr d" "escapedString d = Inr t" "s_id s = sid" "session_ok s" "offering s j"
    and "\<forall>i \<in> set is. i \<noteq> j \<longrightarrow> participantExists s i \<and> clients_get c sid i = Inr (conn i)"
  shows "forward_offers J sid j is (put_session sid s c) =
    (Inr (), put_session sid (fold (\<lambda>i. upd_participant i (set_state awaitAnswer)) (filter (\<lambda>i. i \<noteq> j) is) s)
       (says (map (offer_to J conn j t) (filter (\<lambda>i. i \<noteq> j) is)) c))"
  using assms
proof (induction "is" arbitrary: s c)
  case Nil
  then show ?case by (simp add: says_def)
next
  case (Cons i "is")
  show ?case
  proof (cases "i = j")
    case True
    then show ?thesis using Cons by simp
  next
    case False
    let ?s = "upd_participant i (set_state awaitAnswer) s"
    have i: "participantExists s i" "clients_get c sid i = Inr (conn i)" using Cons.prems(6) False by auto
    have "forward_offers J sid j (i # is) (put_session sid s c) = forward_offers J sid j is (put_session sid ?s (says [offer_to J conn j t i] c))"
      using False i Cons.prems(1-3) getOffer_eq [OF Cons.prems(4,5) i(1) False]
      by (simp add: on_session_eq [of _ _ s] pure_def session_get_eq send_eq offer_to_def)
    moreover have "session_ok ?s" "offering ?s j" using state_keeps [OF Cons.prems(4) i(1)] Cons.prems(5) False by (simp_all add: offering_def)
    ultimately show ?thesis
      using Cons.IH [of ?s "says [offer_to J conn j t i] c"] Cons.prems False by simp
  qed
qed

lemma fold_await:
  assumes "session_ok s" "\<forall>i \<in> set is. participantExists s i" "j \<notin> set is"
  shows "session_ok (fold (\<lambda>i. upd_participant i (set_state awaitAnswer)) is s) \<and>
    (\<forall>i. participantExists (fold (\<lambda>i. upd_participant i (set_state awaitAnswer)) is s) i = participantExists s i \<and>
       participant (fold (\<lambda>i. upd_participant i (set_state awaitAnswer)) is s) i =
         (if i \<in> set is then set_state awaitAnswer (participant s i) else participant s i)) \<and>
    s_id (fold (\<lambda>i. upd_participant i (set_state awaitAnswer)) is s) = s_id s \<and>
    s_config (fold (\<lambda>i. upd_participant i (set_state awaitAnswer)) is s) = s_config s"
  using assms
proof (induction "is" arbitrary: s)
  case (Cons i "is")
  let ?s = "upd_participant i (set_state awaitAnswer) s"
  have "session_ok ?s" using state_keeps [OF Cons.prems(1), of i awaitAnswer] Cons.prems(2) by simp
  moreover have "set_state awaitAnswer (set_state awaitAnswer p) = set_state awaitAnswer p" for p by (simp add: set_state_def)
  ultimately show ?case using Cons.IH [of ?s] Cons.prems by auto
qed simp

text \<open>One answer that leaves others outstanding, and the last one.\<close>

lemma answer_step:
  assumes "negotiating s j W" "i \<in> W" "answer_new s j i a = Inr sts"
  shows "session_ok (upd_participant i (answer_effect j a sts) s)"
    and "negotiating (upd_participant i (answer_effect j a sts) s) j (W - {i})"
    and "particpantsInState (upd_participant i (answer_effect j a sts) s) awaitAnswer = [] \<longleftrightarrow> W = {i}"
proof -
  let ?s = "upd_participant i (answer_effect j a sts) s"
  note D = negotiatingD [OF assms(1)]
  have i: "participantExists s i" "i \<noteq> j" using D(3,4) assms(2) by auto
  have st: "signalingState (answer_effect j a sts p) = stable" for p by (simp add: answer_effect_def)
  show ok: "session_ok ?s" using answer_keeps [OF D(1) i(1) D(2) assms(3)] .
  have j: "offering ?s j" using D(2) i(2) by (simp add: offering_def)
  have ex: "participantExists ?s k \<longleftrightarrow> participantExists s k" for k using i(1) by auto
  have others: "signalingState (participant ?s k) = (if k \<in> W - {i} then awaitAnswer else stable)" if "participantExists s k" "k \<noteq> j" for k
    using D(4) [of k] D(5) [OF that] st by auto
  show "negotiating ?s j (W - {i})"
    using ok j ex others D(3) D(4) unfolding negotiating_def by (metis DiffE)
  have "k \<in> set (particpantsInState ?s awaitAnswer) \<longleftrightarrow> k \<in> W - {i}" for k
    unfolding in_state_iff [OF ok] ex using others [of k] j D(3) D(4) [of k] by (cases "k = j") (auto simp: offering_def split: if_splits)
  then have "set (particpantsInState ?s awaitAnswer) = W - {i}" by blast
  then show "particpantsInState ?s awaitAnswer = [] \<longleftrightarrow> W = {i}" using assms(2) by (metis insert_Diff set_empty Diff_cancel)
qed

lemma all_stable:
  assumes "negotiating s j {}"
  shows "\<not> signalingActive (upd_participant j (set_state stable) s)"
proof -
  note D = negotiatingD [OF assms]
  have "session_ok (upd_participant j (set_state stable) s)" using state_keeps [OF D(1)] D(2) by (simp add: offering_def)
  then show ?thesis using D(2,5) by (auto simp: signalingActive_iff offering_def)
qed

definition answer_to :: "'j json_api \<Rightarrow> (u32 \<Rightarrow> nat) \<Rightarrow> u32 \<Rightarrow> string \<Rightarrow> sent" where
  "answer_to J conn j t = To_client (conn j) (json_Answer J \<lparr> an_sdp = t, an_participantId = j \<rparr>)"

lemma onClientAnswer_eq:
  assumes "negotiating s j W" "i \<in> W" "map_of (c_sessions c) sid = Some s" "s_id s = sid" "has_switch c"
    and "clients_get c sid i = Inr (conn i)" "clients_get c sid j = Inr (conn j)"
    and "SessionDescription_of (an_sdp m) = Inr a" "answer_new s j i a = Inr sts"
    and "answer_sdp s j = Inr d" "escapedString d = Inr t"
  shows "onClientAnswer J (conn i) m c =
    (let s' = upd_participant i (answer_effect j a sts) s in
     (Inr (), if W = {i} then put_session sid (upd_participant j (set_state stable) s') (says (to_switch J c sid i sts @ [answer_to J conn j t]) c)
              else put_session sid s' (says (to_switch J c sid i sts) c)))"
proof -
  let ?s = "upd_participant i (answer_effect j a sts) s"
  note D = negotiatingD [OF assms(1)] and step = answer_step [OF assms(1,2,9)]
  have i: "participantExists s i" "signalingState (participant s i) = awaitAnswer" "i \<noteq> j" using D(3,4) assms(2) by auto
  have meta: "cm_sessionId (client_meta c (conn i)) = sid" "cm_participantId (client_meta c (conn i)) = i"
    using clients_get_meta [OF assms(6)] by auto
  have "addAnswer (onNewStream J) i a (s, c) = (Inr (), (?s, says (to_switch J c sid i sts) c))"
    using ctl.addAnswer_Inr [OF session_okD(1,2) [OF D(1)] i(1) session_okD(6) [OF D(1)], of J a c] participantInState_offer [OF D(1), of j]
      D(2) i(2) assms(4,5,9) by (simp add: announce_says)
  then have add: "with_session sid (addAnswer (onNewStream J) i a) c = (Inr (), put_session sid ?s (says (to_switch J c sid i sts) c))"
    using assms(3) by (intro with_session_eq) simp_all
  have known: "known_participant c (conn i) = Some s" using assms(3) i(1) meta by (simp add: known_participant_def)
  have j: "offering ?s j" using D(2) i(3) by (simp add: offering_def)
  have active: "signalingActive ?s" unfolding signalingActive_iff [OF step(1)] using j by (intro exI [of _ j]) (simp add: offering_def)
  have ans: "getAnswer j ?s = (Inr d, upd_participant j (set_state stable) ?s)"
    using getAnswer_eq [OF j] assms(10) i(3) by simp
  show ?thesis
  proof (cases "W = {i}")
    case True
    then have "particpantsInState ?s awaitAnswer = []" using step(3) by simp
    moreover have "participantInState ?s gotOffer = Inr j" using j participantInState_offer [OF step(1)] by simp
    ultimately show ?thesis
      using True known meta assms(7,8,11) add active ans
      by (simp add: onClientAnswer_def pure_def session_get_eq on_session_eq [of _ _ ?s] send_eq answer_to_def Let_def)
  next
    case False
    then have "particpantsInState ?s awaitAnswer \<noteq> []" using step(3) by simp
    then show ?thesis
      using False known meta assms(8) add by (simp add: onClientAnswer_def pure_def session_get_eq Let_def)
  qed
qed

lemma receiver_set_state [simp]: "receiver (set_state st p) k = receiver p k"
  by (simp add: receiver_def)

lemma answer_effect_streams:
  "streams (receiver (answer_effect j a sts p) j) = streams (receiver p j) @ (if mediaDescriptions a = [] then [] else sts)"
  by (simp add: answer_effect_def)

lemma onClientOffer_eq:
  assumes "ctl_ok c" "map_of (c_sessions c) sid = Some s" "\<not> signalingActive s" "has_switch c" "length (participants s) > 1"
    and conn: "\<forall>i. participantExists s i \<longrightarrow> clients_get c sid i = Inr (conn i)"
    and offer: "participantExists s j" "SessionDescription_of (of_sdp m) = Inr sdp" "offer_new s j sdp = Inr sts"
      "\<forall>st \<in> set (outgoingStreams (participant s j) @ sts). connectionData (description st) \<noteq> None"
  defines "others \<equiv> filter (\<lambda>i. i \<noteq> j) (map fst (participants s))"
  shows "\<exists>s' d d' t t'. onClientOffer J (conn j) m c =
      (Inr (), put_session sid s' (says (to_switch J c sid j sts @ map (offer_to J conn j t) others) c)) \<and>
    negotiating s' j (set others) \<and> s_id s' = sid \<and>
    offer_sdp s' j = Inr d \<and> escapedString d = Inr t \<and> answer_sdp s' j = Inr d' \<and> escapedString d' = Inr t' \<and>
    s_config s' = s_config s \<and> outgoingStreams (participant s' j) = outgoingStreams (participant s j) @ sts \<and>
    (\<forall>i. i \<noteq> j \<longrightarrow> receivers (participant s' i) = receivers (participant s i)) \<and> (\<forall>i. participantExists s' i = participantExists s i)"
proof -
  note ok = ctl_okD [OF assms(1,2)]
  let ?s = "upd_participant j (offer_effect sdp sts) s"
  let ?s' = "fold (\<lambda>i. upd_participant i (set_state awaitAnswer)) others ?s"
  let ?c = "says (to_switch J c sid j sts) c"
  have s1: "session_ok ?s" using offer_keeps [OF ok(3) offer(1) assms(3) offer(3)] .
  have j: "offering ?s j" by (simp add: offering_def offer_effect_def)
  have out: "outgoingStreams (participant ?s j) = outgoingStreams (participant s j) @ sts" by (simp add: outgoingStreams_def offer_effect_def)
  have ids: "i \<in> set others \<longleftrightarrow> participantExists s i \<and> i \<noteq> j" for i
    using participants_iff [OF session_okD(2) [OF ok(3)]] by (force simp: others_def)
  have F: "session_ok ?s'" "\<And>i. participantExists ?s' i = participantExists ?s i"
      "\<And>i. participant ?s' i = (if i \<in> set others then set_state awaitAnswer (participant ?s i) else participant ?s i)"
      "s_id ?s' = s_id ?s" "s_config ?s' = s_config ?s"
    using fold_await [OF s1, of others j] ids by auto
  have "participant_ok (s_config ?s) (participant ?s j)" using session_okD(4) [OF s1, of j] j by (simp add: offering_def)
  then have told: "list_all (send_ok (s_config ?s)) (outgoingStreams (participant ?s j))" by (simp only: participant_ok_def)
  have template: "mediaDescriptions (sessionTemplate (s_config ?s)) = []" using assms(1) ok(2) by (simp add: ctl_ok_def)
  have cd: "\<forall>st \<in> set (outgoingStreams (participant ?s j)). connectionData (description st) \<noteq> None" using offer(4) unfolding out .
  obtain d t where d: "offer_sdp ?s j = Inr d" "escapedString d = Inr t" using told_total(1) [OF told template cd] by blast
  obtain d' t' where d': "answer_sdp ?s j = Inr d'" "escapedString d' = Inr t'" using told_total(2) [OF told template cd] by blast
  have same: "offer_sdp ?s' j = offer_sdp ?s j" "answer_sdp ?s' j = answer_sdp ?s j"
    using F(3) [of j] F(4,5) ids by (simp_all add: offer_sdp_def answer_sdp_def)
  have "addOffer (onNewStream J) j sdp (s, c) = (Inr (), (?s, ?c))"
    using ctl.addOffer_Inr [OF session_okD(1) [OF ok(3)], of J j sdp c] offer(1,3) assms(3,4) ok(1) by (simp add: announce_says)
  then have add: "with_session sid (addOffer (onNewStream J) j sdp) c = (Inr (), put_session sid ?s ?c)"
    using assms(2) by (intro with_session_eq) simp_all
  have keys: "map fst (participants ?s) = map fst (participants s)"
    using omap_keys_put [OF session_okD(2) [OF ok(3)] participant_exists [OF offer(1)]] by (simp add: upd_participant_def)
  have "known_participant c (conn j) = Some s"
    using assms(2) conn offer(1) clients_get_meta [of c sid j "conn j"] by (simp add: known_participant_def)
  moreover have "length (participants ?s) > 1" using keys assms(5) by (metis length_map)
  moreover have "\<forall>i \<in> set (map fst (participants s)). i \<noteq> j \<longrightarrow> participantExists ?s i \<and> clients_get ?c sid i = Inr (conn i)"
    using ids conn by (auto simp: others_def)
  from forward_offers_eq [OF d _ s1 j this, of J]
  have "forward_offers J sid j (map fst (participants s)) (put_session sid ?s ?c) = (Inr (), put_session sid ?s' (says (map (offer_to J conn j t) others) ?c))"
    using ok(1) by (simp add: others_def)
  ultimately have "onClientOffer J (conn j) m c = (Inr (), put_session sid ?s' (says (to_switch J c sid j sts @ map (offer_to J conn j t) others) c))"
    using conn offer(1,2) clients_get_meta [of c sid j "conn j"] add keys
    by (simp add: onClientOffer_def pure_def session_get_eq)
  moreover have "negotiating ?s' j (set others)"
    unfolding negotiating_def
  proof (intro conjI allI ballI impI)
    show "session_ok ?s'" by (rule F(1))
    show "offering ?s' j" using j F(2,3) ids by (simp add: offering_def)
    show "j \<notin> set others" using ids by simp
    show "participantExists ?s' i" if "i \<in> set others" for i using that ids F(2) by simp
    show "signalingState (participant ?s' i) = (if i \<in> set others then awaitAnswer else stable)" if "participantExists ?s' i \<and> i \<noteq> j" for i
      using that ids [of i] F(2) [of i] F(3) [of i] assms(3) by auto
  qed
  moreover have "s_id ?s' = sid" "s_config ?s' = s_config s" using F(4,5) ok(1) by simp_all
  moreover have "outgoingStreams (participant ?s' j) = outgoingStreams (participant s j) @ sts" using F(3) [of j] ids out by simp
  moreover have "receivers (participant ?s' i) = receivers (participant s i)" if "i \<noteq> j" for i using F(3) [of i] that by simp
  moreover have "participantExists ?s' i = participantExists s i" for i using F(2) [of i] offer(1) by auto
  ultimately show ?thesis using d d' same by metis
qed

text \<open>A participant who is alone gets the answer at once.\<close>

lemma onClientOffer_alone:
  assumes "ctl_ok c" "map_of (c_sessions c) sid = Some s" "\<not> signalingActive s" "has_switch c" "length (participants s) = 1"
    and conn: "clients_get c sid j = Inr (conn j)"
    and offer: "participantExists s j" "SessionDescription_of (of_sdp m) = Inr sdp" "offer_new s j sdp = Inr sts"
      "\<forall>st \<in> set (outgoingStreams (participant s j) @ sts). connectionData (description st) \<noteq> None"
  shows "\<exists>t. onClientOffer J (conn j) m c =
    (Inr (), put_session sid (upd_participant j (\<lambda>p. set_state stable (offer_effect sdp sts p)) s)
       (says (to_switch J c sid j sts @ [answer_to J conn j t]) c))"
proof -
  note ok = ctl_okD [OF assms(1,2)]
  let ?s = "upd_participant j (offer_effect sdp sts) s"
  let ?c = "says (to_switch J c sid j sts) c"
  have s1: "session_ok ?s" using offer_keeps [OF ok(3) offer(1) assms(3) offer(3)] .
  have j: "offering ?s j" by (simp add: offering_def offer_effect_def)
  have "participant_ok (s_config ?s) (participant ?s j)" using session_okD(4) [OF s1, of j] j by (simp add: offering_def)
  then have told: "list_all (send_ok (s_config ?s)) (outgoingStreams (participant ?s j))" by (simp only: participant_ok_def)
  have template: "mediaDescriptions (sessionTemplate (s_config ?s)) = []" using assms(1) ok(2) by (simp add: ctl_ok_def)
  have "\<forall>st \<in> set (outgoingStreams (participant ?s j)). connectionData (description st) \<noteq> None"
    using offer(4) by (simp add: outgoingStreams_def offer_effect_def)
  from told_total(2) [OF told template this] obtain d t where d: "answer_sdp ?s j = Inr d" "escapedString d = Inr t" by blast
  have "addOffer (onNewStream J) j sdp (s, c) = (Inr (), (?s, ?c))"
    using ctl.addOffer_Inr [OF session_okD(1) [OF ok(3)], of J j sdp c] offer(1,3) assms(3,4) ok(1) by (simp add: announce_says)
  then have add: "with_session sid (addOffer (onNewStream J) j sdp) c = (Inr (), put_session sid ?s ?c)"
    using assms(2) by (intro with_session_eq) simp_all
  have "map fst (participants ?s) = map fst (participants s)"
    using omap_keys_put [OF session_okD(2) [OF ok(3)] participant_exists [OF offer(1)]] by (simp add: upd_participant_def)
  then have one: "length (participants ?s) = 1" using assms(5) by (metis length_map)
  have "known_participant c (conn j) = Some s"
    using assms(2) offer(1) clients_get_meta [OF conn] by (simp add: known_participant_def)
  then show ?thesis
    using offer(2) clients_get_meta [OF conn] add one getAnswer_eq [OF j d(1)] d(2)
    by (simp add: onClientOffer_def pure_def session_get_eq on_session_eq [of _ _ ?s] send_eq answer_to_def) blast
qed

end
