(* ===== verification/Controller_Events.thy ===== *)
theory Controller_Events
  imports Signaling
begin

text \<open>
  From handlers to events: a message in its printed form reaches its handler on the connection it was
  sent on, connections refer to their own WebSocket session in every state of the running controller,
  and a sequence of events is run one after the other.
\<close>

section \<open>Messages\<close>

text \<open>An empty text is not JSON, so nothing is printed as one.\<close>

lemma bufferString_dump:
  assumes "json_laws J" "j_valid J j" "\<not> is_ok (j_parse J [])"
  obtains s where "bufferString (j_dump J j) = Inr s"
  using assms json_conv(6) [OF assms(1,2)] by (cases "j_dump J j") (auto simp: bufferString_def)

lemma client_message_parsed:
  assumes "json_laws J" "\<not> is_ok (j_parse J [])" "ascii t" "t \<in> {''hello'', ''offer'', ''answer''}" "list_all (\<lambda>(k, v). ascii k \<and> j_valid J v \<and> k \<noteq> ''type'') kvs"
  defines "msg \<equiv> obj J ((''type'', j_of_str J t) # kvs)"
  shows "ci_onClientMessage J n (j_dump J msg) c =
    (if registered (client_meta c n) then
       (if t = ''hello'' then sbind (pure (parse_cl_Hello J msg) c) (ci_onClientHello J n)
        else if t = ''offer'' then sbind (pure (parse_Offer J msg) c) (ci_onClientOffer J n)
        else sbind (pure (parse_Answer J msg) c) (ci_onClientAnswer J n))
     else if t = ''hello'' then sbind (pure (parse_cl_Hello J msg) c) (ci_onClientHello J n)
     else (Inr (), c))"
proof -
  have v: "j_valid J msg"
    unfolding msg_def by (rule valid_obj [OF assms(1)]) (use assms(1,3,5) in \<open>auto simp: list_all_iff valid_leaf\<close>)
  then obtain s where s: "bufferString (j_dump J msg) = Inr s" using bufferString_dump [OF assms(1) _ assms(2)] by blast
  have "map_of (rev kvs) ''type'' = None" using assms(5) by (auto simp: map_of_eq_None_iff list_all_iff)
  then have f: "j_find J msg ''type'' = Some (j_of_str J t)"
    unfolding msg_def find_obj [OF assms(1)] by (simp add: map_add_def)
  have i: "msg_is J msg ident \<longleftrightarrow> ident = t" for ident using f assms(1) by (auto simp: msg_is_def json_conv)
  have "parseClientMessage J (j_dump J msg) = Some msg"
    using f v assms(1,4) by (auto simp: parseClientMessage_def json_conv)
  then show ?thesis using s i assms(4) by (auto simp: ci_onClientMessage_def pure_def)
qed

lemma hello_arrives:
  assumes "json_laws J" "\<not> is_ok (j_parse J [])"
  shows "ci_onClientMessage J n (json_cl_Hello J m) c = ci_onClientHello J n m c"
proof -
  let ?data = "if clh_sessionId m \<noteq> None \<or> clh_participantId m \<noteq> None then
          [(''data'', obj J
             ((case clh_sessionId m of None \<Rightarrow> [] | Some n \<Rightarrow> [(''session_id'', j_of_num J (unat n))]) @
              (case clh_participantId m of None \<Rightarrow> [] | Some n \<Rightarrow> [(''participant_id'', j_of_num J (unat n))])))]
        else []"
  have "parse_cl_Hello J (obj J ((''type'', j_of_str J ''hello'') # ?data)) = Inr m"
    using assms(1) by (cases "clh_sessionId m"; cases "clh_participantId m") (simp_all add: parse_cl_Hello_def json_simps)
  moreover have "list_all (\<lambda>(k, v). ascii k \<and> j_valid J v \<and> k \<noteq> ''type'') ?data"
    using assms(1) by (auto simp: valid_obj valid_leaf split: option.splits)
  ultimately show ?thesis
    using client_message_parsed [OF assms, of "''hello''" ?data n c] by (simp add: json_cl_Hello_def pure_def)
qed

lemma offer_arrives:
  assumes "json_laws J" "\<not> is_ok (j_parse J [])" "ascii (of_sdp m)" "of_participantId m \<noteq> 0" "registered (client_meta c n)"
  shows "ci_onClientMessage J n (json_Offer J m) c = ci_onClientOffer J n m c"
proof -
  let ?data = "[(''data'', obj J ([(''type'', j_of_str J ''offer''), (''sdp'', j_of_str J (of_sdp m))] @
          (if of_participantId m \<noteq> 0 then [(''participant_id'', j_of_num J (unat (of_participantId m)))] else [])))]"
  have "parse_Offer J (obj J ((''type'', j_of_str J ''offer'') # ?data)) = Inr m"
    using assms(1,3,4) by (simp add: parse_Offer_def json_simps)
  moreover have "list_all (\<lambda>(k, v). ascii k \<and> j_valid J v \<and> k \<noteq> ''type'') ?data"
    using assms(1,3) by (simp add: valid_obj valid_leaf)
  ultimately show ?thesis
    using client_message_parsed [OF assms(1,2), of "''offer''" ?data n c] assms(5) by (simp add: json_Offer_def pure_def)
qed

lemma answer_arrives:
  assumes "json_laws J" "\<not> is_ok (j_parse J [])" "ascii (an_sdp m)" "an_participantId m \<noteq> 0" "registered (client_meta c n)"
  shows "ci_onClientMessage J n (json_Answer J m) c = ci_onClientAnswer J n m c"
proof -
  let ?data = "[(''data'', obj J ([(''type'', j_of_str J ''answer''), (''sdp'', j_of_str J (an_sdp m))] @
          (if an_participantId m \<noteq> 0 then [(''participant_id'', j_of_num J (unat (an_participantId m)))] else [])))]"
  have "parse_Answer J (obj J ((''type'', j_of_str J ''answer'') # ?data)) = Inr m"
    using assms(1,3,4) by (simp add: parse_Answer_def json_simps)
  moreover have "list_all (\<lambda>(k, v). ascii k \<and> j_valid J v \<and> k \<noteq> ''type'') ?data"
    using assms(1,3) by (simp add: valid_obj valid_leaf)
  ultimately show ?thesis
    using client_message_parsed [OF assms(1,2), of "''answer''" ?data n c] assms(5) by (simp add: json_Answer_def pure_def)
qed

section \<open>Connections\<close>

text \<open>The connections of clients and the endpoints of their WebSocket sessions.\<close>

definition ends :: "controller \<Rightarrow> IPv4Port list \<times> (IPv4Port, nat) omap" where
  "ends c = (map fst (c_clients c), c_clientConns c)"

definition conns_ok :: "controller \<Rightarrow> bool" where
  "conns_ok c \<longleftrightarrow> (case ends c of (es, m) \<Rightarrow> omap_inv m \<and> (\<forall>(e, n) \<in> set m. n < length es \<and> es ! n = e))"

lemma sbind_frame: "ob (snd r) = x \<Longrightarrow> (\<And>y s. ob s = x \<Longrightarrow> ob (snd (f y s)) = x) \<Longrightarrow> ob (snd (sbind r f)) = x"
  by (cases r; cases "fst r") auto

lemma call_frame: "(\<And>s i st w. ob (snd (h s i st w)) = ob w) \<Longrightarrow> ob (snd (snd (call_onNewStream h i st (s, w)))) = ob w"
  by (auto simp: call_onNewStream_def split: prod.splits) (metis snd_conv)

lemma offer_media_frame:
  assumes "\<And>s i st w. ob (snd (h s i st w)) = ob w"
  shows "ob (snd (snd (offer_media h i m sw))) = ob (snd sw)"
  by (cases sw) (auto simp: offer_media_def sbind_def pure_def call_frame [of ob h, OF assms] split: sum.splits)

lemma answer_media_frame:
  assumes "\<And>s i st w. ob (snd (h s i st w)) = ob w"
  shows "ob (snd (snd (answer_media h j i m sw))) = ob (snd sw)"
  by (cases sw) (auto simp: answer_media_def sbind_def pure_def Let_def call_frame [of ob h, OF assms] split: sum.splits option.splits)

lemma each_media_frame: "(\<And>m sw. ob (snd (snd (f m sw))) = ob (snd sw)) \<Longrightarrow> ob (snd (snd (each_media f mds sw))) = ob (snd sw)"
proof (induction mds arbitrary: sw)
  case (Cons m mds)
  have *: "(ob \<circ> snd) (snd (sbind (f m sw) (\<lambda>_. each_media f mds))) = ob (snd sw)"
    by (rule sbind_frame) (simp_all add: Cons)
  then show ?case by simp
qed simp

lemma add_frame:
  assumes "\<And>s i st w. ob (snd (h s i st w)) = ob w"
  shows "ob (snd (snd (addOffer h i sdp (s, w)))) = ob w" "ob (snd (snd (addAnswer h i sdp (s, w)))) = ob w"
proof -
  note offer = each_media_frame [of ob "offer_media h i", OF offer_media_frame [of ob h, OF assms]]
  note answer = each_media_frame [of ob "answer_media h j i" for j, OF answer_media_frame [of ob h, OF assms]]
  have "(ob \<circ> snd) (snd (sbind (each_media (offer_media h i) mds (s, w)) (\<lambda>_ (s, w). (Inr (), (f s, w))))) = ob w" for f mds s
    by (rule sbind_frame) (auto simp: offer)
  then show "ob (snd (snd (addOffer h i sdp (s, w)))) = ob w" by (simp add: addOffer_def)
  have "(ob \<circ> snd) (snd (sbind (each_media (answer_media h j i) mds (s, w)) (\<lambda>_ (s, w). (Inr (), (f s, w))))) = ob w" for f mds s j
    by (rule sbind_frame) (auto simp: answer)
  then show "ob (snd (snd (addAnswer h i sdp (s, w)))) = ob w" by (auto simp: addAnswer_def sbind_def pure_def Let_def split: sum.splits)
qed

lemma ends_fields [simp]:
  "ends (c\<lparr> c_sent := a \<rparr>) = ends c" "ends (c\<lparr> c_sessions := b \<rparr>) = ends c" "ends (c\<lparr> c_switches := d \<rparr>) = ends c"
  "ends (c\<lparr> c_switchConns := d' \<rparr>) = ends c"
  by (simp_all add: ends_def)

lemma ends_writes [simp]:
  "ends (sendHello J n c) = ends c" "ends (sw_addParticipant J k sid pid a c) = ends c" "ends (sw_sendHello J n c) = ends c"
  "ends (set_client_meta n m c) = ends c" "ends (snd (sendOffer J n sdp i c)) = ends c" "ends (snd (sendAnswer J n sdp i c)) = ends c"
proof -
  have "map fst ((c_clients c)[n := (fst (c_clients c ! n), m)]) = map fst (c_clients c)"
    by (metis fst_conv list_update_id map_update)
  then show "ends (set_client_meta n m c) = ends c" by (simp add: ends_def set_client_meta_def client_remote_def)
qed (auto simp: sendHello_def sw_addParticipant_def sw_sendHello_def sendOffer_def sendAnswer_def write_client_def write_switch_def Let_def pure_def
    sbind_def split: sum.splits)

lemma onNewStream_frame: "ends (snd (onNewStream J s i st c)) = ends c"
  by (auto simp: onNewStream_def sw_addStream_def sbind_def pure_def write_switch_def split: sum.splits)

lemma with_session_frame: "(\<And>s c. ends (snd (snd (f (s, c)))) = ends c) \<Longrightarrow> ends (snd (with_session sid f c)) = ends c"
  by (auto simp: with_session_def split: sum.splits prod.splits) (metis snd_conv)

lemma session_call_frame [simp]:
  "ends (snd (with_session sid (addOffer (onNewStream J) i sdp) c)) = ends c" "ends (snd (with_session sid (addAnswer (onNewStream J) i sdp) c)) = ends c"
  "ends (snd (on_session sid g c)) = ends c"
  using add_frame [of ends "onNewStream J", OF onNewStream_frame]
  by (auto simp: on_session_def intro!: with_session_frame split: prod.splits)

lemma ends_sbind: "ends (snd r) = ends c \<Longrightarrow> (\<And>y c'. ends c' = ends c \<Longrightarrow> ends (snd (f y c')) = ends c) \<Longrightarrow> ends (snd (sbind r f)) = ends c"
  by (rule sbind_frame)

lemma ends_pure [simp]: "ends (snd (pure r c)) = ends c"
  by (simp add: pure_def)

lemma join_frame: "ends (snd (onNewParticipant J n m c)) = ends c"
proof -
  have "ends (snd (offer_existing J n sid pid c)) = ends c" for sid pid c
    by (auto simp: offer_existing_def intro!: ends_sbind)
  then have "ends (snd (join_session J n sid c)) = ends c" for sid c
    by (auto simp: join_session_def Let_def intro!: ends_sbind)
  moreover have "ends (snd (add_session sid c)) = ends c" for sid c by (simp add: add_session_def split: prod.splits)
  ultimately show ?thesis by (auto simp: onNewParticipant_def intro!: ends_sbind)
qed

lemma forward_frame: "ends (snd (forward_offers J sid pid is c)) = ends c"
  by (induction "is" arbitrary: c) (auto intro!: ends_sbind)

lemma client_frame:
  "ends (snd (onClientOffer J n o' c)) = ends c" "ends (snd (onClientAnswer J n a c)) = ends c" "ends (snd (onClientClose m c)) = ends c"
  by (auto simp: onClientOffer_def onClientAnswer_def onClientClose_def Let_def forward_frame intro!: ends_sbind split: option.splits)

lemma message_frame:
  "ends (snd (ci_onClientMessage J n buf c)) = ends c" "ends (snd (si_onSwitchMessage J n buf c)) = ends c"
  by (auto simp: ci_onClientMessage_def ci_onClientHello_def ci_onClientOffer_def ci_onClientAnswer_def onClientHello_def join_frame client_frame
      si_onSwitchMessage_def si_onSwitchHello_def onNewSwitch_def intro!: ends_sbind split: option.splits)

lemma handle_frame:
  assumes "\<nexists>a. e = Client_open a"
  shows "ends (snd (handle J e c)) = ends c"
  using assms by (cases e) (auto simp: message_frame client_frame ci_onClientClose_def si_onSwitchOpen_def si_onSwitchClose_def onSwitchClose_def
      switches_remove_def Let_def split: option.splits)

lemma running_conns: "running J c \<Longrightarrow> conns_ok c"
proof (induction rule: running.induct)
  case (start a q l k c)
  then show ?case by (auto simp: Controller_of_def rbind_Inr_iff conns_ok_def ends_def omap_inv_nil)
next
  case (event c e c')
  show ?case
  proof (cases "\<exists>a. e = Client_open a")
    case True
    then obtain a where a: "e = Client_open a" by blast
    have ok: "omap_inv (c_clientConns c)" "\<And>b n. (b, n) \<in> set (c_clientConns c) \<Longrightarrow> n < length (c_clients c) \<and> fst (c_clients c ! n) = b"
      using event.IH by (auto simp: conns_ok_def ends_def)
    show ?thesis
      using event.hyps(3) ok(1)
      by (auto simp: a conns_ok_def ends_def ci_onClientOpen_def Let_def omap_inv_put set_omap_put nth_append less_Suc_eq dest: ok(2) split: if_splits)
  next
    case False
    then show ?thesis using handle_frame [OF False, of J c] event by (simp add: conns_ok_def)
  qed
qed

lemma conns_okD:
  assumes "conns_ok c" "clients_get c sid i = Inr n"
  shows "n < length (c_clients c)" "map_of (c_clientConns c) (client_remote c n) = Some n"
proof -
  obtain e where e: "(e, n) \<in> set (c_clientConns c)"
    using assms(2) by (auto simp: clients_get_def find_Some_iff split: option.splits) (metis nth_mem)
  then show n: "n < length (c_clients c)" using assms(1) by (auto simp: conns_ok_def ends_def)
  have "client_remote c n = e" using e n assms(1) by (auto simp: conns_ok_def ends_def client_remote_def)
  moreover have "map_of (c_clientConns c) e = Some n" using e assms(1) by (simp add: conns_ok_def ends_def omap_inv_distinct)
  ultimately show "map_of (c_clientConns c) (client_remote c n) = Some n" by simp
qed

section \<open>Sequences of events\<close>

fun run :: "'j json_api \<Rightarrow> event list \<Rightarrow> controller \<Rightarrow> unit result \<times> controller" where
  "run J [] c = (Inr (), c)"
| "run J (e # es) c = sbind (handle J e c) (\<lambda>_. run J es)"

text \<open>Events that are possible one after the other keep the controller running.\<close>

fun possible_all :: "'j json_api \<Rightarrow> controller \<Rightarrow> event list \<Rightarrow> bool" where
  "possible_all J c [] \<longleftrightarrow> True"
| "possible_all J c (e # es) \<longleftrightarrow> possible c e \<and> possible_all J (snd (handle J e c)) es"

lemma running_run: "running J c \<Longrightarrow> possible_all J c es \<Longrightarrow> run J es c = (Inr (), c') \<Longrightarrow> running J c'"
proof (induction es arbitrary: c)
  case (Cons e es)
  obtain d where d: "handle J e c = (Inr (), d)" "run J es d = (Inr (), c')" using Cons.prems(3) by (auto simp: sbind_Inr_iff)
  then show ?case using Cons.IH [of d] Cons.prems(1,2) running.event by auto
qed simp

section \<open>The answers to an offer\<close>

text \<open>WebSocket session \<open>n\<close> is the registered connection of participant \<open>i\<close> in session \<open>sid\<close>.\<close>

definition connected :: "controller \<Rightarrow> u32 \<Rightarrow> u32 \<Rightarrow> nat \<Rightarrow> bool" where
  "connected c sid i n \<longleftrightarrow>
     clients_get c sid i = Inr n \<and> map_of (c_clientConns c) (client_remote c n) = Some n \<and> registered (client_meta c n)"

lemma connected_views [simp]:
  "connected (put_session x s c) sid i n = connected c sid i n" "connected (says l c) sid i n = connected c sid i n"
  by (simp_all add: connected_def client_remote_def) (simp_all add: put_session_def says_def)

lemma connected_running: "running J c \<Longrightarrow> clients_get c sid i = Inr n \<Longrightarrow> registered (client_meta c n) \<Longrightarrow> connected c sid i n"
  using conns_okD(2) [OF running_conns] by (simp add: connected_def)

lemma offer_event:
  assumes "json_laws J" "\<not> is_ok (j_parse J [])" "connected c sid i n" "ascii (of_sdp m)" "of_participantId m \<noteq> 0"
  shows "handle J (Client_message n (json_Offer J m)) c = onClientOffer J n m c"
  using assms offer_arrives [OF assms(1,2,4,5)] by (simp add: connected_def ci_onClientOffer_def)

lemma answer_event:
  assumes "json_laws J" "\<not> is_ok (j_parse J [])" "connected c sid i n" "ascii (an_sdp m)" "an_participantId m \<noteq> 0"
  shows "handle J (Client_message n (json_Answer J m)) c = onClientAnswer J n m c"
  using assms answer_arrives [OF assms(1,2,4,5)] by (simp add: connected_def ci_onClientAnswer_def)

lemma run_answers:
  assumes J: "json_laws J" "\<not> is_ok (j_parse J [])"
    and "negotiating s j (set is)" "distinct is" "is \<noteq> []" "map_of (c_sessions c) sid = Some s" "s_id s = sid" "has_switch c"
    and "clients_get c sid j = Inr (conn j)"
    and "\<forall>i \<in> set is. connected c sid i (conn i) \<and> ascii (an_sdp (msg i)) \<and> an_participantId (msg i) \<noteq> 0"
    and "\<forall>i \<in> set is. SessionDescription_of (an_sdp (msg i)) = Inr (ans i) \<and> answer_new s j i (ans i) = Inr (recv i)"
    and "answer_sdp s j = Inr d" "escapedString d = Inr t"
  shows "\<exists>s'. run J (map (\<lambda>i. Client_message (conn i) (json_Answer J (msg i))) is) c =
      (Inr (), put_session sid s' (says (concat (map (\<lambda>i. to_switch J c sid i (recv i)) is) @ [answer_to J conn j t]) c)) \<and>
    \<not> signalingActive s' \<and>
    (\<forall>i \<in> set is. streams (receiver (participant s' i) j) = streams (receiver (participant s i) j) @ recv i) \<and>
    s_id s' = s_id s \<and> s_config s' = s_config s \<and> outgoingStreams (participant s' j) = outgoingStreams (participant s j) \<and>
    (\<forall>k. k \<notin> set is \<and> k \<noteq> j \<longrightarrow> participant s' k = participant s k)"
  using assms(3-)
proof (induction "is" arbitrary: s c)
  case (Cons i "is")
  let ?s = "upd_participant i (answer_effect j (ans i) (recv i)) s"
  have ij: "i \<noteq> j" using negotiatingD(3) [OF Cons.prems(1)] by auto
  have a: "SessionDescription_of (an_sdp (msg i)) = Inr (ans i)" "answer_new s j i (ans i) = Inr (recv i)" using Cons.prems(9) by auto
  have "i \<in> set (i # is)" by simp
  note step = answer_step [OF Cons.prems(1) this a(2)]
  have conn: "clients_get c sid i = Inr (conn i)" "clients_get c sid j = Inr (conn j)" using Cons.prems(7,8) by (auto simp: connected_def)
  have ev: "handle J (Client_message (conn i) (json_Answer J (msg i))) c = onClientAnswer J (conn i) (msg i) c"
    using Cons.prems(8) by (intro answer_event [OF J]) auto
  note eq = onClientAnswer_eq [OF Cons.prems(1) \<open>i \<in> set (i # is)\<close> Cons.prems(4-6) conn a Cons.prems(10,11), of J, unfolded Let_def]
  have got: "streams (receiver (answer_effect j (ans i) (recv i) p) j) = streams (receiver p j) @ recv i" for p
    using a(2) by (auto simp: answer_effect_streams answer_new_def)
  show ?case
  proof (cases "is = []")
    case True
    then show ?thesis using eq ev all_stable [of ?s j] step(2) ij got by (intro exI [of _ "upd_participant j (set_state stable) ?s"]) (simp add: outgoingStreams_def)
  next
    case False
    let ?c = "put_session sid ?s (says (to_switch J c sid i (recv i)) c)"
    have "set (i # is) \<noteq> {i}" using False Cons.prems(2) by (cases "is") auto
    then have first: "onClientAnswer J (conn i) (msg i) c = (Inr (), ?c)" using eq by simp
    have "negotiating ?s j (set is)" using step(2) Cons.prems(2) by simp
    moreover have "\<forall>k \<in> set is. SessionDescription_of (an_sdp (msg k)) = Inr (ans k) \<and> answer_new ?s j k (ans k) = Inr (recv k)"
    proof
      fix k
      assume k: "k \<in> set is"
      then have "k \<noteq> i" using Cons.prems(2) by auto
      then show "SessionDescription_of (an_sdp (msg k)) = Inr (ans k) \<and> answer_new ?s j k (ans k) = Inr (recv k)"
        using Cons.prems(9) k ij by (simp add: answer_new_def)
    qed
    ultimately obtain s' where s': "run J (map (\<lambda>i. Client_message (conn i) (json_Answer J (msg i))) is) ?c =
          (Inr (), put_session sid s' (says (concat (map (\<lambda>i. to_switch J ?c sid i (recv i)) is) @ [answer_to J conn j t]) ?c))"
        "\<not> signalingActive s'" "\<forall>k \<in> set is. streams (receiver (participant s' k) j) = streams (receiver (participant ?s k) j) @ recv k"
        "\<forall>k. k \<notin> set is \<and> k \<noteq> j \<longrightarrow> participant s' k = participant ?s k"
        "s_id s' = s_id s \<and> s_config s' = s_config s \<and> outgoingStreams (participant s' j) = outgoingStreams (participant s j)"
      using Cons.IH [of ?s ?c] Cons.prems False ij by auto
    have "\<forall>k \<in> set (i # is). streams (receiver (participant s' k) j) = streams (receiver (participant s k) j) @ recv k"
      using s'(3,4) Cons.prems(2) ij got by auto
    moreover have "\<forall>k. k \<notin> set (i # is) \<and> k \<noteq> j \<longrightarrow> participant s' k = participant s k" using s'(4) by simp
    ultimately show ?thesis using s'(1,2,5) first ev by (intro exI [of _ s']) simp
  qed
qed simp

end
