(* ===== verification/SDP_Roundtrip.thy ===== *)
theory SDP_Roundtrip
  imports SDP
begin

text \<open>
  Parsing inverts printing for session descriptions. Each kind of line has a condition that says which
  texts its pattern can take up (\<open>wf_\<close>...); under it the printed line is matched by its own pattern, by
  none of the patterns tried before, and read back as it was.
\<close>

section \<open>Character classes and numbers\<close>

lemma class_Char [simp]:
  "code (Char a b c d e f g h) = of_char (Char a b c d e f g h)"
  "is_digit (Char a b c d e f g h) \<longleftrightarrow> 48 \<le> code (Char a b c d e f g h) \<and> code (Char a b c d e f g h) \<le> 57"
  "is_space (Char a b c d e f g h) \<longleftrightarrow> code (Char a b c d e f g h) = 32 \<or> 9 \<le> code (Char a b c d e f g h) \<and> code (Char a b c d e f g h) \<le> 13"
  "is_dot (Char a b c d e f g h) \<longleftrightarrow> code (Char a b c d e f g h) \<noteq> 10 \<and> code (Char a b c d e f g h) \<noteq> 13"
  "is_word (Char a b c d e f g h) \<longleftrightarrow> is_digit (Char a b c d e f g h) \<or>
     65 \<le> code (Char a b c d e f g h) \<and> code (Char a b c d e f g h) \<le> 90 \<or>
     97 \<le> code (Char a b c d e f g h) \<and> code (Char a b c d e f g h) \<le> 122 \<or> Char a b c d e f g h = CHR ''_''"
  by (simp_all add: code_def is_digit_def is_space_def is_dot_def is_word_def)

text \<open>None of the classes has a NUL in it, apart from the dot of the patterns.\<close>

lemma no_nul_simps [simp]:
  "list_all is_word s \<Longrightarrow> CHR 0x00 \<notin> set s"
  "list_all is_digit s \<Longrightarrow> CHR 0x00 \<notin> set s"
  "list_all ice_char s \<Longrightarrow> CHR 0x00 \<notin> set s"
  "list_all (\<lambda>c. is_word c \<or> is_digit c \<or> c = CHR ''-'') s \<Longrightarrow> CHR 0x00 \<notin> set s"
  "list_all (\<lambda>c. is_digit c \<or> c = CHR '':'' \<or> c = CHR ''.'') s \<Longrightarrow> CHR 0x00 \<notin> set s"
  "list_all (\<lambda>c. is_digit c \<or> 97 \<le> code c \<and> code c \<le> 122 \<or> c = CHR ''/'' \<or> c = CHR ''+'') s \<Longrightarrow> CHR 0x00 \<notin> set s"
  "list_all (\<lambda>c. is_word c \<or> is_space c \<or> c = CHR ''-'') s \<Longrightarrow> CHR 0x00 \<notin> set s"
  "list_all (\<lambda>c. is_word c \<or> is_space c \<or> c = CHR ''-'' \<or> c = CHR ''+'') s \<Longrightarrow> CHR 0x00 \<notin> set s"
  "list_all (\<lambda>c. c = CHR ''/'' \<or> is_word c) s \<Longrightarrow> CHR 0x00 \<notin> set s"
  by (erule no_nul, simp add: ice_char_def)+

lemma digit_classes: "is_digit c \<Longrightarrow> is_dot c" "is_digit c \<Longrightarrow> is_word c" "is_digit c \<Longrightarrow> \<not> is_space c"
  by (auto simp: is_digit_def is_dot_def is_word_def is_space_def)

lemma word_dot: "is_word c \<Longrightarrow> is_dot c" "is_word c \<Longrightarrow> \<not> is_space c"
  by (auto simp: is_word_def is_dot_def is_space_def is_digit_def)

lemma dec_all [simp]: "list_all is_digit (dec n)" "dec n \<noteq> []" "list_all is_dot (dec n)"
  using dec_digits dec_not_Nil digit_classes by (auto simp: list_all_iff)

lemma hd_dec [simp]: "is_digit (hd (dec n))"
  using dec_digits dec_not_Nil hd_in_set by blast

lemma stoul_simps [simp]: "stoul (dec (unat (w :: u64))) = Inr w" "stoul_u (dec (unat (v :: u32))) = Inr v"
    "stoul_us (dec (unat (x :: u16))) = Inr x"
proof -
  have n: "stoul (dec n) = Inr (of_nat n)" if "n < 2 ^ 64" for n
    using stoul_dec [of n "[]"] that by simp
  have "unat w < 2 ^ 64" "unat v < 2 ^ 64" "unat x < 2 ^ 64"
    using unat_lt2p [of w] unat_lt2p [of v] unat_lt2p [of x] by simp_all
  moreover have "ucast (ucast v :: u64) = v" "ucast (ucast x :: u64) = x"
    by (rule bit_word_eqI, simp add: bit_ucast_iff)+
  ultimately show "stoul (dec (unat w)) = Inr w" "stoul_u (dec (unat v)) = Inr v" "stoul_us (dec (unat x)) = Inr x"
    using n by (simp_all add: stoul_u_def stoul_us_def unsigned_of_nat take_bit_nat_eq_self)
qed

lemma length_dec16: "length (dec (unat (x :: u16))) \<le> 5"
  using length_dec [of "unat x" 5] unat_lt2p [of x] by simp

lemmas match_simps = match_plus match_plus_end match_run_end match_rep1 digits_def word_chars_def anything_def sub_def group_def

text \<open>The chain of tests: a test that is decided, with the later ones left alone.\<close>

lemma on_match_cong: "l = l' \<Longrightarrow> on_match r l f g = on_match r l' f g"
  by simp

lemma on_match_no: "regex_match r l = None \<Longrightarrow> on_match r l f g = g"
  by (simp add: on_match_def)

lemma on_match_yes: "regex_match r l \<noteq> None \<Longrightarrow> on_match r l f g = f (the (regex_match r l))"
  by (auto simp: on_match_def)

lemma on_match_const: "matches r l \<Longrightarrow> on_match r l (\<lambda>m. x) g = x"
  by (auto simp: on_match_def matches_def)

lemmas chain = on_match_no on_match_const

section \<open>Lines of the session\<close>

definition wf_Origin :: "Origin \<Rightarrow> bool" where
  "wf_Origin x \<longleftrightarrow> userName x \<noteq> [] \<and> list_all (\<lambda>c. is_word c \<or> is_digit c \<or> c = CHR ''-'') (userName x) \<and>
     o_netType x \<noteq> [] \<and> list_all is_word (o_netType x) \<and> o_addrType x \<noteq> [] \<and> list_all is_word (o_addrType x) \<and>
     unicastAddr x \<noteq> [] \<and> list_all (\<lambda>c. is_digit c \<or> c = CHR '':'' \<or> c = CHR ''.'') (unicastAddr x)"

lemma Origin_roundtrip: "wf_Origin x \<Longrightarrow> Origin_of (Origin_line x) = Inr x"
  by (simp add: wf_Origin_def Origin_of_def Origin_line_def O_LINE_def match_simps)

lemma Timing_roundtrip: "Timing_of (Timing_line x) = Inr x"
  by (simp add: Timing_of_def Timing_line_def T_LINE_def match_simps)

lemma sd_line_version: "sd_line (''v='' @ dec (unat v)) st = Inr ((upd_sd (\<lambda>d. d\<lparr> version := v \<rparr>) st)\<lparr> parsed_version := True \<rparr>)"
  by (simp add: sd_line_def on_match_def V_LINE_def match_simps)

lemma sd_line_origin:
  assumes "wf_Origin x"
  shows "sd_line (Origin_line x) st = Inr ((upd_sd (\<lambda>d. d\<lparr> origin := x \<rparr>) st)\<lparr> parsed_origin := True \<rparr>)"
proof -
  have "matches O_LINE (Origin_line x)"
    using assms by (simp add: wf_Origin_def Origin_line_def O_LINE_def matches_def match_simps)
  then show ?thesis
    using Origin_roundtrip [OF assms]
    by (auto simp: sd_line_def on_match_def matches_def V_LINE_def Origin_line_def split: option.splits)
qed

lemma sd_line_name:
  "x \<noteq> [] \<Longrightarrow> list_all is_dot x \<Longrightarrow> sd_line (''s='' @ x) st = Inr (upd_sd (\<lambda>d. d\<lparr> sessionName := x \<rparr>) st)"
  by (simp add: sd_line_def on_match_def V_LINE_def O_LINE_def S_LINE_def match_simps)

lemma sd_line_timing: "sd_line (Timing_line x) st = Inr (upd_sd (\<lambda>d. d\<lparr> timing := timing d @ [x] \<rparr>) st)"
proof -
  have "matches T_LINE (Timing_line x)"
    by (simp add: Timing_line_def T_LINE_def matches_def match_simps)
  then show ?thesis
    using Timing_roundtrip [of x]
    by (auto simp: sd_line_def on_match_def matches_def V_LINE_def O_LINE_def S_LINE_def Timing_line_def split: option.splits)
qed

lemma sd_line_bundle: "x \<noteq> [] \<Longrightarrow> list_all is_dot x \<Longrightarrow> sd_line (''a=group:BUNDLE'' @ x) st = Inr st"
  by (simp add: sd_line_def on_match_def V_LINE_def O_LINE_def S_LINE_def T_LINE_def BUNDLE_RX_def match_simps)

definition wf_other :: "string \<Rightarrow> bool" where
  "wf_other l \<longleftrightarrow> \<not> matches V_LINE l \<and> \<not> matches O_LINE l \<and> \<not> matches S_LINE l \<and> \<not> matches T_LINE l \<and> \<not> matches BUNDLE_RX l \<and>
     \<not> matches M_LINE l"

lemma sd_line_other: "wf_other l \<Longrightarrow> sd_line l st = Inr (upd_sd (\<lambda>d. d\<lparr> otherLines := otherLines d @ [l] \<rparr>) st)"
  by (simp add: wf_other_def sd_line_def on_match_def matches_def)

section \<open>Lines of a media description\<close>

definition wf_ConnectionData :: "ConnectionData \<Rightarrow> bool" where
  "wf_ConnectionData x \<longleftrightarrow> c_netType x = ''IN'' \<and> (c_addrType x = ''IP4'' \<or> c_addrType x = ''IP6'') \<and>
     connectionAddress x \<noteq> [] \<and> list_all is_dot (connectionAddress x) \<and> CHR 0x00 \<notin> set (connectionAddress x)"

lemma ConnectionData_roundtrip: "wf_ConnectionData x \<Longrightarrow> ConnectionData_of (ConnectionData_line x) = x"
  by (cases x) (auto simp: wf_ConnectionData_def ConnectionData_of_def ConnectionData_line_def C_LINE_def match_simps)

lemma md_line_connection:
  assumes "wf_ConnectionData x"
  shows "md_line (ConnectionData_line x) st = Inr (upd_md (\<lambda>d. d\<lparr> connectionData := Some x \<rparr>) st)"
proof -
  have "matches C_LINE (ConnectionData_line x)"
    using assms by (auto simp: wf_ConnectionData_def ConnectionData_line_def C_LINE_def matches_def match_simps)
  then show ?thesis
    using ConnectionData_roundtrip [OF assms]
    by (simp add: md_line_def chain M_LINE_def ConnectionData_line_def cong: on_match_cong)
qed

definition wf_RTCPConfiguration :: "RTCPConfiguration \<Rightarrow> bool" where
  "wf_RTCPConfiguration x \<longleftrightarrow>
     rc_netType x = [] \<and> rc_addrType x = [] \<and> rc_connectionAddress x = [] \<or>
     rc_netType x = ''IN'' \<and> rc_addrType x = ''IP4'' \<and> rc_connectionAddress x \<noteq> [] \<and> list_all is_dot (rc_connectionAddress x)"

lemma RTCPConfiguration_roundtrip: "wf_RTCPConfiguration x \<Longrightarrow> RTCPConfiguration_of (RTCPConfiguration_line x) = Inr x"
  by (cases x) (auto simp: wf_RTCPConfiguration_def RTCPConfiguration_of_def RTCPConfiguration_line_def RTCP_RX_def match_simps)

lemma md_line_rtcp:
  assumes "wf_RTCPConfiguration x"
  shows "md_line (RTCPConfiguration_line x) st = Inr (upd_md (\<lambda>d. d\<lparr> rtcpConfiguration := Some x \<rparr>) st)"
proof -
  have "matches RTCP_RX (RTCPConfiguration_line x)"
    using assms by (auto simp: wf_RTCPConfiguration_def RTCPConfiguration_line_def RTCP_RX_def matches_def match_simps)
  then show ?thesis
    using RTCPConfiguration_roundtrip [OF assms]
    by (simp add: md_line_def chain M_LINE_def C_LINE_def RTCPConfiguration_line_def cong: on_match_cong)
qed

definition wf_ice :: "string \<Rightarrow> bool" where
  "wf_ice u \<longleftrightarrow> u \<noteq> [] \<and> list_all ice_char u"

lemma md_line_ufrag:
  assumes "wf_ice u"
  shows "md_line (ufrag_line u) st = Inr (upd_md (\<lambda>d. d\<lparr> iceUfrag := Some u \<rparr>) st)"
proof -
  have "regex_match ICE_UFRAG (ufrag_line u) = Some [Opened 1 u, Closed 1 []]"
    using assms by (simp add: wf_ice_def ICE_UFRAG_def ufrag_line_def match_simps)
  then show ?thesis
    by (simp add: md_line_def chain on_match_yes M_LINE_def C_LINE_def RTCP_RX_def ufrag_line_def sub_def group_def cong: on_match_cong)
qed

lemma md_line_pwd:
  assumes "wf_ice u"
  shows "md_line (pwd_line u) st = Inr (upd_md (\<lambda>d. d\<lparr> icePwd := Some u \<rparr>) st)"
proof -
  have "regex_match ICE_PWD (pwd_line u) = Some [Opened 1 u, Closed 1 []]"
    using assms by (simp add: wf_ice_def ICE_PWD_def pwd_line_def match_simps)
  then show ?thesis
    by (simp add: md_line_def chain on_match_yes M_LINE_def C_LINE_def RTCP_RX_def ICE_UFRAG_def pwd_line_def sub_def group_def cong: on_match_cong)
qed

definition wf_mid :: "string \<Rightarrow> bool" where
  "wf_mid u \<longleftrightarrow> u \<noteq> [] \<and> list_all is_word u"

lemma md_line_mid:
  assumes "wf_mid u"
  shows "md_line (mid_line u) st = Inr (upd_md (\<lambda>d. d\<lparr> mid := Some u \<rparr>) st)"
proof -
  have "regex_match MID_RX (mid_line u) = Some [Opened 1 u, Closed 1 []]"
    using assms by (simp add: wf_mid_def MID_RX_def mid_line_def match_simps)
  then show ?thesis
    by (simp add: md_line_def chain on_match_yes M_LINE_def C_LINE_def RTCP_RX_def ICE_UFRAG_def ICE_PWD_def mid_line_def sub_def group_def cong: on_match_cong)
qed

definition wf_RTPExtension :: "RTPExtension \<Rightarrow> bool" where
  "wf_RTPExtension x \<longleftrightarrow> uri x \<noteq> [] \<and> list_all is_dot (uri x) \<and> CHR 0x00 \<notin> set (uri x)"

lemmas before_extmap = M_LINE_def C_LINE_def RTCP_RX_def ICE_UFRAG_def ICE_PWD_def MID_RX_def

lemma md_line_extension:
  assumes "wf_RTPExtension x"
  shows "md_line (RTPExtension_line x) st = Inr (upd_md (\<lambda>d. d\<lparr> extensions := extensions d @ [x] \<rparr>) st)"
proof -
  have "matches EXTMAP (RTPExtension_line x)" "RTPExtension_of (RTPExtension_line x) = Inr x"
    using assms by (simp_all add: wf_RTPExtension_def RTPExtension_line_def RTPExtension_of_def EXTMAP_def matches_def match_simps)
  then show ?thesis
    by (simp add: md_line_def chain before_extmap RTPExtension_line_def cong: on_match_cong)
qed

definition wf_msid :: "MediaStreamIdentifier \<Rightarrow> bool" where
  "wf_msid x \<longleftrightarrow> ms_identifier x \<noteq> [] \<and> list_all (\<lambda>c. \<not> is_space c) (ms_identifier x) \<and> list_all (\<lambda>c. \<not> is_space c) (appData x)"

lemma md_line_msid:
  assumes "wf_msid x"
  shows "md_line (MediaStreamIdentifier_line x) st = Inr (upd_md (\<lambda>d. d\<lparr> md_msid := Some x \<rparr>) st)"
proof -
  have "matches MSID_RX (MediaStreamIdentifier_line x) \<and> MediaStreamIdentifier_of (MediaStreamIdentifier_line x) = x"
    using assms by (cases "appData x = []")
      (simp_all add: wf_msid_def MediaStreamIdentifier_line_def MediaStreamIdentifier_of_def MSID_RX_def matches_def match_simps)
  then show ?thesis
    by (simp add: md_line_def chain before_extmap EXTMAP_def MediaStreamIdentifier_line_def cong: on_match_cong)
qed

lemma md_line_direction: "md_line (direction_line x) st = Inr (upd_md (\<lambda>d. d\<lparr> direction := Some x \<rparr>) st)"
proof -
  have "\<exists>m. regex_match DIRECTION_RX (direction_line x) = Some m \<and> directionFromString (sub m 1) = Inr x"
    by (cases x) (simp_all add: DIRECTION_RX_def direction_line_def directionString_def directionFromString_def match_simps)
  then show ?thesis
    by (cases x) (auto simp: md_line_def chain on_match_yes before_extmap EXTMAP_def MSID_RX_def direction_line_def directionString_def cong: on_match_cong)
qed

section \<open>Candidates\<close>

text \<open>Four groups of one to three digits.\<close>

definition wf_octet :: "string \<Rightarrow> bool" where
  "wf_octet a \<longleftrightarrow> a \<noteq> [] \<and> length a \<le> 3 \<and> list_all is_digit a"

definition wf_address :: "string \<Rightarrow> bool" where
  "wf_address s \<longleftrightarrow> length (pieces ''.'' s) = 4 \<and> list_all wf_octet (pieces ''.'' s)"

definition wf_ICECandidate :: "ICECandidate \<Rightarrow> bool" where
  "wf_ICECandidate x \<longleftrightarrow>
     foundation x \<noteq> [] \<and> list_all (\<lambda>c. is_digit c \<or> 97 \<le> code c \<and> code c \<le> 122 \<or> c = CHR ''/'' \<or> c = CHR ''+'') (foundation x) \<and>
     unat (componentId x) < 1000 \<and> (protocol x = ''tcp'' \<or> protocol x = ''udp'') \<and> unat (priority x) < 2 ^ 32 \<and>
     wf_address (address x) \<and>
     (ic_type x = ''host'' \<or> ic_type x = ''srflx'' \<or> ic_type x = ''prflx'' \<or> ic_type x = ''relay'') \<and> list_all is_dot (remainder x)"

lemma wf_addressE:
  assumes "wf_address s"
  obtains a b c d where "s = a @ ''.'' @ b @ ''.'' @ c @ ''.'' @ d" "wf_octet a" "wf_octet b" "wf_octet c" "wf_octet d"
proof -
  obtain a b c d where p: "pieces ''.'' s = [a, b, c, d]"
    using assms by (auto simp: wf_address_def length_Suc_conv eval_nat_numeral)
  then have "s = a @ ''.'' @ b @ ''.'' @ c @ ''.'' @ d"
    using join_pieces [of "''.''" s] by simp
  with p assms show ?thesis by (intro that [of a b c d]) (simp_all add: wf_address_def)
qed

lemma wf_address_no_nul: "wf_address s \<Longrightarrow> CHR 0x00 \<notin> set s"
  by (erule wf_addressE) (auto simp: wf_octet_def)

text \<open>The address and what follows it, and the end of the line.\<close>

lemma match_quad:
  assumes "wf_address s" and "t \<noteq> []" "\<not> is_digit (hd t)" and "avoids is_digit b"
  shows "regex_match (Seq quad b) (s @ t) = regex_match b t"
proof -
  obtain p q r u where s: "s = p @ ''.'' @ q @ ''.'' @ r @ ''.'' @ u" "wf_octet p" "wf_octet q" "wf_octet r" "wf_octet u"
    using wf_addressE [OF assms(1)] .
  then show ?thesis
    using assms(2-4) by (simp add: quad_def octet_def match_rep1 wf_octet_def)
qed

definition typ_rx :: rx where
  "typ_rx = cat [grp 7 (words [''host'', ''srflx'', ''prflx'', ''relay'']), opt (Cls is_space), grp 8 (Star (Cls is_dot))]"

definition tail_text :: "ICECandidate \<Rightarrow> string" where
  "tail_text x = (if remainder x \<noteq> [] then '' '' @ remainder x else [])"

definition typ_text :: "ICECandidate \<Rightarrow> string" where
  "typ_text x = ic_type x @ tail_text x"

definition typ_marks :: "ICECandidate \<Rightarrow> rx_mark list" where
  "typ_marks x = [Opened 7 (typ_text x), Closed 7 (tail_text x), Opened 8 (remainder x), Closed 8 []]"

lemma match_typ:
  assumes "wf_ICECandidate x"
  shows "regex_match typ_rx (typ_text x) = Some (typ_marks x)"
proof -
  have "ic_type x = ''host'' \<or> ic_type x = ''srflx'' \<or> ic_type x = ''prflx'' \<or> ic_type x = ''relay''" "list_all is_dot (remainder x)"
    using assms by (simp_all add: wf_ICECandidate_def)
  then show ?thesis
    by (cases "remainder x = []"; elim disjE) (simp_all add: typ_rx_def typ_text_def tail_text_def typ_marks_def match_simps)
qed

lemma typ_subs:
  "i < 7 \<Longrightarrow> opened i (typ_marks x) = None" "i < 7 \<Longrightarrow> closed i (typ_marks x) = None"
  "opened 7 (typ_marks x) = Some (typ_text x)" "closed 7 (typ_marks x) = Some (tail_text x)"
  "opened 8 (typ_marks x) = Some (remainder x)" "closed 8 (typ_marks x) = Some []"
  "take (length (typ_text x) - length (tail_text x)) (typ_text x) = ic_type x"
  by (simp_all add: typ_marks_def typ_text_def)

lemma ICECandidate_match:
  assumes "wf_ICECandidate x"
  shows "\<exists>m. regex_match ICE_CANDIDATE (ICECandidate_line x) = Some m \<and> sub m 1 = foundation x \<and> sub m 2 = dec (unat (componentId x)) \<and>
    sub m 3 = protocol x \<and> sub m 4 = dec (unat (priority x)) \<and> sub m 5 = address x \<and> sub m 6 = dec (unat (ic_port x)) \<and>
    sub m 7 = ic_type x \<and> sub m 8 = remainder x"
proof -
  have w: "foundation x \<noteq> []"
      "list_all (\<lambda>c. is_digit c \<or> 97 \<le> code c \<and> code c \<le> 122 \<or> c = CHR ''/'' \<or> c = CHR ''+'') (foundation x)"
      "unat (priority x) mod 2 ^ 32 = unat (priority x)" "wf_address (address x)"
    using assms by (simp_all add: wf_ICECandidate_def)
  have l: "length (dec (unat (componentId x))) \<le> 3"
    using assms length_dec [of "unat (componentId x)" 3] by (simp add: wf_ICECandidate_def)
  have rx: "ICE_CANDIDATE = Seq (Lit ''a=candidate:'')
     (Seq (grp 1 (plus (Cls (\<lambda>c. is_digit c \<or> 97 \<le> code c \<and> code c \<le> 122 \<or> c = CHR ''/'' \<or> c = CHR ''+''))))
     (Seq (Lit '' '') (Seq (grp 2 octet) (Seq (Lit '' '') (Seq (grp 3 (words [''tcp'', ''udp''])) (Seq (Lit '' '') (Seq (grp 4 digits) (Seq (Lit '' '')
     (Seq (grp 5 quad) (Seq (Lit '' '') (Seq (grp 6 (rep1 5 (Cls is_digit))) (Seq (Lit '' typ '') typ_rx))))))))))))"
    by (simp add: ICE_CANDIDATE_def typ_rx_def)
  have "c_str (foundation x) = foundation x" "c_str (protocol x) = protocol x" "c_str (address x) = address x" "c_str (ic_type x) = ic_type x"
    using assms wf_address_no_nul by (auto simp: wf_ICECandidate_def)
  then have line: "ICECandidate_line x = ''a=candidate:'' @ foundation x @ '' '' @ dec (unat (componentId x)) @ '' '' @ protocol x @ '' '' @
     dec (unat (priority x)) @ '' '' @ address x @ '' '' @ dec (unat (ic_port x)) @ '' typ '' @ typ_text x"
    using w(3) by (simp add: ICECandidate_line_def typ_text_def tail_text_def)
  have "protocol x = ''tcp'' \<or> protocol x = ''udp''"
    using assms by (simp_all add: wf_ICECandidate_def)
  then show ?thesis
    unfolding rx line
    using w l length_dec16 [of "ic_port x"] match_typ [OF assms]
    by (elim disjE) (simp_all add: match_quad octet_def match_simps typ_subs)
qed

lemma ICECandidate_roundtrip:
  assumes "wf_ICECandidate x"
  shows "ICECandidate_of (ICECandidate_line x) = Inr x"
  using ICECandidate_match [OF assms] by (auto simp: ICECandidate_of_def)

lemma md_line_candidate:
  assumes "wf_ICECandidate x"
  shows "md_line (ICECandidate_line x) st = Inr (st\<lparr> iceCandidateLines := iceCandidateLines st @ [ICECandidate_line x] \<rparr>)"
proof -
  obtain r where l: "ICECandidate_line x = ''a=candidate:'' @ r" by (simp add: ICECandidate_line_def)
  have "matches ICE_CANDIDATE (ICECandidate_line x)" using ICECandidate_match [OF assms] by (auto simp: matches_def)
  then show ?thesis
    unfolding l by (simp add: md_line_def chain before_extmap EXTMAP_def MSID_RX_def DIRECTION_RX_def cong: on_match_cong)
qed

lemma candidates_roundtrip: "list_all wf_ICECandidate cs \<Longrightarrow> candidates_of (map ICECandidate_line cs) = Inr cs"
  by (induction cs) (auto simp: ICECandidate_roundtrip)

section \<open>Media formats\<close>

lemmas before_ssrc = before_extmap EXTMAP_def MSID_RX_def DIRECTION_RX_def ICE_CANDIDATE_def

definition wf_fb :: "string \<Rightarrow> bool" where
  "wf_fb t \<longleftrightarrow> t \<noteq> [] \<and> list_all (\<lambda>c. is_word c \<or> is_space c \<or> c = CHR ''-'') t \<and> list_all is_dot t"

definition wf_param :: "string \<Rightarrow> bool" where
  "wf_param t \<longleftrightarrow> t \<noteq> [] \<and> list_all is_dot t \<and> CHR 0x00 \<notin> set t"

definition wf_MediaFormat :: "MediaFormat \<Rightarrow> bool" where
  "wf_MediaFormat f \<longleftrightarrow> codec f \<noteq> [] \<and> list_all is_word (codec f) \<and> list_all wf_fb (fbTypes f) \<and> list_all wf_param (fmtParams f)"

definition map_text :: "MediaFormat \<Rightarrow> string" where
  "map_text f = ''a=rtpmap:'' @ dec (unat (pt f)) @ '' '' @ c_str (codec f) @ ''/'' @ dec (unat (clockRate f)) @
        (case channels f of Some n \<Rightarrow> ''/'' @ dec (unat n) | None \<Rightarrow> [])"

definition fb_text :: "u32 \<Rightarrow> string \<Rightarrow> string" where
  "fb_text p t = ''a=rtcp-fb:'' @ dec (unat p) @ '' '' @ c_str t"

definition param_text :: "u32 \<Rightarrow> string \<Rightarrow> string" where
  "param_text p t = ''a=fmtp:'' @ dec (unat p) @ '' '' @ c_str t"

lemma MediaFormat_lines_eq:
  "MediaFormat_lines f = map_text f # map (fb_text (pt f)) (fbTypes f) @ map (param_text (pt f)) (fmtParams f)"
  by (simp add: MediaFormat_lines_def map_text_def fb_text_def param_text_def)

lemma stoul_ucast [simp]: "stoul (dec (unat (v :: u32))) = Inr (ucast v)"
proof -
  have "unat v < 2 ^ 64" using unat_lt2p [of v] by simp
  then show ?thesis using stoul_dec [of "unat v" "[]"] by simp
qed

lemma fmt_line_map:
  assumes "codec f \<noteq> []" "list_all is_word (codec f)"
  shows "fmt_line (map_text f) g = Inr (g\<lparr> pt := pt f, codec := codec f, clockRate := clockRate f,
    channels := (case channels f of None \<Rightarrow> channels g | Some n \<Rightarrow> Some n) \<rparr>)"
  using assms by (cases "channels f") (simp_all add: fmt_line_def map_text_def RTP_MAP_def match_simps)

lemma fmt_line_fb: "wf_fb t \<Longrightarrow> pt g = p \<Longrightarrow> fmt_line (fb_text p t) g = Inr (g\<lparr> fbTypes := fbTypes g @ [t] \<rparr>)"
  by (simp add: wf_fb_def fmt_line_def fb_text_def RTP_MAP_def RTCP_FB_def match_simps)

lemma fmt_line_param: "wf_param t \<Longrightarrow> pt g = p \<Longrightarrow> fmt_line (param_text p t) g = Inr (g\<lparr> fmtParams := fmtParams g @ [t] \<rparr>)"
  by (simp add: wf_param_def fmt_line_def param_text_def RTP_MAP_def RTCP_FB_def RTP_FMTP_def match_simps)

lemma fmt_loop_fb:
  "list_all wf_fb ts \<Longrightarrow> pt g = p \<Longrightarrow> fmt_loop (map (fb_text p) ts @ ls) g = fmt_loop ls (g\<lparr> fbTypes := fbTypes g @ ts \<rparr>)"
  by (induction ts arbitrary: g) (auto simp: fmt_line_fb)

lemma fmt_loop_param:
  "list_all wf_param ts \<Longrightarrow> pt g = p \<Longrightarrow> fmt_loop (map (param_text p) ts) g = Inr (g\<lparr> fmtParams := fmtParams g @ ts \<rparr>)"
  by (induction ts arbitrary: g) (auto simp: fmt_line_param)

lemma MediaFormat_roundtrip: "wf_MediaFormat f \<Longrightarrow> MediaFormat_of (MediaFormat_lines f) = Inr f"
  by (cases f; cases "channels f")
    (simp_all add: wf_MediaFormat_def MediaFormat_of_def MediaFormat_lines_eq fmt_line_map fmt_loop_fb fmt_loop_param MediaFormat_default_def)

text \<open>Format lines in a media description: a new format flushes the lines of the one before.\<close>

lemma md_line_map:
  assumes "codec f \<noteq> []" "list_all is_word (codec f)"
  shows "md_line (map_text f) st = rbind (flush_format st) (\<lambda>st. Inr (st\<lparr> currentFormatLines := currentFormatLines st @ [map_text f] \<rparr>))"
proof -
  have w: "list_all is_dot (codec f)" using assms(2) word_dot(1) by (auto simp: list_all_iff)
  have m: "matches MEDIA_FORMAT (map_text f)" "matches RTP_MAP (map_text f)"
    using assms w by (cases "channels f"; simp add: map_text_def MEDIA_FORMAT_def RTP_MAP_def matches_def match_simps)+
  obtain r where l: "map_text f = ''a=rtpmap:'' @ r" by (simp add: map_text_def)
  show ?thesis
    using m unfolding l by (simp add: md_line_def chain before_ssrc SSRC_RX_def cong: on_match_cong)
qed

lemma md_line_fb: "wf_fb t \<Longrightarrow> md_line (fb_text p t) st = Inr (st\<lparr> currentFormatLines := currentFormatLines st @ [fb_text p t] \<rparr>)"
proof -
  assume "wf_fb t"
  then have m: "matches MEDIA_FORMAT (fb_text p t)" "\<not> matches RTP_MAP (fb_text p t)"
    by (simp_all add: wf_fb_def fb_text_def MEDIA_FORMAT_def RTP_MAP_def matches_def match_simps)
  obtain r where l: "fb_text p t = ''a=rtcp-fb:'' @ r" by (simp add: fb_text_def)
  show ?thesis
    using m unfolding l by (simp add: md_line_def chain before_ssrc SSRC_RX_def cong: on_match_cong)
qed

lemma md_line_param:
  "wf_param t \<Longrightarrow> md_line (param_text p t) st = Inr (st\<lparr> currentFormatLines := currentFormatLines st @ [param_text p t] \<rparr>)"
proof -
  assume "wf_param t"
  then have m: "matches MEDIA_FORMAT (param_text p t)" "\<not> matches RTP_MAP (param_text p t)"
    by (simp_all add: wf_param_def param_text_def MEDIA_FORMAT_def RTP_MAP_def matches_def match_simps)
  obtain r where l: "param_text p t = ''a=fmtp:'' @ r" by (simp add: param_text_def)
  show ?thesis
    using m unfolding l by (simp add: md_line_def chain before_ssrc SSRC_RX_def cong: on_match_cong)
qed

lemma rbind_assoc: "rbind (rbind a f) g = rbind a (\<lambda>x. rbind (f x) g)"
  by (cases a) auto

lemma md_loop_append: "md_loop (a @ b) st = rbind (md_loop a st) (md_loop b)"
proof (induction a arbitrary: st)
  case (Cons l ls)
  then show ?case by (cases "md_line l st") simp_all
qed simp

lemma md_loop_fb: "list_all wf_fb ts \<Longrightarrow>
    md_loop (map (fb_text p) ts) st = Inr (st\<lparr> currentFormatLines := currentFormatLines st @ map (fb_text p) ts \<rparr>)"
  by (induction ts arbitrary: st) (auto simp: md_line_fb)

lemma md_loop_param: "list_all wf_param ts \<Longrightarrow>
    md_loop (map (param_text p) ts) st = Inr (st\<lparr> currentFormatLines := currentFormatLines st @ map (param_text p) ts \<rparr>)"
  by (induction ts arbitrary: st) (auto simp: md_line_param)

lemma md_loop_format:
  assumes "wf_MediaFormat f"
  shows "md_loop (MediaFormat_lines f) st =
    rbind (flush_format st) (\<lambda>st. Inr (st\<lparr> currentFormatLines := currentFormatLines st @ MediaFormat_lines f \<rparr>))"
proof -
  have w: "codec f \<noteq> []" "list_all is_word (codec f)" "list_all wf_fb (fbTypes f)" "list_all wf_param (fmtParams f)"
    using assms by (simp_all add: wf_MediaFormat_def)
  show ?thesis
    by (simp add: MediaFormat_lines_eq md_line_map [OF w(1,2)] md_loop_append md_loop_fb [OF w(3)] md_loop_param [OF w(4)] rbind_assoc)
qed

text \<open>The state after all formats: the last one is still pending.\<close>

definition pending :: "MediaFormat list \<Rightarrow> md_state \<Rightarrow> md_state" where
  "pending fs st = (if fs = [] then st else
     (upd_md (\<lambda>d. d\<lparr> mediaFormats := mediaFormats d @ butlast fs \<rparr>) st)\<lparr> currentFormatLines := MediaFormat_lines (last fs) \<rparr>)"

lemma flush_pending:
  assumes "wf_MediaFormat f"
  shows "flush_format (st\<lparr> currentFormatLines := MediaFormat_lines f \<rparr>) =
    Inr ((upd_md (\<lambda>d. d\<lparr> mediaFormats := mediaFormats d @ [f] \<rparr>) st)\<lparr> currentFormatLines := [] \<rparr>)"
  using MediaFormat_roundtrip [OF assms] by (simp add: flush_format_def upd_md_def MediaFormat_lines_eq)

lemma md_loop_formats:
  assumes "list_all wf_MediaFormat fs" and "currentFormatLines st = []"
  shows "md_loop (concat (map MediaFormat_lines fs)) st = Inr (pending fs st)"
  using assms(1)
proof (induction fs rule: rev_induct)
  case Nil
  then show ?case by (simp add: pending_def)
next
  case (snoc f fs)
  then have IH: "md_loop (concat (map MediaFormat_lines fs)) st = Inr (pending fs st)" and f: "wf_MediaFormat f" by simp_all
  show ?case
  proof (cases "fs = []")
    case True
    then show ?thesis
      using assms(2) md_loop_format [OF f, of st] by (simp add: pending_def flush_format_def upd_md_def)
  next
    case False
    then have "wf_MediaFormat (last fs)" using snoc.prems by (simp add: list_all_iff)
    then show ?thesis
      using IH False md_loop_format [OF f] flush_pending [of "last fs"]
      by (simp add: md_loop_append pending_def upd_md_def butlast_append)
  qed
qed

section \<open>SSRC descriptions\<close>

definition wf_attr :: "string \<Rightarrow> bool" where
  "wf_attr v \<longleftrightarrow> list_all (\<lambda>c. is_word c \<or> is_space c \<or> c = CHR ''-'' \<or> c = CHR ''+'') v \<and> list_all is_dot v"

definition wf_SSRCDescription :: "SSRCDescription \<Rightarrow> bool" where
  "wf_SSRCDescription x \<longleftrightarrow> ssrcs x \<noteq> [] \<and> distinct (map e_ssrc (ssrcs x)) \<and>
     list_all (\<lambda>e. wf_attr (cname e) \<and> wf_attr (e_msid e)) (ssrcs x) \<and>
     (length (ssrcs x) = 1 \<longrightarrow> cname (hd (ssrcs x)) \<noteq> [] \<or> e_msid (hd (ssrcs x)) \<noteq> [])"

definition group_text :: "u32 list \<Rightarrow> string" where
  "group_text xs = joinStrings (map (\<lambda>x. dec (unat x)) xs) '' ''"

definition attr_text :: "u32 \<Rightarrow> string \<Rightarrow> string \<Rightarrow> string" where
  "attr_text x key v = ''a=ssrc:'' @ dec (unat x) @ '' '' @ key @ '':'' @ c_str v"

lemma SSRCDescription_lines_eq:
  "SSRCDescription_lines x =
     (if 1 < length (ssrcs x) then [''a=ssrc-group:FID '' @ group_text (map e_ssrc (ssrcs x))] else []) @ concat (map attr_lines (ssrcs x))"
  by (simp add: SSRCDescription_lines_def group_text_def comp_def)

lemma attr_lines_eq:
  "attr_lines e = (if cname e \<noteq> [] then [attr_text (e_ssrc e) ''cname'' (cname e)] else []) @
     (if e_msid e \<noteq> [] then [attr_text (e_ssrc e) ''msid'' (e_msid e)] else [])"
  by (simp add: attr_lines_def attr_text_def)

definition sep_rx :: rx where
  "sep_rx = Seq (Cls is_space) (plus (Cls is_digit))"

lemma eats_sep [simp]: "eats sep_rx"
  by (simp add: sep_rx_def)

lemma match_seps:
  assumes "regex_match b [] \<noteq> None" and "avoids is_digit b"
  shows "regex_match (Seq (Star sep_rx) b) (concat (map (\<lambda>x. '' '' @ dec (unat x)) (xs :: u32 list))) = regex_match b []"
proof (induction xs)
  case Nil
  then show ?case by (simp add: match_Star) (simp add: sep_rx_def)
next
  case (Cons x xs)
  let ?t = "concat (map (\<lambda>x. '' '' @ dec (unat x)) xs)"
  have t: "?t = [] \<or> \<not> is_digit (hd ?t)" by (cases xs) simp_all
  have av: "avoids is_digit (Seq (Star sep_rx) b)"
    using assms(2) digit_classes(3) by (intro av_Star) (auto simp: sep_rx_def)
  have "regex_match (Seq sep_rx (Seq (Star sep_rx) b)) ('' '' @ dec (unat x) @ ?t) = regex_match b []"
    using Cons.IH match_plus [OF av _ _ t, of "dec (unat x)"] by (subst sep_rx_def) simp
  then show ?case using assms(1) by (auto simp: match_Star [of sep_rx])
qed

lemma group_text_Cons: "group_text (x # xs) = dec (unat x) @ concat (map (\<lambda>x. '' '' @ dec (unat x)) xs)"
  unfolding group_text_def by (induction xs arbitrary: x) simp_all

lemma SSRC_GROUP_match:
  "\<exists>m. regex_match SSRC_GROUP (''a=ssrc-group:FID '' @ group_text (x # y # ys)) = Some m \<and> sub m 2 = group_text (x # y # ys)"
proof -
  let ?b = "Seq (Close 2) Eps" and ?t = "concat (map (\<lambda>x. '' '' @ dec (unat x)) ys)"
  have rx: "SSRC_GROUP = cat [Lit ''a=ssrc-group:'', grp 1 (words [''FID'', ''FEC'']), Lit '' '', grp 2 (Seq digits (plus sep_rx))]"
    by (simp add: SSRC_GROUP_def sep_rx_def digits_def)
  have av: "avoids is_digit (Seq (plus sep_rx) ?b)" "avoids is_digit (Seq (Star sep_rx) ?b)"
    using digit_classes(3) by (auto simp: plus_def sep_rx_def intro!: av_Star)
  have t: "?t = [] \<or> \<not> is_digit (hd ?t)" by (cases ys) simp_all
  have "regex_match (Seq (plus sep_rx) ?b) ('' '' @ dec (unat y) @ ?t) = regex_match ?b []"
    using match_seps [of ?b ys] match_plus [OF av(2) _ _ t, of "dec (unat y)"] by (subst plus_def, subst sep_rx_def) simp
  then have "regex_match (Seq digits (Seq (plus sep_rx) ?b)) (group_text (x # y # ys)) = regex_match ?b []"
    using match_plus [OF av(1), of "dec (unat x)" "'' '' @ dec (unat y) @ ?t"] by (simp add: group_text_Cons digits_def)
  then show ?thesis
    unfolding rx by (simp add: sub_def group_def)
qed

definition blank :: "u32 \<Rightarrow> SSRCEntry" where
  "blank x = \<lparr> e_ssrc = x, cname = [], e_msid = [] \<rparr>"

lemma ssrc_parts_dec: "ssrc_parts (map (\<lambda>x. dec (unat x)) xs) es = Inr (es @ map blank xs)"
  by (induction xs arbitrary: es) (simp_all add: blank_def)

lemma split_group:
  assumes "xs \<noteq> []"
  shows "splitString (group_text xs) '' '' = Some (map (\<lambda>x. dec (unat x)) xs)"
proof -
  have "CHR '' '' \<notin> set (dec n)" for n
    using dec_digits [of "CHR '' ''" n] by auto
  then show ?thesis
    using assms pieces_join [of "map (\<lambda>x. dec (unat x)) xs" "CHR '' ''"] by (simp add: splitString_pieces group_text_def)
qed

lemma ssrc_line_group: "ssrc_line (''a=ssrc-group:FID '' @ group_text (x # y # ys)) es = Inr (es @ map blank (x # y # ys))"
  using SSRC_GROUP_match [of x y ys] split_group [of "x # y # ys"] ssrc_parts_dec [of "x # y # ys" es]
  by (auto simp: ssrc_line_def)

lemma ssrc_line_attr:
  assumes "v \<noteq> []" and "wf_attr v" and "key = ''cname'' \<or> key = ''msid''"
  shows "ssrc_line (attr_text x key v) es = Inr (upd_ssrc x (set_attr key v) es)"
  using assms
  by (elim disjE) (simp_all add: ssrc_line_def attr_text_def wf_attr_def SSRC_GROUP_def SSRC_ATTR_def match_simps)

lemma upd_ssrc_at: "x \<notin> e_ssrc ` set a \<Longrightarrow> e_ssrc e = x \<Longrightarrow> upd_ssrc x f (a @ e # b) = a @ f e # b"
  by (induction a) auto

lemma upd_ssrc_new: "x \<notin> e_ssrc ` set a \<Longrightarrow> upd_ssrc x f a = a @ [f (blank x)]"
  by (induction a) (auto simp: blank_def)

text \<open>The attributes of one entry, which is already in the list.\<close>

lemma ssrc_loop_append: "ssrc_loop (a @ b) es = rbind (ssrc_loop a es) (ssrc_loop b)"
proof (induction a arbitrary: es)
  case (Cons l ls)
  then show ?case by (cases "ssrc_line l es") simp_all
qed simp

lemma ssrc_loop_entry:
  assumes "wf_attr (cname e)" "wf_attr (e_msid e)" "e_ssrc e \<notin> e_ssrc ` set a"
  shows "ssrc_loop (attr_lines e) (a @ blank (e_ssrc e) # b) = Inr (a @ e # b)"
  using assms
  by (cases e; cases "cname e = []"; cases "e_msid e = []")
    (simp_all add: attr_lines_eq ssrc_line_attr upd_ssrc_at set_attr_def blank_def)

lemma ssrc_loop_entries:
  assumes "list_all (\<lambda>e. wf_attr (cname e) \<and> wf_attr (e_msid e)) es" "distinct (map e_ssrc (a @ es))"
  shows "ssrc_loop (concat (map attr_lines es)) (a @ map (\<lambda>e. blank (e_ssrc e)) es) = Inr (a @ es)"
  using assms
proof (induction es arbitrary: a)
  case (Cons e es)
  have "ssrc_loop (attr_lines e) (a @ blank (e_ssrc e) # map (\<lambda>e. blank (e_ssrc e)) es) = Inr (a @ e # map (\<lambda>e. blank (e_ssrc e)) es)"
    using Cons.prems by (intro ssrc_loop_entry) auto
  then show ?case
    using Cons.IH [of "a @ [e]"] Cons.prems by (simp add: ssrc_loop_append)
qed simp

lemma SSRCDescription_roundtrip:
  assumes "wf_SSRCDescription x"
  shows "SSRCDescription_of (SSRCDescription_lines x) = Inr x"
proof -
  have w: "list_all (\<lambda>e. wf_attr (cname e) \<and> wf_attr (e_msid e)) (ssrcs x)" "distinct (map e_ssrc (ssrcs x))"
    using assms by (simp_all add: wf_SSRCDescription_def)
  have "ssrc_loop (SSRCDescription_lines x) [] = Inr (ssrcs x)"
  proof (cases "length (ssrcs x) = 1")
    case True
    then obtain e where e: "ssrcs x = [e]" by (auto simp: length_Suc_conv)
    then have "cname e \<noteq> [] \<or> e_msid e \<noteq> []" "wf_attr (cname e)" "wf_attr (e_msid e)"
      using assms by (auto simp: wf_SSRCDescription_def)
    then show ?thesis
      using e by (cases e; cases "cname e = []"; cases "e_msid e = []")
        (simp_all add: SSRCDescription_lines_eq attr_lines_eq ssrc_line_attr set_attr_def)
  next
    case False
    then obtain e f es where x: "ssrcs x = e # f # es"
      using assms by (cases "ssrcs x" rule: remdups_adj.cases) (auto simp: wf_SSRCDescription_def)
    then show ?thesis
      using ssrc_loop_entries [of "ssrcs x" "[]"] w ssrc_line_group [of "e_ssrc e" "e_ssrc f" "map e_ssrc es" "[]"]
      by (simp add: SSRCDescription_lines_eq comp_def)
  qed
  then show ?thesis by (simp add: SSRCDescription_of_def)
qed

lemma md_line_ssrc:
  assumes "r \<noteq> []" "list_all is_dot r"
  shows "md_line (''a=ssrc'' @ r) st = Inr (st\<lparr> ssrcLines := ssrcLines st @ [''a=ssrc'' @ r] \<rparr>)"
proof -
  have "matches SSRC_RX (''a=ssrc'' @ r)"
    using assms by (simp add: SSRC_RX_def matches_def match_simps)
  then show ?thesis
    by (simp add: md_line_def chain before_ssrc cong: on_match_cong)
qed

lemma md_loop_ssrc:
  "list_all (\<lambda>l. \<exists>r. l = ''a=ssrc'' @ r \<and> r \<noteq> [] \<and> list_all is_dot r) ls \<Longrightarrow>
   md_loop ls st = Inr (st\<lparr> ssrcLines := ssrcLines st @ ls \<rparr>)"
  by (induction ls arbitrary: st) (auto simp: md_line_ssrc [simplified])

lemma group_text_dot: "list_all is_dot (group_text xs)"
proof -
  have "list_all is_dot (concat (map (\<lambda>x. '' '' @ dec (unat x)) (xs :: u32 list)))" for xs
    by (induction xs) simp_all
  then show ?thesis by (cases xs) (simp_all add: group_text_Cons, simp add: group_text_def)
qed

lemma SSRCDescription_lines_form:
  assumes "wf_SSRCDescription x"
  shows "list_all (\<lambda>l. \<exists>r. l = ''a=ssrc'' @ r \<and> r \<noteq> [] \<and> list_all is_dot r) (SSRCDescription_lines x)"
    and "SSRCDescription_lines x \<noteq> []"
proof -
  have "list_all (\<lambda>l. \<exists>r. l = ''a=ssrc'' @ r \<and> r \<noteq> [] \<and> list_all is_dot r) (attr_lines e)"
    if "wf_attr (cname e)" "wf_attr (e_msid e)" for e
    using that by (simp add: attr_lines_eq attr_text_def wf_attr_def)
  then show "list_all (\<lambda>l. \<exists>r. l = ''a=ssrc'' @ r \<and> r \<noteq> [] \<and> list_all is_dot r) (SSRCDescription_lines x)"
    using assms group_text_dot by (auto simp: SSRCDescription_lines_eq wf_SSRCDescription_def list_all_iff)
  show "SSRCDescription_lines x \<noteq> []"
    using assms by (cases "ssrcs x") (auto simp: SSRCDescription_lines_eq wf_SSRCDescription_def attr_lines_eq)
qed

section \<open>Whole media descriptions\<close>

lemmas before_ice_other = before_ssrc SSRC_RX_def MEDIA_FORMAT_def

definition wf_ice_other :: "string \<Rightarrow> bool" where
  "wf_ice_other l \<longleftrightarrow> prefix ''a=ice-'' l \<and> matches ICE_OTHER l \<and> \<not> matches ICE_UFRAG l \<and> \<not> matches ICE_PWD l"

lemma md_line_ice_other:
  assumes "wf_ice_other l"
  shows "md_line l st = Inr (upd_md (\<lambda>d. d\<lparr> iceOtherLines := iceOtherLines d @ [l] \<rparr>) st)"
proof -
  obtain r where l: "l = ''a=ice-'' @ r" using assms by (auto simp: wf_ice_other_def prefix_def)
  have "matches ICE_OTHER l" "regex_match ICE_UFRAG l = None" "regex_match ICE_PWD l = None"
    using assms by (simp_all add: wf_ice_other_def matches_def)
  then show ?thesis
    unfolding l by (simp add: md_line_def chain M_LINE_def C_LINE_def RTCP_RX_def MID_RX_def EXTMAP_def MSID_RX_def DIRECTION_RX_def
        ICE_CANDIDATE_def SSRC_RX_def MEDIA_FORMAT_def cong: on_match_cong)
qed

definition wf_rtcp_other :: "string \<Rightarrow> bool" where
  "wf_rtcp_other l \<longleftrightarrow> l = ''a=rtcp-mux'' \<or> l = ''a=rtcp-rsize''"

lemma md_line_rtcp_other:
  "wf_rtcp_other l \<Longrightarrow> md_line l st = Inr (upd_md (\<lambda>d. d\<lparr> rtcpOtherLines := rtcpOtherLines d @ [l] \<rparr>) st)"
  by (auto simp: wf_rtcp_other_def md_line_def chain before_ice_other ICE_OTHER_def RTCP_OTHER_def matches_def cong: on_match_cong)

definition wf_protocols :: "string \<Rightarrow> bool" where
  "wf_protocols p \<longleftrightarrow> p \<noteq> [] \<and> list_all (\<lambda>c. c = CHR ''/'' \<or> is_word c) p"

definition media_text :: "MDType \<Rightarrow> MediaDescription \<Rightarrow> string" where
  "media_text t d = ''m='' @ stringFromType t @ '' '' @ dec (unat (md_port d)) @ '' '' @ c_str (protocols d) @ '' '' @ payloadTypesString (mediaFormats d)"

lemma payload_text: "payloadTypesString fs = group_text (map pt fs)"
  by (simp add: payloadTypesString_def group_text_def comp_def)

lemma media_match:
  assumes "wf_protocols (protocols d)" "mediaFormats d \<noteq> []"
  shows "\<exists>m. regex_match M_LINE (media_text t d) = Some m \<and> sub m 1 = stringFromType t \<and> sub m 2 = dec (unat (md_port d)) \<and>
    sub m 3 = protocols d"
proof -
  let ?g = "payloadTypesString (mediaFormats d)"
  have g: "?g \<noteq> []" "list_all (\<lambda>c. is_digit c \<or> is_space c \<or> c \<in> set ''{1,3}?'') ?g"
  proof -
    have "list_all (\<lambda>c. is_digit c \<or> is_space c \<or> c \<in> set ''{1,3}?'') (concat (map (\<lambda>x. '' '' @ dec (unat x)) (xs :: u32 list)))" for xs
      using dec_digits by (induction xs) (auto simp: list_all_iff)
    moreover obtain x xs where "map pt (mediaFormats d) = x # xs" using assms(2) by (cases "mediaFormats d") auto
    ultimately show "?g \<noteq> []" "list_all (\<lambda>c. is_digit c \<or> is_space c \<or> c \<in> set ''{1,3}?'') ?g"
      using dec_digits unfolding payload_text by (auto simp: group_text_Cons list_all_iff)
  qed
  have av: "avoids is_digit (Seq (Cls is_space) b)" "avoids (\<lambda>c. c = CHR ''/'' \<or> is_word c) (Seq (Cls is_space) b)" for b
    using digit_classes(3) word_dot(2) by (auto intro!: av_Cls)
  show ?thesis
    using assms(1) g length_dec16 [of "md_port d"]
    by (cases t) (simp_all add: media_text_def M_LINE_def stringFromType_def wf_protocols_def match_simps av)
qed

lemma md_line_media:
  assumes "wf_protocols (protocols d)" "mediaFormats d \<noteq> []"
  shows "md_line (media_text t d) st = Inr (upd_md (\<lambda>x. x\<lparr> md_type := Some t, md_port := md_port d, protocols := protocols d \<rparr>) st)"
proof -
  obtain m where m: "regex_match M_LINE (media_text t d) = Some m" "sub m 1 = stringFromType t" "sub m 2 = dec (unat (md_port d))"
      "sub m 3 = protocols d"
    using media_match [OF assms, of t] by blast
  have "typeFromString (stringFromType t) = Inr t" by (cases t) (simp_all add: typeFromString_def stringFromType_def)
  then show ?thesis using m by (simp add: md_line_def on_match_yes)
qed

text \<open>
  What a media description needs to be read back: a type, at least one format, no lines the parser would
  not keep apart, and parts that are well-formed. The lines it did not understand are not printed.
\<close>

definition wf_MediaDescription :: "MediaDescription \<Rightarrow> bool" where
  "wf_MediaDescription d \<longleftrightarrow>
     md_type d \<noteq> None \<and> wf_protocols (protocols d) \<and> mediaFormats d \<noteq> [] \<and> list_all wf_MediaFormat (mediaFormats d) \<and>
     pred_option wf_ConnectionData (connectionData d) \<and> pred_option wf_RTCPConfiguration (rtcpConfiguration d) \<and>
     list_all wf_ICECandidate (iceCandidates d) \<and> pred_option wf_ice (iceUfrag d) \<and> pred_option wf_ice (icePwd d) \<and>
     list_all wf_ice_other (iceOtherLines d) \<and> pred_option wf_mid (mid d) \<and> list_all wf_RTPExtension (extensions d) \<and>
     pred_option wf_msid (md_msid d) \<and> list_all wf_rtcp_other (rtcpOtherLines d) \<and> pred_option wf_SSRCDescription (ssrcDescription d) \<and>
     md_otherLines d = []"

lemma md_loop_each:
  "(\<And>x st. x \<in> set xs \<Longrightarrow> md_line (f x) st = Inr (h x st)) \<Longrightarrow> md_loop (map f xs) st = Inr (fold h xs st)"
  by (induction xs arbitrary: st) simp_all

lemma fold_extensions:
  "fold (\<lambda>x. upd_md (\<lambda>d. d\<lparr> extensions := extensions d @ [x] \<rparr>)) xs st = upd_md (\<lambda>d. d\<lparr> extensions := extensions d @ xs \<rparr>) st"
  by (induction xs arbitrary: st) (simp_all add: upd_md_def)

lemma fold_ice_other:
  "fold (\<lambda>l. upd_md (\<lambda>d. d\<lparr> iceOtherLines := iceOtherLines d @ [l] \<rparr>)) ls st = upd_md (\<lambda>d. d\<lparr> iceOtherLines := iceOtherLines d @ ls \<rparr>) st"
  by (induction ls arbitrary: st) (simp_all add: upd_md_def)

lemma fold_rtcp_other:
  "fold (\<lambda>l. upd_md (\<lambda>d. d\<lparr> rtcpOtherLines := rtcpOtherLines d @ [l] \<rparr>)) ls st = upd_md (\<lambda>d. d\<lparr> rtcpOtherLines := rtcpOtherLines d @ ls \<rparr>) st"
  by (induction ls arbitrary: st) (simp_all add: upd_md_def)

lemma fold_candidates:
  "fold (\<lambda>c st. st\<lparr> iceCandidateLines := iceCandidateLines st @ [ICECandidate_line c] \<rparr>) cs st =
     st\<lparr> iceCandidateLines := iceCandidateLines st @ map ICECandidate_line cs \<rparr>"
  by (induction cs arbitrary: st) simp_all

text \<open>The parts of a printed media description, each with what it does to the state.\<close>

lemma loop_connection:
  "pred_option wf_ConnectionData a \<Longrightarrow> connectionData (md_obj st) = None \<Longrightarrow>
   md_loop (opt_line ConnectionData_line a) st = Inr (upd_md (\<lambda>d. d\<lparr> connectionData := a \<rparr>) st)"
  by (cases a) (simp_all add: opt_line_def md_line_connection upd_md_def)

lemma loop_rtcp:
  "pred_option wf_RTCPConfiguration a \<Longrightarrow> rtcpConfiguration (md_obj st) = None \<Longrightarrow>
   md_loop (opt_line RTCPConfiguration_line a) st = Inr (upd_md (\<lambda>d. d\<lparr> rtcpConfiguration := a \<rparr>) st)"
  by (cases a) (simp_all add: opt_line_def md_line_rtcp upd_md_def)

lemma loop_ufrag:
  "pred_option wf_ice a \<Longrightarrow> iceUfrag (md_obj st) = None \<Longrightarrow>
   md_loop (opt_line ufrag_line a) st = Inr (upd_md (\<lambda>d. d\<lparr> iceUfrag := a \<rparr>) st)"
  by (cases a) (simp_all add: opt_line_def md_line_ufrag upd_md_def)

lemma loop_pwd:
  "pred_option wf_ice a \<Longrightarrow> icePwd (md_obj st) = None \<Longrightarrow>
   md_loop (opt_line pwd_line a) st = Inr (upd_md (\<lambda>d. d\<lparr> icePwd := a \<rparr>) st)"
  by (cases a) (simp_all add: opt_line_def md_line_pwd upd_md_def)

lemma loop_mid:
  "pred_option wf_mid a \<Longrightarrow> mid (md_obj st) = None \<Longrightarrow>
   md_loop (opt_line mid_line a) st = Inr (upd_md (\<lambda>d. d\<lparr> mid := a \<rparr>) st)"
  by (cases a) (simp_all add: opt_line_def md_line_mid upd_md_def)

lemma loop_direction:
  "direction (md_obj st) = None \<Longrightarrow>
   md_loop (opt_line direction_line a) st = Inr (upd_md (\<lambda>d. d\<lparr> direction := a \<rparr>) st)"
  by (cases a) (simp_all add: opt_line_def md_line_direction upd_md_def)

lemma loop_msid:
  "pred_option wf_msid a \<Longrightarrow> md_msid (md_obj st) = None \<Longrightarrow>
   md_loop (opt_line MediaStreamIdentifier_line a) st = Inr (upd_md (\<lambda>d. d\<lparr> md_msid := a \<rparr>) st)"
  by (cases a) (simp_all add: opt_line_def md_line_msid upd_md_def)

lemma loop_candidates: "list_all wf_ICECandidate cs \<Longrightarrow>
    md_loop (map ICECandidate_line cs) st = Inr (st\<lparr> iceCandidateLines := iceCandidateLines st @ map ICECandidate_line cs \<rparr>)"
  using md_loop_each [of cs ICECandidate_line "\<lambda>c st. st\<lparr> iceCandidateLines := iceCandidateLines st @ [ICECandidate_line c] \<rparr>"]
  by (simp add: md_line_candidate fold_candidates list_all_iff)

lemma loop_extensions: "list_all wf_RTPExtension xs \<Longrightarrow>
    md_loop (map RTPExtension_line xs) st = Inr (upd_md (\<lambda>x. x\<lparr> extensions := extensions x @ xs \<rparr>) st)"
  using md_loop_each [of xs RTPExtension_line "\<lambda>x. upd_md (\<lambda>d. d\<lparr> extensions := extensions d @ [x] \<rparr>)"]
  by (simp add: md_line_extension fold_extensions list_all_iff)

lemma loop_ice_other: "list_all wf_ice_other ls \<Longrightarrow> md_loop ls st = Inr (upd_md (\<lambda>x. x\<lparr> iceOtherLines := iceOtherLines x @ ls \<rparr>) st)"
  using md_loop_each [of ls "\<lambda>l. l" "\<lambda>l. upd_md (\<lambda>d. d\<lparr> iceOtherLines := iceOtherLines d @ [l] \<rparr>)"]
  by (simp add: md_line_ice_other fold_ice_other list_all_iff)

lemma loop_rtcp_other: "list_all wf_rtcp_other ls \<Longrightarrow> md_loop ls st = Inr (upd_md (\<lambda>x. x\<lparr> rtcpOtherLines := rtcpOtherLines x @ ls \<rparr>) st)"
  using md_loop_each [of ls "\<lambda>l. l" "\<lambda>l. upd_md (\<lambda>d. d\<lparr> rtcpOtherLines := rtcpOtherLines d @ [l] \<rparr>)"]
  by (simp add: md_line_rtcp_other fold_rtcp_other list_all_iff)

lemma loop_ssrc: "pred_option wf_SSRCDescription a \<Longrightarrow>
    md_loop (case a of None \<Rightarrow> [] | Some x \<Rightarrow> SSRCDescription_lines x) st =
    Inr (case a of None \<Rightarrow> st | Some x \<Rightarrow> st\<lparr> ssrcLines := ssrcLines st @ SSRCDescription_lines x \<rparr>)"
  using SSRCDescription_lines_form by (cases a) (simp_all add: md_loop_ssrc)

lemmas md_parts = loop_connection loop_rtcp loop_candidates loop_ufrag loop_pwd loop_ice_other loop_mid loop_extensions loop_direction
  loop_msid loop_rtcp_other loop_ssrc

definition part_lines :: "MediaDescription \<Rightarrow> string list" where
  "part_lines d =
     opt_line ConnectionData_line (connectionData d) @ opt_line RTCPConfiguration_line (rtcpConfiguration d) @
     map ICECandidate_line (iceCandidates d) @ opt_line ufrag_line (iceUfrag d) @
     opt_line pwd_line (icePwd d) @ iceOtherLines d @ opt_line mid_line (mid d) @
     map RTPExtension_line (extensions d) @ opt_line direction_line (direction d) @
     opt_line MediaStreamIdentifier_line (md_msid d) @ rtcpOtherLines d @ concat (map MediaFormat_lines (mediaFormats d)) @
     (case ssrcDescription d of None \<Rightarrow> [] | Some x \<Rightarrow> SSRCDescription_lines x)"

lemma MediaDescription_lines_eq: "md_type d = Some t \<Longrightarrow> MediaDescription_lines d = Inr (media_text t d # part_lines d)"
  by (simp add: MediaDescription_lines_def media_text_def part_lines_def)

text \<open>The state after all lines of a description.\<close>

definition parsed_state :: "MediaDescription \<Rightarrow> md_state" where
  "parsed_state d = \<lparr> md_obj = d\<lparr> iceCandidates := [], mediaFormats := butlast (mediaFormats d), ssrcDescription := None \<rparr>,
      ssrcLines = (case ssrcDescription d of None \<Rightarrow> [] | Some x \<Rightarrow> SSRCDescription_lines x),
      iceCandidateLines = map ICECandidate_line (iceCandidates d), currentFormatLines = MediaFormat_lines (last (mediaFormats d)) \<rparr>"

lemma md_loop_parts:
  assumes "wf_MediaDescription d"
  shows "md_loop (part_lines d) \<lparr> md_obj = MediaDescription_default\<lparr> md_type := md_type d, md_port := md_port d, protocols := protocols d \<rparr>,
      ssrcLines = [], iceCandidateLines = [], currentFormatLines = [] \<rparr> = Inr (parsed_state d)"
  using assms
  by (simp add: wf_MediaDescription_def part_lines_def md_loop_append md_parts md_loop_formats upd_md_def MediaDescription_default_def)
    (cases d; simp add: pending_def upd_md_def parsed_state_def split: option.splits)

lemma md_finish_parsed:
  assumes "wf_MediaDescription d"
  shows "md_finish (parsed_state d) = Inr d"
proof -
  have w: "mediaFormats d \<noteq> []" "wf_MediaFormat (last (mediaFormats d))" "list_all wf_ICECandidate (iceCandidates d)"
      "pred_option wf_SSRCDescription (ssrcDescription d)"
    using assms by (auto simp: wf_MediaDescription_def list_all_iff)
  have "flush_format (parsed_state d) = Inr ((upd_md (\<lambda>x. x\<lparr> mediaFormats := mediaFormats d \<rparr>) (parsed_state d))\<lparr> currentFormatLines := [] \<rparr>)"
    using flush_pending [OF w(2), of "(parsed_state d)\<lparr> currentFormatLines := [] \<rparr>"] w(1)
    by (simp add: parsed_state_def upd_md_def)
  then show ?thesis
    using candidates_roundtrip [OF w(3)] w(4) SSRCDescription_roundtrip SSRCDescription_lines_form(2)
    by (cases "ssrcDescription d") (simp_all add: md_finish_def parsed_state_def upd_md_def)
qed

lemma MediaDescription_roundtrip:
  assumes "wf_MediaDescription d" and "MediaDescription_lines d = Inr ls"
  shows "MediaDescription_of ls = Inr d"
proof -
  obtain t where t: "md_type d = Some t" using assms(1) by (auto simp: wf_MediaDescription_def)
  then have "ls = media_text t d # part_lines d" using assms(2) MediaDescription_lines_eq by simp
  then show ?thesis
    using md_loop_parts [OF assms(1)] md_finish_parsed [OF assms(1)] assms(1) t
    by (simp add: MediaDescription_of_def md_line_media upd_md_def wf_MediaDescription_def)
qed

section \<open>Whole session descriptions\<close>

text \<open>Only the first line of a printed media description looks like the start of a media section.\<close>

lemma not_media [simp]:
  "\<not> prefix ''m='' l \<Longrightarrow> \<not> matches M_LINE l"
  by (simp add: matches_def M_LINE_def)

lemma part_lines_not_media:
  assumes "wf_MediaDescription d" and "l \<in> set (part_lines d)"
  shows "\<not> matches M_LINE l"
proof (rule not_media)
  have a: "\<not> prefix ''m='' k" if "prefix ''a='' k" for k using that by (auto simp: prefix_def)
  have ice: "prefix ''a='' k" if "k \<in> set (iceOtherLines d)" for k
    using assms(1) that by (auto simp: wf_MediaDescription_def wf_ice_other_def list_all_iff prefix_def)
  have ssrc: "prefix ''a='' k" if "k \<in> set (case ssrcDescription d of None \<Rightarrow> [] | Some x \<Rightarrow> SSRCDescription_lines x)" for k
    using assms(1) that SSRCDescription_lines_form(1)
    by (cases "ssrcDescription d") (fastforce simp: wf_MediaDescription_def list_all_iff)+
  show "\<not> prefix ''m='' l"
    using assms ice [THEN a] ssrc [THEN a]
    by (auto simp: wf_MediaDescription_def part_lines_def opt_line_def ConnectionData_line_def RTCPConfiguration_line_def
        ICECandidate_line_def ufrag_line_def pwd_line_def mid_line_def direction_line_def RTPExtension_line_def
        MediaStreamIdentifier_line_def MediaFormat_lines_def wf_rtcp_other_def list_all_iff split: option.splits)
qed

lemma sd_loop_section:
  assumes "\<forall>l \<in> set ls. \<not> matches M_LINE l" and "rest = [] \<or> matches M_LINE (hd rest)" and "ls = [] \<Longrightarrow> False"
  shows "sd_loop True sec (ls @ rest) st =
    rbind (MediaDescription_of (sec @ ls)) (\<lambda>d. sd_loop False [] rest (upd_sd (\<lambda>x. x\<lparr> mediaDescriptions := mediaDescriptions x @ [d] \<rparr>) st))"
  using assms
proof (induction ls arbitrary: sec)
  case (Cons l ls)
  then show ?case by (cases ls) auto
qed simp

end
