(* ===== verification/SDP_Session.thy ===== *)
theory SDP_Session
  imports SDP_Roundtrip
begin

text \<open>
  Parsing inverts printing for whole session descriptions.
\<close>

definition wf_SessionDescription :: "SessionDescription \<Rightarrow> bool" where
  "wf_SessionDescription d \<longleftrightarrow>
     version d = 0 \<and> wf_Origin (origin d) \<and> sessionName d \<noteq> [] \<and> list_all is_dot (sessionName d) \<and> timing d \<noteq> [] \<and>
     list_all wf_other (otherLines d) \<and> list_all (\<lambda>m. wf_MediaDescription m \<and> mid m \<noteq> None) (mediaDescriptions d)"

lemma sd_loop_head: "\<not> matches M_LINE l \<Longrightarrow> sd_loop False sec (l # ls) st = rbind (sd_line l st) (sd_loop False sec ls)"
  by simp

lemma sd_loop_each:
  assumes "\<And>x st. x \<in> set xs \<Longrightarrow> \<not> matches M_LINE (f x) \<and> sd_line (f x) st = Inr (upd_sd (h x) st)"
  shows "sd_loop False sec (map f xs @ ls) st = sd_loop False sec ls (fold (\<lambda>x. upd_sd (h x)) xs st)"
  using assms by (induction xs arbitrary: st) simp_all

lemma sd_loop_timing:
  "sd_loop False sec (map Timing_line ts @ ls) st = sd_loop False sec ls (upd_sd (\<lambda>d. d\<lparr> timing := timing d @ ts \<rparr>) st)"
proof -
  have "\<not> matches M_LINE (Timing_line x)" for x by (simp add: Timing_line_def)
  moreover have "fold (\<lambda>x. upd_sd (\<lambda>d. d\<lparr> timing := timing d @ [x] \<rparr>)) ts st = upd_sd (\<lambda>d. d\<lparr> timing := timing d @ ts \<rparr>) st"
    by (induction ts arbitrary: st) (simp_all add: upd_sd_def)
  ultimately show ?thesis
    using sd_loop_each [of ts Timing_line "\<lambda>x d. d\<lparr> timing := timing d @ [x] \<rparr>"] by (simp add: sd_line_timing)
qed

lemma sd_loop_other:
  assumes "list_all wf_other os"
  shows "sd_loop False sec (os @ ls) st = sd_loop False sec ls (upd_sd (\<lambda>d. d\<lparr> otherLines := otherLines d @ os \<rparr>) st)"
proof -
  have "fold (\<lambda>x. upd_sd (\<lambda>d. d\<lparr> otherLines := otherLines d @ [x] \<rparr>)) os st = upd_sd (\<lambda>d. d\<lparr> otherLines := otherLines d @ os \<rparr>) st"
    by (induction os arbitrary: st) (simp_all add: upd_sd_def)
  then show ?thesis
    using sd_loop_each [of os "\<lambda>l. l" "\<lambda>x d. d\<lparr> otherLines := otherLines d @ [x] \<rparr>"] assms
    by (simp add: sd_line_other list_all_iff wf_other_def)
qed

lemma bundle_dot:
  "list_all (\<lambda>m. wf_MediaDescription m \<and> mid m \<noteq> None) ds \<Longrightarrow> \<exists>b. bundle_mids ds = Inr b \<and> list_all is_dot b \<and> (ds \<noteq> [] \<longrightarrow> b \<noteq> [])"
  using word_dot(1) by (induction ds) (auto simp: wf_MediaDescription_def wf_mid_def list_all_iff)

lemma media_start:
  assumes "wf_MediaDescription d"
  shows "\<exists>t. MediaDescription_lines d = Inr (media_text t d # part_lines d) \<and> matches M_LINE (media_text t d) \<and> part_lines d \<noteq> []"
proof -
  obtain t where "md_type d = Some t" using assms by (auto simp: wf_MediaDescription_def)
  moreover have "matches M_LINE (media_text t d)"
    using media_match [of d t] assms by (auto simp: wf_MediaDescription_def matches_def)
  moreover have "part_lines d \<noteq> []"
    using assms by (cases "mediaFormats d") (auto simp: wf_MediaDescription_def part_lines_def MediaFormat_lines_eq)
  ultimately show ?thesis using MediaDescription_lines_eq by blast
qed

lemma media_lines_start:
  "list_all wf_MediaDescription ds \<Longrightarrow> \<exists>ml. media_lines ds = Inr ml \<and> (ml = [] \<or> matches M_LINE (hd ml))"
proof (induction ds)
  case (Cons d ds)
  then show ?case using media_start [of d] by auto
qed simp

lemma sd_loop_media:
  assumes "list_all wf_MediaDescription ds" and "media_lines ds = Inr ml"
  shows "sd_loop False [] ml st = Inr (upd_sd (\<lambda>x. x\<lparr> mediaDescriptions := mediaDescriptions x @ ds \<rparr>) st)"
  using assms
proof (induction ds arbitrary: ml st)
  case Nil
  then show ?case by (simp add: upd_sd_def)
next
  case (Cons d ds)
  then have d: "wf_MediaDescription d" by simp
  obtain t where t: "MediaDescription_lines d = Inr (media_text t d # part_lines d)" "matches M_LINE (media_text t d)" "part_lines d \<noteq> []"
    using media_start [OF d] by blast
  obtain ml' where ml': "media_lines ds = Inr ml'" "ml' = [] \<or> matches M_LINE (hd ml')"
    using media_lines_start Cons.prems(1) by auto
  have ml: "ml = media_text t d # part_lines d @ ml'" using Cons.prems(2) t(1) ml'(1) by simp
  have nm: "\<forall>l \<in> set (part_lines d). \<not> matches M_LINE l" using part_lines_not_media [OF d] by blast
  then have "\<not> matches M_LINE (hd (part_lines d @ ml'))" using t(3) by (simp add: hd_append)
  then have "sd_loop False [] ml st = sd_loop True [media_text t d] (part_lines d @ ml') st"
    using t(2,3) unfolding ml by simp
  also have "\<dots> = sd_loop False [] ml' (upd_sd (\<lambda>x. x\<lparr> mediaDescriptions := mediaDescriptions x @ [d] \<rparr>) st)"
    using sd_loop_section [OF nm ml'(2)] t(3) MediaDescription_roundtrip [OF d t(1)] by simp
  finally show ?case
    using Cons.IH [OF _ ml'(1)] Cons.prems(1) by (simp add: upd_sd_def)
qed

section \<open>The text\<close>

definition no_cr :: "string \<Rightarrow> bool" where
  "no_cr l \<longleftrightarrow> char_of (13 :: nat) \<notin> set l"

lemma find_crlf: "no_cr l \<Longrightarrow> find_sub crlf (l @ crlf @ rest) = Some (length l)"
  by (induction l) (auto simp: no_cr_def crlf_def)

lemma find_crlf_none: "no_cr l \<Longrightarrow> find_sub crlf l = None"
  by (induction l) (auto simp: no_cr_def crlf_def)

lemma pieces_crlf: "ls \<noteq> [] \<Longrightarrow> list_all no_cr ls \<Longrightarrow> pieces crlf (joinStrings ls crlf) = ls"
proof (induction ls)
  case (Cons l ls)
  have "crlf \<noteq> []" by (simp add: crlf_def)
  show ?case
  proof (cases "ls = []")
    case True
    then show ?thesis using Cons.prems find_crlf_none [of l] by (subst pieces.simps) simp
  next
    case False
    then show ?thesis
      using Cons \<open>crlf \<noteq> []\<close> find_crlf [of l "joinStrings ls crlf"] by (subst pieces.simps) (simp add: joinStrings_Cons)
  qed
qed simp

lemma SessionDescription_of_text:
  assumes "ls \<noteq> []" "list_all no_cr ls"
  shows "SessionDescription_of (joinStrings ls crlf) = SessionDescription_of_lines ls"
proof -
  have "crlf \<noteq> []" by (simp add: crlf_def)
  then show ?thesis using pieces_crlf [OF assms] by (simp add: SessionDescription_of_def splitString_pieces)
qed

lemma SessionDescription_roundtrip:
  assumes "wf_SessionDescription d"
  shows "\<exists>ls. SessionDescription_lines d = Inr ls \<and> SessionDescription_of_lines ls = Inr d"
proof -
  have w: "version d = 0" "wf_Origin (origin d)" "sessionName d \<noteq> []" "list_all is_dot (sessionName d)" "timing d \<noteq> []"
      "list_all wf_other (otherLines d)" "list_all (\<lambda>m. wf_MediaDescription m \<and> mid m \<noteq> None) (mediaDescriptions d)"
    using assms by (simp_all add: wf_SessionDescription_def)
  then have wm: "list_all wf_MediaDescription (mediaDescriptions d)" by (auto simp: list_all_iff)
  obtain b where b: "bundle_mids (mediaDescriptions d) = Inr b" "list_all is_dot b" "mediaDescriptions d \<noteq> [] \<longrightarrow> b \<noteq> []"
    using bundle_dot [OF w(7)] by blast
  obtain ml where ml: "media_lines (mediaDescriptions d) = Inr ml" using media_lines_start [OF wm] by blast
  let ?tail = "otherLines d @ ml"
  let ?groups = "if mediaDescriptions d \<noteq> [] then [''a=group:BUNDLE'' @ b] else []"
  have bnd: "sd_loop False [] (?groups @ ?tail) st = sd_loop False [] ?tail st" for st
    using sd_line_bundle [of b] b(2,3) by simp
  have "SessionDescription_lines d = Inr ([''v='' @ dec (unat (version d)), Origin_line (origin d), ''s='' @ sessionName d] @
      map Timing_line (timing d) @ ?groups @ ?tail)"
    using b(1) ml by (simp add: SessionDescription_lines_def)
  moreover have "\<not> matches M_LINE (Origin_line (origin d))" by (simp add: Origin_line_def)
  ultimately show ?thesis
    using w sd_line_version [of "version d"] sd_line_name [of "sessionName d"]
    by (simp add: SessionDescription_of_lines_def sd_line_origin sd_loop_timing bnd sd_loop_other
        sd_loop_media [OF wm ml] upd_sd_def SessionDescription_empty_def)
qed

text \<open>
  C34: a well-formed session description can be printed, and parsing its lines gives it back: version, origin,
  name, timings, and for every media section its candidates, formats, extensions, SSRCs and other
  parts, in order. The same holds for the text in which the lines are separated by CR LF, when no line contains a CR.
  The fields of a well-formed description are texts that the patterns of the parser take up as a whole; those printed by a \<open>%s\<close>, which
  stops at a NUL, have none.
\<close>

theorem sdp_lines_roundtrip:
  assumes "wf_SessionDescription d"
  shows "\<exists>ls. SessionDescription_lines d = Inr ls \<and> SessionDescription_of_lines ls = Inr d \<and>
    (list_all no_cr ls \<longrightarrow> SessionDescription_of (joinStrings ls crlf) = Inr d)"
proof -
  obtain ls where ls: "SessionDescription_lines d = Inr ls" "SessionDescription_of_lines ls = Inr d"
    using SessionDescription_roundtrip [OF assms] by blast
  then have "ls \<noteq> []" by (auto simp: SessionDescription_lines_def rbind_Inr_iff)
  then show ?thesis using ls SessionDescription_of_text by simp
qed

text \<open>A concrete description: one video section with a codec, a candidate and a direction.\<close>

definition demo_media :: MediaDescription where
  "demo_media = MediaDescription_default\<lparr> md_type := Some Type_video, md_port := 9, protocols := ''UDP/TLS/RTP/SAVPF'',
     iceCandidates := [\<lparr> foundation = ''1'', componentId = 1, protocol = ''udp'', priority = 2130706431, address = ''10.0.0.1'',
       ic_port = 3000, ic_type = ''host'', remainder = [] \<rparr>],
     mid := Some ''0'', direction := Some sendonly,
     mediaFormats := [\<lparr> pt = 45, codec = ''AV1'', clockRate = 90000, channels = None, fbTypes = [''nack''], fmtParams = [] \<rparr>] \<rparr>"

definition demo_sdp :: SessionDescription where
  "demo_sdp = SessionDescription_empty\<lparr> sessionName := ''s'', timing := [\<lparr> t_start = 0, t_stop = 0 \<rparr>],
     mediaDescriptions := [demo_media] \<rparr>"

theorem sdp_lines_roundtrip_witness:
  "wf_SessionDescription demo_sdp \<and> (\<exists>ls. SessionDescription_lines demo_sdp = Inr ls \<and> SessionDescription_of_lines ls = Inr demo_sdp)"
proof -
  have "pieces ''.'' (joinStrings [''10'', ''0'', ''0'', ''1''] ''.'') = [''10'', ''0'', ''0'', ''1'']"
    by (rule pieces_join) simp_all
  then have "wf_address ''10.0.0.1''" by (simp add: wf_address_def wf_octet_def is_digit_def code_def)
  then have "wf_SessionDescription demo_sdp"
    by (simp add: wf_SessionDescription_def demo_sdp_def demo_media_def wf_MediaDescription_def MediaDescription_default_def SessionDescription_empty_def
        Origin_default_def wf_Origin_def wf_protocols_def wf_MediaFormat_def wf_fb_def wf_ICECandidate_def wf_mid_def is_word_def is_dot_def is_digit_def
        is_space_def code_def)
  then show ?thesis using sdp_lines_roundtrip by blast
qed

end
