(* ===== verification/Sample_Call.thy ===== *)
theory Sample_Call
  imports Controller_Events SDP_Session
begin

text \<open>
  A concrete call: a controller with one switch and two participants in a session, an offer with one
  video stream and the answer to it, as texts.
\<close>

section \<open>The texts\<close>

definition sdp_text :: "SessionDescription \<Rightarrow> string" where
  "sdp_text d = (case SessionDescription_lines d of Inr ls \<Rightarrow> joinStrings ls crlf | Inl _ \<Rightarrow> [])"

definition plain :: "string \<Rightarrow> bool" where
  "plain l \<longleftrightarrow> ascii l \<and> no_cr l"

lemma plain_simps [simp]:
  "plain []" "plain (c # s) \<longleftrightarrow> of_char c < (128 :: nat) \<and> of_char c \<noteq> (13 :: nat) \<and> plain s" "plain (s @ t) \<longleftrightarrow> plain s \<and> plain t" "plain (dec n)"
proof -
  show "plain (c # s) \<longleftrightarrow> of_char c < (128 :: nat) \<and> of_char c \<noteq> (13 :: nat) \<and> plain s" by (auto simp: plain_def no_cr_def) (metis char_of_char)
  have "code c = 13 \<Longrightarrow> c \<notin> set (dec n)" for c by (auto dest!: dec_digits simp: is_digit_def)
  then show "plain (dec n)" by (auto simp: plain_def no_cr_def code_def)
qed (auto simp: plain_def no_cr_def)

lemma ascii_join: "list_all ascii ls \<Longrightarrow> ascii j \<Longrightarrow> ascii (joinStrings ls j)"
  by (induction ls j rule: joinStrings.induct) simp_all

lemma sdp_text_parsed:
  assumes "wf_SessionDescription d" "SessionDescription_lines d = Inr ls" "list_all plain ls"
  shows "SessionDescription_of (sdp_text d) = Inr d" "ascii (sdp_text d)"
proof -
  have "ls \<noteq> []" using assms(2) by (auto simp: SessionDescription_lines_def rbind_Inr_iff)
  moreover have "list_all no_cr ls" "list_all ascii ls" using assms(3) by (auto simp: plain_def list_all_iff)
  moreover have "ascii crlf" by (simp add: crlf_def)
  moreover have "SessionDescription_of_lines ls = Inr d" using SessionDescription_roundtrip [OF assms(1)] assms(2) by simp
  ultimately show "SessionDescription_of (sdp_text d) = Inr d" "ascii (sdp_text d)"
    using SessionDescription_of_text [of ls] ascii_join assms(2) by (simp_all add: sdp_text_def)
qed

definition call_candidate :: "string \<Rightarrow> ICECandidate" where
  "call_candidate a = \<lparr> foundation = ''1'', componentId = 1, protocol = ''udp'', priority = 2130706431, address = a,
     ic_port = 3000, ic_type = ''host'', remainder = [] \<rparr>"

definition call_media :: "string \<Rightarrow> Direction \<Rightarrow> SSRCDescription option \<Rightarrow> MediaDescription" where
  "call_media a dir x = MediaDescription_default\<lparr> md_type := Some Type_video, md_port := 9, protocols := ''UDP/TLS/RTP/SAVPF'',
     connectionData := Some \<lparr> c_netType = ''IN'', c_addrType = ''IP4'', connectionAddress = ''0.0.0.0'' \<rparr>,
     rtcpConfiguration := Some \<lparr> rc_port = 3001, rc_netType = ''IN'', rc_addrType = ''IP4'', rc_connectionAddress = a \<rparr>,
     iceCandidates := [call_candidate a], iceUfrag := Some ''uf'', icePwd := Some ''pw'', mid := Some ''0'', direction := Some dir,
     mediaFormats := [\<lparr> pt = 45, codec = ''AV1'', clockRate = 90000, channels = None, fbTypes = [''nack''], fmtParams = [] \<rparr>],
     ssrcDescription := x \<rparr>"

definition call_ssrcs :: SSRCDescription where
  "call_ssrcs = \<lparr> ssrcs = [\<lparr> e_ssrc = 11, cname = ''c'', e_msid = [] \<rparr>, \<lparr> e_ssrc = 12, cname = ''c'', e_msid = [] \<rparr>] \<rparr>"

definition call_sdp :: "MediaDescription \<Rightarrow> SessionDescription" where
  "call_sdp m = SessionDescription_empty\<lparr> sessionName := ''s'', timing := [\<lparr> t_start = 0, t_stop = 0 \<rparr>], mediaDescriptions := [m] \<rparr>"

definition call_offer :: SessionDescription where
  "call_offer = call_sdp (call_media ''10.0.0.1'' sendonly (Some call_ssrcs))"

definition call_answer :: SessionDescription where
  "call_answer = call_sdp (call_media ''10.0.0.2'' recvonly None)"

lemma call_addresses: "wf_address ''10.0.0.1''" "wf_address ''10.0.0.2''"
proof -
  have "pieces ''.'' (joinStrings [''10'', ''0'', ''0'', ''1''] ''.'') = [''10'', ''0'', ''0'', ''1'']"
    "pieces ''.'' (joinStrings [''10'', ''0'', ''0'', ''2''] ''.'') = [''10'', ''0'', ''0'', ''2'']"
    by (rule pieces_join; simp)+
  then show "wf_address ''10.0.0.1''" "wf_address ''10.0.0.2''" by (simp_all add: wf_address_def wf_octet_def is_digit_def code_def)
qed

lemma call_wf: "wf_SessionDescription call_offer" "wf_SessionDescription call_answer"
  using call_addresses
  by (simp_all add: wf_SessionDescription_def call_offer_def call_answer_def call_sdp_def call_media_def call_candidate_def call_ssrcs_def
      wf_MediaDescription_def MediaDescription_default_def SessionDescription_empty_def
      Origin_default_def wf_Origin_def wf_protocols_def wf_MediaFormat_def wf_fb_def wf_ICECandidate_def wf_mid_def wf_ice_def wf_ConnectionData_def wf_RTCPConfiguration_def
      wf_SSRCDescription_def wf_attr_def is_word_def is_dot_def is_digit_def is_space_def ice_char_def code_def)

lemma call_parsed:
  "SessionDescription_of (sdp_text call_offer) = Inr call_offer" "ascii (sdp_text call_offer)"
  "SessionDescription_of (sdp_text call_answer) = Inr call_answer" "ascii (sdp_text call_answer)"
proof -
  have "\<exists>ls. SessionDescription_lines call_offer = Inr ls \<and> list_all plain ls" "\<exists>ls. SessionDescription_lines call_answer = Inr ls \<and> list_all plain ls"
    by (simp_all add: SessionDescription_lines_def call_offer_def call_answer_def call_sdp_def call_media_def call_candidate_def call_ssrcs_def
        MediaDescription_default_def SessionDescription_empty_def Origin_default_def MediaDescription_lines_def opt_line_def
        Origin_line_def Timing_line_def ConnectionData_line_def RTCPConfiguration_line_def ICECandidate_line_def ufrag_line_def pwd_line_def mid_line_def direction_line_def directionString_def
        MediaFormat_lines_def SSRCDescription_lines_def attr_lines_def stringFromType_def payloadTypesString_def)
  then show "SessionDescription_of (sdp_text call_offer) = Inr call_offer" "ascii (sdp_text call_offer)"
    "SessionDescription_of (sdp_text call_answer) = Inr call_answer" "ascii (sdp_text call_answer)"
    using sdp_text_parsed [OF call_wf(1)] sdp_text_parsed [OF call_wf(2)] by auto
qed

section \<open>The controller\<close>

definition call_switch :: IPv4Port where "call_switch = IPv4Port 0x0A0000FE 6000"
definition call_client1 :: IPv4Port where "call_client1 = IPv4Port 0x0A000001 40001"
definition call_client2 :: IPv4Port where "call_client2 = IPv4Port 0x0A000002 40002"

definition call_hello :: cl_Hello where
  "call_hello = \<lparr> clh_sessionId = Some 5, clh_participantId = None \<rparr>"

definition call_start :: controller where
  "call_start = \<lparr> c_sessions = [], c_config = SFUConfig_of ''10.0.0.9'' 3000 ''7Ad/'' ''UKZe/aYNEouGzQUhChnKGiIS'' (IPv4Prefix 0x0A000000 8) 13,
     c_clients = [], c_clientConns = [], c_switches = [], c_switchConns = [], c_sent = [] \<rparr>"

lemma call_prefix: "IPv4_of_string ''10.0.0.0'' = Inr 0x0A000000" "IPv4_of_string ''10.0.0.1'' = Inr 0x0A000001" "IPv4_of_string ''10.0.0.2'' = Inr 0x0A000002"
  by code_simp+

lemma call_starts: "Controller_of ''10.0.0.9'' 3000 ''10.0.0.0'' 8 = Inr call_start"
  by (simp add: Controller_of_def IPv4Prefix_of_string_def call_prefix call_start_def)

lemma tree_api_empty: "\<not> is_ok (j_parse tree_api [])"
  by (simp add: tree_api_def)

definition call_participant :: "u32 \<Rightarrow> IPv4Port \<Rightarrow> Participant" where
  "call_participant i e = Participant_default\<lparr> p_id := i, controlIp := IPv4_str (ip e), controlPort := Some (port e) \<rparr>"

definition call_session :: Session where
  "call_session = \<lparr> s_id = 5, nextParticipantId = 2, s_config = c_config call_start,
     participants = [(1, call_participant 1 call_client1), (2, call_participant 2 call_client2)], s_onNewStream = True \<rparr>"

definition call_state :: "sent list \<Rightarrow> controller" where
  "call_state l = call_start\<lparr> c_sessions := [(5, call_session)],
     c_clients := [(call_client1, \<lparr> registered = True, cm_sessionId = 5, cm_participantId = 1 \<rparr>),
       (call_client2, \<lparr> registered = True, cm_sessionId = 5, cm_participantId = 2 \<rparr>)],
     c_clientConns := [(call_client1, 0), (call_client2, 1)], c_switches := [(call_switch, SwitchMeta_default)], c_switchConns := [(call_switch, 0)],
     c_sent := l \<rparr>"

definition call_events :: "event list" where
  "call_events = [Switch_open call_switch, Client_open call_client1, Client_open call_client2,
     Client_message 0 (json_cl_Hello tree_api call_hello), Client_message 1 (json_cl_Hello tree_api call_hello)]"

lemmas call_eval = call_events_def call_start_def call_switch_def call_client1_def call_client2_def call_hello_def
  si_onSwitchOpen_def ci_onClientOpen_def Let_def less_IPv4Port_def hello_arrives [OF tree_api_laws tree_api_empty] ci_onClientHello_def client_remote_def
  client_meta_def ClientMeta_default_def onNewParticipant_def pure_def deref_def add_session_def session_exists_def session_add_def
  join_session_def session_get_def participantExistsAt_def on_session_def with_session_def addParticipant_def participantExists_def Session_of_def
  set_client_meta_def sendHello_def write_client_def switches_get_def connectionById_def switch_meta_def SwitchMeta_default_def IPv4_of_str
  offer_existing_def sw_addParticipant_def write_switch_def countStreams_def outgoingStreams_def Participant_default_def Transceiver_default_def
  call_state_def call_session_def call_participant_def

lemma call_runs: "\<exists>l. possible_all tree_api call_start call_events \<and> run tree_api call_events call_start = (Inr (), call_state l)"
  by (simp add: call_eval)

lemma call_running: "\<exists>l. running tree_api (call_state l)"
  using call_runs running_run [OF running.start [OF call_starts]] by blast

section \<open>The streams of the offer and of the answer\<close>

definition call_send :: DataPlaneConfig where
  "call_send = \<lparr> dc_addr = IPv4Port 0x0A000001 3000, dc_iceUfrag = ''uf'', dc_icePwd = ''pw'', dc_mediaType = video, mainSSRC = 11, rtxSSRC = 12 \<rparr>"

definition call_stream1 :: Stream where
  "call_stream1 = \<lparr> description = call_media ''10.0.0.1'' sendonly (Some call_ssrcs), dataPlaneConfig = Send_config call_send \<rparr>"

definition call_stream2 :: Stream where
  "call_stream2 = \<lparr> description = call_media ''10.0.0.2'' recvonly None,
     dataPlaneConfig = Receive_config (receive_config (call_send\<lparr> dc_addr := IPv4Port 0x0A000002 3000 \<rparr>) 1 1) \<rparr>"

lemma call_netLimit: "netLimit (s_config call_session) = IPv4Prefix 0x0A000000 8"
  by (simp add: call_session_def call_start_def SFUConfig_of_def)

lemma call_addr:
  "stream_addr (call_media ''10.0.0.1'' dir x) (s_config call_session) = Inr (IPv4Port 0x0A000001 3000)"
  "stream_addr (call_media ''10.0.0.2'' dir x) (s_config call_session) = Inr (IPv4Port 0x0A000002 3000)"
proof -
  have "isInSubnet 0x0A000001 0x0A000000 8 = Inr True" "isInSubnet 0x0A000002 0x0A000000 8 = Inr True" by code_simp+
  then show "stream_addr (call_media ''10.0.0.1'' dir x) (s_config call_session) = Inr (IPv4Port 0x0A000001 3000)"
    "stream_addr (call_media ''10.0.0.2'' dir x) (s_config call_session) = Inr (IPv4Port 0x0A000002 3000)"
    by (simp_all add: stream_addr_def call_netLimit call_media_def call_candidate_def call_prefix highestPriorityICECandidate_def IPv4Port_of_string_def)
qed

lemma call_media_fields [simp]:
  "iceCandidates (call_media a dir x) = [call_candidate a]" "iceUfrag (call_media a dir x) = Some ''uf''" "icePwd (call_media a dir x) = Some ''pw''"
  "md_type (call_media a dir x) = Some Type_video" "mid (call_media a dir x) = Some ''0''" "direction (call_media a dir x) = Some dir"
  "ssrcDescription (call_media a dir x) = x" "connectionData (call_media a dir x) \<noteq> None"
  by (simp_all add: call_media_def)

lemma call_participant1: "participantExists call_session i \<longleftrightarrow> i = 1 \<or> i = 2" "i = 1 \<or> i = 2 \<Longrightarrow> outgoingStreams (participant call_session i) = []"
  "i = 1 \<or> i = 2 \<Longrightarrow> receiver (participant call_session i) k = Transceiver_default" "\<not> signalingActive call_session"
  by (auto simp: participantExists_def participant_def call_session_def outgoingStreams_def receiver_def call_participant_def Participant_default_def
      Transceiver_default_def signalingActive_def)

lemma call_stream1_made: "Stream_of (call_media ''10.0.0.1'' sendonly (Some call_ssrcs)) (s_config call_session) \<lparr> ssrcs = [] \<rparr> = Inr call_stream1"
  by (simp add: Stream_of_def ssrcValues_def base_config_def call_addr deref_def main_ssrc_def rtx_ssrc_def media_type_def call_ssrcs_def
      call_stream1_def call_send_def)

lemma call_stream2_made: "Stream_of (call_media ''10.0.0.2'' recvonly None) (s_config call_session) call_ssrcs = Inr call_stream2"
  by (simp add: Stream_of_def ssrcValues_def base_config_def call_addr deref_def main_ssrc_def rtx_ssrc_def rtcp_ssrcs_def media_type_def call_ssrcs_def
      call_stream2_def call_send_def)

lemma call_offer_streams: "offer_new call_session 1 call_offer = Inr [call_stream1]"
  using call_stream1_made by (simp add: offer_new_def call_participant1 call_offer_def call_sdp_def deref_def with_candidate_def)

lemma call_answer_streams:
  "answer_streams (s_config call_session) [call_stream1] known [] (mediaDescriptions call_answer) = Inr [call_stream2]"
  using call_stream2_made by (simp add: call_answer_def call_sdp_def call_stream1_def with_candidate_def)

lemma call_views:
  "map_of (c_sessions (call_state l)) 5 = Some call_session" "has_switch (call_state l)"
  "clients_get (call_state l) 5 1 = Inr 0" "clients_get (call_state l) 5 2 = Inr 1"
  "registered (client_meta (call_state l) 0)" "registered (client_meta (call_state l) 1)"
  by (simp_all add: call_state_def has_switch_def switches_get_def connectionById_def switch_meta_def SwitchMeta_default_def clients_get_def client_meta_def)

lemma call_connected: "connected (call_state l) 5 1 0" "connected (call_state l) 5 2 1"
  using call_views by (simp_all add: connected_def) (simp_all add: call_state_def client_remote_def call_client1_def call_client2_def)

lemma call_stream_data: "\<forall>st \<in> set (outgoingStreams (participant call_session 1) @ [call_stream1]). connectionData (description st) \<noteq> None"
  by (simp add: call_participant1(2) call_stream1_def)

text \<open>The state after the offer.\<close>

lemma call_offered:
  "\<exists>c s d s'. running tree_api c \<and> map_of (c_sessions c) 5 = Some s \<and> offering s 1 \<and>
     outgoingStreams (participant s 1) = [call_stream1] \<and> getOffer 2 s = (Inr d, s')"
proof -
  obtain l where l: "running tree_api (call_state l)" using call_running by blast
  let ?conn = "\<lambda>i :: u32. if i = 1 then 0 else 1 :: nat" and ?m = "\<lparr> of_sdp = sdp_text call_offer, of_participantId = 1 \<rparr>"
  have conn: "\<forall>i. participantExists call_session i \<longrightarrow> clients_get (call_state l) 5 i = Inr (?conn i)"
    using call_views by (auto simp: call_participant1(1))
  have two: "length (participants call_session) > 1" by (simp add: call_session_def)
  have tx: "participantExists call_session 1" "SessionDescription_of (of_sdp ?m) = Inr call_offer"
    by (simp_all add: call_participant1(1) call_parsed(1))
  from onClientOffer_eq [OF running_ok [OF l] call_views(1) call_participant1(4) call_views(2) two conn tx call_offer_streams call_stream_data,
      of tree_api]
  obtain s d k out where s: "onClientOffer tree_api 0 ?m (call_state l) = (Inr (), put_session 5 s (says out (call_state l)))"
      "negotiating s 1 k" "offer_sdp s 1 = Inr d" "outgoingStreams (participant s 1) = [call_stream1]" "participantExists s 2"
    by (auto simp: call_participant1)
  have "handle tree_api (Client_message 0 (json_Offer tree_api ?m)) (call_state l) = (Inr (), put_session 5 s (says out (call_state l)))"
    using offer_event [OF tree_api_laws tree_api_empty call_connected(1), of ?m] call_parsed(2) s(1) by simp
  moreover have "possible (call_state l) (Client_message 0 (json_Offer tree_api ?m))" by (simp add: call_state_def)
  ultimately have "running tree_api (put_session 5 s (says out (call_state l)))" using running.event [OF l] by blast
  moreover have "getOffer 2 s = (Inr d, upd_participant 2 (set_state awaitAnswer) s)"
    using getOffer_eq [OF negotiatingD(1,2) [OF s(2)] s(5)] s(3) by simp
  ultimately show ?thesis using s(4) negotiatingD(2) [OF s(2)] put_session_simps(1) by blast
qed

section \<open>A participant alone\<close>

definition lone_session :: Session where
  "lone_session = call_session\<lparr> nextParticipantId := 1, participants := [(1, call_participant 1 call_client1)] \<rparr>"

definition lone_state :: "sent list \<Rightarrow> controller" where
  "lone_state l = (call_state l)\<lparr> c_sessions := [(5, lone_session)],
     c_clients := [(call_client1, \<lparr> registered = True, cm_sessionId = 5, cm_participantId = 1 \<rparr>), (call_client2, ClientMeta_default)] \<rparr>"

lemma lone_runs: "\<exists>l. possible_all tree_api call_start (take 4 call_events) \<and> run tree_api (take 4 call_events) call_start = (Inr (), lone_state l)"
  by (simp add: call_eval lone_state_def lone_session_def)

definition lone_offered :: Session where
  "lone_offered = upd_participant 1 (\<lambda>p. set_state stable (offer_effect call_offer [call_stream1] p)) lone_session"

lemma lone_views:
  "map_of (c_sessions (lone_state l)) 5 = Some lone_session" "has_switch (lone_state l)" "clients_get (lone_state l) 5 1 = Inr 0"
  "registered (client_meta (lone_state l) 0)" "\<not> registered (client_meta (lone_state l) 1)" "client_remote (lone_state l) 1 = call_client2"
  "map_of (c_clientConns (lone_state l)) (client_remote (lone_state l) 0) = Some 0" "map_of (c_clientConns (lone_state l)) call_client2 = Some 1"
  "length (c_clients (lone_state l)) = 2"
  by (simp_all add: lone_state_def call_state_def has_switch_def switches_get_def connectionById_def switch_meta_def SwitchMeta_default_def clients_get_def
      client_meta_def ClientMeta_default_def client_remote_def call_client1_def call_client2_def)

lemma lone_after_offer: "\<exists>c. running tree_api (put_session 5 lone_offered c) \<and> (\<exists>l out. c = says out (lone_state l))"
proof -
  obtain l where l: "running tree_api (lone_state l)" using lone_runs running_run [OF running.start [OF call_starts]] by blast
  let ?m = "\<lparr> of_sdp = sdp_text call_offer, of_participantId = 1 \<rparr>"
  have s: "participant lone_session 1 = participant call_session 1" "s_config lone_session = s_config call_session" "participantExists lone_session 1"
      "\<not> signalingActive lone_session" "length (participants lone_session) = 1"
    by (simp_all add: lone_session_def call_session_def participant_def participantExists_def signalingActive_def call_participant_def Participant_default_def)
  have new: "offer_new lone_session 1 call_offer = Inr [call_stream1]" using call_offer_streams s(1,2) by (simp add: offer_new_def)
  have cd: "\<forall>st \<in> set (outgoingStreams (participant lone_session 1) @ [call_stream1]). connectionData (description st) \<noteq> None"
    using call_stream_data s(1) by simp
  have "SessionDescription_of (of_sdp ?m) = Inr call_offer" by (simp add: call_parsed(1))
  from onClientOffer_alone [OF running_ok [OF l] lone_views(1) s(4) lone_views(2) s(5) lone_views(3) s(3) this new cd, of tree_api]
  obtain out where "onClientOffer tree_api 0 ?m (lone_state l) = (Inr (), put_session 5 lone_offered (says out (lone_state l)))"
    by (auto simp: lone_offered_def)
  moreover have "connected (lone_state l) 5 1 0" using lone_views by (simp add: connected_def)
  ultimately have "handle tree_api (Client_message 0 (json_Offer tree_api ?m)) (lone_state l) = (Inr (), put_session 5 lone_offered (says out (lone_state l)))"
    using offer_event [OF tree_api_laws tree_api_empty, of _ 5 1 0 ?m] call_parsed(2) by simp
  moreover have "possible (lone_state l) (Client_message 0 (json_Offer tree_api ?m))" using lone_views(9) by simp
  ultimately show ?thesis using running.event [OF l] by blast
qed

end
