(* ===== verification/Negotiation.thy ===== *)
theory Negotiation
  imports Sample_Call
begin

text \<open>
  The properties of the controller: the invariant of its sessions, the negotiation of streams from an
  offer to the last answer, what participants are told about each other's media, and what fails.
\<close>

section \<open>A negotiation\<close>

lemma two_elements: "a \<in> set xs \<Longrightarrow> b \<in> set xs \<Longrightarrow> b \<noteq> a \<Longrightarrow> length xs > 1"
  by (cases xs; cases "tl xs") auto

lemma told_same:
  assumes "s_id s' = s_id s" "s_config s' = s_config s" "outgoingStreams (participant s' j) = outgoingStreams (participant s j)"
  shows "offer_sdp s' j = offer_sdp s j" "answer_sdp s' j = answer_sdp s j"
  using assms by (simp_all add: offer_sdp_def answer_sdp_def)

text \<open>
  C2: a negotiation completes, in whatever order the answers arrive. Take a running controller with a switch and a
  session in which nobody negotiates and every participant is connected. Participant j sends an offer from which streams
  can be made, and each of the others answers once, in any order. Then no handler throws; the controller
  sends, in this order, the new streams of j to the switch, an offer with all streams of j to every other participant, for each answer
  its streams to the switch, and at the end one answer to j; all participants are stable again, j sends its old and new streams, and
  every other participant receives the streams of its answer from j.
\<close>

theorem negotiation_completes:
  assumes J: "json_laws J" "\<not> is_ok (j_parse J [])"
    and c: "running J c" "has_switch c" "map_of (c_sessions c) sid = Some s" "\<not> signalingActive s"
      "\<forall>i. participantExists s i \<longrightarrow> clients_get c sid i = Inr (conn i) \<and> registered (client_meta c (conn i))"
    and offer: "participantExists s j" "ascii (of_sdp m)" "of_participantId m \<noteq> 0" "SessionDescription_of (of_sdp m) = Inr sdp"
      "offer_new s j sdp = Inr sts" "\<forall>st \<in> set (outgoingStreams (participant s j) @ sts). connectionData (description st) \<noteq> None"
    and others: "is \<noteq> []" "distinct is" "set is = {i. participantExists s i \<and> i \<noteq> j}"
    and answers: "\<forall>i \<in> set is. ascii (an_sdp (msg i)) \<and> an_participantId (msg i) \<noteq> 0 \<and> SessionDescription_of (an_sdp (msg i)) = Inr (ans i) \<and>
      answer_streams (s_config s) (outgoingStreams (participant s j) @ sts) (t_iceCandidates (receiver (participant s i) j) @ all_candidates (ans i))
        (mids_of (streams (receiver (participant s i) j))) (mediaDescriptions (ans i)) = Inr (recv i)"
  shows "\<exists>s' t t'.
    run J (Client_message (conn j) (json_Offer J m) # map (\<lambda>i. Client_message (conn i) (json_Answer J (msg i))) is) c =
      (Inr (), put_session sid s' (says
         (to_switch J c sid j sts @ map (offer_to J conn j t) (filter (\<lambda>i. i \<noteq> j) (map fst (participants s))) @
          concat (map (\<lambda>i. to_switch J c sid i (recv i)) is) @ [answer_to J conn j t']) c)) \<and>
    rbind (offer_sdp s' j) escapedString = Inr t \<and> rbind (answer_sdp s' j) escapedString = Inr t' \<and>
    \<not> signalingActive s' \<and> outgoingStreams (participant s' j) = outgoingStreams (participant s j) @ sts \<and>
    (\<forall>i \<in> set is. streams (receiver (participant s' i) j) = streams (receiver (participant s i) j) @ recv i)"
proof -
  have ok: "ctl_ok c" using running_ok [OF c(1)] .
  have con: "connected c sid i (conn i)" if "participantExists s i" for i using connected_running [OF c(1)] c(5) that by blast
  let ?os = "filter (\<lambda>i. i \<noteq> j) (map fst (participants s))"
  have ids: "i \<in> set ?os \<longleftrightarrow> i \<in> set is" for i
    using participants_iff [OF session_okD(2) [OF ctl_okD(3) [OF ok c(3)]]] others(3) by force
  have "j \<in> set (map fst (participants s))"
    using participants_iff [OF session_okD(2) [OF ctl_okD(3) [OF ok c(3)]]] offer(1) by force
  moreover have "hd is \<in> set ?os" using ids others(1) by simp
  ultimately have "length (map fst (participants s)) > 1" by (intro two_elements [of _ _ "hd is"]) auto
  then have two: "length (participants s) > 1" by simp
  note onClientOffer_eq [OF ok c(3,4,2) two _ offer(1,4,5,6), of conn J]
  then obtain s1 d d' t t' where s1:
      "onClientOffer J (conn j) m c = (Inr (), put_session sid s1 (says (to_switch J c sid j sts @ map (offer_to J conn j t) ?os) c))"
      "negotiating s1 j (set ?os)" "s_id s1 = sid" "offer_sdp s1 j = Inr d" "escapedString d = Inr t" "answer_sdp s1 j = Inr d'" "escapedString d' = Inr t'"
      "s_config s1 = s_config s" "outgoingStreams (participant s1 j) = outgoingStreams (participant s j) @ sts"
      "\<And>i. i \<noteq> j \<Longrightarrow> receivers (participant s1 i) = receivers (participant s i)"
    using c(5) by auto
  let ?c = "put_session sid s1 (says (to_switch J c sid j sts @ map (offer_to J conn j t) ?os) c)"
  have "receiver (participant s1 i) j = receiver (participant s i) j" if "i \<in> set is" for i
    using s1(10) [of i] that others(3) by (simp add: receiver_def)
  then have "\<forall>i \<in> set is. SessionDescription_of (an_sdp (msg i)) = Inr (ans i) \<and> answer_new s1 j i (ans i) = Inr (recv i)"
    using answers s1(8,9) by (simp add: answer_new_def)
  moreover have "set ?os = set is" using ids by blast
  ultimately obtain s' where s': "run J (map (\<lambda>i. Client_message (conn i) (json_Answer J (msg i))) is) ?c =
      (Inr (), put_session sid s' (says (concat (map (\<lambda>i. to_switch J ?c sid i (recv i)) is) @ [answer_to J conn j t']) ?c))"
      "\<not> signalingActive s'" "\<forall>i \<in> set is. streams (receiver (participant s' i) j) = streams (receiver (participant s1 i) j) @ recv i"
      "s_id s' = s_id s1" "s_config s' = s_config s1" "outgoingStreams (participant s' j) = outgoingStreams (participant s1 j)"
    using run_answers [OF J, of s1 j "is" ?c sid conn msg ans recv d' t'] s1(2,3,6,7) others c(2,5) con answers offer(1) by auto
  have "handle J (Client_message (conn j) (json_Offer J m)) c = (Inr (), ?c)"
    using offer_event [OF J con [OF offer(1)] offer(2,3)] s1(1) by simp
  then show ?thesis
    using s' s1 others(3) told_same [OF s'(4-6)] by (intro exI [of _ s'] exI [of _ t] exI [of _ t']) (simp add: receiver_def)
qed

theorem negotiation_completes_witness:
  "\<exists>l s' t t'. running tree_api (call_state l) \<and>
     run tree_api [Client_message 0 (json_Offer tree_api \<lparr> of_sdp = sdp_text call_offer, of_participantId = 1 \<rparr>),
       Client_message 1 (json_Answer tree_api \<lparr> an_sdp = sdp_text call_answer, an_participantId = 2 \<rparr>)] (call_state l) =
     (Inr (), put_session 5 s' (says [To_switch (the_switch (call_state l)) (stream_text tree_api 5 1 call_stream1),
        To_client 1 (json_Offer tree_api \<lparr> of_sdp = t, of_participantId = 1 \<rparr>),
        To_switch (the_switch (call_state l)) (stream_text tree_api 5 2 call_stream2),
        To_client 0 (json_Answer tree_api \<lparr> an_sdp = t', an_participantId = 1 \<rparr>)] (call_state l))) \<and>
     \<not> signalingActive s' \<and> streams (receiver (participant s' 2) 1) = [call_stream2]"
proof -
  obtain l where l: "running tree_api (call_state l)" using call_running by blast
  let ?conn = "\<lambda>i :: u32. if i = 1 then 0 else 1 :: nat"
  let ?m = "\<lparr> of_sdp = sdp_text call_offer, of_participantId = 1 \<rparr>"
  let ?msg = "\<lambda>i. \<lparr> an_sdp = sdp_text call_answer, an_participantId = i \<rparr>"
  have conn: "\<forall>i. participantExists call_session i \<longrightarrow>
      clients_get (call_state l) 5 i = Inr (?conn i) \<and> registered (client_meta (call_state l) (?conn i))"
    using call_views by (auto simp: call_participant1(1))
  have cd: "\<forall>st \<in> set (outgoingStreams (participant call_session 1) @ [call_stream1]). connectionData (description st) \<noteq> None"
    by (simp add: call_participant1(2) call_stream1_def)
  have others: "set [2] = {i. participantExists call_session i \<and> i \<noteq> 1}" by (auto simp: call_participant1(1))
  have answers: "\<forall>i \<in> set [2]. ascii (an_sdp (?msg i)) \<and> an_participantId (?msg i) \<noteq> 0 \<and> SessionDescription_of (an_sdp (?msg i)) = Inr call_answer \<and>
      answer_streams (s_config call_session) (outgoingStreams (participant call_session 1) @ [call_stream1])
        (t_iceCandidates (receiver (participant call_session i) 1) @ all_candidates call_answer)
        (mids_of (streams (receiver (participant call_session i) 1))) (mediaDescriptions call_answer) = Inr [call_stream2]"
    by (simp add: call_parsed call_participant1(2,3) call_answer_streams Transceiver_default_def)
  have "filter (\<lambda>i. i \<noteq> 1) (map fst (participants call_session)) = [2]" by (simp add: call_session_def)
  then show ?thesis
    using negotiation_completes [OF tree_api_laws tree_api_empty l call_views(2,1) call_participant1(4) conn _ _ _ _ call_offer_streams cd _ _ others answers,
        of ?m] l
    by (simp add: call_participant1 call_parsed to_switch_def offer_to_def answer_to_def Transceiver_default_def) blast
qed

section \<open>The sessions of a running controller\<close>

lemma stream_address:
  "send_ok cfg st \<Longrightarrow> \<exists>c. dataPlaneConfig st = Send_config c \<and> best_candidate (description st) cfg (dc_addr c)"
  "recv_ok cfg st \<Longrightarrow> \<exists>c. dataPlaneConfig st = Receive_config c \<and> best_candidate (description st) cfg (dc_addr c)"
  unfolding send_ok_def recv_ok_def
  by (auto simp: Stream_of_send Stream_of_receive base_config_Inr receive_config_def intro!: stream_addr_best)

lemma incoming_ok: "participant_ok cfg p \<Longrightarrow> st \<in> set (incomingStreams p) \<Longrightarrow> recv_ok cfg st"
  by (fastforce simp: participant_ok_def incomingStreams_def list_all_iff)

text \<open>
  C6: in every state the running controller can reach, whatever clients, switches and API users send: the sessions are
  filed under their ids and the participants under theirs; at most one participant of a session has an offer under
  negotiation; no participant sends two streams with one identification; and every stream that is sent or received
  has as its address that of the best candidate of its description inside the configured network.
\<close>

theorem running_sessions:
  assumes "running J c" "map_of (c_sessions c) sid = Some s"
  shows "s_id s = sid \<and> (\<forall>i j. offering s i \<and> offering s j \<longrightarrow> i = j) \<and>
    (\<forall>i. participantExists s i \<longrightarrow>
      p_id (participant s i) = i \<and> distinct (mids_of (outgoingStreams (participant s i))) \<and>
      (\<forall>st \<in> set (outgoingStreams (participant s i)). \<exists>x. dataPlaneConfig st = Send_config x \<and>
         best_candidate (description st) (c_config c) (dc_addr x)) \<and>
      (\<forall>st \<in> set (incomingStreams (participant s i)). \<exists>x. dataPlaneConfig st = Receive_config x \<and>
         best_candidate (description st) (c_config c) (dc_addr x)))"
proof -
  note ok = ctl_okD [OF running_ok [OF assms(1)] assms(2)]
  have p: "participant_ok (c_config c) (participant s i)" if "participantExists s i" for i
    using session_okD(4) [OF ok(3) that] ok(2) by simp
  then have "list_all (send_ok (c_config c)) (outgoingStreams (participant s i))" "distinct (mids_of (outgoingStreams (participant s i)))"
    if "participantExists s i" for i using that by (auto simp: participant_ok_def)
  then show ?thesis
    using ok(1) session_okD(3,5) [OF ok(3)] stream_address incoming_ok [OF p] by (simp add: list_all_iff)
qed

theorem running_sessions_witness:
  "\<exists>l. running tree_api (call_state l) \<and> s_id call_session = 5 \<and> p_id (participant call_session 2) = 2"
proof -
  obtain l where l: "running tree_api (call_state l)" using call_running by blast
  then show ?thesis using running_sessions [OF l call_views(1)] call_participant1(1) by blast
qed

lemma streams_json:
  "send_ok cfg st \<Longrightarrow> \<exists>j. send_stream_json J st = Inr j" "recv_ok cfg st \<Longrightarrow> \<exists>j. receive_stream_json J st = Inr j"
  using stream_address by (fastforce simp: send_stream_json_def receive_stream_json_def)+

lemma participant_json_total:
  assumes "participant_ok cfg p"
  shows "\<exists>j. participant_json J (i, p) = Inr j"
proof -
  have "\<exists>a. rmap (send_stream_json J) (outgoingStreams p) = Inr a \<and> list_all (\<lambda>_. True) a"
    using assms streams_json(1) [of cfg _ J] by (intro rmap_total) (auto simp: participant_ok_def list_all_iff)
  moreover have "\<exists>b. rmap (receive_stream_json J) (incomingStreams p) = Inr b \<and> list_all (\<lambda>_. True) b"
    using streams_json(2) [OF incoming_ok [OF assms]] by (intro rmap_total) auto
  ultimately show ?thesis by (auto simp: participant_json_def)
qed

text \<open>
  C15: the variant that holds a stream's data-plane configuration always has the alternative the API expects:
  a running controller answers every query for a session, known or unknown, with a JSON value and never with an
  exception.
\<close>

theorem api_session_total:
  assumes "running J c"
  shows "\<exists>j. onAPIGetSession J c i = Inr j"
proof (cases "map_of (c_sessions c) i")
  case None
  then show ?thesis by (simp add: onAPIGetSession_def session_exists_def)
next
  case (Some s)
  note ok = ctl_okD(3) [OF running_ok [OF assms] Some]
  have "\<exists>ps. rmap (participant_json J) (participants s) = Inr ps \<and> list_all (\<lambda>_. True) ps"
  proof (rule rmap_total)
    fix x
    assume "x \<in> set (participants s)"
    then have "participant_ok (s_config s) (snd x)"
      using participants_iff [OF session_okD(2) [OF ok], of "fst x" "snd x"] session_okD(4) [OF ok, of "fst x"] by simp
    then show "\<exists>y. participant_json J x = Inr y \<and> True" using participant_json_total [of _ "snd x" J "fst x"] by simp
  qed
  then show ?thesis using Some by (auto simp: onAPIGetSession_def session_exists_def session_get_def)
qed

theorem api_session_total_witness: "\<exists>l j. running tree_api (call_state l) \<and> onAPIGetSession tree_api (call_state l) 5 = Inr j"
  using call_running api_session_total by blast

section \<open>What participants are told about each other\<close>

text \<open>
  Media \<open>m\<close> describes stream \<open>st\<close> with the forwarding unit's candidate, credentials, port, connection address and capabilities in the
  place of the sender's; everything else is the sender's, its RTCP configuration and further ICE and RTCP lines included.
\<close>

definition sfu_side :: "SFUConfig \<Rightarrow> Direction \<Rightarrow> Stream \<Rightarrow> MediaDescription \<Rightarrow> bool" where
  "sfu_side cfg dir st m \<longleftrightarrow>
     direction m = Some dir \<and> iceCandidates m = [sfu_iceCandidate cfg] \<and> iceUfrag m = Some (sfu_iceUfrag cfg) \<and>
     icePwd m = Some (sfu_icePwd cfg) \<and> md_port m = sfu_port cfg \<and>
     (\<exists>x. connectionData (description st) = Some x \<and> connectionData m = Some (x\<lparr> connectionAddress := sfu_ip cfg \<rparr>)) \<and>
     extensions m = (if md_type m = Some Type_video then videoRTPExtensions cfg else audioRTPExtensions cfg)"

definition sender_side :: "Stream \<Rightarrow> MediaDescription \<Rightarrow> bool" where
  "sender_side st m \<longleftrightarrow>
     mid m = mid (description st) \<and> md_type m = md_type (description st) \<and> protocols m = protocols (description st) \<and>
     map (fbTypes_update (\<lambda>_. [])) (mediaFormats m) = map (fbTypes_update (\<lambda>_. [])) (mediaFormats (description st)) \<and>
     rtcpConfiguration m = rtcpConfiguration (description st) \<and> iceOtherLines m = iceOtherLines (description st) \<and>
     rtcpOtherLines m = rtcpOtherLines (description st) \<and> md_otherLines m = md_otherLines (description st)"

definition relayed :: "SFUConfig \<Rightarrow> Direction \<Rightarrow> Stream \<Rightarrow> MediaDescription \<Rightarrow> bool" where
  "relayed cfg dir st m \<longleftrightarrow> sfu_side cfg dir st m \<and> sender_side st m"

lemma supported_formats:
  "map (fbTypes_update (\<lambda>_. [])) (mediaFormats (supported cfg t m)) = map (fbTypes_update (\<lambda>_. [])) (mediaFormats m)"
  by (cases t) (simp_all add: supported_def)

lemma supported_extensions: "extensions (supported cfg t m) = (if t = Type_video then videoRTPExtensions cfg else audioRTPExtensions cfg)"
  by (cases t) (simp_all add: supported_def)

lemma supported_side: "sender_side st (supported cfg t m) = sender_side st m"
  unfolding sender_side_def supported_formats by (cases t) (simp_all add: supported_def)

lemma offered_relayed: "offered cfg st = Inr m \<Longrightarrow> relayed cfg sendonly st m \<and> ssrcDescription m = ssrcDescription (description st)"
  by (auto simp: offered_def stream_offer_def rbind_Inr_iff relayed_def sfu_side_def supported_side supported_extensions) (simp_all add: sender_side_def)

lemma answered_relayed: "answered cfg st = Inr m \<Longrightarrow> relayed cfg recvonly st m \<and> ssrcDescription m = None \<and> md_msid m = None"
  by (auto simp: answered_def stream_offer_def rbind_Inr_iff relayed_def sfu_side_def supported_side supported_extensions) (simp_all add: sender_side_def)

text \<open>So the sender's RTCP line is printed in what the other side gets.\<close>

lemma relayed_prints:
  "relayed cfg dir st m \<Longrightarrow> rtcpConfiguration (description st) = Some x \<and> MediaDescription_lines m = Inr ls \<Longrightarrow> RTCPConfiguration_line x \<in> set ls"
  by (auto simp: relayed_def sender_side_def MediaDescription_lines_def opt_line_def split: option.splits)

lemma offered_sent:
  "offered cfg st = Inr m \<Longrightarrow> relayed cfg sendonly st m \<and> ssrcDescription m = ssrcDescription (description st) \<and>
     (\<forall>x ls. rtcpConfiguration (description st) = Some x \<and> MediaDescription_lines m = Inr ls \<longrightarrow> RTCPConfiguration_line x \<in> set ls)"
  using offered_relayed [of cfg st m] relayed_prints [of cfg sendonly st m] by blast

text \<open>
  C8: the forwarding unit as the peer of every client. In a running controller, the offer made for a participant and the
  answer made for the one who offered contain one media section per stream of the offering participant, in order and
  with its identification, media type, protocols and formats, but with exactly one candidate, the forwarding unit's, and with its
  credentials, port, connection address and header extensions in the place of the sender's; the offer is send-only and carries the
  stream's SSRCs, the answer is receive-only and carries neither SSRCs nor a stream id. The sender's RTCP configuration
  (an \<open>a=rtcp\<close> line with a port and an address) and its further ICE and RTCP lines are not replaced: they stay in the section and
  the \<open>a=rtcp\<close> line is among the lines printed for the other participants.
\<close>

theorem clients_get_sfu_transport:
  assumes "running J c" "map_of (c_sessions c) sid = Some s" "offering s j"
  shows "(\<forall>i d s'. i \<noteq> j \<and> getOffer i s = (Inr d, s') \<longrightarrow>
      list_all2 (\<lambda>st m. relayed (c_config c) sendonly st m \<and> ssrcDescription m = ssrcDescription (description st) \<and>
          (\<forall>x ls. rtcpConfiguration (description st) = Some x \<and> MediaDescription_lines m = Inr ls \<longrightarrow> RTCPConfiguration_line x \<in> set ls))
        (outgoingStreams (participant s j)) (mediaDescriptions d)) \<and>
    (\<forall>d s'. getAnswer j s = (Inr d, s') \<longrightarrow>
      list_all2 (\<lambda>st m. relayed (c_config c) recvonly st m \<and> ssrcDescription m = None \<and> md_msid m = None)
        (outgoingStreams (participant s j)) (mediaDescriptions d))"
proof (intro conjI allI impI)
  note ok = ctl_okD [OF running_ok [OF assms(1)] assms(2)]
  have t: "mediaDescriptions (sessionTemplate (s_config s)) = []" using running_ok [OF assms(1)] ok(2) by (simp add: ctl_ok_def)
  {
    fix i d s'
    assume i: "i \<noteq> j \<and> getOffer i s = (Inr d, s')"
    then have "participantExists s i" by (auto simp: getOffer_def split: if_splits)
    then have "offer_sdp s j = Inr d" using getOffer_eq [OF ok(3) assms(3), of i] i by simp
    then obtain ms where ms: "list_all2 (\<lambda>st m. offered (s_config s) st = Inr m) (outgoingStreams (participant s j)) ms" "mediaDescriptions d = ms"
      using t by (auto simp: offer_sdp_def rbind_Inr_iff rmap_Inr)
    show "list_all2 (\<lambda>st m. relayed (c_config c) sendonly st m \<and> ssrcDescription m = ssrcDescription (description st) \<and>
          (\<forall>x ls. rtcpConfiguration (description st) = Some x \<and> MediaDescription_lines m = Inr ls \<longrightarrow> RTCPConfiguration_line x \<in> set ls))
        (outgoingStreams (participant s j)) (mediaDescriptions d)"
      unfolding ms(2) using ms(1) unfolding ok(2) by (rule list_all2_mono) (rule offered_sent)
  next
    fix d s'
    assume "getAnswer j s = (Inr d, s')"
    then have "answer_sdp s j = Inr d"
      using assms(3) by (auto simp: getAnswer_def answer_sdp_def offering_def pure_def Let_def sbind_Inr_iff rbind_Inr_iff)
    then obtain ms where ms: "list_all2 (\<lambda>st m. answered (s_config s) st = Inr m) (outgoingStreams (participant s j)) ms" "mediaDescriptions d = ms"
      using t by (auto simp: answer_sdp_def rbind_Inr_iff rmap_Inr Let_def)
    then show "list_all2 (\<lambda>st m. relayed (c_config c) recvonly st m \<and> ssrcDescription m = None \<and> md_msid m = None)
        (outgoingStreams (participant s j)) (mediaDescriptions d)"
      using answered_relayed ok(2) by (auto elim: list_all2_mono)
  }
qed

theorem clients_get_sfu_transport_witness:
  "\<exists>c s d s' m. running tree_api c \<and> map_of (c_sessions c) 5 = Some s \<and> getOffer 2 s = (Inr d, s') \<and>
     mediaDescriptions d = [m] \<and> mid m = Some ''0'' \<and> iceCandidates m = [sfu_iceCandidate (c_config c)] \<and>
     ssrcDescription m = Some call_ssrcs \<and>
     (\<exists>ls. MediaDescription_lines m = Inr ls \<and> ''a=rtcp:3001 IN IP4 10.0.0.1'' \<in> set ls)"
proof -
  obtain c s d s' where c: "running tree_api c" "map_of (c_sessions c) 5 = Some s" "offering s 1"
      "outgoingStreams (participant s 1) = [call_stream1]" "getOffer 2 s = (Inr d, s')"
    using call_offered by blast
  then obtain m where m: "mediaDescriptions d = [m]" "relayed (c_config c) sendonly call_stream1 m"
      "ssrcDescription m = ssrcDescription (description call_stream1)"
      "\<And>x ls. rtcpConfiguration (description call_stream1) = Some x \<Longrightarrow> MediaDescription_lines m = Inr ls \<Longrightarrow> RTCPConfiguration_line x \<in> set ls"
    using clients_get_sfu_transport [OF c(1-3), THEN conjunct1, rule_format, of 2 d s'] by (auto simp: list_all2_Cons1)
  let ?x = "\<lparr> rc_port = 3001, rc_netType = ''IN'', rc_addrType = ''IP4'', rc_connectionAddress = ''10.0.0.1'' \<rparr>"
  have st: "mid (description call_stream1) = Some ''0''" "md_type (description call_stream1) = Some Type_video"
      "ssrcDescription (description call_stream1) = Some call_ssrcs" "rtcpConfiguration (description call_stream1) = Some ?x"
    by (simp_all add: call_stream1_def call_media_def)
  have r: "mid m = Some ''0''" "md_type m = Some Type_video" "iceCandidates m = [sfu_iceCandidate (c_config c)]"
    using m(2) st by (simp_all add: relayed_def sfu_side_def sender_side_def)
  obtain ls where ls: "MediaDescription_lines m = Inr ls" using r(2) by (simp add: MediaDescription_lines_def)
  have "RTCPConfiguration_line ?x = ''a=rtcp:3001 IN IP4 10.0.0.1''" by code_simp
  then have "''a=rtcp:3001 IN IP4 10.0.0.1'' \<in> set ls" using m(4) [OF st(4) ls] by simp
  with c(1,2,5) m(1,3) r st(3) ls show ?thesis by auto
qed

section \<open>Offers\<close>

lemma offer_streams_none:
  "\<forall>m \<in> set mds. direction m = Some sendonly \<longrightarrow> (\<exists>x \<in> set mids. mid m = Some x) \<Longrightarrow> offer_streams cfg known mids mds = Inr []"
  by (induction mds) auto

lemma offer_streams_covers:
  "offer_streams cfg known mids mds = Inr sts \<Longrightarrow> \<forall>m \<in> set mds. direction m = Some sendonly \<longrightarrow> (\<exists>x \<in> set (mids @ mids_of sts). mid m = Some x)"
proof (induction mds arbitrary: mids sts)
  case (Cons m mds)
  show ?case
  proof (cases "direction m = Some sendonly")
    case True
    then obtain x where x: "mid m = Some x" using Cons.prems by (auto simp: rbind_Inr_iff)
    show ?thesis
    proof (cases "x \<in> set mids")
      case False
      then obtain m' st sts' where s: "with_candidate known m = Inr m'" "Stream_of m' cfg \<lparr> ssrcs = [] \<rparr> = Inr st"
          "offer_streams cfg known (mids @ [x]) mds = Inr sts'" "sts = st # sts'"
        using Cons.prems True x by (auto simp: rbind_Inr_iff)
      then have "mid (description st) = Some x" using Stream_of_description with_candidate_mid x by fastforce
      then show ?thesis using Cons.IH [OF s(3)] x s(4) by auto
    qed (use Cons True x in simp)
  qed (use Cons in simp)
qed simp

text \<open>
  C9: adding an offer refines a short specification, and is idempotent on streams. In a running controller an offer is accepted exactly if its
  participant exists, nobody in the session negotiates, its new sending media can be made into streams and, if there are any, a switch is
  connected. Then these streams and the offer's candidates are added to the participant, who has an
  offer under negotiation now, every new stream is sent to the switch once and in order, and nothing else
  changes; offering the same description again would add no stream.
\<close>

theorem offer_announced_once:
  assumes "running J c" "map_of (c_sessions c) sid = Some s"
  shows "(addOffer (onNewStream J) i sdp (s, c) = (Inr (), (s', c'))) =
    (participantExists s i \<and> \<not> signalingActive s \<and>
     (\<exists>sts. offer_new s i sdp = Inr sts \<and> (sts \<noteq> [] \<longrightarrow> has_switch c) \<and>
        s' = upd_participant i (offer_effect sdp sts) s \<and> c' = says (to_switch J c sid i sts) c \<and> offer_new s' i sdp = Inr []))"
proof -
  note ok = ctl_okD [OF running_ok [OF assms(1)] assms(2)]
  have "offer_new (upd_participant i (offer_effect sdp sts) s) i sdp = Inr []" if "offer_new s i sdp = Inr sts" for sts
    using that unfolding offer_new_def
    by (intro offer_streams_none) (drule offer_streams_covers, simp add: outgoingStreams_def offer_effect_def)
  then show ?thesis
    unfolding ctl.addOffer_Inr [OF session_okD(1) [OF ok(3)]] using ok(1) by (auto simp: announce_says)
qed

theorem offer_announced_once_witness:
  "\<exists>l s'. running tree_api (call_state l) \<and>
     addOffer (onNewStream tree_api) 1 call_offer (call_session, call_state l) =
       (Inr (), (s', says [To_switch (the_switch (call_state l)) (stream_text tree_api 5 1 call_stream1)] (call_state l))) \<and>
     offer_new s' 1 call_offer = Inr []"
proof -
  obtain l where l: "running tree_api (call_state l)" using call_running by blast
  let ?s = "upd_participant 1 (offer_effect call_offer [call_stream1]) call_session"
  have "offer_new ?s 1 call_offer = Inr []"
    by (simp add: offer_new_def outgoingStreams_def offer_effect_def call_stream1_def call_offer_def call_sdp_def)
  then show ?thesis
    using l offer_announced_once [OF l call_views(1), of 1 call_offer ?s] call_offer_streams call_participant1 call_views(2)
    by (auto simp: to_switch_def)
qed

section \<open>Joining late\<close>

lemma countStreams_put:
  assumes "\<not> participantExists s i" "outgoingStreams p = []"
  shows "countStreams (s\<lparr> nextParticipantId := n, participants := omap_put i p (participants s) \<rparr>) = countStreams s"
proof -
  have "map_of m i = None \<Longrightarrow> sum_list (map (\<lambda>(_, p). length (outgoingStreams p)) (omap_put i p m)) = sum_list (map (\<lambda>(_, p). length (outgoingStreams p)) m)"
    for m :: "(u32, Participant) omap"
    using assms(2) by (induction m) (auto split: if_splits)
  then show ?thesis using assms(1) by (simp add: countStreams_def participantExists_def)
qed

lemma length_omap_put: "map_of m k = None \<Longrightarrow> length (omap_put k v m) = Suc (length m)"
  by (induction m) (auto split: if_splits)

lemma no_offer:
  assumes "session_ok s" "\<nexists>j. offering s j"
  shows "participantInState s gotOffer = Inl (Logic_error ''Session: participantInState: no participants in state'')"
proof -
  have "i \<notin> set (particpantsInState s gotOffer)" for i
    using in_state_iff [OF assms(1), of i gotOffer] assms(2) by (auto simp: offering_def)
  then have "particpantsInState s gotOffer = []" by (cases "particpantsInState s gotOffer") auto
  then show ?thesis by (simp add: participantInState_def)
qed

lemma getOffer_no_offer:
  assumes "session_ok s" "\<nexists>j. offering s j" "participantExists s i"
  shows "fst (getOffer i s) = Inl (Logic_error ''Session: participantInState: no participants in state'')"
proof -
  have "\<nexists>j. offering (upd_participant i (set_state awaitAnswer) s) j" using assms(2,3) by (auto simp: offering_def split: if_splits)
  then show ?thesis using no_offer [OF state_keeps [OF assms(1,3)]] assms(3) by (simp add: getOffer_def pure_def Let_def)
qed

text \<open>
  C14: nobody can join a session in which streams were already negotiated. In a running controller with a switch, the hello of a
  new participant for a session with streams and without an offer under negotiation is answered by an exception
  that ends the program: the controller asks for an offer for the newcomer, and that takes its streams from the one
  participant with an offer under negotiation, who does not exist.
\<close>

theorem late_join_throws:
  assumes "json_laws J" "\<not> is_ok (j_parse J [])" "running J c" "has_switch c"
    and session: "map_of (c_sessions c) sid = Some s" "\<nexists>j. offering s j" "countStreams s > 0"
    and client: "n < length (c_clients c)" "map_of (c_clientConns c) (client_remote c n) = Some n" "\<not> registered (client_meta c n)"
      "\<not> participantExistsAt s (IPv4_str (ip (client_remote c n))) (port (client_remote c n))"
      "\<not> participantExists s (nextParticipantId s + 1)"
    and hello: "clh_sessionId m = Some sid"
  shows "\<exists>c'. possible c (Client_message n (json_cl_Hello J m)) \<and> handle J (Client_message n (json_cl_Hello J m)) c =
    (Inl (Logic_error ''Session: participantInState: no participants in state''), c')"
proof -
  note ok = ctl_okD [OF running_ok [OF assms(3)] session(1)]
  let ?a = "IPv4_str (ip (client_remote c n))" and ?q = "port (client_remote c n)" and ?i = "nextParticipantId s + 1"
  let ?p = "Participant_default\<lparr> p_id := ?i, controlIp := ?a, controlPort := Some ?q \<rparr>"
  let ?s = "s\<lparr> nextParticipantId := ?i, participants := omap_put ?i ?p (participants s) \<rparr>"
  have add: "addParticipant ?a ?q s = (Inr ?i, ?s)" using client(4,5) by (simp add: addParticipant_def Let_def participantExists_def)
  have s': "session_ok ?s" using addParticipant_keeps [OF ok(3), of ?a ?q] add by simp
  have p: "participantExists ?s j \<longleftrightarrow> j = ?i \<or> participantExists s j" "participant ?s j = (if j = ?i then ?p else participant s j)" for j
    by (simp_all add: participantExists_def participant_def)
  have fresh: "signalingState ?p \<noteq> gotOffer" by (simp add: Participant_default_def)
  have "\<nexists>j. offering ?s j" using session(2) fresh unfolding offering_def p by (auto split: if_splits)
  then have err: "fst (getOffer ?i ?s) = Inl (Logic_error ''Session: participantInState: no participants in state'')"
    using getOffer_no_offer [OF s'] p(1) by simp
  have streams: "countStreams ?s = countStreams s"
    by (rule countStreams_put [OF client(5)]) (simp add: outgoingStreams_def Participant_default_def Transceiver_default_def)
  have "participants s \<noteq> []" using session(3) by (auto simp: countStreams_def)
  then have two: "length (participants ?s) > 1" using client(5) by (simp add: length_omap_put participantExists_def)
  obtain k where k: "switches_get c 0 = Inr k" using assms(4) by (auto simp: has_switch_def is_ok_iff)
  let ?c = "sw_addParticipant J k sid ?i (ip (client_remote c n)) (sendHello J n (set_client_meta n \<lparr> registered = True, cm_sessionId = sid, cm_participantId = ?i \<rparr>
      (put_session sid ?s c)))"
  have sw: "switches_get (sendHello J n (set_client_meta n x (put_session sid ?s c))) 0 = Inr k" for x
    using k by (simp add: sendHello_def set_client_meta_def write_client_def switches_get_def connectionById_def switch_meta_def Let_def put_session_def)
  have c': "map_of (c_sessions ?c) sid = Some ?s"
    by (simp add: sw_addParticipant_def write_switch_def sendHello_def write_client_def Let_def set_client_meta_def put_session_def)
  have new: "onNewParticipant J n m c = offer_existing J n sid ?i ?c"
    using hello session(1) client(4) add sw
    by (simp add: onNewParticipant_def pure_def add_session_def session_exists_def join_session_def session_get_eq on_session_eq [of _ _ s] Let_def
        IPv4_of_str)
  have "fst (offer_existing J n sid ?i ?c) = Inl (Logic_error ''Session: participantInState: no participants in state'')"
    using c' two streams session(3) err by (simp add: offer_existing_def pure_def session_get_eq on_session_eq [OF c'] sbind_def split: sum.splits)
  then have "fst (onNewParticipant J n m c) = Inl (Logic_error ''Session: participantInState: no participants in state'')"
    unfolding new .
  then show ?thesis
    using hello_arrives [OF assms(1,2), of n m c] client(1-3) by (cases "onNewParticipant J n m c") (simp add: ci_onClientHello_def)
qed

theorem late_join_throws_witness:
  "\<exists>c c'. running tree_api c \<and> handle tree_api (Client_message 1 (json_cl_Hello tree_api call_hello)) c =
     (Inl (Logic_error ''Session: participantInState: no participants in state''), c')"
proof -
  obtain c l out where c: "running tree_api (put_session 5 lone_offered c)" "c = says out (lone_state l)" using lone_after_offer by blast
  let ?c = "put_session 5 lone_offered c"
  have p: "participants lone_offered = [(1, set_state stable (offer_effect call_offer [call_stream1] (call_participant 1 call_client1)))]"
      "nextParticipantId lone_offered = 1"
    by (simp_all add: lone_offered_def upd_participant_def participant_def lone_session_def)
  have s: "\<nexists>j. offering lone_offered j" "countStreams lone_offered > 0" "\<not> participantExists lone_offered (nextParticipantId lone_offered + 1)"
    by (auto simp: offering_def participantExists_def participant_def p countStreams_def outgoingStreams_def offer_effect_def
        call_participant_def Participant_default_def Transceiver_default_def)
  have remote: "client_remote ?c 1 = call_client2" "map_of (c_clientConns ?c) call_client2 = Some 1" "length (c_clients ?c) = 2"
    using lone_views(6,8,9) by (simp_all add: c(2) put_session_def says_def client_remote_def)
  have v: "has_switch ?c" "map_of (c_sessions ?c) 5 = Some lone_offered" "\<not> registered (client_meta ?c 1)"
    using lone_views(2,5) by (simp_all add: c(2))
  have new: "\<not> participantExistsAt lone_offered (IPv4_str (ip (client_remote ?c 1))) (port (client_remote ?c 1))"
    unfolding remote by (simp add: participantExistsAt_def p set_state_def offer_effect_def call_participant_def call_client1_def call_client2_def)
  have "1 < length (c_clients ?c)" "map_of (c_clientConns ?c) (client_remote ?c 1) = Some 1" "clh_sessionId call_hello = Some 5"
    using remote by (simp_all add: call_hello_def)
  from late_join_throws [OF tree_api_laws tree_api_empty c(1) v(1,2) s(1,2) this(1,2) v(3) new s(3) this(3)] c(1) show ?thesis by blast
qed

end
