(* ===== verification/Call_Path.thy ===== *)
theory Call_Path
  imports Negotiation Switch_System
begin

text \<open>
  Controller and switch together: the messages the controller writes for the two streams of a negotiation are read
  by the agent of the switch and end as a rule of its data plane.
\<close>

lemma stream_text_arrives:
  assumes "json_laws J" "ascii (as_iceUfrag (config_message sid i (dataPlaneConfig st)))" "ascii (as_icePwd (config_message sid i (dataPlaneConfig st)))"
  shows "client_onMessage J ops (stream_text J sid i st) s = onAddStream ops (config_message sid i (dataPlaneConfig st)) s"
proof -
  obtain msg where "j_parse J (stream_text J sid i st) = Inr msg" "j_find J msg ''type'' = Some (j_of_str J ''add_stream'')"
      "parse_AddStream J msg = Inr (config_message sid i (dataPlaneConfig st))"
    using AddStream_parsed [OF assms json_config_message] by blast
  then show ?thesis using assms(1) by (simp add: client_onMessage_def json_conv)
qed

text \<open>The message for a send stream makes its SSRCs known.\<close>

lemma sender_known:
  assumes "reachable api cfg n ext d" and "wf_AddStream (ag_state (dp_agent d)) m" and "as_direction m = Some sendonly" "as_mediaType m \<noteq> None"
    and "getSendStream (ag_state (dp_agent d)) (as_sessionId m) (as_mainSSRC m) = None"
      "getSendStream (ag_state (dp_agent d)) (as_sessionId m) (as_rtxSSRC m) = None"
  shows "\<exists>a d' k ss. onAddStream model_ops m (dp_agent d, d) = (Inr (), (a, d')) \<and>
    getSendStream (ag_state a) (as_sessionId m) (as_mainSSRC m) = Some (k, ss) \<and> ss_addr ss = IPv4Port (as_ip m) (as_port m) \<and>
    (as_rtxSSRC m = 0 \<or> getSendStream (ag_state a) (as_sessionId m) (as_rtxSSRC m) \<noteq> None) \<and>
    receiveStreams (ag_state a) = receiveStreams (ag_state (dp_agent d)) \<and>
    next_receiveStreamId (ag_state a) = next_receiveStreamId (ag_state (dp_agent d)) \<and>
    unat (next_sendStreamId (ag_state a)) \<le> unat (next_sendStreamId (ag_state (dp_agent d))) + 2 \<and> model_edges d \<subseteq> model_edges d'"
proof -
  let ?st = "ag_state (dp_agent d)" and ?addr = "IPv4Port (as_ip m) (as_port m)"
  let ?x = "\<lparr> ds_src = IPv4Port 0 0, ds_dst = ?addr, ds_ssrc = as_mainSSRC m, ds_rtxSsrc = as_rtxSSRC m, ds_rtcpSsrc = 0, ds_rtcpRtxSsrc = 0, ds_egressPort = 0 \<rparr>"
  obtain t where t: "as_mediaType m = Some t" using assms(4) by blast
  have "mdl.ok {} (dp_agent d, d)" using reachable_ok [OF assms(1)] by (simp add: sys_ok_def)
  then have inv: "state_inv ?st" "model_inv d" by (simp_all add: mdl.ok_def in_step_def)
  have wf: "as_rtxSSRC m \<noteq> as_mainSSRC m" "unat (next_sendStreamId ?st) + 2 < 2 ^ 32" using assms(2) by (simp_all add: wf_AddStream_def)
  obtain r st' where st': "addSendStream (as_sessionId m) (as_participantId m) ?addr t (as_mainSSRC m) (as_rtxSSRC m) ?st = (r, st')" by fastforce
  note added = addSendStream_added [OF inv(1) wf assms(5,6) [unfolded getSendStream_None_iff [OF inv(1)]] st']
  obtain q d' where q: "op_addStream model_ops ?x d = (q, d')" by fastforce
  have law: "q = Inr ()" "model_edges d \<subseteq> model_edges d'" using mdl.add_law [OF inv(2) q] by auto
  have "\<exists>a d2. onAddStream model_ops m (dp_agent d, d) = (Inr (), (a, d2)) \<and> ag_state a = st' \<and> (d2 = d \<or> d2 = d')"
    using assms(3) t st' added(1) q law(1)
    by (simp add: onAddStream_def Let_def on_state_def on_stun_def on_dp_def hasPeer_def addPeer_def)
  moreover have "getSendStream st' (as_sessionId m) (as_mainSSRC m) =
      Some (next_sendStreamId ?st, main_stream (as_sessionId m) (as_participantId m) ?addr t (as_mainSSRC m))"
    using getSendStream_iff [OF added(2)] added(4) by (simp add: main_stream_def)
  moreover have "as_rtxSSRC m = 0 \<or> getSendStream st' (as_sessionId m) (as_rtxSSRC m) \<noteq> None"
    using getSendStream_None_iff [OF added(2)] added(5) by auto
  moreover have "ss_addr (main_stream (as_sessionId m) (as_participantId m) ?addr t (as_mainSSRC m)) = ?addr" by (simp add: main_stream_def)
  ultimately show ?thesis using added(6-8) law(2) by fastforce
qed

text \<open>
  C3: what the controller negotiates reaches the data plane. Take a stream made from the media of an offer and a
  stream made from the media of an answer with the SSRCs of the first, and a switch that is reachable with controller
  messages that satisfy \<open>wf_AddStream\<close>, in which these SSRCs are not in use. The agent reads the two texts the controller writes for them without an exception, and then the
  data plane forwards the offering participant's media, from the address and with the main SSRC of its stream, to the address of the answering one at the
  highest decode target; rules installed before stay.
\<close>

theorem call_reaches_data_plane:
  fixes sid j i :: u32
  assumes J: "json_laws J" and d: "reachable api cfg n ext d"
    and st: "Stream_of md scfg \<lparr> ssrcs = [] \<rparr> = Inr st" "ssrcDescription md = Some x" and rt: "Stream_of md' scfg x = Inr rt"
    and creds: "\<forall>u \<in> {iceUfrag md, icePwd md, iceUfrag md', icePwd md'}. pred_option ascii u"
  defines "m1 \<equiv> config_message sid j (dataPlaneConfig st)" and "m2 \<equiv> config_message sid i (dataPlaneConfig rt)"
  assumes room: "wf_AddStream (ag_state (dp_agent d)) m2" "unat (next_sendStreamId (ag_state (dp_agent d))) + 4 < 2 ^ 32"
    and unused: "getSendStream (ag_state (dp_agent d)) sid (as_mainSSRC m1) = None" "getSendStream (ag_state (dp_agent d)) sid (as_rtxSSRC m1) = None"
  shows "\<exists>a1 d1 a2 d2.
    client_onMessage J model_ops (stream_text J sid j st) (dp_agent d, d) = (Inr (), (a1, d1)) \<and>
    client_onMessage J model_ops (stream_text J sid i rt) (a1, d1\<lparr> dp_agent := a1 \<rparr>) = (Inr (), (a2, d2)) \<and>
    (IPv4Port (as_ip m1) (as_port m1), as_mainSSRC m1, IPv4Port (as_ip m2) (as_port m2)) \<in> model_edges d2 \<and>
    model_target d2 (IPv4Port (as_ip m1) (as_port m1), as_mainSSRC m1, IPv4Port (as_ip m2) (as_port m2)) = hi \<and>
    model_edges d \<subseteq> model_edges d2"
proof -
  obtain xs where xs: "dataPlaneConfig st = Send_config xs" "base_config md scfg (ssrcs x) = Inr xs"
    using st by (auto simp: Stream_of_send)
  then have "ssrcs x \<noteq> []" by (simp add: base_config_Inr)
  then obtain xr p where xr: "dataPlaneConfig rt = Receive_config (receive_config xr (fst p) (snd p))" "base_config md' scfg (ssrcs x) = Inr xr"
    using rt by (auto simp: Stream_of_receive)
  have same: "mainSSRC xr = mainSSRC xs" "rtxSSRC xr = rtxSSRC xs" using xs(2) xr(2) by (simp_all add: base_config_Inr)
  have m: "as_sessionId m1 = sid" "as_direction m1 = Some sendonly" "as_mediaType m1 \<noteq> None" "as_mainSSRC m1 = mainSSRC xs" "as_rtxSSRC m1 = rtxSSRC xs"
      "as_sessionId m2 = sid" "as_direction m2 = Some recvonly" "as_mainSSRC m2 = mainSSRC xs" "as_rtxSSRC m2 = rtxSSRC xs"
    by (simp_all add: m1_def m2_def xs(1) xr(1) config_message_def stream_message_def receive_config_def same)
  have asc: "ascii (as_iceUfrag m1)" "ascii (as_icePwd m1)" "ascii (as_iceUfrag m2)" "ascii (as_icePwd m2)"
    using creds xs xr by (auto simp: m1_def m2_def config_message_def stream_message_def receive_config_def base_config_Inr)
  have "wf_AddStream (ag_state (dp_agent d)) m1" using room(1) m by (simp add: wf_AddStream_def)
  note send = sender_known [OF d this m(2,3), unfolded m(1), OF unused]
  then obtain a1 d1 k ss where one: "onAddStream model_ops m1 (dp_agent d, d) = (Inr (), (a1, d1))"
      "getSendStream (ag_state a1) sid (as_mainSSRC m1) = Some (k, ss)" "ss_addr ss = IPv4Port (as_ip m1) (as_port m1)"
      "as_rtxSSRC m1 = 0 \<or> getSendStream (ag_state a1) sid (as_rtxSSRC m1) \<noteq> None"
      "receiveStreams (ag_state a1) = receiveStreams (ag_state (dp_agent d))"
      "next_receiveStreamId (ag_state a1) = next_receiveStreamId (ag_state (dp_agent d))"
      "unat (next_sendStreamId (ag_state a1)) \<le> unat (next_sendStreamId (ag_state (dp_agent d))) + 2" "model_edges d \<subseteq> model_edges d1"
    by blast
  let ?d = "d1\<lparr> dp_agent := a1 \<rparr>"
  have r: "reachable api cfg n ext ?d"
    using reachable.step [OF d switch_step.stream_message [OF \<open>wf_AddStream (ag_state (dp_agent d)) m1\<close> one(1)]] .
  have "wf_AddStream (ag_state (dp_agent ?d)) m2"
    using room one(5-7) by (simp add: wf_AddStream_def fresh_for_def)
  from receiver_gets_media_path [OF r this m(7), of k ss] one(2-4) m
  obtain a2 d2 where two: "onAddStream model_ops m2 (a1, ?d) = (Inr (), (a2, d2))"
      "(ss_addr ss, as_mainSSRC m2, IPv4Port (as_ip m2) (as_port m2)) \<in> model_edges d2"
      "model_target d2 (ss_addr ss, as_mainSSRC m2, IPv4Port (as_ip m2) (as_port m2)) = hi" "model_edges ?d \<subseteq> model_edges d2"
    by auto
  have "client_onMessage J model_ops (stream_text J sid j st) (dp_agent d, d) = (Inr (), (a1, d1))"
      "client_onMessage J model_ops (stream_text J sid i rt) (a1, ?d) = (Inr (), (a2, d2))"
    using one(1) two(1)
    by (simp_all add: m1_def m2_def stream_text_arrives [OF J asc(1,2) [unfolded m1_def]] stream_text_arrives [OF J asc(3,4) [unfolded m2_def]])
  moreover have "model_edges ?d = model_edges d1" by (simp add: model_edges_def)
  ultimately show ?thesis
    using one(3,8) two(2-4) m(4,8) by (intro exI [of _ a1] exI [of _ d1] exI [of _ a2] exI [of _ d2]) auto
qed

theorem call_reaches_data_plane_witness:
  "\<exists>a1 d1 a2 d2 :: unit switch_agent data_plane_model.
    client_onMessage tree_api model_ops (stream_text tree_api 5 1 call_stream1)
      (SwitchAgent demo_config (), DataPlaneModel 12 (SwitchAgent demo_config ())) = (Inr (), (a1, d1)) \<and>
    client_onMessage tree_api model_ops (stream_text tree_api 5 2 call_stream2) (a1, d1\<lparr> dp_agent := a1 \<rparr>) = (Inr (), (a2, d2)) \<and>
    (IPv4Port 0x0A000001 3000, 11, IPv4Port 0x0A000002 3000) \<in> model_edges d2"
proof -
  let ?d = "DataPlaneModel 12 (SwitchAgent demo_config ())"
  have r: "reachable api demo_config () 12 ?d" for api by (rule reachable.start)
  have a: "dp_agent ?d = SwitchAgent demo_config ()" by (simp add: DataPlaneModel_def)
  have empty: "ag_state (dp_agent ?d) = agent_state_init" unfolding a by (simp add: SwitchAgent_def)
  have wf: "wf_AddStream (ag_state (dp_agent ?d)) (config_message 5 2 (dataPlaneConfig call_stream2))"
    by (simp add: empty agent_state_init_def wf_AddStream_def fresh_for_def call_stream2_def call_send_def config_message_def stream_message_def receive_config_def)
  have n: "unat (next_sendStreamId (ag_state (dp_agent ?d))) + 4 < 2 ^ 32" by (simp add: empty agent_state_init_def)
  have u: "getSendStream (ag_state (dp_agent ?d)) 5 y = None" for y by (simp add: empty agent_state_init_def getSendStream_def)
  show ?thesis
    using call_reaches_data_plane [OF tree_api_laws r call_stream1_made _ call_stream2_made _ wf n u u]
    by (simp add: a call_stream1_def call_stream2_def call_send_def config_message_def stream_message_def receive_config_def) blast
qed

end
