(* ===== verification/Main_Programs.thy ===== *)
theory Main_Programs
  imports Complex_Main Api_Client Web_Server Tofino Call_Path
begin

text \<open>
  The main programs \<open>model/model_main.cc\<close>, \<open>tofino_agent/tofino_agent_main.cc\<close> and \<open>controller/controller_main.cc\<close>: from
  the options, which a library parses, to the configuration and the state in which the event loop starts. The parsed options, the
  file system, the TLS library and what opens ports and connections are arguments. The lemmas connect the
  programs to the reachable states of the other theories.
\<close>

section \<open>Options\<close>

record agent_options =
  ao_switchId :: "u32 option"
  ao_apiListenPort :: "u16 option"
  ao_controller :: "string option"
  ao_iceUfrag :: "string option"
  ao_icePwd :: "string option"
  ao_verbose :: bool
  ao_help :: bool

record model_options = agent_options +
  mo_sfuListenPort :: "u16 option"
  mo_av1RtpExt :: "u32 option"
  mo_rtpDropRate :: "real option"

record tofino_options = agent_options +
  to_dataPlaneIface :: "string option"

record run_config =
  rc_agent :: agent_config
  rc_sfuListenPort :: u16
  rc_apiListenPort :: u16
  rc_controllerIPv4 :: string
  rc_controllerPort :: u16
  rc_dataPlaneIface :: string
  rc_rtpDropRate :: real
  rc_verbose :: bool

datatype 'a parsed_options = Config 'a | Stop exit_status

definition value_or :: "'a \<Rightarrow> 'a option \<Rightarrow> 'a" where
  "value_or x y = (case y of None \<Rightarrow> x | Some v \<Rightarrow> v)"

definition controller_address :: "'a agent_options_scheme \<Rightarrow> (string \<times> u16) result" where
  "controller_address opts = (case ao_controller opts of None \<Rightarrow> Inr (''127.0.0.1'', 3302) | Some t \<Rightarrow> parseIPPort t)"

text \<open>A wrong address is reported by an exception before the text for \<open>--help\<close> is printed.\<close>

definition model_parseOptions :: "model_options \<Rightarrow> run_config parsed_options" where
  "model_parseOptions opts =
     (case controller_address opts of
        Inl e \<Rightarrow> Stop (Terminated e)
      | Inr (host, p) \<Rightarrow>
          if ao_help opts then Stop (Exit 0)
          else Config \<lparr> rc_agent = \<lparr> cf_type = type_model, cf_switchId = value_or 0 (ao_switchId opts), cf_iceUfrag = value_or ''7Ad/'' (ao_iceUfrag opts),
                 cf_icePwd = value_or ''UKZe/aYNEouGzQUhChnKGiIS'' (ao_icePwd opts), cf_av1RtpExtId = value_or 12 (mo_av1RtpExt opts) \<rparr>,
               rc_sfuListenPort = value_or 3000 (mo_sfuListenPort opts), rc_apiListenPort = value_or 4001 (ao_apiListenPort opts),
               rc_controllerIPv4 = host, rc_controllerPort = p, rc_dataPlaneIface = [], rc_rtpDropRate = value_or 0 (mo_rtpDropRate opts),
               rc_verbose = ao_verbose opts \<rparr>)"

definition tofino_parseOptions :: "tofino_options \<Rightarrow> run_config parsed_options" where
  "tofino_parseOptions opts =
     (case to_dataPlaneIface opts of
        None \<Rightarrow> Stop (Exit 1)
      | Some iface \<Rightarrow>
          (case controller_address opts of
             Inl e \<Rightarrow> Stop (Terminated e)
           | Inr (host, p) \<Rightarrow>
               if ao_help opts then Stop (Exit 0)
               else Config \<lparr> rc_agent = \<lparr> cf_type = type_model, cf_switchId = value_or 0 (ao_switchId opts), cf_iceUfrag = value_or ''7Ad/'' (ao_iceUfrag opts),
                      cf_icePwd = value_or ''UKZe/aYNEouGzQUhChnKGiIS'' (ao_icePwd opts), cf_av1RtpExtId = 0 \<rparr>,
                    rc_sfuListenPort = 0, rc_apiListenPort = value_or 4001 (ao_apiListenPort opts),
                    rc_controllerIPv4 = host, rc_controllerPort = p, rc_dataPlaneIface = iface, rc_rtpDropRate = 0,
                    rc_verbose = ao_verbose opts \<rparr>))"

record controller_options =
  co_clientSidePort :: "u16 option"
  co_switchSidePort :: "u16 option"
  co_dataPlane :: "string option"
  co_apiListenPort :: "u16 option"
  co_webPort :: "u16 option"
  co_certFile :: "string option"
  co_keyFile :: "string option"
  co_limit :: "string option"
  co_verbose :: bool
  co_help :: bool

record controller_config =
  cc_clientSidePort :: u16
  cc_switchSidePort :: u16
  cc_dataPlaneIPv4 :: string
  cc_dataPlanePort :: u16
  cc_apiListenPort :: u16
  cc_webPort :: u16
  cc_certFile :: string
  cc_keyFile :: string
  cc_limitNetwork :: string
  cc_limitMask :: byte
  cc_verbose :: bool

definition controller_parseOptions :: "controller_options \<Rightarrow> controller_config parsed_options" where
  "controller_parseOptions opts =
     (case (case co_dataPlane opts of None \<Rightarrow> Inr (''127.0.0.1'', 3000) | Some t \<Rightarrow> parseIPPort t) of
        Inl e \<Rightarrow> Stop (Terminated e)
      | Inr (addr, p) \<Rightarrow>
          (case (case co_limit opts of None \<Rightarrow> Inr (''0.0.0.0'', 0) | Some t \<Rightarrow> parseCIDR t) of
             Inl e \<Rightarrow> Stop (Terminated e)
           | Inr (net, bits) \<Rightarrow>
               if co_help opts then Stop (Exit 0)
               else Config \<lparr> cc_clientSidePort = value_or 3301 (co_clientSidePort opts), cc_switchSidePort = value_or 3302 (co_switchSidePort opts),
                    cc_dataPlaneIPv4 = addr, cc_dataPlanePort = p, cc_apiListenPort = value_or 4000 (co_apiListenPort opts),
                    cc_webPort = value_or 8000 (co_webPort opts), cc_certFile = value_or ''cert.pem'' (co_certFile opts),
                    cc_keyFile = value_or ''key.pem'' (co_keyFile opts), cc_limitNetwork = net, cc_limitMask = bits, cc_verbose = co_verbose opts \<rparr>))"

section \<open>Programs\<close>

text \<open>
  A program ends before its event loop starts, or serves. \<open>launch\<close> stands for opening the ports and connecting to the controller; once
  connected the agent sends its hello. Exceptions of the constructor are caught and give the status -1.
\<close>

datatype 's started = Ended exit_status | Serving 's

definition launch_failed :: "exn \<Rightarrow> 's started" where
  "launch_failed e = Ended (if is_exception e then Exit (- 1) else Terminated e)"

definition model_main :: "'j json_api \<Rightarrow> 'n \<Rightarrow> (run_config \<Rightarrow> unit result) \<Rightarrow> model_options result \<Rightarrow> 'n switch_agent data_plane_model started" where
  "model_main J n launch parsed =
     (case parsed of
        Inl e \<Rightarrow> Ended (Terminated e)
      | Inr opts \<Rightarrow>
          (case model_parseOptions opts of
             Stop x \<Rightarrow> Ended x
           | Config c \<Rightarrow>
               let c = c\<lparr> rc_agent := (rc_agent c)\<lparr> cf_type := type_model \<rparr> \<rparr> in
               (case launch c of
                  Inl e \<Rightarrow> launch_failed e
                | Inr _ \<Rightarrow>
                    let d = DataPlaneModel (cf_av1RtpExtId (rc_agent c)) (SwitchAgent (rc_agent c) n); (a, d) = onControllerOpen J (dp_agent d, d)
                    in Serving (d\<lparr> dp_agent := a \<rparr>))))"

definition tofino_main :: "'j json_api \<Rightarrow> 'n \<Rightarrow> (run_config \<Rightarrow> unit result) \<Rightarrow> tofino_options result \<Rightarrow> ('n, tofino) sw started" where
  "tofino_main J n launch parsed =
     (case parsed of
        Inl e \<Rightarrow> Ended (Terminated e)
      | Inr opts \<Rightarrow>
          (case tofino_parseOptions opts of
             Stop x \<Rightarrow> Ended x
           | Config c \<Rightarrow>
               let c = c\<lparr> rc_agent := (rc_agent c)\<lparr> cf_type := type_tofino \<rparr> \<rparr> in
               (case launch c of
                  Inl e \<Rightarrow> launch_failed e
                | Inr _ \<Rightarrow> Serving (onControllerOpen J (SwitchAgent (rc_agent c) n, TofinoDataPlane)))))"

text \<open>The controller reads certificate and key, hands them to the TLS library and opens its ports; nothing is caught.\<close>

definition controller_main :: "fs_api \<Rightarrow> (string \<Rightarrow> string \<Rightarrow> unit result) \<Rightarrow> (controller_config \<Rightarrow> unit result) \<Rightarrow> controller_options result \<Rightarrow> controller started" where
  "controller_main fs tls launch parsed =
     (case parsed of
        Inl e \<Rightarrow> Ended (Terminated e)
      | Inr opts \<Rightarrow>
          (case controller_parseOptions opts of
             Stop x \<Rightarrow> Ended x
           | Config c \<Rightarrow>
               (case rbind (readFile fs (cc_certFile c)) (\<lambda>cert. rbind (readFile fs (cc_keyFile c)) (\<lambda>key. rbind (tls cert key) (\<lambda>_.
                       rbind (launch c) (\<lambda>_. Controller_of (cc_dataPlaneIPv4 c) (cc_dataPlanePort c) (cc_limitNetwork c) (cc_limitMask c))))) of
                  Inl e \<Rightarrow> Ended (Terminated e)
                | Inr s \<Rightarrow> Serving s)))"

text \<open>\<open>SwitchAgent::operator()\<close>: an exception that leaves the event loop is caught there.\<close>

definition agent_exit :: "unit result \<Rightarrow> exit_status" where
  "agent_exit r = (case r of Inr _ \<Rightarrow> Exit 0 | Inl e \<Rightarrow> if is_exception e then Exit (- 1) else Terminated e)"

section \<open>Start states\<close>

lemma model_main_serving:
  assumes "model_main J n launch parsed = Serving d"
  obtains opts c where "parsed = Inr opts" "model_parseOptions opts = Config c"
    "d = DataPlaneModel (cf_av1RtpExtId (rc_agent c)) ((SwitchAgent (rc_agent c) n)\<lparr> ag_toController := [json_sw_Hello J \<lparr> swh_switchId = Some (cf_switchId (rc_agent c)) \<rparr>] \<rparr>)"
proof -
  from assms obtain opts c where opts: "parsed = Inr opts" "model_parseOptions opts = Config c"
    by (auto simp: model_main_def launch_failed_def split: sum.splits parsed_options.splits)
  then have "(rc_agent c)\<lparr> cf_type := type_model \<rparr> = rc_agent c" by (auto simp: model_parseOptions_def split: sum.splits if_splits)
  then have "d = DataPlaneModel (cf_av1RtpExtId (rc_agent c)) ((SwitchAgent (rc_agent c) n)\<lparr> ag_toController := [json_sw_Hello J \<lparr> swh_switchId = Some (cf_switchId (rc_agent c)) \<rparr>] \<rparr>)"
    using assms opts by (auto simp: model_main_def launch_failed_def Let_def onControllerOpen_def DataPlaneModel_def SwitchAgent_def split: sum.splits)
  then show ?thesis using opts that by blast
qed

lemma model_main_reachable:
  assumes "model_main J n launch parsed = Serving d"
  shows "reachable api (ag_config (dp_agent d)) n (dp_av1RtpExt d) d" "dp_av1RtpExt d = cf_av1RtpExtId (ag_config (dp_agent d))"
    "ag_toController (dp_agent d) = [json_sw_Hello J \<lparr> swh_switchId = Some (cf_switchId (ag_config (dp_agent d))) \<rparr>]"
proof -
  obtain c :: run_config where d: "d = DataPlaneModel (cf_av1RtpExtId (rc_agent c)) ((SwitchAgent (rc_agent c) n)\<lparr> ag_toController := [json_sw_Hello J \<lparr> swh_switchId = Some (cf_switchId (rc_agent c)) \<rparr>] \<rparr>)"
    by (rule model_main_serving [OF assms])
  have "reachable api (rc_agent c) n (cf_av1RtpExtId (rc_agent c)) d"
    using reachable.step [OF reachable.start switch_step.to_controller [where hello = "json_sw_Hello J \<lparr> swh_switchId = Some (cf_switchId (rc_agent c)) \<rparr>"]]
    by (simp add: d DataPlaneModel_def SwitchAgent_def)
  then show "reachable api (ag_config (dp_agent d)) n (dp_av1RtpExt d) d" by (simp add: d DataPlaneModel_def SwitchAgent_def)
  show "dp_av1RtpExt d = cf_av1RtpExtId (ag_config (dp_agent d))"
    "ag_toController (dp_agent d) = [json_sw_Hello J \<lparr> swh_switchId = Some (cf_switchId (ag_config (dp_agent d))) \<rparr>]"
    by (simp_all add: d DataPlaneModel_def SwitchAgent_def)
qed

lemma controller_main_running:
  assumes "controller_main fs tls launch parsed = Serving c"
  shows "running J c" "c_switches c = []" "c_switchConns c = []" "c_sent c = []"
proof -
  obtain a p net bits where c: "Controller_of a p net bits = Inr c"
    using assms by (auto simp: controller_main_def rbind_Inr_iff split: sum.splits parsed_options.splits)
  then show "running J c" by (rule running.start)
  show "c_switches c = []" "c_switchConns c = []" "c_sent c = []" using c by (auto simp: Controller_of_def rbind_Inr_iff)
qed

lemma hello_parsed:
  assumes "json_laws J"
  obtains msg where "parseSwitchMessage J (json_sw_Hello J \<lparr> swh_switchId = Some i \<rparr>) = Some msg" "msg_is J msg ''hello''"
    "parse_sw_Hello J msg = Inr \<lparr> swh_switchId = Some i \<rparr>"
  using assms by (simp add: parseSwitchMessage_def json_sw_Hello_def msg_is_def parse_sw_Hello_def json_simps)

text \<open>
  C35: the programs meet. When the software switch and the controller have started with any options, the switch is in a reachable state of
  the connected program, with the same extension number in agent and data plane, the controller is in a state of its running program, and
  the one text the switch has sent, delivered on a new connection of the controller, is handled without an exception; afterwards the
  controller runs, has sent a hello in return and has registered the switch, exactly if its number is 0, as it is without options.
\<close>

theorem programs_meet:
  assumes "json_laws J" "\<And>j. j_dump J j \<noteq> []"
    and "model_main J n launch parsed = Serving d" "controller_main fs tls launch' parsed' = Serving c"
  shows "reachable api (ag_config (dp_agent d)) n (dp_av1RtpExt d) d \<and> dp_av1RtpExt d = cf_av1RtpExtId (ag_config (dp_agent d)) \<and> running J c \<and>
    (\<exists>hello c'. ag_toController (dp_agent d) = [hello] \<and> run J [Switch_open e, Switch_message 0 hello] c = (Inr (), c') \<and> running J c' \<and>
      countRegistered c' = (if cf_switchId (ag_config (dp_agent d)) = 0 then 1 else 0) \<and>
      c_sent c' = (if cf_switchId (ag_config (dp_agent d)) = 0 then [To_switch 0 (json_sw_Hello J \<lparr> swh_switchId = None \<rparr>)] else []))"
proof -
  let ?i = "cf_switchId (ag_config (dp_agent d))" and ?c = "c\<lparr> c_switches := [(e, SwitchMeta_default)], c_switchConns := [(e, 0)] \<rparr>"
  let ?hello = "json_sw_Hello J \<lparr> swh_switchId = Some ?i \<rparr>"
  note c = controller_main_running [OF assms(4)]
  obtain msg where msg: "parseSwitchMessage J ?hello = Some msg" "msg_is J msg ''hello''" "parse_sw_Hello J msg = Inr \<lparr> swh_switchId = Some ?i \<rparr>"
    by (rule hello_parsed [OF assms(1)])
  have ne: "?hello \<noteq> []" using assms(2) by (simp add: json_sw_Hello_def)
  have opened: "handle J (Switch_open e) c = (Inr (), ?c)" using c by (simp add: si_onSwitchOpen_def)
  then have running: "running J ?c" using running.event [OF c(1), of "Switch_open e"] by simp
  let ?final = "if ?i = 0 then sw_sendHello J 0 (?c\<lparr> c_switches := [(e, \<lparr> sm_registered = True, sm_id = 0 \<rparr>)] \<rparr>) else ?c"
  have meta: "\<not> sm_registered (switch_meta ?c 0)" "countRegistered ?c = 0" "\<not> switches_exists ?c 0"
    by (simp_all add: switch_meta_def countRegistered_def switches_exists_def connectionById_def SwitchMeta_default_def)
  have delivered: "handle J (Switch_message 0 ?hello) ?c = (Inr (), ?final)"
    using ne msg meta
    by (simp add: si_onSwitchMessage_def bufferString_def pure_def si_onSwitchHello_def onNewSwitch_def deref_def)
  then have "running J ?final" using running.event [OF running, of "Switch_message 0 ?hello"] by simp
  moreover have "run J [Switch_open e, Switch_message 0 ?hello] c = (Inr (), ?final)" using opened delivered by simp
  moreover have "countRegistered ?final = (if ?i = 0 then 1 else 0)" "c_sent ?final = (if ?i = 0 then [To_switch 0 (json_sw_Hello J \<lparr> swh_switchId = None \<rparr>)] else [])"
    using c meta(2) by (simp_all add: sw_sendHello_def write_switch_def countRegistered_def switch_meta_def)
  ultimately show ?thesis using model_main_reachable [OF assms(3)] c(1) by blast
qed

definition no_model_options :: model_options where
  "no_model_options = \<lparr> ao_switchId = None, ao_apiListenPort = None, ao_controller = None, ao_iceUfrag = None, ao_icePwd = None, ao_verbose = False,
     ao_help = False, mo_sfuListenPort = None, mo_av1RtpExt = None, mo_rtpDropRate = None \<rparr>"

definition no_controller_options :: controller_options where
  "no_controller_options = \<lparr> co_clientSidePort = None, co_switchSidePort = None, co_dataPlane = None, co_apiListenPort = None, co_webPort = None,
     co_certFile = None, co_keyFile = None, co_limit = None, co_verbose = False, co_help = False \<rparr>"

lemma default_model:
  assumes "\<And>c. is_ok (launch c)"
  obtains d where "model_main J n launch (Inr no_model_options) = Serving d" "cf_switchId (ag_config (dp_agent d)) = 0" "dp_av1RtpExt d = 12"
proof -
  have ok: "\<exists>u. launch c = Inr u" for c using assms [of c] by (simp add: is_ok_iff)
  show ?thesis
    by (rule that) (use ok in \<open>auto simp: model_main_def model_parseOptions_def controller_address_def no_model_options_def value_or_def
      onControllerOpen_def SwitchAgent_def DataPlaneModel_def Let_def split: sum.splits\<close>)
qed

definition av1_uri :: string where
  "av1_uri = ''https://aomediacodec.github.io/av1-rtp-spec/#dependency-descriptor-rtp-header-extension''"

text \<open>
  Whatever its options, the controller offers the dependency descriptor under number 13, while a switch without options looks for it
  under number 12: with both programs started without options, no layer of a stream is ever left out.
\<close>

lemma default_extension_ids:
  assumes "controller_main fs tls launch parsed = Serving c"
  shows "map ext_identifier (filter (\<lambda>x. uri x = av1_uri) (videoRTPExtensions (c_config c))) = [13]"
proof -
  obtain a p net bits where "Controller_of a p net bits = Inr c"
    using assms by (auto simp: controller_main_def rbind_Inr_iff split: sum.splits parsed_options.splits)
  then have "videoRTPExtensions (c_config c) = videoRTPExtensions (SFUConfig_of [] 0 [] [] (IPv4Prefix 0 0) 13)"
    by (auto simp: Controller_of_def rbind_Inr_iff SFUConfig_of_def)
  then show ?thesis by (simp add: SFUConfig_of_def av1_uri_def)
qed

lemma default_controller:
  assumes "\<And>f. fs_read fs f \<noteq> None" "\<And>a b. is_ok (tls a b)" "\<And>c. is_ok (launch c)"
  obtains c where "controller_main fs tls launch (Inr no_controller_options) = Serving c"
proof -
  obtain cert key where files: "fs_read fs ''cert.pem'' = Some cert" "fs_read fs ''key.pem'' = Some key" using assms(1) by blast
  moreover have "is_ok (IPv4Prefix_of_string ''0.0.0.0'' 0)" by code_simp
  then have "\<exists>c. Controller_of ''127.0.0.1'' 3000 ''0.0.0.0'' 0 = Inr c" by (auto simp: Controller_of_def is_ok_iff)
  moreover have "tls cert key = Inr ()" using assms(2) [of cert key] by (auto simp: is_ok_iff)
  moreover have "launch c = Inr ()" for c using assms(3) [of c] by (auto simp: is_ok_iff)
  ultimately show ?thesis
    using that by (auto simp: controller_main_def controller_parseOptions_def no_controller_options_def value_or_def readFile_def)
qed

theorem programs_meet_witness:
  "\<exists>d c c' hello. model_main tree_api () (\<lambda>_. Inr ()) (Inr no_model_options) = Serving d \<and>
     controller_main demo_fs (\<lambda>_ _. Inr ()) (\<lambda>_. Inr ()) (Inr no_controller_options) = Serving c \<and>
     run tree_api [Switch_open (IPv4Port 1 1), Switch_message 0 hello] c = (Inr (), c') \<and> countRegistered c' = 1 \<and> running tree_api c'"
proof -
  have dump: "j_dump tree_api j \<noteq> []" for j by (cases j) (simp_all add: tree_api_def)
  obtain d where d: "model_main tree_api () (\<lambda>_. Inr ()) (Inr no_model_options) = Serving d" "cf_switchId (ag_config (dp_agent d)) = 0"
    using default_model [of "\<lambda>_. Inr ()" tree_api "()"] by auto
  obtain c where c: "controller_main demo_fs (\<lambda>_ _. Inr ()) (\<lambda>_. Inr ()) (Inr no_controller_options) = Serving c"
    using default_controller [of demo_fs "\<lambda>_ _. Inr ()" "\<lambda>_. Inr ()"] by (auto simp: demo_fs_def)
  obtain hello c' where "run tree_api [Switch_open (IPv4Port 1 1), Switch_message 0 hello] c = (Inr (), c')" "running tree_api c'" "countRegistered c' = 1"
    using programs_meet [OF tree_api_laws dump d(1) c, of demo_nice "IPv4Port 1 1"] by (auto simp: d(2) simp del: run.simps)
  then show ?thesis using d(1) c by blast
qed

end
