(* ===== verification/Float_Arith.thy ===== *)
theory Float_Arith
  imports Complex_Main "HOL-Library.Log_Nat"
begin

text \<open>
  The types \<open>float\<close> and \<open>double\<close>. A finite floating-point number is the real number it stands for; an operation
  rounds the exact result to a significand of 24 or 53 bits, to the nearest number and to the even
  one of two that are equally near. The range of the exponent is not limited: the numbers the sources
  compute with stay far from the smallest and largest exponent. The lemmas say that rounding
  is monotone and keeps every number whose significand fits, so that a bound which is itself a
  floating-point number survives rounding.
\<close>

section \<open>Rounding\<close>

definition rne :: "real \<Rightarrow> int" where
  "rne x = (let f = \<lfloor>x\<rfloor>; r = x - of_int f in if r < 1 / 2 \<or> r = 1 / 2 \<and> even f then f else f + 1)"

text \<open>The exponent of a positive number: the power of two at or below it.\<close>

definition expo :: "real \<Rightarrow> int" where
  "expo x = (if 1 \<le> x then int (floorlog 2 (nat \<lfloor>x\<rfloor>)) - 1 else - int (floorlog 2 (nat (\<lceil>1 / x\<rceil> - 1))))"

definition fl_pos :: "nat \<Rightarrow> real \<Rightarrow> real" where
  "fl_pos p x = of_int (rne (x * 2 powi (int p - 1 - expo x))) * 2 powi (expo x - (int p - 1))"

definition fl :: "nat \<Rightarrow> real \<Rightarrow> real" where
  "fl p x = (if x = 0 then 0 else if 0 < x then fl_pos p x else - fl_pos p (- x))"

abbreviation f32 :: "real \<Rightarrow> real" where
  "f32 \<equiv> fl 24"

abbreviation f64 :: "real \<Rightarrow> real" where
  "f64 \<equiv> fl 53"

section \<open>Nearest integers\<close>

lemma rne_of_int [simp]: "rne (of_int k) = k"
  by (simp add: rne_def)

lemma rne_near: "\<lfloor>x\<rfloor> \<le> rne x" "rne x \<le> \<lfloor>x\<rfloor> + 1"
  by (simp_all add: rne_def Let_def)

lemma rne_mono:
  assumes "x \<le> y"
  shows "rne x \<le> rne y"
proof (cases "\<lfloor>x\<rfloor> = \<lfloor>y\<rfloor>")
  case True
  then show ?thesis using assms by (auto simp: rne_def Let_def)
next
  case False
  then have "\<lfloor>x\<rfloor> + 1 \<le> \<lfloor>y\<rfloor>" using floor_mono [OF assms] by linarith
  then show ?thesis using rne_near [of x] rne_near [of y] by linarith
qed

section \<open>Exponents\<close>

lemma pow_floorlog:
  assumes "0 < n"
  shows "2 ^ (floorlog 2 n - 1) \<le> n" "n < 2 ^ floorlog 2 n" "0 < floorlog 2 n"
  using floorlog_bounds [of n 2] assms by (auto simp: floorlog_def)

lemma expo_bounds:
  assumes "0 < x"
  shows "2 powi expo x \<le> x" "x < 2 powi (expo x + 1)"
proof -
  have "2 powi expo x \<le> x \<and> x < 2 powi (expo x + 1)"
  proof (cases "1 \<le> x")
    case True
    define n where "n = nat \<lfloor>x\<rfloor>"
    have n: "0 < n" "real n \<le> x" "x < real n + 1" using True by (auto simp: n_def)
    have "expo x = int (floorlog 2 n - 1)" "expo x + 1 = int (floorlog 2 n)"
      using True pow_floorlog(3) [OF n(1)] by (auto simp: expo_def n_def)
    moreover have "real (2 ^ (floorlog 2 n - 1)) \<le> real n" "real n + 1 \<le> real (2 ^ floorlog 2 n)"
      using pow_floorlog(1,2) [OF n(1)] by linarith+
    then have "2 ^ (floorlog 2 n - 1) \<le> x" "x < 2 ^ floorlog 2 n" using n by (simp_all only: of_nat_power of_nat_numeral)
    ultimately show ?thesis by (simp only: power_int_of_nat)
  next
    case False
    define n where "n = nat (\<lceil>1 / x\<rceil> - 1)"
    have "1 < 1 / x" using False assms by (simp add: field_simps)
    then have n: "0 < n" "real n < 1 / x" "1 / x \<le> real n + 1" unfolding n_def by linarith+
    define k where "k = floorlog 2 n"
    have "expo x = - int k" using False by (simp add: expo_def n_def k_def)
    moreover have k: "2 ^ (k - 1) \<le> n" "n < 2 ^ k" "0 < k" using pow_floorlog [OF n(1)] by (auto simp: k_def)
    have "real n + 1 \<le> 2 ^ k" using k(2) by (metis Suc_leI add.commute of_nat_Suc of_nat_le_iff of_nat_numeral of_nat_power)
    then have "1 / x \<le> 2 ^ k" using n by linarith
    then have "1 / 2 ^ k \<le> x" using assms by (simp add: field_simps)
    moreover have "2 ^ (k - 1) < 1 / x" using k(1) n(2)
      by (metis (no_types) of_nat_le_iff of_nat_numeral of_nat_power order_le_less_trans)
    then have "x < 1 / 2 ^ (k - 1)" using assms by (simp add: field_simps)
    moreover have "- int k + 1 = - int (k - 1)" using k(3) by simp
    ultimately show ?thesis by (simp only: power_int_minus power_int_of_nat inverse_eq_divide)
  qed
  then show "2 powi expo x \<le> x" "x < 2 powi (expo x + 1)" by auto
qed

lemma expo_less: "0 < x \<Longrightarrow> x < 2 powi k \<Longrightarrow> expo x < k"
  using expo_bounds(1) [of x] power_int_increasing [of k "expo x" "2::real"] by (meson leI less_eq_real_def less_le_trans not_less one_le_numeral order_trans)

lemma expo_mono: "0 < x \<Longrightarrow> x \<le> y \<Longrightarrow> expo x \<le> expo y"
  using expo_less [of x "expo y + 1"] expo_bounds(2) [of y] by linarith

section \<open>Rounding is monotone and keeps floating-point numbers\<close>

lemma powi_split: "(2::real) powi (a + b) = 2 powi a * 2 powi b"
  by (simp add: power_int_add)

lemma fl_pos_bounds:
  assumes "0 < x" "0 < p"
  shows "2 powi expo x \<le> fl_pos p x" "fl_pos p x \<le> 2 powi (expo x + 1)"
proof -
  let ?s = "int p - 1 - expo x"
  have pos: "(0::real) < 2 powi ?s" by simp
  have e: "expo x + ?s = int (p - 1)" "expo x + 1 + ?s = int p" using assms(2) by auto
  have "2 powi expo x * 2 powi ?s \<le> x * 2 powi ?s" "x * 2 powi ?s < 2 powi (expo x + 1) * 2 powi ?s"
    by (rule mult_right_mono [OF expo_bounds(1) [OF assms(1)] less_imp_le [OF pos]])
      (rule mult_strict_right_mono [OF expo_bounds(2) [OF assms(1)] pos])
  moreover have "(2::real) powi expo x * 2 powi ?s = of_int (2 ^ (p - 1))" "(2::real) powi (expo x + 1) * 2 powi ?s = of_int (2 ^ p)"
    using e by (simp_all only: powi_split [symmetric] e power_int_of_nat) simp_all
  ultimately have "of_int (2 ^ (p - 1)) \<le> x * 2 powi ?s" "x * 2 powi ?s \<le> of_int (2 ^ p)" by linarith+
  then have r: "2 ^ (p - 1) \<le> rne (x * 2 powi ?s)" "rne (x * 2 powi ?s) \<le> 2 ^ p"
    using rne_mono rne_of_int by metis+
  have inv: "(0::real) < 2 powi (expo x - (int p - 1))" by simp
  have "of_int (2 ^ (p - 1)) * 2 powi (expo x - (int p - 1)) \<le> fl_pos p x" "fl_pos p x \<le> of_int (2 ^ p) * 2 powi (expo x - (int p - 1))"
    unfolding fl_pos_def using r less_imp_le [OF inv] by (auto simp only: of_int_le_iff intro!: mult_right_mono)
  moreover have "of_int (2 ^ (p - 1)) * (2::real) powi (expo x - (int p - 1)) = 2 powi (int (p - 1) + (expo x - (int p - 1)))"
      "of_int (2 ^ p) * (2::real) powi (expo x - (int p - 1)) = 2 powi (int p + (expo x - (int p - 1)))"
    by (simp_all only: powi_split power_int_of_nat of_int_power of_int_numeral)
  moreover have "int (p - 1) + (expo x - (int p - 1)) = expo x" "int p + (expo x - (int p - 1)) = expo x + 1"
    using assms(2) by auto
  ultimately show "2 powi expo x \<le> fl_pos p x" "fl_pos p x \<le> 2 powi (expo x + 1)" by simp_all
qed

lemma fl_pos_mono:
  assumes "0 < x" "x \<le> y" "0 < p"
  shows "fl_pos p x \<le> fl_pos p y"
proof (cases "expo x = expo y")
  case True
  have "x * 2 powi (int p - 1 - expo y) \<le> y * 2 powi (int p - 1 - expo y)" using assms by (simp add: mult_right_mono)
  from rne_mono [OF this] show ?thesis by (simp add: fl_pos_def True mult_right_mono)
next
  case False
  then have "expo x + 1 \<le> expo y" using expo_mono [OF assms(1,2)] by linarith
  then have "(2::real) powi (expo x + 1) \<le> 2 powi expo y" by (rule power_int_increasing) simp
  then show ?thesis using fl_pos_bounds [of x p] fl_pos_bounds [of y p] assms by linarith
qed

lemma fl_pos_pos: "0 < x \<Longrightarrow> 0 < p \<Longrightarrow> 0 < fl_pos p x"
  using fl_pos_bounds(1) [of x p] by (smt (verit) zero_less_power_int)

lemma fl_mono:
  assumes "x \<le> y" "0 < p"
  shows "fl p x \<le> fl p y"
  using assms fl_pos_mono [of x y p] fl_pos_mono [of "- y" "- x" p] fl_pos_pos [of y p] fl_pos_pos [of "- x" p] by (auto simp: fl_def)

lemma fl_minus: "fl p (- x) = - fl p x"
  by (auto simp: fl_def)

text \<open>The numbers of a format: an integer of \<open>p\<close> bits times a power of two.\<close>

definition is_fl :: "nat \<Rightarrow> real \<Rightarrow> bool" where
  "is_fl p x \<longleftrightarrow> (\<exists>m e. x = of_int m * 2 powi e \<and> \<bar>m\<bar> < 2 ^ p)"

lemma fl_pos_exact:
  assumes "0 < x" "x = of_int m * 2 powi e" "m < 2 ^ p"
  shows "fl_pos p x = x"
proof -
  let ?s = "int p - 1 - expo x"
  have "x < of_int (2 ^ p) * 2 powi e" unfolding assms(2) using assms(3) by (intro mult_strict_right_mono) (simp_all only: of_int_less_iff, simp)
  also have "\<dots> = 2 powi (int p + e)" by (simp add: powi_split)
  finally have "expo x < int p + e" using expo_less assms(1) by blast
  then have "0 \<le> e + ?s" by linarith
  then obtain k where k: "e + ?s = int k" using zero_le_imp_eq_int by blast
  have "x * 2 powi ?s = of_int m * 2 powi (e + ?s)" by (simp add: assms(2) powi_split)
  also have "\<dots> = of_int (m * 2 ^ k)" by (simp add: k)
  finally have "fl_pos p x = of_int (m * 2 ^ k) * 2 powi (expo x - (int p - 1))" unfolding fl_pos_def by (simp only: rne_of_int)
  also have "\<dots> = x * 2 powi ?s * 2 powi (expo x - (int p - 1))" using \<open>x * 2 powi ?s = _\<close> \<open>_ = of_int (m * 2 ^ k)\<close> by simp
  also have "\<dots> = x" by (simp add: mult.assoc powi_split [symmetric])
  finally show ?thesis .
qed

lemma fl_exact: "is_fl p x \<Longrightarrow> fl p x = x"
proof -
  assume "is_fl p x"
  then obtain m e where x: "x = of_int m * 2 powi e" and m: "\<bar>m\<bar> < 2 ^ p" by (auto simp: is_fl_def)
  have "- x = of_int (- m) * 2 powi e" using x by simp
  then show ?thesis using fl_pos_exact [of x m e p, OF _ x] fl_pos_exact [of "- x" "- m" e p] m unfolding fl_def
    by (cases x "0::real" rule: linorder_cases) simp_all
qed

lemma is_fl_int: "\<bar>k\<bar> < 2 ^ p \<Longrightarrow> is_fl p (of_int k)"
  unfolding is_fl_def by (rule exI [of _ k], rule exI [of _ 0]) simp

lemma is_fl_half: "\<bar>k\<bar> < 2 ^ p \<Longrightarrow> is_fl p (of_int k / 2)"
  unfolding is_fl_def by (rule exI [of _ k], rule exI [of _ "- 1"]) simp

lemma fl_ge: "is_fl p a \<Longrightarrow> a \<le> x \<Longrightarrow> 0 < p \<Longrightarrow> a \<le> fl p x"
  using fl_mono [of a x p] by (simp add: fl_exact)

lemma fl_le: "is_fl p b \<Longrightarrow> x \<le> b \<Longrightarrow> 0 < p \<Longrightarrow> fl p x \<le> b"
  using fl_mono [of x b p] by (simp add: fl_exact)

end
