(* ===== verification/Performance.thy ===== *)
theory Performance
  imports Float_Arith Cpp_Strings "HOL-Library.Signed_Division"
begin

text \<open>
  \<open>hardware/performance/data_plane_performance.cpp\<close>: how many meetings a server and a Tofino switch can carry,
  for every combination of participants, senders, replication and rewriting mode, qualities and loss. An \<open>int\<close>
  is an integer whose operations are checked to stay in 32 bits where the program does not bound them by
  construction; \<open>float\<close> and \<open>double\<close> are the rounded reals of \<open>Float_Arith\<close>. The program ends early by a failed assertion
  or by \<open>exit(1)\<close>; a loop that never ends has the value \<open>None\<close>. Progress reports are left out.
\<close>

section \<open>Ends of the program\<close>

text \<open>\<open>Undefined_int\<close>: an \<open>int\<close> operation without a meaning, by overflow, division by zero or conversion of a number out of range.\<close>

datatype stop = Assertion string | Exit string | Undefined_int

type_synonym 'a outcome = "stop + 'a"

fun ebind :: "'a outcome \<Rightarrow> ('a \<Rightarrow> 'b outcome) \<Rightarrow> 'b outcome" where
  "ebind (Inl e) f = Inl e"
| "ebind (Inr x) f = f x"

definition assertion :: "bool \<Rightarrow> string \<Rightarrow> unit outcome" where
  "assertion b t = (if b then Inr () else Inl (Assertion t))"

definition int32 :: "int \<Rightarrow> int outcome" where
  "int32 k = (if - (2 ^ 31) \<le> k \<and> k < 2 ^ 31 then Inr k else Inl Undefined_int)"

text \<open>The floor of a quotient of two floating-point numbers, converted to \<open>int\<close>; a quotient by zero is not finite.\<close>

definition floor_div :: "nat \<Rightarrow> real \<Rightarrow> real \<Rightarrow> int outcome" where
  "floor_div p a b = (if b = 0 then Inl Undefined_int else int32 \<lfloor>fl p (a / b)\<rfloor>)"

definition int_div :: "int \<Rightarrow> int \<Rightarrow> int outcome" where
  "int_div a b = (if b = 0 then Inl Undefined_int else int32 (a sdiv b))"

text \<open>A loop \<open>for (i = ...; cond(i); i = next(i)) body\<close>, and one over the elements of a list.\<close>

partial_function (option) for_loop ::
  "('i \<Rightarrow> bool) \<Rightarrow> ('i \<Rightarrow> 'i) \<Rightarrow> ('i \<Rightarrow> 's \<Rightarrow> 's outcome option) \<Rightarrow> 'i \<Rightarrow> 's \<Rightarrow> 's outcome option" where
  "for_loop cond nxt body i s =
     (if cond i then Option.bind (body i s) (\<lambda>r. case r of Inl e \<Rightarrow> Some (Inl e) | Inr s' \<Rightarrow> for_loop cond nxt body (nxt i) s')
      else Some (Inr s))"

fun each :: "('i \<Rightarrow> 's \<Rightarrow> 's outcome option) \<Rightarrow> 'i list \<Rightarrow> 's \<Rightarrow> 's outcome option" where
  "each body [] s = Some (Inr s)"
| "each body (i # is) s = Option.bind (body i s) (\<lambda>r. case r of Inl e \<Rightarrow> Some (Inl e) | Inr s' \<Rightarrow> each body is s')"

section \<open>Parameters and results\<close>

record PerfComboParams =
  tf_version :: int
  num_participants :: int
  num_senders :: int
  rep_mode :: string
  sr_mode :: string
  num_quality_high :: int
  num_quality_mid :: int
  num_quality_low :: int
  loss_rate :: real
  retx_overhead :: real
  params_str :: string

definition int_string :: "int \<Rightarrow> string" where
  "int_string k = (if k < 0 then ''-'' @ dec (nat (- k)) else dec (nat k))"

definition int_of_float :: "real \<Rightarrow> int" where
  "int_of_float x = (if x < 0 then \<lceil>x\<rceil> else \<lfloor>x\<rfloor>)"

definition populate_str :: "PerfComboParams \<Rightarrow> PerfComboParams" where
  "populate_str p = p\<lparr> params_str := ''v'' @ int_string (tf_version p) @ '':'' @ int_string (num_participants p) @ '':'' @
     int_string (num_senders p) @ '':'' @ rep_mode p @ '':'' @ sr_mode p @ '':'' @ int_string (num_quality_high p) @ '':'' @
     int_string (num_quality_mid p) @ '':'' @ int_string (num_quality_low p) @ '':'' @ int_string (int_of_float (loss_rate p)) @
     '':'' @ int_string (int_of_float (retx_overhead p)) \<rparr>"

record PerfCombo =
  params :: PerfComboParams
  sw :: int
  hw_bw :: int
  hw_rep :: int
  hw_nra :: int
  hw_rar :: int
  hw_rasr :: int
  hw_mem :: int
  hw_slm :: int
  hw_slr :: int
  hw :: int
  scale :: real
  combo_str :: string

text \<open>
  \<open>PerfResource\<close> and \<open>PerfScale\<close> differ in the type of the extremes. The numbers of default-constructed parameters are
  indeterminate and never read; they are zero here.
\<close>

record 'v perf_range =
  initialized :: bool
  r_min :: 'v
  r_max :: 'v
  min_params :: PerfComboParams
  max_params :: PerfComboParams

type_synonym PerfResource = "int perf_range"
type_synonym PerfScale = "real perf_range"

definition PerfComboParams_default :: PerfComboParams where
  "PerfComboParams_default = \<lparr> tf_version = 0, num_participants = 0, num_senders = 0, rep_mode = [], sr_mode = [], num_quality_high = 0,
     num_quality_mid = 0, num_quality_low = 0, loss_rate = 0, retx_overhead = 0, params_str = ''None'' \<rparr>"

definition perf_range_default :: "'v::ring_1 perf_range" where
  "perf_range_default = \<lparr> initialized = False, r_min = - 1, r_max = - 1, min_params = PerfComboParams_default,
     max_params = PerfComboParams_default \<rparr>"

record PerfParticipantCount =
  software :: PerfResource
  hardware_bw :: PerfResource
  hardware_rep :: PerfResource
  hardware_nra :: PerfResource
  hardware_rar :: PerfResource
  hardware_rasr :: PerfResource
  hardware_mem :: PerfResource
  hardware_slm :: PerfResource
  hardware_slr :: PerfResource
  hardware :: PerfResource
  non_rate_adapted :: PerfScale
  rate_adapted :: PerfScale
  all_scale :: PerfScale
  combo_count :: "64 word"

definition PerfParticipantCount_default :: PerfParticipantCount where
  "PerfParticipantCount_default = \<lparr> software = perf_range_default, hardware_bw = perf_range_default, hardware_rep = perf_range_default,
     hardware_nra = perf_range_default, hardware_rar = perf_range_default, hardware_rasr = perf_range_default,
     hardware_mem = perf_range_default, hardware_slm = perf_range_default, hardware_slr = perf_range_default,
     hardware = perf_range_default, non_rate_adapted = perf_range_default, rate_adapted = perf_range_default,
     all_scale = perf_range_default, combo_count = 0 \<rparr>"

section \<open>One combination\<close>

text \<open>
  The sum of truth values that the code compares with 2 and 3 is \<open>quality_count\<close>. Should \<open>sw\<close> be zero, \<open>scale\<close> is not finite, but
  the assertion that follows then ends the program.
\<close>

definition get_tofino_bandwidth :: "int \<Rightarrow> real outcome" where
  "get_tofino_bandwidth v =
     (if v = 1 then Inr (f32 (f64 (64 / 10)))
      else if v = 2 then Inr (f32 (f64 (128 / 10)))
      else Inl (Exit (''Tofino version is invalid: '' @ int_string v)))"

definition MAX_MEMORY_PER_STAGE :: int where
  "MAX_MEMORY_PER_STAGE = 143500"

definition get_tofino_memory_limit :: "int \<Rightarrow> (string \<Rightarrow> int) outcome" where
  "get_tofino_memory_limit v =
     (let memory_limits = (\<lambda>_. 0)(''S-LM'' := - 1, ''S-LR'' := - 1) in
      if v = 1 then Inr (memory_limits(''S-LM'' := MAX_MEMORY_PER_STAGE * 8, ''S-LR'' := MAX_MEMORY_PER_STAGE))
      else if v = 2 then Inr (memory_limits(''S-LM'' := MAX_MEMORY_PER_STAGE * 16, ''S-LR'' := MAX_MEMORY_PER_STAGE * 3))
      else Inl (Exit (''Tofino version is invalid: '' @ int_string v)))"

definition MAX_REPLICATION_TREES :: int where
  "MAX_REPLICATION_TREES = 64000"

definition bw_per_stream_high :: real where
  "bw_per_stream_high = 3"

definition bw_per_stream_mid :: real where
  "bw_per_stream_mid = 3 / 2"

definition bw_per_stream_low :: real where
  "bw_per_stream_low = 1"

definition sw_bandwidth :: real where
  "sw_bandwidth = f32 (f32 (of_int (32 * (8 * 10 * 10))) * bw_per_stream_high)"

text \<open>Bandwidth per meeting: receivers, senders, retransmissions.\<close>

definition stream_bw :: "real \<Rightarrow> int \<Rightarrow> real" where
  "stream_bw bw k = f32 (bw * f32 (of_int k))"

definition receivers_bw :: "PerfComboParams \<Rightarrow> real" where
  "receivers_bw p =
     f32 (f32 (stream_bw bw_per_stream_high (num_quality_high p) + stream_bw bw_per_stream_mid (num_quality_mid p)) +
          stream_bw bw_per_stream_low (num_quality_low p))"

definition sender_bw :: "PerfComboParams \<Rightarrow> real" where
  "sender_bw p =
     (if num_quality_high p > 0 then stream_bw bw_per_stream_high (num_senders p)
      else if num_quality_mid p > 0 then stream_bw bw_per_stream_mid (num_senders p)
      else stream_bw bw_per_stream_low (num_senders p))"

definition sw_bw_req :: "PerfComboParams \<Rightarrow> real" where
  "sw_bw_req p =
     (let req = f32 (receivers_bw p + sender_bw p)
      in f32 (req + f32 (f32 (retx_overhead p / 100) * req)))"

definition quality_count :: "int \<Rightarrow> int \<Rightarrow> int \<Rightarrow> int" where
  "quality_count h m l = of_bool (h > 0) + of_bool (m > 0) + of_bool (l > 0)"

definition levels :: "PerfComboParams \<Rightarrow> int" where
  "levels p = quality_count (num_quality_high p) (num_quality_mid p) (num_quality_low p)"

definition replication :: "PerfComboParams \<Rightarrow> PerfCombo \<Rightarrow> PerfCombo outcome" where
  "replication p c =
     (let trees = f64 (of_int MAX_REPLICATION_TREES * 2) in
      if num_participants p > 2 then
        if rep_mode p = ''NRA'' then Inr (c\<lparr> hw_rep := MAX_REPLICATION_TREES * 2, hw_nra := MAX_REPLICATION_TREES * 2 \<rparr>)
        else if rep_mode p = ''RA-R'' then
          if levels p = 2 then Inr (c\<lparr> hw_rep := MAX_REPLICATION_TREES, hw_rar := MAX_REPLICATION_TREES \<rparr>)
          else if levels p = 3 then ebind (floor_div 53 trees 3) (\<lambda>k. Inr (c\<lparr> hw_rep := k, hw_rar := k \<rparr>))
          else Inl (Exit (''Replication mode quality distribution is invalid: '' @ params_str p))
        else if rep_mode p = ''RA-SR'' then
          if levels p = 2 then ebind (int32 (2 * num_senders p)) (\<lambda>d. ebind (floor_div 53 trees (of_int d)) (\<lambda>k. Inr (c\<lparr> hw_rep := k, hw_rasr := k \<rparr>)))
          else if levels p = 3 then ebind (int32 (3 * num_senders p)) (\<lambda>d. ebind (floor_div 53 trees (of_int d)) (\<lambda>k. Inr (c\<lparr> hw_rep := k, hw_rasr := k \<rparr>)))
          else Inr c
        else Inl (Exit (''Replication mode is invalid: '' @ params_str p))
      else Inr c)"

definition receive_streams :: "int \<Rightarrow> int \<Rightarrow> int outcome" where
  "receive_streams senders participants = ebind (int32 (participants - 1)) (\<lambda>k. int32 (senders * k))"

definition memory :: "(string \<Rightarrow> int) \<Rightarrow> PerfComboParams \<Rightarrow> PerfCombo \<Rightarrow> PerfCombo outcome" where
  "memory memory_limits p c =
     (let meetings = (\<lambda>l. ebind (receive_streams (num_senders p) (num_participants p)) (int_div (memory_limits l))) in
      if num_participants p > 2 then
        if sr_mode p = ''S-LM'' then ebind (meetings ''S-LM'') (\<lambda>k. Inr (c\<lparr> hw_mem := k, hw_slm := k \<rparr>))
        else if sr_mode p = ''S-LR'' then ebind (meetings ''S-LR'') (\<lambda>k. Inr (c\<lparr> hw_mem := k, hw_slr := k \<rparr>))
        else if sr_mode p = ''None'' then
          if rep_mode p \<noteq> ''NRA'' then Inl (Exit (''Sequence number rewriting mode is invalid: '' @ params_str p)) else Inr c
        else Inl (Exit (''Sequence number rewriting mode is invalid: '' @ params_str p))
      else Inr c)"

definition bottleneck :: "PerfCombo \<Rightarrow> int" where
  "bottleneck c =
     (let h = hw_bw c; h = (if hw_rep c > 0 \<and> hw_rep c < hw_bw c then hw_rep c else h)
      in if hw_mem c > 0 \<and> hw_mem c < h then hw_mem c else h)"

definition compute_perf_for_combo :: "PerfComboParams \<Rightarrow> PerfCombo outcome" where
  "compute_perf_for_combo p =
     (let c = \<lparr> params = p, sw = - 1, hw_bw = - 1, hw_rep = - 1, hw_nra = - 1, hw_rar = - 1, hw_rasr = - 1, hw_mem = - 1,
                hw_slm = - 1, hw_slr = - 1, hw = - 1, scale = - 1, combo_str = params_str p \<rparr> in
      ebind (get_tofino_bandwidth (tf_version p)) (\<lambda>tf_bandwidth.
      ebind (get_tofino_memory_limit (tf_version p)) (\<lambda>memory_limits.
      ebind (floor_div 24 sw_bandwidth (sw_bw_req p)) (\<lambda>s.
      ebind (floor_div 53 (f64 (tf_bandwidth * 10 ^ 6)) (sw_bw_req p)) (\<lambda>b.
      ebind (replication p (c\<lparr> sw := s, hw_bw := b \<rparr>)) (\<lambda>c.
      ebind (memory memory_limits p c) (\<lambda>c.
      let c = c\<lparr> hw := bottleneck c \<rparr>;
          c = c\<lparr> scale := f32 (f64 (f64 (of_int (hw c) * 1) / of_int (sw c))) \<rparr>
      in ebind (assertion (sw c \<le> 38400 \<and> sw c \<ge> 2) ''sw'') (\<lambda>_. Inr c))))))))"

section \<open>Minima and maxima\<close>

text \<open>
  The blocks of \<open>check_and_initialize\<close> and \<open>check_and_update\<close> do the same for different members; \<open>used\<close> is the
  condition under which a combination counts. \<open>populate_str\<close> computes the text from the other members, so doing it again
  on the reference \<open>perf_combo\<close> changes nothing.
\<close>

definition init_range :: "bool \<Rightarrow> 'v \<Rightarrow> PerfComboParams \<Rightarrow> 'v perf_range \<Rightarrow> 'v perf_range" where
  "init_range used v p r =
     (if \<not> initialized r \<and> used
      then \<lparr> initialized = True, r_min = v, r_max = v, min_params = populate_str p, max_params = populate_str p \<rparr> else r)"

definition update_range :: "bool \<Rightarrow> 'v::linorder \<Rightarrow> PerfComboParams \<Rightarrow> 'v perf_range \<Rightarrow> 'v perf_range" where
  "update_range used v p r =
     (if initialized r \<and> used then
        (let r = (if v < r_min r then r\<lparr> r_min := v, min_params := populate_str p \<rparr> else r)
         in if v > r_max r then r\<lparr> r_max := v, max_params := populate_str p \<rparr> else r)
      else r)"

definition rate_mode :: "string \<Rightarrow> bool" where
  "rate_mode m \<longleftrightarrow> m = ''RA-R'' \<or> m = ''RA-SR''"

definition check_and_initialize :: "PerfParticipantCount \<Rightarrow> PerfCombo \<Rightarrow> PerfParticipantCount" where
  "check_and_initialize r c =
     (let p = params c in
      r\<lparr> software := init_range True (sw c) p (software r),
         hardware_bw := init_range True (hw_bw c) p (hardware_bw r),
         hardware_rep := init_range (hw_rep c > 0) (hw_rep c) p (hardware_rep r),
         hardware_nra := init_range (hw_nra c > 0) (hw_nra c) p (hardware_nra r),
         hardware_rar := init_range (hw_rar c > 0) (hw_rar c) p (hardware_rar r),
         hardware_rasr := init_range (hw_rasr c > 0) (hw_rasr c) p (hardware_rasr r),
         hardware_mem := init_range (hw_mem c > 0) (hw_mem c) p (hardware_mem r),
         hardware_slm := init_range (hw_slm c > 0) (hw_slm c) p (hardware_slm r),
         hardware_slr := init_range (hw_slr c > 0) (hw_slr c) p (hardware_slr r),
         hardware := init_range True (hw c) p (hardware r),
         all_scale := init_range True (scale c) p (all_scale r),
         non_rate_adapted := init_range (rep_mode p = ''NRA'') (scale c) p (non_rate_adapted r),
         rate_adapted := init_range (rate_mode (rep_mode p)) (scale c) p (rate_adapted r) \<rparr>)"

definition check_and_update :: "PerfParticipantCount \<Rightarrow> PerfCombo \<Rightarrow> PerfParticipantCount" where
  "check_and_update r c =
     (let p = params c;
          r = r\<lparr> software := update_range True (sw c) p (software r),
                 hardware_bw := update_range True (hw_bw c) p (hardware_bw r),
                 hardware_rep := update_range (hw_rep c > 0) (hw_rep c) p (hardware_rep r),
                 hardware_nra := update_range (hw_nra c > 0) (hw_nra c) p (hardware_nra r),
                 hardware_rar := update_range (hw_rar c > 0) (hw_rar c) p (hardware_rar r),
                 hardware_rasr := update_range (hw_rasr c > 0) (hw_rasr c) p (hardware_rasr r),
                 hardware_mem := update_range (hw_mem c > 0) (hw_mem c) p (hardware_mem r),
                 hardware_slm := update_range (hw_slm c > 0) (hw_slm c) p (hardware_slm r),
                 hardware_slr := update_range (hw_slr c > 0) (hw_slr c) p (hardware_slr r),
                 hardware := update_range True (hw c) p (hardware r),
                 all_scale := update_range True (scale c) p (all_scale r) \<rparr>
      in if initialized (non_rate_adapted r) \<and> rep_mode p = ''NRA''
         then r\<lparr> non_rate_adapted := update_range True (scale c) p (non_rate_adapted r) \<rparr>
         else r\<lparr> rate_adapted := update_range (rate_mode (rep_mode p)) (scale c) p (rate_adapted r) \<rparr>)"

section \<open>All combinations\<close>

text \<open>
  The assertions of \<open>process_combination\<close>. The first three are chained comparisons, which compare the truth value of
  the first with the upper bound.
\<close>

definition check_qualities :: "int \<Rightarrow> PerfComboParams \<Rightarrow> unit outcome" where
  "check_qualities n p =
     ebind (assertion (of_bool (0 \<le> num_quality_high p) \<le> n) ''high'') (\<lambda>_.
     ebind (assertion (of_bool (0 \<le> num_quality_mid p) \<le> n) ''mid'') (\<lambda>_.
     ebind (assertion (of_bool (0 \<le> num_quality_low p) \<le> n) ''low'') (\<lambda>_.
     ebind (int32 (num_quality_high p + num_quality_mid p)) (\<lambda>hm.
     ebind (int32 (hm + num_quality_low p)) (\<lambda>hml.
     ebind (assertion (hml = n) ''sum'') (\<lambda>_.
     ebind (assertion (0 \<le> loss_rate p \<and> loss_rate p \<le> 20) ''loss'') (\<lambda>_.
     assertion (0 \<le> retx_overhead p \<and> retx_overhead p \<le> loss_rate p) ''retx'')))))))"

definition check_nra :: "int \<Rightarrow> PerfComboParams \<Rightarrow> unit outcome" where
  "check_nra n p =
     ebind (assertion (num_quality_high p = 0 \<or> num_quality_high p = n) ''NRA high'') (\<lambda>_.
     ebind (assertion (num_quality_mid p = 0 \<or> num_quality_mid p = n) ''NRA mid'') (\<lambda>_.
     ebind (assertion (num_quality_low p = 0 \<or> num_quality_low p = n) ''NRA low'') (\<lambda>_.
     ebind (assertion (num_quality_high p = n \<or> num_quality_mid p = n \<or> num_quality_low p = n) ''NRA one'') (\<lambda>_.
     if sr_mode p = ''None'' then
       ebind (assertion (num_quality_high p = n) ''None high'') (\<lambda>_. assertion (loss_rate p \<le> 5) ''None loss'')
     else Inr ()))))"

definition check_rar :: "int \<Rightarrow> PerfComboParams \<Rightarrow> unit outcome" where
  "check_rar n p =
     ebind (assertion (sr_mode p \<noteq> ''None'' \<and> loss_rate p > 0) ''RA-R mode'') (\<lambda>_.
     ebind (int32 (n - num_senders p)) (\<lambda>d.
     ebind (assertion (num_quality_high p \<le> d) ''RA-R high'') (\<lambda>_.
     ebind (assertion (levels p \<ge> 2) ''RA-R levels'') (\<lambda>_.
     if num_senders p = 0 then Inl Undefined_int
     else assertion (num_quality_high p smod num_senders p = 0 \<and> num_quality_mid p smod num_senders p = 0 \<and>
        num_quality_low p smod num_senders p = 0) ''RA-R multiples''))))"

definition check_rasr :: "PerfComboParams \<Rightarrow> unit outcome" where
  "check_rasr p =
     ebind (assertion (sr_mode p \<noteq> ''None'' \<and> loss_rate p > 0) ''RA-SR mode'') (\<lambda>_. assertion (levels p \<ge> 2) ''RA-SR levels'')"

definition check_params :: "int \<Rightarrow> PerfComboParams \<Rightarrow> unit outcome" where
  "check_params n p =
     ebind (check_qualities n p) (\<lambda>_.
     if rep_mode p = ''NRA'' then check_nra n p
     else if rep_mode p = ''RA-R'' then check_rar n p
     else if rep_mode p = ''RA-SR'' then check_rasr p
     else Inr ())"

type_synonym perf_state = "PerfParticipantCount \<times> 64 word"

definition process_combination :: "PerfComboParams \<Rightarrow> perf_state \<Rightarrow> perf_state outcome" where
  "process_combination p s =
     ebind (receive_streams (num_senders p) (num_participants p)) (\<lambda>num_receive_streams.
     ebind (check_params num_receive_streams p) (\<lambda>_.
     ebind (compute_perf_for_combo p) (\<lambda>c.
     let r = check_and_update (check_and_initialize (fst s) c) c
     in Inr (r\<lparr> combo_count := combo_count r + 1 \<rparr>, snd s + 1))))"

definition new_params :: "int \<Rightarrow> int \<Rightarrow> int \<Rightarrow> string \<Rightarrow> string \<Rightarrow> int \<Rightarrow> int \<Rightarrow> int \<Rightarrow> real \<Rightarrow> real \<Rightarrow> PerfComboParams" where
  "new_params v n k rep sr h m l loss retx = populate_str \<lparr> tf_version = v, num_participants = n, num_senders = k, rep_mode = rep,
     sr_mode = sr, num_quality_high = h, num_quality_mid = m, num_quality_low = l, loss_rate = loss, retx_overhead = retx,
     params_str = ''None'' \<rparr>"

definition nra_qualities :: "int \<Rightarrow> int \<Rightarrow> int \<Rightarrow> int \<Rightarrow> string \<Rightarrow> real \<Rightarrow> real \<Rightarrow> perf_state \<Rightarrow> perf_state outcome option" where
  "nra_qualities v n k streams sr loss retx =
     for_loop (\<lambda>h. h \<ge> 0) (\<lambda>h. h - streams)
       (\<lambda>h. for_loop (\<lambda>m. m \<ge> 0) (\<lambda>m. m - streams)
          (\<lambda>m s. let l = streams - h - m in
             if sr = ''None'' \<and> h \<noteq> streams then Some (Inr s)
             else if sr = ''None'' \<and> h = streams \<and> loss > 5 then Some (Inr s)
             else Some (process_combination (new_params v n k ''NRA'' sr h m l loss retx) s))
          (streams - h))
       streams"

definition rar_qualities :: "int \<Rightarrow> int \<Rightarrow> int \<Rightarrow> int \<Rightarrow> string \<Rightarrow> real \<Rightarrow> real \<Rightarrow> perf_state \<Rightarrow> perf_state outcome option" where
  "rar_qualities v n k streams sr loss retx =
     for_loop (\<lambda>h. h \<ge> 0) (\<lambda>h. h - k)
       (\<lambda>h. for_loop (\<lambda>m. m \<ge> 0) (\<lambda>m. m - k)
          (\<lambda>m s. let l = streams - h - m in
             if quality_count h m l < 2 then Some (Inr s)
             else if of_bool (h smod k = 0) + of_bool (m smod k = 0) + of_bool (l smod k = 0) \<noteq> (3::int) then Some (Inr s)
             else Some (process_combination (new_params v n k ''RA-R'' sr h m l loss retx) s))
          (streams - h))
       (streams - k)"

definition rasr_step :: "int \<Rightarrow> int" where
  "rasr_step streams = (if streams > 100 then streams sdiv 100 else 1)"

definition rasr_qualities :: "int \<Rightarrow> int \<Rightarrow> int \<Rightarrow> int \<Rightarrow> string \<Rightarrow> real \<Rightarrow> real \<Rightarrow> perf_state \<Rightarrow> perf_state outcome option" where
  "rasr_qualities v n k streams sr loss retx =
     for_loop (\<lambda>h. h \<ge> 0) (\<lambda>h. h - rasr_step streams)
       (\<lambda>h. for_loop (\<lambda>m. m \<ge> 0) (\<lambda>m. m - rasr_step streams)
          (\<lambda>m s. let l = streams - h - m in
             if quality_count h m l < 2 then Some (Inr s)
             else Some (process_combination (new_params v n k ''RA-SR'' sr h m l loss retx) s))
          (streams - h))
       streams"

definition retx_body :: "int \<Rightarrow> int \<Rightarrow> int \<Rightarrow> int \<Rightarrow> string \<Rightarrow> string \<Rightarrow> real \<Rightarrow> real \<Rightarrow> perf_state \<Rightarrow> perf_state outcome option" where
  "retx_body v n k streams rep sr loss retx s =
     (if rep = ''NRA'' then nra_qualities v n k streams sr loss retx s
      else if rate_mode rep \<and> sr = ''None'' then Some (Inr s)
      else if rate_mode rep \<and> loss = 0 then Some (Inr s)
      else if rep = ''RA-R'' then rar_qualities v n k streams sr loss retx s
      else if rep = ''RA-SR'' then rasr_qualities v n k streams sr loss retx s
      else Some (Inr s))"

text \<open>\<open>std::round\<close> rounds halves away from zero.\<close>

definition round_away :: "real \<Rightarrow> real" where
  "round_away x = (if x < 0 then - of_int \<lfloor>1 / 2 - x\<rfloor> else of_int \<lfloor>x + 1 / 2\<rfloor>)"

definition max_retx :: "string \<Rightarrow> real \<Rightarrow> real" where
  "max_retx sr loss = (if sr = ''S-LR'' then f32 (round_away (f64 (1 / 2 * loss))) else loss)"

definition compute_perf_results_for_participant_count :: "int \<Rightarrow> int \<Rightarrow> PerfParticipantCount outcome option" where
  "compute_perf_results_for_participant_count v n =
     map_option (map_sum id fst)
       (for_loop (\<lambda>k. k \<ge> 1) (\<lambda>k. k - 1)
          (\<lambda>k s. case receive_streams k n of
             Inl e \<Rightarrow> Some (Inl e)
           | Inr streams \<Rightarrow>
               each (\<lambda>rep. each (\<lambda>sr.
                 for_loop (\<lambda>loss. loss \<ge> 0) (\<lambda>loss. f32 (loss - 1))
                   (\<lambda>loss. for_loop (\<lambda>retx. retx \<ge> 0) (\<lambda>retx. f32 (retx - 1))
                      (\<lambda>retx. retx_body v n k streams rep sr loss retx) (max_retx sr loss)) 20)
                 [''None'', ''S-LM'', ''S-LR'']) [''NRA'', ''RA-R'', ''RA-SR''] s)
          n (PerfParticipantCount_default, 0))"

record PerfResults =
  tofino1 :: "(int \<times> PerfParticipantCount) list"
  tofino2 :: "(int \<times> PerfParticipantCount) list"

definition compute_scallop_perf :: "int \<Rightarrow> int \<Rightarrow> (PerfResults \<times> 64 word) outcome option" where
  "compute_scallop_perf min_participants max_participants =
     each (\<lambda>v. for_loop (\<lambda>n. n \<ge> min_participants) (\<lambda>n. n - 1)
       (\<lambda>n (results, count). map_option (map_sum id (\<lambda>r.
          (if v = 1 then results\<lparr> tofino1 := omap_put n r (tofino1 results) \<rparr>
           else if v = 2 then results\<lparr> tofino2 := omap_put n r (tofino2 results) \<rparr> else results, count + combo_count r)))
          (compute_perf_results_for_participant_count v n))
       max_participants) [2, 1] (\<lparr> tofino1 = [], tofino2 = [] \<rparr>, 0)"

end
