(* ===== verification/Performance_Results.thy ===== *)
theory Performance_Results
  imports Performance
begin

text \<open>
  What the performance program computes: its loops run through a list of parameters, every assertion holds for
  them, and the numbers it reports are the least and greatest ones over all of them.
\<close>

section \<open>Loops as lists\<close>

fun runs_through :: "('i \<Rightarrow> bool) \<Rightarrow> ('i \<Rightarrow> 'i) \<Rightarrow> 'i \<Rightarrow> 'i list \<Rightarrow> bool" where
  "runs_through cond nxt i [] \<longleftrightarrow> \<not> cond i"
| "runs_through cond nxt i (x # xs) \<longleftrightarrow> cond i \<and> x = i \<and> runs_through cond nxt (nxt i) xs"

lemma for_loop_each: "runs_through cond nxt i xs \<Longrightarrow> for_loop cond nxt body i s = each body xs s"
proof (induction xs arbitrary: i s)
  case Nil
  then show ?case by (simp add: for_loop.simps)
next
  case (Cons x xs)
  then show ?case by (subst for_loop.simps) (auto intro!: arg_cong2 [where f = Option.bind] split: sum.split)
qed

lemma each_append: "each g (xs @ ys) s = Option.bind (each g xs s) (\<lambda>r. case r of Inl e \<Rightarrow> Some (Inl e) | Inr s' \<Rightarrow> each g ys s')"
proof (induction xs arbitrary: s)
  case (Cons x xs)
  show ?case by (cases "g x s") (auto simp: Cons.IH split: sum.split)
qed simp

lemma each_each: "each (\<lambda>i. each g (f i)) xs s = each g (concat (map f xs)) s"
proof (induction xs arbitrary: s)
  case (Cons x xs)
  have "each (\<lambda>i. each g (f i)) xs = each g (concat (map f xs))" using Cons.IH by (rule ext)
  then show ?case by (simp add: each_append)
qed simp

lemma each_cong: "(\<And>x s. x \<in> set xs \<Longrightarrow> g x s = h x s) \<Longrightarrow> each g xs s = each h xs s"
proof (induction xs arbitrary: s)
  case (Cons x xs)
  then show ?case by (auto intro!: arg_cong2 [where f = Option.bind] split: sum.split)
qed simp

lemma each_ok: "(\<And>x s. x \<in> set xs \<Longrightarrow> g x s = Some (Inr (f x s))) \<Longrightarrow> each g xs s = Some (Inr (fold f xs s))"
  by (induction xs arbitrary: s) simp_all

text \<open>The values of a loop that counts down.\<close>

definition down :: "int \<Rightarrow> int \<Rightarrow> int \<Rightarrow> int list" where
  "down lo step i = map (\<lambda>j. i - int j * step) [0..<nat ((i - lo) div step + 1)]"

lemma down_rec:
  assumes "0 < step"
  shows "down lo step i = (if lo \<le> i then i # down lo step (i - step) else [])"
proof (cases "lo \<le> i")
  case True
  have "(i - lo) div step = (i - step - lo) div step + 1" using assms div_add_self2 [of step "i - step - lo"] by (simp add: algebra_simps)
  moreover have "0 \<le> (i - lo) div step" using True assms by (simp add: pos_imp_zdiv_nonneg_iff)
  ultimately have "nat ((i - lo) div step + 1) = Suc (nat ((i - step - lo) div step + 1))" by simp
  then have "down lo step i = map (\<lambda>j. i - int j * step) (0 # map Suc [0..<nat ((i - step - lo) div step + 1)])"
    unfolding down_def by (simp only: upt_conv_Cons zero_less_Suc map_Suc_upt)
  also have "\<dots> = i # down lo step (i - step)" by (simp add: down_def algebra_simps)
  finally show ?thesis using True by simp
next
  case False
  then have "(i - lo) div step < 0" using assms pos_imp_zdiv_nonneg_iff [of step "i - lo"] by linarith
  then show ?thesis using False by (simp add: down_def)
qed

lemma runs_through_down:
  assumes "0 < step"
  shows "runs_through (\<lambda>k. lo \<le> k) (\<lambda>k. k - step) i (down lo step i)"
proof (induction "nat (i - lo + 1)" arbitrary: i rule: less_induct)
  case less
  show ?case
  proof (cases "lo \<le> i")
    case True
    then show ?thesis using less [of "i - step"] assms by (simp add: down_rec [of step lo i])
  qed (simp add: down_rec assms)
qed

lemma set_down:
  assumes "0 < step" "x \<in> set (down lo step i)"
  shows "lo \<le> x" "x \<le> i" "step dvd (i - x)"
proof -
  obtain j where j: "x = i - int j * step" "j < nat ((i - lo) div step + 1)" using assms(2) unfolding down_def by force
  then have "int j * step \<le> (i - lo) div step * step" using assms(1) by (intro mult_right_mono) auto
  also have "\<dots> \<le> i - lo" using assms(1) div_mult_mod_eq [of "i - lo" step] pos_mod_sign [of step "i - lo"] by linarith
  finally show "lo \<le> x" using j(1) by simp
  show "x \<le> i" "step dvd (i - x)" using j(1) assms(1) by simp_all
qed

lemma runs_through_float:
  assumes "k < 2 ^ 24"
  shows "runs_through (\<lambda>x. 0 \<le> x) (\<lambda>x. f32 (x - 1)) (of_int k) (map of_int (down 0 1 k))"
  using assms
proof (induction "nat (k + 1)" arbitrary: k rule: less_induct)
  case less
  show ?case
  proof (cases "0 \<le> k")
    case True
    then have "f32 (real_of_int (k - 1)) = of_int (k - 1)" using less.prems by (intro fl_exact is_fl_int) auto
    then show ?thesis using less(1) [of "k - 1"] less.prems True by (simp add: down_rec [of 1 0 k])
  qed (simp add: down_rec)
qed

section \<open>The combinations\<close>

definition qualities :: "string \<Rightarrow> string \<Rightarrow> int \<Rightarrow> int \<Rightarrow> int \<Rightarrow> (int \<times> int) list" where
  "qualities rep sr k streams loss =
     (let two = (\<lambda>h m. 2 \<le> quality_count h m (streams - h - m)) in
      if rep = ''NRA'' then
        [(h, m). h \<leftarrow> down 0 streams streams, m \<leftarrow> down 0 streams (streams - h), sr \<noteq> ''None'' \<or> h = streams \<and> loss \<le> 5]
      else if sr = ''None'' \<or> loss = 0 then []
      else if rep = ''RA-R'' then [(h, m). h \<leftarrow> down 0 k (streams - k), m \<leftarrow> down 0 k (streams - h), two h m]
      else [(h, m). h \<leftarrow> down 0 (rasr_step streams) streams, m \<leftarrow> down 0 (rasr_step streams) (streams - h), two h m])"

definition max_overhead :: "string \<Rightarrow> int \<Rightarrow> int" where
  "max_overhead sr loss = (if sr = ''S-LR'' then (loss + 1) div 2 else loss)"

definition loss_params :: "int \<Rightarrow> int \<Rightarrow> int \<Rightarrow> string \<Rightarrow> string \<Rightarrow> int \<Rightarrow> PerfComboParams list" where
  "loss_params v n k rep sr loss =
     concat (map (\<lambda>retx. map (\<lambda>(h, m). new_params v n k rep sr h m (k * (n - 1) - h - m) (of_int loss) (of_int retx))
       (qualities rep sr k (k * (n - 1)) loss)) (down 0 1 (max_overhead sr loss)))"

definition all_params :: "int \<Rightarrow> int \<Rightarrow> PerfComboParams list" where
  "all_params v n = concat (map (\<lambda>k. concat (map (\<lambda>rep. concat (map (\<lambda>sr. concat (map (loss_params v n k rep sr) (down 0 1 20)))
     [''None'', ''S-LM'', ''S-LR''])) [''NRA'', ''RA-R'', ''RA-SR''])) (down 1 1 n))"

lemma max_retx_int:
  assumes "0 \<le> j" "j \<le> 20"
  shows "max_retx sr (of_int j) = of_int (max_overhead sr j)"
proof -
  have "f64 (1 / 2 * real_of_int j) = of_int j / 2" using assms fl_exact [OF is_fl_half [of j 53]] by simp
  moreover have "\<lfloor>real_of_int j / 2 + 1 / 2\<rfloor> = (j + 1) div 2"
    using floor_divide_of_int_eq [where k = "j + 1" and l = 2 and 'a = real] by (simp add: add_divide_distrib)
  moreover have "f32 (of_int ((j + 1) div 2)) = of_int ((j + 1) div 2)" using assms by (intro fl_exact is_fl_int) auto
  ultimately show ?thesis using assms by (simp only: max_retx_def max_overhead_def round_away_def) simp
qed

abbreviation process :: "PerfComboParams \<Rightarrow> perf_state \<Rightarrow> perf_state outcome option" where
  "process p s \<equiv> Some (process_combination p s)"

lemma each_body_if: "(if b then Some (Inr s) else process p s) = each process (if b then [] else [p]) s"
  by (cases "process_combination p s") simp_all

text \<open>Two nested loops whose body skips some of the combinations.\<close>

lemma quality_loops:
  assumes "0 < a" "\<And>h m s. body h m s = (if skip h m then Some (Inr s) else process (f h m) s)"
  shows "for_loop (\<lambda>h. 0 \<le> h) (\<lambda>h. h - a) (\<lambda>h. for_loop (\<lambda>m. 0 \<le> m) (\<lambda>m. m - a) (body h) (streams - h)) i s =
    each process (concat (map (\<lambda>h. concat (map (\<lambda>m. if skip h m then [] else [f h m]) (down 0 a (streams - h)))) (down 0 a i))) s"
proof -
  have "body h = (\<lambda>m. each process (if skip h m then [] else [f h m]))" for h
    by (intro ext) (simp only: assms(2) each_body_if)
  then have "for_loop (\<lambda>m. 0 \<le> m) (\<lambda>m. m - a) (body h) (streams - h) =
      each process (concat (map (\<lambda>m. if skip h m then [] else [f h m]) (down 0 a (streams - h))))" for h
    by (intro ext) (simp only: for_loop_each [OF runs_through_down [OF assms(1)]] each_each)
  then show ?thesis by (simp only: for_loop_each [OF runs_through_down [OF assms(1)]] each_each)
qed

lemma concat_cong:
  assumes "\<And>h m. h \<in> set xs \<Longrightarrow> m \<in> set (ys h) \<Longrightarrow> F h m = map (\<lambda>(h, m). g h m) (G h m)"
  shows "concat (map (\<lambda>h. concat (map (F h) (ys h))) xs) = map (\<lambda>(h, m). g h m) (concat (map (\<lambda>h. concat (map (G h) (ys h))) xs))"
  using assms by (simp add: map_concat comp_def cong: map_cong)

lemma smod_multiple: "k dvd x \<Longrightarrow> x smod k = (0::int)"
  by (simp add: smod_int_alt_def)

lemma rasr_step_pos: "0 < rasr_step streams"
  using pos_imp_zdiv_pos_iff [of 100 streams] by (auto simp: rasr_step_def signed_divide_int_def)

definition not_multiples :: "int \<Rightarrow> int \<Rightarrow> int \<Rightarrow> int \<Rightarrow> bool" where
  "not_multiples k h m l \<longleftrightarrow> of_bool (h smod k = 0) + of_bool (m smod k = 0) + of_bool (l smod k = 0) \<noteq> (3::int)"

lemma rar_multiples:
  assumes "0 < k" "k dvd streams" "h \<in> set (down 0 k (streams - k))" "m \<in> set (down 0 k (streams - h))"
  shows "k dvd h" "k dvd m" "\<not> not_multiples k h m (streams - h - m)"
proof -
  show h: "k dvd h" using set_down(3) [OF assms(1,3)] assms(2) by (metis dvd_diff dvd_diff_commute dvd_refl diff_add_cancel dvd_add_right_iff)
  show "k dvd m" using set_down(3) [OF assms(1,4)] assms(2) h by (metis dvd_diff add_diff_cancel_left' diff_add_cancel)
  then show "\<not> not_multiples k h m (streams - h - m)" using h assms(2) by (simp add: smod_multiple not_multiples_def)
qed

lemma retx_body_each:
  assumes "0 < k" "2 \<le> n" "rep \<in> {''NRA'', ''RA-R'', ''RA-SR''}" "0 \<le> loss"
  defines "streams \<equiv> k * (n - 1)"
  shows "retx_body v n k streams rep sr (of_int loss) (of_int retx) s =
    each process (map (\<lambda>(h, m). new_params v n k rep sr h m (streams - h - m) (of_int loss) (of_int retx)) (qualities rep sr k streams loss)) s"
proof -
  let ?p = "\<lambda>h m. new_params v n k rep sr h m (streams - h - m) (of_int loss) (of_int retx)"
  have pos: "0 < streams" using assms by (simp add: streams_def)
  consider "rep = ''NRA''" | "rate_mode rep" "sr = ''None'' \<or> loss = 0" | "rep = ''RA-R''" "sr \<noteq> ''None''" "loss \<noteq> 0" | "rep = ''RA-SR''" "sr \<noteq> ''None''" "loss \<noteq> 0"
    using assms(3) by (auto simp: rate_mode_def)
  then show ?thesis
  proof cases
    case 1
    have "nra_qualities v n k streams sr (of_int loss) (of_int retx) s = each process
      (concat (map (\<lambda>h. concat (map (\<lambda>m. if sr = ''None'' \<and> (h \<noteq> streams \<or> 5 < loss) then [] else [?p h m]) (down 0 streams (streams - h)))) (down 0 streams streams))) s"
      unfolding nra_qualities_def by (rule quality_loops [OF pos]) (auto simp: 1)
    also have "\<dots> = each process (map (\<lambda>(h, m). ?p h m) (qualities rep sr k streams loss)) s"
      unfolding qualities_def Let_def 1 by (subst concat_cong [where g = ?p]) (auto simp: 1)
    finally show ?thesis by (simp add: retx_body_def 1)
  next
    case 2
    then show ?thesis by (auto simp: retx_body_def qualities_def rate_mode_def)
  next
    case 3
    let ?two = "\<lambda>h m. 2 \<le> quality_count h m (streams - h - m)"
    have "rar_qualities v n k streams sr (of_int loss) (of_int retx) s = each process
      (concat (map (\<lambda>h. concat (map (\<lambda>m. if \<not> ?two h m \<or> not_multiples k h m (streams - h - m) then [] else [?p h m]) (down 0 k (streams - h)))) (down 0 k (streams - k)))) s"
      unfolding rar_qualities_def Let_def not_multiples_def by (rule quality_loops [OF assms(1)]) (auto simp: 3)
    also have "\<dots> = each process (map (\<lambda>(h, m). ?p h m) (qualities rep sr k streams loss)) s"
      unfolding qualities_def Let_def using 3 rar_multiples [OF assms(1), of streams] by (subst concat_cong [where g = ?p]) (auto simp: streams_def)
    finally show ?thesis using 3 by (simp add: retx_body_def)
  next
    case 4
    have "rasr_qualities v n k streams sr (of_int loss) (of_int retx) s = each process
      (concat (map (\<lambda>h. concat (map (\<lambda>m. if quality_count h m (streams - h - m) < 2 then [] else [?p h m])
        (down 0 (rasr_step streams) (streams - h)))) (down 0 (rasr_step streams) streams))) s"
      unfolding rasr_qualities_def Let_def by (rule quality_loops [OF rasr_step_pos]) (auto simp: 4)
    also have "\<dots> = each process (map (\<lambda>(h, m). ?p h m) (qualities rep sr k streams loss)) s"
      unfolding qualities_def Let_def using 4 by (subst concat_cong [where g = ?p]) auto
    finally show ?thesis using 4 by (simp add: retx_body_def)
  qed
qed

lemma each_map: "each g (map f xs) s = each (\<lambda>x. g (f x)) xs s"
  by (induction xs arbitrary: s) (auto intro!: arg_cong2 [where f = Option.bind] split: sum.split)

lemma int32_ok: "0 \<le> x \<Longrightarrow> x < 2 ^ 31 \<Longrightarrow> int32 x = Inr x"
  by (simp add: int32_def)

lemma receive_streams_ok: "1 \<le> k \<Longrightarrow> k \<le> n \<Longrightarrow> n \<le> 100 \<Longrightarrow> receive_streams k n = Inr (k * (n - 1))"
proof -
  assume k: "1 \<le> k" "k \<le> n" "n \<le> 100"
  then have "0 \<le> k * (n - 1)" "k * (n - 1) \<le> 100 * 100" by (simp, intro mult_mono) auto
  then show ?thesis using k by (simp add: receive_streams_def int32_ok)
qed

lemma max_overhead_bounds: "0 \<le> j \<Longrightarrow> 0 \<le> max_overhead sr j \<and> max_overhead sr j \<le> j"
  by (auto simp: max_overhead_def)

lemma loss_loop:
  assumes "1 \<le> k" "2 \<le> n" "rep \<in> {''NRA'', ''RA-R'', ''RA-SR''}" "loss \<in> set (down 0 1 20)"
  shows "for_loop (\<lambda>retx. 0 \<le> retx) (\<lambda>retx. f32 (retx - 1)) (\<lambda>retx. retx_body v n k (k * (n - 1)) rep sr (of_int loss) retx)
      (max_retx sr (of_int loss)) s = each process (loss_params v n k rep sr loss) s"
proof -
  have loss: "0 \<le> loss" "loss \<le> 20" using set_down [OF _ assms(4)] by simp_all
  have "max_overhead sr loss < 2 ^ 24" using max_overhead_bounds [OF loss(1), of sr] loss by simp
  note loop = for_loop_each [OF runs_through_float [OF this]]
  show ?thesis unfolding max_retx_int [OF loss] loss_params_def each_each [symmetric] loop each_map
    by (rule each_cong) (use assms loss in \<open>simp add: retx_body_each each_map\<close>)
qed

lemma results_each:
  assumes "2 \<le> n" "n \<le> 100"
  shows "compute_perf_results_for_participant_count v n =
    map_option (map_sum id fst) (each process (all_params v n) (PerfParticipantCount_default, 0))"
proof -
  have loss: "for_loop (\<lambda>x. 0 \<le> x) (\<lambda>x. f32 (x - 1)) body 20 s = each (\<lambda>x. body (of_int x)) (down 0 1 20) s" for body and s :: perf_state
    using for_loop_each [OF runs_through_float [of 20]] by (simp add: each_map)
  have "for_loop (\<lambda>k. 1 \<le> k) (\<lambda>k. k - 1) (\<lambda>k s. case receive_streams k n of Inl e \<Rightarrow> Some (Inl e) | Inr streams \<Rightarrow>
      each (\<lambda>rep. each (\<lambda>sr. for_loop (\<lambda>loss. 0 \<le> loss) (\<lambda>loss. f32 (loss - 1))
        (\<lambda>loss. for_loop (\<lambda>retx. 0 \<le> retx) (\<lambda>retx. f32 (retx - 1)) (\<lambda>retx. retx_body v n k streams rep sr loss retx) (max_retx sr loss)) 20)
        [''None'', ''S-LM'', ''S-LR'']) [''NRA'', ''RA-R'', ''RA-SR''] s) n s = each process (all_params v n) s" for s
    unfolding for_loop_each [OF runs_through_down [OF zero_less_one]] all_params_def each_each [symmetric]
  proof (intro each_cong, goal_cases)
    case (1 k s)
    then have k: "1 \<le> k" "k \<le> n" using set_down [OF zero_less_one 1] by simp_all
    show ?case using k assms unfolding receive_streams_ok [OF k assms(2)] sum.case loss
      by (intro each_cong) (auto intro!: loss_loop)
  qed
  then show ?thesis by (simp add: compute_perf_results_for_participant_count_def)
qed

section \<open>Every combination passes the checks\<close>

definition valid_params :: "int \<Rightarrow> int \<Rightarrow> PerfComboParams \<Rightarrow> bool" where
  "valid_params v n p \<longleftrightarrow>
     (let streams = num_senders p * (n - 1); q = [num_quality_high p, num_quality_mid p, num_quality_low p] in
      tf_version p = v \<and> num_participants p = n \<and> 1 \<le> num_senders p \<and> num_senders p \<le> n \<and> list_all ((\<le>) 0) q \<and> sum_list q = streams \<and>
      0 \<le> retx_overhead p \<and> retx_overhead p \<le> loss_rate p \<and> loss_rate p \<le> 20 \<and> populate_str p = p \<and>
      (rep_mode p = ''NRA'' \<and> list_all (\<lambda>x. x = 0 \<or> x = streams) q \<and> (sr_mode p = ''None'' \<longrightarrow> num_quality_high p = streams \<and> loss_rate p \<le> 5) \<or>
       rate_mode (rep_mode p) \<and> sr_mode p \<noteq> ''None'' \<and> 0 < loss_rate p \<and> 2 \<le> levels p \<and>
         (rep_mode p = ''RA-R'' \<longrightarrow> num_quality_high p \<le> streams - num_senders p \<and> list_all (\<lambda>x. num_senders p dvd x) q)) \<and>
      sr_mode p \<in> {''None'', ''S-LM'', ''S-LR''})"

lemma new_params_fields [simp]:
  "tf_version (new_params v n k rep sr h m l loss retx) = v" "num_participants (new_params v n k rep sr h m l loss retx) = n"
  "num_senders (new_params v n k rep sr h m l loss retx) = k" "rep_mode (new_params v n k rep sr h m l loss retx) = rep"
  "sr_mode (new_params v n k rep sr h m l loss retx) = sr" "num_quality_high (new_params v n k rep sr h m l loss retx) = h"
  "num_quality_mid (new_params v n k rep sr h m l loss retx) = m" "num_quality_low (new_params v n k rep sr h m l loss retx) = l"
  "loss_rate (new_params v n k rep sr h m l loss retx) = loss" "retx_overhead (new_params v n k rep sr h m l loss retx) = retx"
  by (simp_all add: new_params_def populate_str_def)

lemma populate_str_idem [simp]: "populate_str (populate_str p) = populate_str p" "populate_str (new_params v n k rep sr h m l loss retx) = new_params v n k rep sr h m l loss retx"
  by (simp_all add: new_params_def populate_str_def)

lemma down_whole: "0 < a \<Longrightarrow> down 0 a a = [a, 0]" "0 < a \<Longrightarrow> down 0 a 0 = [0]"
  by (simp_all add: down_rec [of a 0 a] down_rec [of a 0 0] down_rec [of a 0 "- a"])

lemma qualities_valid:
  assumes "(h, m) \<in> set (qualities rep sr k (k * (n - 1)) loss)" "1 \<le> k" "k \<le> n" "2 \<le> n" "0 \<le> retx" "retx \<le> loss" "loss \<le> 20"
    "rep \<in> {''NRA'', ''RA-R'', ''RA-SR''}" "sr \<in> {''None'', ''S-LM'', ''S-LR''}"
  shows "valid_params v n (new_params v n k rep sr h m (k * (n - 1) - h - m) (of_int loss) (of_int retx))"
proof -
  let ?N = "k * (n - 1)"
  have pos: "0 < ?N" "0 < k" using assms by simp_all
  consider "rep = ''NRA''" | "rep = ''RA-R''" | "rep = ''RA-SR''" using assms(8) by auto
  then show ?thesis
  proof cases
    case 1
    then have "(h = ?N \<and> m = 0 \<or> h = 0 \<and> (m = ?N \<or> m = 0)) \<and> (sr = ''None'' \<longrightarrow> h = ?N \<and> loss \<le> 5)"
      using assms(1) pos by (auto simp: qualities_def down_whole split: if_splits)
    then show ?thesis using 1 assms pos by (auto simp: valid_params_def)
  next
    case 2
    then have q: "h \<in> set (down 0 k (?N - k))" "m \<in> set (down 0 k (?N - h))" "sr \<noteq> ''None''" "loss \<noteq> 0"
        "2 \<le> quality_count h m (?N - h - m)"
      using assms(1) by (auto simp: qualities_def Let_def split: if_splits)
    note d = set_down [OF pos(2) q(1)] set_down [OF pos(2) q(2)] rar_multiples [OF pos(2) _ q(1,2)]
    show ?thesis using d q(3-5) 2 assms by (simp add: valid_params_def rate_mode_def levels_def)
  next
    case 3
    then have q: "h \<in> set (down 0 (rasr_step ?N) ?N)" "m \<in> set (down 0 (rasr_step ?N) (?N - h))" "sr \<noteq> ''None''" "loss \<noteq> 0"
        "2 \<le> quality_count h m (?N - h - m)"
      using assms(1) by (auto simp: qualities_def Let_def split: if_splits)
    note d = set_down(1,2) [OF rasr_step_pos q(1)] set_down(1,2) [OF rasr_step_pos q(2)]
    show ?thesis using d q(3-5) 3 assms by (simp add: valid_params_def rate_mode_def levels_def)
  qed
qed

lemma all_params_valid:
  assumes "p \<in> set (all_params v n)" "2 \<le> n"
  shows "valid_params v n p"
proof -
  obtain k rep sr loss retx h m where k: "k \<in> set (down 1 1 n)" and modes: "rep \<in> {''NRA'', ''RA-R'', ''RA-SR''}" "sr \<in> {''None'', ''S-LM'', ''S-LR''}"
    and loss: "loss \<in> set (down 0 1 20)" and retx: "retx \<in> set (down 0 1 (max_overhead sr loss))"
    and q: "(h, m) \<in> set (qualities rep sr k (k * (n - 1)) loss)" and p: "p = new_params v n k rep sr h m (k * (n - 1) - h - m) (of_int loss) (of_int retx)"
    using assms(1) unfolding all_params_def loss_params_def by fastforce
  have "0 \<le> loss" using set_down(1) [OF _ loss] by simp
  then have "retx \<le> loss" using set_down(2) [OF _ retx] max_overhead_bounds [of loss sr] by simp
  then show ?thesis unfolding p using set_down [OF _ k] set_down [OF _ loss] set_down [OF _ retx] modes assms(2)
    by (intro qualities_valid [OF q]) simp_all
qed

text \<open>Bandwidth: the sums over streams are exact, and the overhead of retransmissions is at most a quarter.\<close>

lemma f32_int: "\<bar>k\<bar> < 2 ^ 24 \<Longrightarrow> f32 (of_int k) = of_int k"
  by (intro fl_exact is_fl_int)

lemma f32_half: "\<bar>k\<bar> < 2 ^ 24 \<Longrightarrow> f32 (of_int k / 2) = of_int k / 2"
  by (intro fl_exact is_fl_half)

definition half_mbps :: "PerfComboParams \<Rightarrow> int" where
  "half_mbps p = 6 * num_quality_high p + 3 * num_quality_mid p + 2 * num_quality_low p +
     (if 0 < num_quality_high p then 6 else if 0 < num_quality_mid p then 3 else 2) * num_senders p"

lemma stream_bw_eq:
  assumes "0 \<le> k" "6 * k < 2 ^ 24"
  shows "stream_bw bw_per_stream_high k = of_int (6 * k) / 2" "stream_bw bw_per_stream_mid k = of_int (3 * k) / 2"
    "stream_bw bw_per_stream_low k = of_int (2 * k) / 2"
  using assms f32_int [of k] f32_int [of "3 * k"] f32_half [of "3 * k"]
  by (simp_all add: stream_bw_def bw_per_stream_high_def bw_per_stream_mid_def bw_per_stream_low_def abs_if)

lemma f32_half_add: "0 \<le> a \<Longrightarrow> 0 \<le> b \<Longrightarrow> a + b < 2 ^ 24 \<Longrightarrow> f32 (of_int a / 2 + of_int b / 2) = of_int (a + b) / 2"
  using f32_half [of "a + b"] by (simp add: add_divide_distrib)

lemma sw_bw_req_eq:
  assumes "0 \<le> num_quality_high p" "0 \<le> num_quality_mid p" "0 \<le> num_quality_low p" "0 \<le> num_senders p"
    "6 * (num_quality_high p + num_quality_mid p + num_quality_low p + num_senders p) < 2 ^ 24"
  defines "base \<equiv> of_int (half_mbps p) / 2"
  shows "sw_bw_req p = f32 (base + f32 (f32 (retx_overhead p / 100) * base))"
proof -
  let ?h = "num_quality_high p" and ?m = "num_quality_mid p" and ?l = "num_quality_low p" and ?k = "num_senders p"
  define c where "c = (if 0 < ?h then 6 else if 0 < ?m then 3 else 2 :: int)"
  have c: "2 \<le> c" "c \<le> 6" by (auto simp: c_def)
  have bound: "0 \<le> c * ?k" "c * ?k \<le> 6 * ?k" using c assms(4) by (simp, intro mult_right_mono) auto
  have "receivers_bw p = of_int (6 * ?h + 3 * ?m + 2 * ?l) / 2"
  proof -
    have "stream_bw bw_per_stream_high ?h = of_int (6 * ?h) / 2" "stream_bw bw_per_stream_mid ?m = of_int (3 * ?m) / 2" "stream_bw bw_per_stream_low ?l = of_int (2 * ?l) / 2"
      using assms(1-5) by (intro stream_bw_eq; simp)+
    moreover have "f32 (of_int (6 * ?h) / 2 + of_int (3 * ?m) / 2) = of_int (6 * ?h + 3 * ?m) / 2"
        "f32 (of_int (6 * ?h + 3 * ?m) / 2 + of_int (2 * ?l) / 2) = of_int (6 * ?h + 3 * ?m + 2 * ?l) / 2"
      using assms(1-5) by (intro f32_half_add; simp)+
    ultimately show ?thesis unfolding receivers_bw_def by (simp only:)
  qed
  moreover have "sender_bw p = of_int (c * ?k) / 2"
    unfolding sender_bw_def c_def using assms(1-5) stream_bw_eq [of ?k] by simp
  ultimately have "f32 (receivers_bw p + sender_bw p) = of_int (6 * ?h + 3 * ?m + 2 * ?l + c * ?k) / 2"
    using assms(1-5) bound by (simp only:) (subst f32_half_add; simp)
  also have "\<dots> = base" by (simp only: base_def half_mbps_def c_def)
  finally show ?thesis by (simp only: sw_bw_req_def Let_def)
qed

lemma valid_basics:
  assumes "valid_params v n p"
  shows "0 \<le> num_quality_high p" "0 \<le> num_quality_mid p" "0 \<le> num_quality_low p" "1 \<le> num_senders p" "num_senders p \<le> n"
    "num_quality_high p + num_quality_mid p + num_quality_low p = num_senders p * (n - 1)" "0 \<le> retx_overhead p" "retx_overhead p \<le> 20"
    "tf_version p = v" "num_participants p = n" "populate_str p = p"
  using assms by (simp_all add: valid_params_def Let_def)

lemma is_fl_quarter: "is_fl 24 (1 / 4)"
  unfolding is_fl_def by (rule exI [of _ 1], rule exI [of _ "- 2"]) (simp add: power_int_def power2_eq_square)

lemma meeting_size:
  assumes "valid_params v n p" "2 \<le> n" "n \<le> 100"
  shows "2 \<le> num_quality_high p + num_quality_mid p + num_quality_low p + num_senders p"
    "num_quality_high p + num_quality_mid p + num_quality_low p + num_senders p \<le> 10000"
proof -
  note q = valid_basics [OF assms(1)]
  have "num_senders p * n \<le> 100 * 100" "1 * 2 \<le> num_senders p * n" using q(4,5) assms(2,3) by (intro mult_mono; simp)+
  moreover have "num_quality_high p + num_quality_mid p + num_quality_low p + num_senders p = num_senders p * n" using q(6) by (simp add: algebra_simps)
  ultimately show "2 \<le> num_quality_high p + num_quality_mid p + num_quality_low p + num_senders p"
    "num_quality_high p + num_quality_mid p + num_quality_low p + num_senders p \<le> 10000" by simp_all
qed

lemma half_mbps_bounds:
  assumes "valid_params v n p" "2 \<le> n" "n \<le> 100"
  shows "4 \<le> half_mbps p" "half_mbps p \<le> 60000"
  using meeting_size [OF assms] valid_basics(1-4) [OF assms(1)] unfolding half_mbps_def by (simp_all split: if_splits)

lemma sw_bw_req_bounds:
  assumes "valid_params v n p" "2 \<le> n" "n \<le> 100"
  shows "2 \<le> sw_bw_req p" "sw_bw_req p \<le> 37500"
proof -
  let ?b = "real_of_int (half_mbps p) / 2" and ?r = "f32 (retx_overhead p / 100)"
  note q = valid_basics [OF assms(1)]
  have b: "2 \<le> ?b" "?b \<le> 30000" using half_mbps_bounds [OF assms] by simp_all
  have r: "0 \<le> ?r" "?r \<le> 1 / 4"
    using q(7,8) fl_ge [of 24 0 "retx_overhead p / 100"] fl_le [OF is_fl_quarter, of "retx_overhead p / 100"] is_fl_int [of 0 24] by simp_all
  have "0 \<le> ?r * ?b" "?r * ?b \<le> 1 / 4 * 30000" using r b by (simp, intro mult_mono) auto
  then have f: "0 \<le> f32 (?r * ?b)" "f32 (?r * ?b) \<le> 7500"
    using fl_ge [of 24 0 "?r * ?b"] fl_le [of 24 7500 "?r * ?b"] is_fl_int [of 0 24] is_fl_int [of 7500 24] by simp_all
  have "sw_bw_req p = f32 (?b + f32 (?r * ?b))" using q meeting_size [OF assms] by (intro sw_bw_req_eq) simp_all
  then show "2 \<le> sw_bw_req p" "sw_bw_req p \<le> 37500"
    using f b fl_ge [of 24 2 "?b + f32 (?r * ?b)"] fl_le [of 24 37500 "?b + f32 (?r * ?b)"] is_fl_int [of 2 24] is_fl_int [of 37500 24] by simp_all
qed

text \<open>The quotient of two numbers, rounded and converted, stays between the bounds of the exact quotient that are integers.\<close>

lemma floor_div_bounds:
  assumes "of_int lo \<le> a / b" "a / b \<le> of_int hi" "0 < b" "0 \<le> lo" "hi < 2 ^ 24" "24 \<le> q"
  obtains k where "floor_div q a b = Inr k" "lo \<le> k" "k \<le> hi"
proof -
  have le: "lo \<le> hi" using assms(1,2) by linarith
  have small: "hi < 2 ^ 31" using assms(5) by simp
  have "(2::int) ^ 24 \<le> 2 ^ q" using assms(6) by (rule power_increasing) simp
  then have "is_fl q (of_int lo)" "is_fl q (of_int hi)" using assms(4,5) le by (intro is_fl_int; simp)+
  then have "of_int lo \<le> fl q (a / b)" "fl q (a / b) \<le> of_int hi" using assms fl_ge fl_le by auto
  then have "lo \<le> \<lfloor>fl q (a / b)\<rfloor>" "\<lfloor>fl q (a / b)\<rfloor> \<le> hi" by linarith+
  moreover from this have "int32 \<lfloor>fl q (a / b)\<rfloor> = Inr \<lfloor>fl q (a / b)\<rfloor>" using assms(4) order_le_less_trans [OF _ small] by (intro int32_ok) (linarith | blast)+
  then have "floor_div q a b = Inr \<lfloor>fl q (a / b)\<rfloor>" using assms(3) by (simp add: floor_div_def)
  ultimately show thesis using that by blast
qed

lemma sw_bandwidth_eq: "sw_bandwidth = 76800"
  using f32_int [of 25600] f32_int [of 76800] by (simp add: sw_bandwidth_def bw_per_stream_high_def)

lemma tofino_bandwidth:
  assumes "v \<in> {1, 2}"
  obtains t where "get_tofino_bandwidth v = Inr t" "6 \<le> t" "t \<le> 13"
proof -
  have "is_fl q 6" "is_fl q 13" if "q \<in> {24, 53}" for q using that is_fl_int [of 6 q] is_fl_int [of 13 q] by auto
  then have "6 \<le> f32 (f64 x)" "f32 (f64 x) \<le> 13" if "6 \<le> x" "x \<le> 13" for x using that by (auto intro!: fl_ge fl_le)
  then show thesis using that assms by (cases "v = 1") (auto simp: get_tofino_bandwidth_def)
qed

text \<open>Only the limits of the modes in use are set, and the others stay at -1.\<close>

definition frame_rep :: "PerfCombo \<Rightarrow> PerfCombo \<Rightarrow> bool" where
  "frame_rep c d \<longleftrightarrow> params d = params c \<and> sw d = sw c \<and> hw_bw d = hw_bw c \<and> hw_mem d = hw_mem c"

lemma replication_ok:
  assumes "valid_params v n p" "2 \<le> n" "n \<le> 100"
  shows "\<exists>d. replication p c = Inr d \<and> frame_rep c d \<and> (if 2 < n then 0 < hw_rep d else d = c)"
proof -
  have t: "f64 (of_int MAX_REPLICATION_TREES * 2) = 128000" using fl_exact [OF is_fl_int [of 128000 53]] by (simp add: MAX_REPLICATION_TREES_def)
  have div: "\<exists>j. floor_div 53 128000 (of_int d) = Inr j \<and> 0 < j" if "1 \<le> d" "d \<le> 300" for d
  proof -
    have "real_of_int 400 \<le> 128000 / of_int d" "128000 / of_int d \<le> real_of_int 128000" using that by (simp_all add: field_simps)
    from floor_div_bounds [OF this, of 53] show ?thesis using that by fastforce
  qed
  have k: "1 \<le> num_senders p" "num_senders p \<le> 100" "num_participants p = n" using valid_basics [OF assms(1)] assms(3) by auto
  have "levels p \<le> 3" by (simp add: levels_def quality_count_def of_bool_def)
  moreover have "rep_mode p = ''NRA'' \<or> rate_mode (rep_mode p) \<and> 2 \<le> levels p" using assms(1) by (auto simp: valid_params_def Let_def)
  ultimately consider "n \<le> 2" | "n > 2" "rep_mode p = ''NRA''" | "n > 2" "rep_mode p = ''RA-R''" "levels p = 2" | "n > 2" "rep_mode p = ''RA-R''" "levels p = 3"
    | "n > 2" "rep_mode p = ''RA-SR''" "levels p = 2" | "n > 2" "rep_mode p = ''RA-SR''" "levels p = 3"
    unfolding rate_mode_def by force
  then show ?thesis
  proof cases
    case 4
    then show ?thesis using div [of 3] k t by (auto simp: replication_def frame_rep_def)
  next
    case 5
    then show ?thesis using div [of "2 * num_senders p"] k t by (auto simp: replication_def frame_rep_def int32_ok)
  next
    case 6
    then show ?thesis using div [of "3 * num_senders p"] k t by (auto simp: replication_def frame_rep_def int32_ok)
  qed (use k in \<open>auto simp: replication_def frame_rep_def MAX_REPLICATION_TREES_def\<close>)
qed

lemma memory_limits:
  assumes "v \<in> {1, 2}"
  obtains limits where "get_tofino_memory_limit v = Inr limits" "\<And>l. l \<in> {''S-LM'', ''S-LR''} \<Longrightarrow> 143500 \<le> limits l \<and> limits l < 2 ^ 31"
proof (rule that)
  show "get_tofino_memory_limit v = Inr (if v = 1 then (\<lambda>_. 0)(''S-LM'' := 1148000, ''S-LR'' := 143500) else (\<lambda>_. 0)(''S-LM'' := 2296000, ''S-LR'' := 430500))"
    using assms by (auto simp: get_tofino_memory_limit_def MAX_MEMORY_PER_STAGE_def)
qed auto

lemma memory_ok:
  assumes "valid_params v n p" "2 \<le> n" "n \<le> 100" "v \<in> {1, 2}" "hw_mem c = - 1"
  obtains limits d where "get_tofino_memory_limit v = Inr limits" "memory limits p c = Inr d" "params d = params c" "sw d = sw c" "hw_bw d = hw_bw c"
    "hw_rep d = hw_rep c" "hw_mem d = - 1 \<or> 0 < hw_mem d"
proof -
  note q = valid_basics [OF assms(1)]
  let ?N = "num_senders p * (n - 1)"
  obtain limits where l: "get_tofino_memory_limit v = Inr limits" "\<And>l. l \<in> {''S-LM'', ''S-LR''} \<Longrightarrow> 143500 \<le> limits l \<and> limits l < 2 ^ 31"
    using memory_limits [OF assms(4)] by blast
  have N: "1 * 1 \<le> ?N" "?N \<le> 100 * 100" using q(4,5) assms(2,3) by (intro mult_mono; simp)+
  have m: "\<exists>k. ebind (receive_streams (num_senders p) n) (int_div (limits l)) = Inr k \<and> 0 < k" if "l \<in> {''S-LM'', ''S-LR''}" for l
  proof -
    have "0 < limits l div ?N" "limits l div ?N \<le> limits l" using l(2) [OF that] N zdiv_mono2 [of "limits l" 1 ?N, unfolded div_by_1] pos_imp_zdiv_pos_iff [of ?N "limits l"] by linarith+
    moreover have "limits l sdiv ?N = limits l div ?N" using l(2) [OF that] N by (simp add: signed_divide_int_def)
    ultimately show ?thesis using receive_streams_ok [OF q(4,5) assms(3)] l(2) [OF that] N by (auto simp: int_div_def int32_ok)
  qed
  have "sr_mode p \<in> {''None'', ''S-LM'', ''S-LR''}" "sr_mode p = ''None'' \<longrightarrow> rep_mode p = ''NRA''"
    using assms(1) by (auto simp: valid_params_def Let_def)
  then have "\<exists>d. memory limits p c = Inr d \<and> params d = params c \<and> sw d = sw c \<and> hw_bw d = hw_bw c \<and> hw_rep d = hw_rep c \<and> (hw_mem d = - 1 \<or> 0 < hw_mem d)"
    using q(10) assms(5) m [of "''S-LM''"] m [of "''S-LR''"] by (auto simp: memory_def)
  then show thesis using l(1) that by blast
qed

text \<open>The limit of a switch for meetings: the least one of the limits that apply.\<close>

definition limits_of :: "PerfCombo \<Rightarrow> int set" where
  "limits_of c = insert (hw_bw c) {l \<in> {hw_rep c, hw_mem c}. 0 < l}"

lemma bottleneck_Min: "bottleneck c = Min (limits_of c)"
proof -
  have *: "{l \<in> {a, b}. 0 < l} = (if 0 < a then {a} else {}) \<union> (if 0 < b then {b} else {})" for a b :: int by auto
  show ?thesis unfolding limits_of_def * bottleneck_def by (auto simp: Let_def min_def)
qed

lemma bottleneck_bounds:
  assumes "0 < hw_bw c"
  shows "0 < bottleneck c" "bottleneck c \<le> hw_bw c"
  using assms by (simp_all add: bottleneck_def Let_def)

lemma compute_perf_ok:
  assumes "valid_params v n p" "2 \<le> n" "n \<le> 100" "v \<in> {1, 2}"
  obtains c where "compute_perf_for_combo p = Inr c" "params c = p" "2 \<le> sw c" "sw c \<le> 38400" "160 \<le> hw_bw c" "hw c = Min (limits_of c)" "0 < hw c"
    "scale c = f32 (f64 (of_int (hw c) / of_int (sw c)))" "2 < n \<longrightarrow> 0 < hw_rep c"
proof -
  note q = valid_basics [OF assms(1)] and req = sw_bw_req_bounds [OF assms(1-3)]
  have "real_of_int 2 \<le> sw_bandwidth / sw_bw_req p" "sw_bandwidth / sw_bw_req p \<le> of_int 38400"
    using req by (simp_all add: sw_bandwidth_eq field_simps)
  from floor_div_bounds [OF this, of 24] obtain s where s: "floor_div 24 sw_bandwidth (sw_bw_req p) = Inr s" "2 \<le> s" "s \<le> 38400"
    using req by force
  obtain t where t: "get_tofino_bandwidth v = Inr t" "6 \<le> t" "t \<le> 13" using tofino_bandwidth assms(4) by blast
  let ?t = "f64 (t * 10 ^ 6)"
  have "6000000 \<le> ?t" "?t \<le> 13000000"
    using t fl_ge [OF is_fl_int [of 6000000 53], of "t * 10 ^ 6"] fl_le [OF is_fl_int [of 13000000 53], of "t * 10 ^ 6"] by simp_all
  then have "real_of_int 160 \<le> ?t / sw_bw_req p" "?t / sw_bw_req p \<le> of_int 13000000"
    using req by (simp_all add: field_simps)
  from floor_div_bounds [OF this, of 53] obtain b where b: "floor_div 53 ?t (sw_bw_req p) = Inr b" "160 \<le> b" "b \<le> 13000000"
    using req by force
  define c where "c = \<lparr> params = p, sw = - 1, hw_bw = - 1, hw_rep = - 1, hw_nra = - 1, hw_rar = - 1, hw_rasr = - 1, hw_mem = - 1,
      hw_slm = - 1, hw_slr = - 1, hw = - 1, scale = - 1, combo_str = params_str p \<rparr>"
  obtain d where d: "replication p (c\<lparr> sw := s, hw_bw := b \<rparr>) = Inr d" "frame_rep (c\<lparr> sw := s, hw_bw := b \<rparr>) d" "2 < n \<longrightarrow> 0 < hw_rep d"
    using replication_ok [OF assms(1-3), of "c\<lparr> sw := s, hw_bw := b \<rparr>"] by (auto split: if_splits)
  obtain limits e where e: "get_tofino_memory_limit v = Inr limits" "memory limits p d = Inr e" "params e = params d" "sw e = sw d" "hw_bw e = hw_bw d"
      "hw_rep e = hw_rep d" "hw_mem e = - 1 \<or> 0 < hw_mem e"
    using memory_ok [OF assms, of d] d(2) by (auto simp: frame_rep_def c_def)
  let ?e = "e\<lparr> hw := bottleneck e \<rparr>"
  have "compute_perf_for_combo p = Inr (?e\<lparr> scale := f32 (f64 (f64 (of_int (bottleneck e)) / of_int (sw e))) \<rparr>)"
    using t s b d e unfolding compute_perf_for_combo_def Let_def c_def [symmetric] q(9) by (simp add: assertion_def frame_rep_def)
  moreover have "hw_bw e = b" "sw e = s" "params e = p" using d(2) e by (auto simp: frame_rep_def c_def)
  moreover have "f64 (of_int (bottleneck e)) = of_int (bottleneck e)"
    using bottleneck_bounds [of e] b \<open>hw_bw e = b\<close> by (intro fl_exact is_fl_int) auto
  moreover have "bottleneck e = Min (limits_of e)" by (rule bottleneck_Min)
  ultimately show thesis using s(2,3) b(2) d(3) e(6) bottleneck_bounds [of e] that [of "?e\<lparr> scale := f32 (f64 (f64 (of_int (bottleneck e)) / of_int (sw e))) \<rparr>"]
    by (simp add: limits_of_def)
qed

lemma check_params_ok:
  assumes "valid_params v n p" "2 \<le> n" "n \<le> 100"
  shows "check_params (num_senders p * (n - 1)) p = Inr ()"
proof -
  note q = valid_basics [OF assms(1)]
  let ?N = "num_senders p * (n - 1)"
  have N: "1 * 1 \<le> ?N" "?N \<le> 100 * 100" using q(4,5) assms(2,3) by (intro mult_mono; simp)+
  have i: "int32 (num_quality_high p + num_quality_mid p) = Inr (num_quality_high p + num_quality_mid p)" "int32 ?N = Inr ?N"
    using q(1-3,6) N by (auto intro!: int32_ok)
  have l: "0 \<le> loss_rate p" "loss_rate p \<le> 20" "retx_overhead p \<le> loss_rate p" using assms(1) by (auto simp: valid_params_def Let_def)
  have "check_qualities ?N p = Inr ()" using q N i l unfolding check_qualities_def by (simp add: assertion_def)
  moreover have "check_nra ?N p = Inr ()" if "rep_mode p = ''NRA''"
    using assms(1) that N(1) unfolding check_nra_def by (auto simp: assertion_def valid_params_def Let_def rate_mode_def)
  moreover have "check_rar ?N p = Inr ()" if "rep_mode p = ''RA-R''"
  proof -
    have "num_senders p * 1 \<le> ?N" using q(4) assms(2) by (intro mult_left_mono) auto
    then have "int32 (?N - num_senders p) = Inr (?N - num_senders p)" using q(4) N by (intro int32_ok) auto
    then show ?thesis using assms(1) that unfolding check_rar_def by (auto simp: assertion_def valid_params_def Let_def smod_multiple)
  qed
  moreover have "check_rasr p = Inr ()" if "rep_mode p = ''RA-SR''"
    using assms(1) that unfolding check_rasr_def by (auto simp: assertion_def valid_params_def Let_def)
  ultimately show ?thesis by (simp add: check_params_def)
qed

end
