(* ===== verification/Performance_Extremes.thy ===== *)
theory Performance_Extremes
  imports Performance_Results
begin

text \<open>
  The minima and maxima the performance program reports, as a refinement of the least and the greatest
  element of a list, and the correctness of the whole computation.
\<close>

section \<open>Least and greatest of a list of combinations\<close>

definition extremes :: "(PerfCombo \<Rightarrow> bool) \<Rightarrow> (PerfCombo \<Rightarrow> 'v::{linorder, ring_1}) \<Rightarrow> PerfCombo list \<Rightarrow> 'v perf_range" where
  "extremes used v cs =
     (let ds = filter used cs; lo = Min (v ` set ds); up = Max (v ` set ds) in
      if ds = [] then perf_range_default
      else \<lparr> initialized = True, r_min = lo, r_max = up, min_params = params (hd (filter (\<lambda>c. v c = lo) ds)),
             max_params = params (hd (filter (\<lambda>c. v c = up) ds)) \<rparr>)"

definition summary :: "PerfCombo list \<Rightarrow> PerfParticipantCount" where
  "summary cs = \<lparr> software = extremes (\<lambda>_. True) sw cs, hardware_bw = extremes (\<lambda>_. True) hw_bw cs,
     hardware_rep = extremes (\<lambda>c. 0 < hw_rep c) hw_rep cs, hardware_nra = extremes (\<lambda>c. 0 < hw_nra c) hw_nra cs,
     hardware_rar = extremes (\<lambda>c. 0 < hw_rar c) hw_rar cs, hardware_rasr = extremes (\<lambda>c. 0 < hw_rasr c) hw_rasr cs,
     hardware_mem = extremes (\<lambda>c. 0 < hw_mem c) hw_mem cs, hardware_slm = extremes (\<lambda>c. 0 < hw_slm c) hw_slm cs,
     hardware_slr = extremes (\<lambda>c. 0 < hw_slr c) hw_slr cs, hardware = extremes (\<lambda>_. True) hw cs,
     non_rate_adapted = extremes (\<lambda>c. rep_mode (params c) = ''NRA'') scale cs,
     rate_adapted = extremes (\<lambda>c. rate_mode (rep_mode (params c))) scale cs, all_scale = extremes (\<lambda>_. True) scale cs,
     combo_count = of_nat (length cs) \<rparr>"

definition record_combo :: "PerfCombo \<Rightarrow> PerfParticipantCount \<Rightarrow> PerfParticipantCount" where
  "record_combo c r = (let r = check_and_update (check_and_initialize r c) c in r\<lparr> combo_count := combo_count r + 1 \<rparr>)"

abbreviation step_range :: "bool \<Rightarrow> 'v::linorder \<Rightarrow> PerfComboParams \<Rightarrow> 'v perf_range \<Rightarrow> 'v perf_range" where
  "step_range used v p r \<equiv> update_range used v p (init_range used v p r)"

lemma range_unused [simp]: "update_range False v p r = r" "init_range False w q t = t"
  by (simp_all add: update_range_def init_range_def)

lemma hd_filter_append: "(\<exists>x \<in> set xs. P x) \<Longrightarrow> hd (filter P (xs @ ys)) = hd (filter P xs)"
  by (auto simp: hd_append filter_empty_conv)

lemma extremes_snoc:
  assumes "populate_str (params c) = params c"
  shows "extremes used v (cs @ [c]) = step_range (used c) (v c) (params c) (extremes used v cs)"
proof (cases "used c \<and> filter used cs \<noteq> []")
  case True
  define ds where "ds = filter used cs"
  define lo where "lo = Min (v ` set ds)"
  define up where "up = Max (v ` set ds)"
  have fin: "finite (v ` set ds)" "v ` set ds \<noteq> {}" using True by (auto simp: ds_def filter_empty_conv)
  have mem: "\<exists>d \<in> set ds. v d = lo" "\<exists>d \<in> set ds. v d = up" using Min_in [OF fin] Max_in [OF fin] by (auto simp: lo_def up_def)
  have none: "v c < lo \<Longrightarrow> filter (\<lambda>d. v d = v c) ds = []" "up < v c \<Longrightarrow> filter (\<lambda>d. v d = v c) ds = []"
    using fin by (auto simp: filter_empty_conv lo_def up_def)
  have min: "Min (v ` set (ds @ [c])) = (if v c < lo then v c else lo)" and max: "Max (v ` set (ds @ [c])) = (if up < v c then v c else up)"
    using Min_insert [OF fin, of "v c"] Max_insert [OF fin, of "v c"] by (auto simp add: lo_def up_def min_def max_def simp del: Min_insert Max_insert)
  have old: "extremes used v cs = \<lparr> initialized = True, r_min = lo, r_max = up, min_params = params (hd (filter (\<lambda>d. v d = lo) ds)),
      max_params = params (hd (filter (\<lambda>d. v d = up) ds)) \<rparr>"
    using True by (simp add: extremes_def Let_def ds_def lo_def up_def)
  have "filter used (cs @ [c]) = ds @ [c]" using True by (simp add: ds_def)
  then have new: "extremes used v (cs @ [c]) = \<lparr> initialized = True, r_min = if v c < lo then v c else lo, r_max = if up < v c then v c else up,
      min_params = params (hd (filter (\<lambda>d. v d = (if v c < lo then v c else lo)) (ds @ [c]))),
      max_params = params (hd (filter (\<lambda>d. v d = (if up < v c then v c else up)) (ds @ [c]))) \<rparr>"
    unfolding extremes_def Let_def by (simp only: min max) simp
  have m1: "hd (filter (\<lambda>d. v d = (if v c < lo then v c else lo)) (ds @ [c])) = (if v c < lo then c else hd (filter (\<lambda>d. v d = lo) ds))"
    by (cases "v c < lo") (simp_all only: if_True if_False hd_filter_append [OF mem(1)], simp add: none)
  have m2: "hd (filter (\<lambda>d. v d = (if up < v c then v c else up)) (ds @ [c])) = (if up < v c then c else hd (filter (\<lambda>d. v d = up) ds))"
    by (cases "up < v c") (simp_all only: if_True if_False hd_filter_append [OF mem(2)], simp add: none)
  show ?thesis unfolding new old m1 m2 using True assms by (simp add: update_range_def init_range_def)
next
  case False
  show ?thesis
  proof (cases "used c")
    case True
    then have "filter used cs = []" using False by blast
    then show ?thesis using True assms by (simp add: extremes_def Let_def update_range_def init_range_def perf_range_default_def)
  qed (simp add: extremes_def)
qed

lemma record_combo_fields:
  "record_combo c r = r\<lparr> software := step_range True (sw c) (params c) (software r), hardware_bw := step_range True (hw_bw c) (params c) (hardware_bw r),
     hardware_rep := step_range (0 < hw_rep c) (hw_rep c) (params c) (hardware_rep r), hardware_nra := step_range (0 < hw_nra c) (hw_nra c) (params c) (hardware_nra r),
     hardware_rar := step_range (0 < hw_rar c) (hw_rar c) (params c) (hardware_rar r), hardware_rasr := step_range (0 < hw_rasr c) (hw_rasr c) (params c) (hardware_rasr r),
     hardware_mem := step_range (0 < hw_mem c) (hw_mem c) (params c) (hardware_mem r), hardware_slm := step_range (0 < hw_slm c) (hw_slm c) (params c) (hardware_slm r),
     hardware_slr := step_range (0 < hw_slr c) (hw_slr c) (params c) (hardware_slr r), hardware := step_range True (hw c) (params c) (hardware r),
     non_rate_adapted := step_range (rep_mode (params c) = ''NRA'') (scale c) (params c) (non_rate_adapted r),
     rate_adapted := step_range (rate_mode (rep_mode (params c))) (scale c) (params c) (rate_adapted r),
     all_scale := step_range True (scale c) (params c) (all_scale r), combo_count := combo_count r + 1 \<rparr>"
proof -
  consider "rep_mode (params c) = ''NRA''" "\<not> rate_mode (rep_mode (params c))" | "rep_mode (params c) \<noteq> ''NRA''" by (auto simp: rate_mode_def)
  moreover have "initialized (init_range True v p r)" for v :: real and p r by (simp add: init_range_def)
  ultimately show ?thesis by cases (simp_all add: record_combo_def check_and_update_def check_and_initialize_def Let_def; cases r; simp)+
qed

lemma record_combos:
  assumes "\<And>c. c \<in> set cs \<Longrightarrow> populate_str (params c) = params c"
  shows "fold record_combo cs PerfParticipantCount_default = summary cs"
  using assms
proof (induction cs rule: rev_induct)
  case Nil
  then show ?case by (simp add: PerfParticipantCount_default_def summary_def extremes_def)
next
  case (snoc c cs)
  then show ?case by (simp add: record_combo_fields) (simp add: summary_def extremes_snoc)
qed

section \<open>The whole computation\<close>

lemma process_ok:
  assumes "p \<in> set (all_params v n)" "2 \<le> n" "n \<le> 100" "v \<in> {1, 2}"
  obtains c where "compute_perf_for_combo p = Inr c" "params c = p" "populate_str p = p"
    "\<And>s. process_combination p s = Inr (record_combo c (fst s), snd s + 1)"
proof -
  note valid = all_params_valid [OF assms(1,2)]
  note q = valid_basics [OF valid]
  obtain c where c: "compute_perf_for_combo p = Inr c" "params c = p" using compute_perf_ok [OF valid assms(2-4)] by blast
  have "receive_streams (num_senders p) (num_participants p) = Inr (num_senders p * (n - 1))"
    using receive_streams_ok [OF q(4,5) assms(3)] by (simp add: q(10))
  then show thesis using c q(11) check_params_ok [OF valid assms(2,3)]
    by (intro that [of c]) (simp_all add: process_combination_def record_combo_def Let_def)
qed

lemma results_summary:
  assumes "2 \<le> n" "n \<le> 100" "v \<in> {1, 2}"
  obtains cs where "map compute_perf_for_combo (all_params v n) = map Inr cs"
    "compute_perf_results_for_participant_count v n = Some (Inr (summary cs))"
proof -
  let ?Q = "\<lambda>p c. compute_perf_for_combo p = Inr c \<and> params c = p \<and> populate_str p = p \<and>
    (\<forall>s. process_combination p s = Inr (record_combo c (fst s), snd s + 1))"
  have "\<forall>p \<in> set (all_params v n). \<exists>c. ?Q p c" using process_ok [OF _ assms] by metis
  then obtain f where f: "\<forall>p \<in> set (all_params v n). ?Q p (f p)" using bchoice [of "set (all_params v n)" ?Q] by blast
  have fst: "fst (fold (\<lambda>p s. (record_combo (f p) (fst s), snd s + 1)) ps s) = fold record_combo (map f ps) (fst s)" for ps and s :: perf_state
    by (induction ps arbitrary: s) simp_all
  have "each process (all_params v n) s = Some (Inr (fold (\<lambda>p s. (record_combo (f p) (fst s), snd s + 1)) (all_params v n) s))" for s
    by (intro each_ok) (use f in \<open>simp add: split_paired_All [symmetric] del: split_paired_All\<close>)
  then have "compute_perf_results_for_participant_count v n = Some (Inr (fold record_combo (map f (all_params v n)) PerfParticipantCount_default))"
    by (simp add: results_each [OF assms(1,2)] fst)
  also have "fold record_combo (map f (all_params v n)) PerfParticipantCount_default = summary (map f (all_params v n))"
    using f by (intro record_combos) auto
  finally show thesis using f by (intro that [of "map f (all_params v n)"]) simp_all
qed

text \<open>Results are stored under decreasing numbers, so that each goes to the front of the ordered map.\<close>

lemma omap_put_front: "(\<And>k. k \<in> fst ` set m \<Longrightarrow> n < k) \<Longrightarrow> omap_put n r m = (n, r) # m"
  by (cases m) (auto split: if_splits)

lemma foldr_omap_put: "sorted_wrt (<) xs \<Longrightarrow> foldr (\<lambda>n. omap_put n (r n)) xs [] = map (\<lambda>n. (n, r n)) xs"
  by (induction xs) (auto intro!: omap_put_front)

lemma down_upto: "down lo 1 hi = rev [lo..hi]"
proof (induction "nat (hi - lo + 1)" arbitrary: hi rule: less_induct)
  case less
  then show ?case by (cases "lo \<le> hi") (simp_all add: down_rec upto_rec2)
qed

definition store_results :: "int \<Rightarrow> (int \<Rightarrow> PerfParticipantCount) \<Rightarrow> int \<Rightarrow> PerfResults \<times> 64 word \<Rightarrow> PerfResults \<times> 64 word" where
  "store_results v r n s =
     (if v = 1 then (fst s)\<lparr> tofino1 := omap_put n (r n) (tofino1 (fst s)) \<rparr>
      else if v = 2 then (fst s)\<lparr> tofino2 := omap_put n (r n) (tofino2 (fst s)) \<rparr> else fst s, snd s + combo_count (r n))"

lemma store_all:
  "tofino1 (fst (foldr (store_results 1 r) xs s)) = foldr (\<lambda>n. omap_put n (r n)) xs (tofino1 (fst s))"
  "tofino2 (fst (foldr (store_results 1 r) xs s)) = tofino2 (fst s)"
  "tofino2 (fst (foldr (store_results 2 r) xs s)) = foldr (\<lambda>n. omap_put n (r n)) xs (tofino2 (fst s))"
  "tofino1 (fst (foldr (store_results 2 r) xs s)) = tofino1 (fst s)"
  "snd (foldr (store_results v r) xs s) = snd s + (\<Sum>n\<leftarrow>xs. combo_count (r n))"
  by (induction xs) (simp_all add: store_results_def algebra_simps)

text \<open>
  For any range of participant numbers from 2 to at most 100, no assertion fails, no integer overflows and every loop ends.
\<close>

lemma scallop_perf_summary:
  assumes "2 \<le> lo" "hi \<le> 100"
  shows "\<exists>combos res count. compute_scallop_perf lo hi = Some (Inr (res, count)) \<and>
    (\<forall>v n. v \<in> {1, 2} \<longrightarrow> lo \<le> n \<longrightarrow> n \<le> hi \<longrightarrow> map compute_perf_for_combo (all_params v n) = map Inr (combos v n)) \<and>
    tofino1 res = map (\<lambda>n. (n, summary (combos 1 n))) [lo..hi] \<and> tofino2 res = map (\<lambda>n. (n, summary (combos 2 n))) [lo..hi] \<and>
    count = (\<Sum>v\<leftarrow>[2, 1]. \<Sum>n\<leftarrow>[lo..hi]. of_nat (length (all_params v n)))"
proof -
  let ?Q = "\<lambda>v n cs. lo \<le> n \<and> n \<le> hi \<and> v \<in> {1, 2} \<longrightarrow> map compute_perf_for_combo (all_params v n) = map Inr cs \<and>
    compute_perf_results_for_participant_count v n = Some (Inr (summary cs))"
  have "\<forall>v n. \<exists>cs. ?Q v n cs" using results_summary assms by (metis order_trans)
  then obtain cs where cs: "\<And>v n. ?Q v n (cs v n)" by metis
  define r where "r v n = summary (cs v n)" for v n
  have loop: "for_loop (\<lambda>n. lo \<le> n) (\<lambda>n. n - 1) (\<lambda>n (results, count). map_option (map_sum id (\<lambda>r.
          (if v = 1 then results\<lparr> tofino1 := omap_put n r (tofino1 results) \<rparr>
           else if v = 2 then results\<lparr> tofino2 := omap_put n r (tofino2 results) \<rparr> else results, count + combo_count r)))
          (compute_perf_results_for_participant_count v n)) hi s = Some (Inr (foldr (store_results v (r v)) [lo..hi] s))" if "v \<in> {1, 2}" for v s
    unfolding for_loop_each [OF runs_through_down [OF zero_less_one]] foldr_conv_fold down_upto [symmetric]
    by (rule each_ok) (use cs that set_down [OF zero_less_one] in \<open>simp add: store_results_def r_def split_def\<close>)
  have "(1::int) \<in> {1, 2}" "(2::int) \<in> {1, 2}" by simp_all
  note loops = loop [OF this(1)] loop [OF this(2)]
  let ?s = "foldr (store_results 1 (r 1)) [lo..hi] (foldr (store_results 2 (r 2)) [lo..hi] (\<lparr> tofino1 = [], tofino2 = [] \<rparr>, 0))"
  have "compute_scallop_perf lo hi = Some (Inr ?s)"
    by (simp only: compute_scallop_perf_def each.simps loops bind.bind_lunit sum.case)
  then have "compute_scallop_perf lo hi = Some (Inr (fst ?s, snd ?s))" by simp
  moreover have "tofino1 (fst ?s) = map (\<lambda>n. (n, r 1 n)) [lo..hi]" "tofino2 (fst ?s) = map (\<lambda>n. (n, r 2 n)) [lo..hi]"
    by (simp_all add: store_all foldr_omap_put)
  moreover have "combo_count (r v n) = of_nat (length (all_params v n))" if "n \<in> set [lo..hi]" "v \<in> {1, 2}" for v n
    using cs [of n v] that by (metis (no_types, lifting) PerfParticipantCount.select_convs(14) atLeastAtMost_iff length_map r_def set_upto summary_def)
  then have "(\<Sum>n\<leftarrow>[lo..hi]. combo_count (r v n)) = (\<Sum>n\<leftarrow>[lo..hi]. of_nat (length (all_params v n)))" if "v \<in> {1, 2}" for v
    using that by (intro arg_cong [where f = sum_list] map_cong) auto
  then have "snd ?s = (\<Sum>v\<leftarrow>[2, 1]. \<Sum>n\<leftarrow>[lo..hi]. of_nat (length (all_params v n)))"
    by (simp add: store_all)
  ultimately show ?thesis using cs unfolding r_def by blast
qed

text \<open>
  C17: the capacity computed for a combination. For every combination of 2 to 100 participants the numbers are defined, a server carries between 2 and 38400
  meetings, a switch at least one, and the switch's number is the least of the limits by bandwidth, replication trees
  and memory that apply; the improvement is their quotient, rounded to \<open>float\<close>.
\<close>

theorem perf_capacity:
  assumes "v \<in> {1, 2}" "2 \<le> n" "n \<le> 100" "p \<in> set (all_params v n)"
  shows "\<exists>c. compute_perf_for_combo p = Inr c \<and> params c = p \<and> 2 \<le> sw c \<and> sw c \<le> 38400 \<and>
    hw c = Min (insert (hw_bw c) {l \<in> {hw_rep c, hw_mem c}. 0 < l}) \<and> 1 \<le> hw c \<and> (2 < n \<longrightarrow> 0 < hw_rep c) \<and>
    scale c = f32 (f64 (of_int (hw c) / of_int (sw c)))"
  using compute_perf_ok [OF all_params_valid [OF assms(4,2)] assms(2,3,1)] unfolding limits_of_def by fastforce

lemma in_concat_map: "x \<in> set xs \<Longrightarrow> y \<in> set (f x) \<Longrightarrow> y \<in> set (concat (map f xs))"
  by auto

lemma all_paramsI:
  assumes "1 \<le> k" "k \<le> n" "rep \<in> {''NRA'', ''RA-R'', ''RA-SR''}" "sr \<in> {''None'', ''S-LM'', ''S-LR''}" "0 \<le> loss" "loss \<le> 20" "0 \<le> retx"
    "retx \<le> max_overhead sr loss" "(h, m) \<in> set (qualities rep sr k (k * (n - 1)) loss)"
  shows "new_params v n k rep sr h m (k * (n - 1) - h - m) (of_int loss) (of_int retx) \<in> set (all_params v n)"
proof -
  have "new_params v n k rep sr h m (k * (n - 1) - h - m) (of_int loss) (of_int retx) \<in> set (loss_params v n k rep sr loss)"
    using assms(7-9) by (force simp: loss_params_def down_upto)
  moreover have "k \<in> set (down 1 1 n)" "loss \<in> set (down 0 1 20)" "rep \<in> set [''NRA'', ''RA-R'', ''RA-SR'']" "sr \<in> set [''None'', ''S-LM'', ''S-LR'']"
    using assms by (simp_all add: down_upto)
  ultimately show ?thesis unfolding all_params_def by (intro in_concat_map)
qed

theorem perf_capacity_witness:
  "(2::int) \<in> {1, 2} \<and> (2::int) \<le> 3 \<and> (3::int) \<le> 100 \<and> new_params 2 3 3 ''RA-R'' ''S-LR'' 3 3 0 20 10 \<in> set (all_params 2 3) \<and>
   (\<exists>c. compute_perf_for_combo (new_params 2 3 3 ''RA-R'' ''S-LR'' 3 3 0 20 10) = Inr c \<and> 2 \<le> sw c \<and> sw c \<le> 38400 \<and> 0 < hw_rep c \<and>
     hw c = Min (insert (hw_bw c) {l \<in> {hw_rep c, hw_mem c}. 0 < l}))"
proof -
  have "(3, 3) \<in> set (qualities ''RA-R'' ''S-LR'' 3 (3 * (3 - 1)) 20)" by code_simp
  then have p: "new_params 2 3 3 ''RA-R'' ''S-LR'' 3 3 0 20 10 \<in> set (all_params 2 3)"
    using all_paramsI [of 3 3 "''RA-R''" "''S-LR''" 20 10 3 3 2] by (simp add: max_overhead_def)
  show ?thesis using p perf_capacity [OF _ _ _ p] by auto
qed

text \<open>With a single participant there are no streams to receive, and the loop that counts down by their number never ends.\<close>

lemma for_loop_stuck:
  assumes "cond i" "nxt i = i" "body i s = Some (Inr s)"
  shows "for_loop cond nxt body i s = None"
proof (rule ccontr)
  assume "for_loop cond nxt body i s \<noteq> None"
  then obtain y where "for_loop cond nxt body i s = Some y" by blast
  then have "\<not> (cond i \<and> nxt i = i \<and> body i s = Some (Inr s))"
    by (rule for_loop.raw_induct [where P = "\<lambda>cond nxt body i s y. \<not> (cond i \<and> nxt i = i \<and> body i s = Some (Inr s))", rotated]) (auto split: if_splits)
  then show False using assms by blast
qed

text \<open>
  C18: the lower bound of two participants is needed. For a single participant the computation never returns: with no stream to receive, the
  loop over high-quality streams counts down in steps of zero.
\<close>

theorem perf_single_participant_hangs: "compute_perf_results_for_participant_count v 1 = None"
proof -
  have "nra_qualities v 1 1 0 ''None'' 20 20 s = None" for s
    unfolding nra_qualities_def by (subst for_loop.simps) (simp add: for_loop_stuck)
  then have "retx_body v 1 1 0 ''NRA'' ''None'' 20 20 s = None" for s by (simp add: retx_body_def)
  then have "for_loop (\<lambda>retx. 0 \<le> retx) (\<lambda>retx. f32 (retx - 1)) (\<lambda>retx. retx_body v 1 1 0 ''NRA'' ''None'' 20 retx) 20 s = None" for s
    by (subst for_loop.simps) simp
  then have "for_loop (\<lambda>loss. 0 \<le> loss) (\<lambda>loss. f32 (loss - 1)) (\<lambda>loss. for_loop (\<lambda>retx. 0 \<le> retx) (\<lambda>retx. f32 (retx - 1))
      (\<lambda>retx. retx_body v 1 1 0 ''NRA'' ''None'' loss retx) (max_retx ''None'' loss)) 20 s = None" for s
    by (subst for_loop.simps) (simp add: max_retx_def)
  then show ?thesis unfolding compute_perf_results_for_participant_count_def
    by (subst for_loop.simps) (simp add: receive_streams_def int32_def)
qed

end
