(* ===== verification/Performance_Csv.thy ===== *)
theory Performance_Csv
  imports Performance_Extremes
begin

text \<open>
  The files the performance program writes: one line of names, then one line per number of participants, with
  four columns for each resource. An output stream prints a \<open>float\<close> with six significant digits, as \<open>%g\<close> does. Every line
  can be split at its commas into the columns the first line names.
\<close>

section \<open>Printing\<close>

definition dec_expo :: "real \<Rightarrow> int" where
  "dec_expo x = (if 1 \<le> x then int (floorlog 10 (nat \<lfloor>x\<rfloor>)) - 1 else - int (floorlog 10 (nat (\<lceil>1 / x\<rceil> - 1))))"

definition strip_zeros :: "string \<Rightarrow> string" where
  "strip_zeros ds = rev (dropWhile (\<lambda>c. c = CHR ''0'') (rev ds))"

definition with_fraction :: "string \<Rightarrow> string \<Rightarrow> string" where
  "with_fraction ws fs = (if fs = [] then ws else ws @ ''.'' @ fs)"

text \<open>Six digits \<open>ds\<close> of a number with decimal exponent \<open>e\<close>, in the shorter of the two notations and without final zeros.\<close>

definition g_notation :: "string \<Rightarrow> int \<Rightarrow> string" where
  "g_notation ds e =
     (if - 4 \<le> e \<and> e < 6 then
        (if 0 \<le> e then with_fraction (take (nat e + 1) ds) (strip_zeros (drop (nat e + 1) ds))
         else with_fraction ''0'' (replicate (nat (- e) - 1) (CHR ''0'') @ strip_zeros ds))
      else with_fraction (take 1 ds) (strip_zeros (drop 1 ds)) @ ''e'' @ (if e < 0 then ''-'' else ''+'') @
        (if \<bar>e\<bar> < 10 then ''0'' else []) @ dec (nat \<bar>e\<bar>))"

definition float_string :: "real \<Rightarrow> string" where
  "float_string x =
     (if x = 0 then ''0''
      else let e = dec_expo \<bar>x\<bar>; d = rne (\<bar>x\<bar> * 10 powi (5 - e));
               (d, e) = (if d = 10 ^ 6 then (10 ^ 5, e + 1) else (d, e))
           in (if x < 0 then ''-'' else []) @ g_notation (dec (nat d)) e)"

definition csv_header :: string where
  "csv_header =
     ''num_participants,count_sw_min,count_sw_max,count_sw_min_params,count_sw_max_params,'' @
     ''count_hw_bw_min,count_hw_bw_max,count_hw_bw_min_params,count_hw_bw_max_params,'' @
     ''count_hw_rep_min,count_hw_rep_max,count_hw_rep_min_params,count_hw_rep_max_params,'' @
     ''count_hw_nra_min,count_hw_nra_max,count_hw_nra_min_params,count_hw_nra_max_params,'' @
     ''count_hw_rar_min,count_hw_rar_max,count_hw_rar_min_params,count_hw_rar_max_params,'' @
     ''count_hw_rasr_min,count_hw_rasr_max,count_hw_rasr_min_params,count_hw_rasr_max_params,'' @
     ''count_hw_mem_min,count_hw_mem_max,count_hw_mem_min_params,count_hw_mem_max_params,'' @
     ''count_hw_slm_min,count_hw_slm_max,count_hw_slm_min_params,count_hw_slm_max_params,'' @
     ''count_hw_slr_min,count_hw_slr_max,count_hw_slr_min_params,count_hw_slr_max_params,'' @
     ''count_hw_min,count_hw_max,count_hw_min_params,count_hw_max_params,'' @
     ''scale_nra_min,scale_nra_max,scale_nra_min_params,scale_nra_max_params,'' @
     ''scale_ra_min,scale_ra_max,scale_ra_min_params,scale_ra_max_params,'' @
     ''scale_all_min,scale_all_max,scale_all_min_params,scale_all_max_params''"

definition range_columns :: "('v \<Rightarrow> string) \<Rightarrow> 'v perf_range \<Rightarrow> string list" where
  "range_columns pr r = [pr (r_min r), pr (r_max r), params_str (min_params r), params_str (max_params r)]"

definition csv_columns :: "int \<times> PerfParticipantCount \<Rightarrow> string list" where
  "csv_columns e =
     (case e of (n, r) \<Rightarrow>
        int_string n # concat (map (range_columns int_string) [software r, hardware_bw r, hardware_rep r, hardware_nra r, hardware_rar r, hardware_rasr r,
          hardware_mem r, hardware_slm r, hardware_slr r, hardware r]) @
        concat (map (range_columns float_string) [non_rate_adapted r, rate_adapted r, all_scale r]))"

definition csv_row :: "int \<times> PerfParticipantCount \<Rightarrow> string" where
  "csv_row e = joinStrings (csv_columns e) '',''"

text \<open>A file is its name with the lines written to it; whether it can be opened is up to the operating system.\<close>

type_synonym files = "(string \<times> string list) list"

definition write_results_to_file_for_tofino_version ::
  "(string \<Rightarrow> bool) \<Rightarrow> (int \<times> PerfParticipantCount) list \<Rightarrow> int \<Rightarrow> files \<Rightarrow> files outcome" where
  "write_results_to_file_for_tofino_version can_open results v fs =
     (let name = ''data/tofino'' @ int_string v @ ''.csv'' in
      if \<not> can_open name then Inl (Exit ''Error opening file'')
      else Inr (fs @ [(name, csv_header # map csv_row results)]))"

definition write_results_to_files :: "(string \<Rightarrow> bool) \<Rightarrow> PerfResults \<Rightarrow> files outcome" where
  "write_results_to_files can_open results =
     ebind (write_results_to_file_for_tofino_version can_open (tofino1 results) 1 [])
       (write_results_to_file_for_tofino_version can_open (tofino2 results) 2)"

definition scallop_perf_files :: "(string \<Rightarrow> bool) \<Rightarrow> int \<Rightarrow> int \<Rightarrow> files outcome option" where
  "scallop_perf_files can_open lo hi = map_option (\<lambda>r. ebind r (\<lambda>(results, _). write_results_to_files can_open results)) (compute_scallop_perf lo hi)"

section \<open>Lines can be split into their columns\<close>

abbreviation comma_free :: "string \<Rightarrow> bool" where
  "comma_free s \<equiv> CHR '','' \<notin> set s"

lemma comma_free_dec [simp]: "comma_free (dec n)"
  using dec_digits [of "CHR '',''" n] by (auto simp: is_digit_def code_def)

lemma comma_free_int [simp]: "comma_free (int_string k)"
  by (simp add: int_string_def)

lemma comma_free_strip: "comma_free s \<Longrightarrow> comma_free (strip_zeros s)"
  unfolding strip_zeros_def set_rev by (metis set_dropWhileD set_rev)

lemma comma_free_float [simp]: "comma_free (float_string x)"
proof -
  have "comma_free (g_notation ds e)" if "comma_free ds" for ds e
    using that comma_free_strip [of ds] comma_free_strip [of "drop n ds" for n] unfolding g_notation_def with_fraction_def
    by (auto dest!: in_set_takeD in_set_dropD)
  then show ?thesis by (simp add: float_string_def Let_def)
qed

text \<open>The parameters in a result are those of a combination, or the default ones.\<close>

lemma extremes_params:
  "min_params (extremes used v cs) \<in> insert PerfComboParams_default (params ` set cs)"
  "max_params (extremes used v cs) \<in> insert PerfComboParams_default (params ` set cs)"
proof -
  have "hd (filter (\<lambda>c. v c = x) (filter used cs)) \<in> set cs" if "x \<in> v ` set (filter used cs)" for x
    using that hd_in_set [of "filter (\<lambda>c. v c = x) (filter used cs)"] by (auto simp: filter_empty_conv)
  moreover have "Min (v ` set (filter used cs)) \<in> v ` set (filter used cs)" "Max (v ` set (filter used cs)) \<in> v ` set (filter used cs)" if "filter used cs \<noteq> []"
    using that by (auto intro!: Min_in Max_in simp del: set_filter)
  ultimately show "min_params (extremes used v cs) \<in> insert PerfComboParams_default (params ` set cs)"
    "max_params (extremes used v cs) \<in> insert PerfComboParams_default (params ` set cs)"
    by (auto simp: extremes_def Let_def perf_range_default_def)
qed

lemma range_columns_comma_free:
  assumes "\<And>c. c \<in> set cs \<Longrightarrow> comma_free (params_str (params c))" "\<And>x. comma_free (pr x)"
  shows "list_all comma_free (range_columns pr (extremes used v cs))"
  using assms extremes_params [of used v cs] by (auto simp: range_columns_def PerfComboParams_default_def)

lemma summary_row:
  assumes "\<And>c. c \<in> set cs \<Longrightarrow> comma_free (params_str (params c))"
  shows "splitString (csv_row (n, summary cs)) '','' = Some (csv_columns (n, summary cs))" "length (csv_columns (n, summary cs)) = 53"
proof -
  have "list_all comma_free (csv_columns (n, summary cs))"
    by (simp add: csv_columns_def summary_def range_columns_comma_free [OF assms])
  then have "\<forall>s \<in> set (csv_columns (n, summary cs)). comma_free s" by (simp only: list_all_iff)
  moreover have "csv_columns (n, summary cs) \<noteq> []" by (simp add: csv_columns_def)
  ultimately show "splitString (csv_row (n, summary cs)) '','' = Some (csv_columns (n, summary cs))"
    by (simp add: csv_row_def splitString_pieces pieces_join)
  show "length (csv_columns (n, summary cs)) = 53" by (simp add: csv_columns_def range_columns_def)
qed

definition csv_names :: "string list" where
  "csv_names = ''num_participants'' # [pre @ post. pre \<leftarrow> [''count_sw'', ''count_hw_bw'', ''count_hw_rep'', ''count_hw_nra'', ''count_hw_rar'', ''count_hw_rasr'',
     ''count_hw_mem'', ''count_hw_slm'', ''count_hw_slr'', ''count_hw'', ''scale_nra'', ''scale_ra'', ''scale_all''], post \<leftarrow> [''_min'', ''_max'', ''_min_params'', ''_max_params'']]"

lemma header_names: "splitString csv_header '','' = Some csv_names" "length csv_names = 53"
proof -
  have "csv_header = joinStrings csv_names '',''" by (simp add: csv_header_def csv_names_def)
  moreover have "pieces '','' (joinStrings csv_names '','') = csv_names" by (rule pieces_join) (simp_all add: csv_names_def)
  ultimately show "splitString csv_header '','' = Some csv_names" by (simp add: splitString_pieces)
  show "length csv_names = 53" by (simp add: csv_names_def)
qed

lemma file_numbers: "int_string 1 = ''1''" "int_string 2 = ''2''"
  by code_simp+

lemma valid_modes:
  assumes "valid_params v n p"
  shows "rep_mode p \<in> {''NRA'', ''RA-R'', ''RA-SR''}" "sr_mode p \<in> {''None'', ''S-LM'', ''S-LR''}"
  using assms unfolding valid_params_def Let_def rate_mode_def by blast+

lemma combos_comma_free:
  assumes "map compute_perf_for_combo (all_params v n) = map Inr cs" "c \<in> set cs" "2 \<le> n" "n \<le> 100" "v \<in> {1, 2}"
  shows "comma_free (params_str (params c))"
proof -
  have "Inr c \<in> set (map compute_perf_for_combo (all_params v n))" using assms(1,2) by auto
  then obtain p where p: "p \<in> set (all_params v n)" "compute_perf_for_combo p = Inr c" by auto
  note valid = all_params_valid [OF p(1) assms(3)]
  have "params c = p" using compute_perf_ok [OF valid assms(3-5)] p(2) by force
  moreover have "comma_free (params_str (populate_str p))"
    using valid_modes [OF valid] by (auto simp: populate_str_def)
  ultimately show ?thesis using valid_basics(11) [OF valid] by simp
qed

text \<open>
  C16: the performance program writes what it is meant to compute. For any range of participant numbers from 2 to at most 100, if both files can be opened,
  every assertion holds, no integer overflows, every loop ends, and one file per Tofino version is written. Its first line splits at commas into 53 column names, and each of the
  following lines, one per number of participants, into 53 columns: the least and greatest value of every resource over all combinations
  of that size, the first parameters that reach them, or -1 where no combination uses the resource.
\<close>

theorem perf_results_correct:
  assumes "2 \<le> lo" "hi \<le> 100" "can_open ''data/tofino1.csv''" "can_open ''data/tofino2.csv''"
  shows "\<exists>combos. (\<forall>v n. v \<in> {1, 2} \<longrightarrow> n \<in> set [lo..hi] \<longrightarrow> map compute_perf_for_combo (all_params v n) = map Inr (combos v n)) \<and>
    scallop_perf_files can_open lo hi = Some (Inr (map (\<lambda>v. (''data/tofino'' @ int_string v @ ''.csv'', csv_header # map (\<lambda>n. csv_row (n, summary (combos v n))) [lo..hi])) [1, 2])) \<and>
    splitString csv_header '','' = Some csv_names \<and> length csv_names = 53 \<and>
    (\<forall>v n. v \<in> {1, 2} \<longrightarrow> n \<in> set [lo..hi] \<longrightarrow>
       splitString (csv_row (n, summary (combos v n))) '','' = Some (csv_columns (n, summary (combos v n))) \<and> length (csv_columns (n, summary (combos v n))) = 53)"
proof -
  obtain combos res count where run: "compute_scallop_perf lo hi = Some (Inr (res, count))"
    and cs: "\<And>v n. v \<in> {1, 2} \<Longrightarrow> n \<in> set [lo..hi] \<Longrightarrow> map compute_perf_for_combo (all_params v n) = map Inr (combos v n)"
    and res: "tofino1 res = map (\<lambda>n. (n, summary (combos 1 n))) [lo..hi]" "tofino2 res = map (\<lambda>n. (n, summary (combos 2 n))) [lo..hi]"
    using scallop_perf_summary [OF assms(1,2)] unfolding set_upto atLeastAtMost_iff by blast
  have "scallop_perf_files can_open lo hi = Some (Inr (map (\<lambda>v. (''data/tofino'' @ int_string v @ ''.csv'', csv_header # map (\<lambda>n. csv_row (n, summary (combos v n))) [lo..hi])) [1, 2]))"
    using assms(3,4) by (simp add: scallop_perf_files_def run write_results_to_files_def write_results_to_file_for_tofino_version_def res file_numbers Let_def comp_def)
  moreover have "splitString (csv_row (n, summary (combos v n))) '','' = Some (csv_columns (n, summary (combos v n)))" "length (csv_columns (n, summary (combos v n))) = 53"
    if "v \<in> {1, 2}" "n \<in> set [lo..hi]" for v n
  proof -
    have "comma_free (params_str (params c))" if "c \<in> set (combos v n)" for c
      using combos_comma_free [OF cs [OF \<open>v \<in> {1, 2}\<close> \<open>n \<in> set [lo..hi]\<close>] that _ _ \<open>v \<in> {1, 2}\<close>] \<open>n \<in> set [lo..hi]\<close> assms(1,2) by simp
    from summary_row [OF this] show "splitString (csv_row (n, summary (combos v n))) '','' = Some (csv_columns (n, summary (combos v n)))"
      "length (csv_columns (n, summary (combos v n))) = 53" by auto
  qed
  ultimately show ?thesis using cs header_names by blast
qed

theorem perf_results_correct_witness:
  "(2::int) \<le> 2 \<and> (4::int) \<le> 100 \<and> (\<exists>combos :: int \<Rightarrow> int \<Rightarrow> PerfCombo list. map compute_perf_for_combo (all_params 2 3) = map Inr (combos 2 3) \<and>
     (\<exists>l1 l2. scallop_perf_files (\<lambda>_. True) 2 4 = Some (Inr [(''data/tofino1.csv'', l1), (''data/tofino2.csv'', l2)]) \<and>
        l2 = [csv_header, csv_row (2, summary (combos 2 2)), csv_row (3, summary (combos 2 3)), csv_row (4, summary (combos 2 4))] \<and>
        splitString (l2 ! 2) '','' = Some (csv_columns (3, summary (combos 2 3)))))"
proof -
  have up: "[2..4::int] = [2, 3, 4]" by (simp add: upto.simps)
  obtain combos where "\<forall>v n. v \<in> {1, 2} \<longrightarrow> n \<in> set [2..4] \<longrightarrow> map compute_perf_for_combo (all_params v n) = map Inr (combos v n)"
      "scallop_perf_files (\<lambda>_. True) 2 4 = Some (Inr (map (\<lambda>v. (''data/tofino'' @ int_string v @ ''.csv'', csv_header # map (\<lambda>n. csv_row (n, summary (combos v n))) [2..4])) [1, 2]))"
      "\<forall>v n. v \<in> {1, 2} \<longrightarrow> n \<in> set [2..4] \<longrightarrow> splitString (csv_row (n, summary (combos v n))) '','' = Some (csv_columns (n, summary (combos v n)))"
    using perf_results_correct [of 2 4 "\<lambda>_. True", OF order_refl _ TrueI TrueI] by (metis (no_types, lifting) numeral_le_iff semiring_norm(71) semiring_norm(68))
  then show ?thesis by (intro conjI exI [of _ combos]) (simp_all add: up file_numbers)
qed

end
