(* ===== verification/Spec2Isabelle.thy ===== *)
theory Spec2Isabelle
  imports Media_Path Main_Programs Performance_Csv
begin

text \<open>
  Scallop, a selective forwarding unit (SFU) for video conferencing.

  \<^bold>\<open>The program.\<close> Clients (browsers) exchange session descriptions with a controller over
  WebSockets; the controller keeps the sessions, rewrites every description so that clients only see the
  address of the SFU, and tells the switch, over another WebSocket, which media streams are sent and
  received. On the switch an agent turns these messages into rules of a data plane, which is either a
  software model that works on UDP datagrams or a Tofino switch. The data plane forwards each media packet
  to the receivers of its rule, drops the AV1 layers above the decode target of the receiver, and renumbers
  what is left; STUN and RTCP packets go to the agent, which answers the former and chooses decode targets
  from the bandwidth estimates in the latter.

  \<^bold>\<open>Conventions.\<close> A class is a \<open>record\<close>, an enum or variant a \<open>datatype\<close>, a \<open>w\<close>-bit integer a \<open>w word\<close>;
  \<open>std::map\<close> and \<open>std::unordered_map\<close> are association lists with the laws of the locale \<open>assoc_store\<close>. A
  member function that may throw returns \<open>'a result\<close>, where \<open>Inl\<close> carries the exception with its text; one that also
  changes its object returns the result beside the new state, so that what was changed before the exception is
  visible. Reads outside a buffer, empty optionals and dangling iterators are the error
  \<open>Undefined_behaviour\<close>. What is written to a socket, a WebSocket or the switch connection is appended to a list in
  the state. Libraries that are not part of the repository are arguments: \<open>json_api\<close> (nlohmann::json, laws
  \<open>json_laws\<close>), \<open>nice_api\<close> (libnice), \<open>inja\<close> (the template engine), \<open>fs_api\<close> (the file system) and the parsed options of the
  programs, as is the random draw of the loss simulation.

  \<^bold>\<open>Theories and sources\<close> (below \<open>src/\<close>), in the order in which they build on each other.
  \<^item> \<open>Prelude\<close>: integers, exceptions, byte access, containers. \<open>Cpp_Strings\<close>: \<open>std::string\<close> and the text helpers of
    \<open>lib/util.h\<close>. \<open>Bit_Extraction\<close>: \<open>lib/bitstream\<close>, the bit readers and the CRC of \<open>lib/util.h\<close>.
  \<^item> \<open>Net\<close>: \<open>lib/net/net.h\<close>. \<open>RTP\<close>, \<open>RTCP\<close>: \<open>lib/proto/rtp.h\<close>, \<open>rtcp.h\<close>. \<open>STUN\<close>: \<open>lib/proto/stun\<close>. \<open>AV1\<close>: \<open>lib/av1\<close>.
  \<^item> \<open>Sequence_Rewriter\<close>, \<open>SFU_Table\<close>, \<open>Data_Plane\<close>: \<open>lib/sequence_rewriter\<close>, \<open>lib/sfu_table\<close> and
    \<open>lib/drop_layer_set.h\<close>, \<open>lib/data_plane_model\<close>.
  \<^item> \<open>Agent_State\<close>, \<open>Rpc\<close>, \<open>Switch_Agent\<close>: \<open>lib/switch_agent_state.h\<close> with \<open>lib/p4sfu.h\<close>, \<open>lib/rpc\<close>,
    \<open>lib/switch_agent.h\<close> with the message dispatch of \<open>lib/switch_api\<close> and \<open>lib/switch_controller_client\<close>.
    \<open>Tofino\<close>: \<open>lib/tofino_data_plane\<close>.
  \<^item> \<open>Regex\<close>, \<open>SDP\<close>: \<open>std::regex_match\<close> for the patterns of \<open>lib/proto/sdp.h\<close>, and \<open>lib/proto/sdp\<close>.
  \<^item> \<open>Media_Stream\<close>, \<open>Session\<close>: \<open>lib/sfu_config.h\<close> and \<open>lib/stream\<close>; \<open>lib/participant\<close>, \<open>lib/session\<close> and
    \<open>lib/session_manager\<close>.
  \<^item> \<open>Controller\<close>, \<open>Controller_Interface\<close>: \<open>controller/controller\<close>, \<open>lib/controller_client_interface\<close>,
    \<open>lib/controller_switch_interface\<close>, their connections, and \<open>lib/controller_api\<close>. \<open>Web_Server\<close>: \<open>lib/net/http_server.h\<close> and
    \<open>lib/controller_web_server\<close>.
  \<^item> \<open>Api_Client\<close>: \<open>lib/api_client\<close>, \<open>lib/switch_api_client\<close>, \<open>lib/controller_api_client\<close> and the command line programs of \<open>util/\<close>.
    \<open>Main_Programs\<close>: \<open>model/model_main.cc\<close>, \<open>tofino_agent/tofino_agent_main.cc\<close>, \<open>controller/controller_main.cc\<close>.
  \<^item> \<open>Float_Arith\<close>, \<open>Performance\<close>: \<open>float\<close> and \<open>double\<close> as rounded reals, and \<open>hardware/performance/data_plane_performance.cpp\<close>, which
    computes how many meetings a server and a switch carry; \<open>Performance_Results\<close>, \<open>Performance_Extremes\<close> and
    \<open>Performance_Csv\<close> hold its loops, its extremes and its files.

  \<^bold>\<open>What is shown.\<close>
  \<^item> Media: \<open>Sequence_Rewriter\<close> characterises the numbers the rewriter hands out, \<open>Data_Plane\<close> the fan-out of one packet
    and the operations on the rules (as a refinement of a forwarding relation), and \<open>Media_Path\<close> composes
    both with the parsers of \<open>RTP\<close> and \<open>AV1\<close>: of a stream of
    datagrams without loss, those that the receiver's decode target keeps leave the data plane in order, unchanged but for their
    sequence numbers, which have no gaps.
  \<^item> Parsers and printers: each has its inverse (\<open>Bit_Extraction\<close>, \<open>AV1\<close>, \<open>RTP\<close>, \<open>Net\<close>, \<open>Rpc\<close>,
    \<open>SDP_Roundtrip\<close>, \<open>SDP_Session\<close>), with the values that do not survive the round trip as conditions.
  \<^item> The switch: \<open>Agent_State\<close> has the invariant of the agent's tables; \<open>Agent_Contract\<close> states what the agent
    needs of a data plane as the locale \<open>data_plane_contract\<close>, proves inside it that every handler keeps the
    decode targets of agent and data plane equal, and \<open>Switch_System\<close> interprets it on the software data
    plane (\<open>mdl\<close>) and proves the invariant for every reachable state of the two together. Reachable are the states after
    controller messages that satisfy \<open>wf_AddStream\<close>, which the agent does not check itself.
  \<^item> The controller: \<open>Session_Spec\<close> states the interface to the owner of a session, the callback that
    announces new streams, as the locale \<open>stream_sink\<close> and specifies every operation on a session in it;
    \<open>Session_Inv\<close> has the invariant \<open>session_ok\<close>; \<open>Controller_Inv\<close> interprets the locale on the controller
    (\<open>ctl\<close>) and lifts the invariant to all states the controller can reach; \<open>Signaling\<close> and
    \<open>Controller_Events\<close> give the effect of a whole message, from its bytes to what is written; \<open>Negotiation\<close> has the
    properties, \<open>Sample_Call\<close> the call they are applied to.
  \<^item> Both together: \<open>Call_Path\<close> shows that what the controller writes for a negotiation makes the data plane
    forward the media of the sender to the receiver. \<open>Main_Programs\<close> shows that the programs start in states from which the
    invariants hold and that the hello of the switch registers it; \<open>Api_Client\<close> follows a command to the agent or the controller and the reply
    from its pieces to the output; \<open>Web_Server\<close> has the parsing of targets, the answers and the parameters of the page.
  \<^item> Capacity: for 2 to 100 participants the capacity program fails no assertion, ends and writes the extremes of what it computes
    (\<open>Performance_Csv\<close>), within bounds (\<open>Performance_Extremes\<close>); for one participant it does not end.

  \<^bold>\<open>Loops.\<close> Loops over data are structural recursion. The searches of \<open>util::splitString\<close> and
  \<open>util::replaceAll\<close>, which never end for an empty delimiter, are partial functions; the repetition of a pattern and the walk over
  RTP extensions are bounded by the length of what is left, which every round
  makes shorter; the loop over a compound RTCP packet has a termination proof.

  The \<open>for\<close> loops of the capacity program are a partial function as well, whose value is \<open>None\<close> where a step of zero keeps the loop
  from ending; the runs that end are shown to end.

  \<^bold>\<open>Not modelled.\<close> The wrappers around Boost.Asio, Boost.Beast and libpcap in \<open>lib/net\<close> (sockets, WebSocket framing, TLS, accepting and
  reading), timers, log output, signal handlers and the library that parses options are input and output; the switch
  programs of \<open>hardware/\<close> are written in P4 and Python and run on the Tofino and the Bluefield; summaries that are only printed or logged (\<open>formattedSummary\<close>,
  \<open>debugSummary\<close>) and \<open>lib/signaling_message.h\<close>, which is not used, are left out; of \<open>util::formatString\<close>, a call of \<open>snprintf\<close>, the model
  has what its conversions print (\<open>dec\<close>, \<open>c_str\<close>). The
  programs are single-threaded event loops that run one handler after the other, so that an interleaving of
  events is a sequence of handler calls, as in \<open>switch_step\<close> and \<open>running\<close>.
\<close>

end
